(* ===== verification/Prelude.thy ===== *)
theory Prelude
  imports Main
begin

text \<open>
  The shared layer of the development.

  \<^item> Python exceptions as values: \<open>py_error\<close>, the type \<open>'a exn\<close> of a computation that may raise,
    sequencing \<open>bindE\<close>, comprehension \<open>mapE\<close>, and the floor division that raises on zero.
  \<^item> The \<open>Ok\<close>/\<open>Err\<close> outcomes of \<open>src/dataset_rt/records.py\<close>, which are ordinary values and are
    kept apart from raised exceptions.
  \<^item> Generic facts on integer ranges, prefix sums and list indices that the components share,
    collected in \<open>exn_simps\<close> and \<open>range_simps\<close>.
\<close>

named_theorems exn_simps \<open>normal forms of computations that may raise\<close>
named_theorems range_simps \<open>ranges, prefix sums and contiguous spans of integers\<close>

section \<open>Exceptions as values\<close>

text \<open>The exception classes the modelled code raises or catches; the string is the message.\<close>

datatype py_error =
    ValueError string
  | TypeError string
  | RuntimeError string
  | IndexError string
  | KeyError string
  | FileExistsError string
  | FileNotFoundError string
  | OSError string
  | ImportError string
  | OverflowError string
  | ZeroDivisionError
  | UnicodeEncodeError
  | StopIteration
  | AssertionError string
  | StatisticsError
  | KeyboardInterrupt string
  | SystemExit "int + string"

type_synonym 'a exn = "py_error + 'a"

abbreviation Raise :: "py_error \<Rightarrow> 'a exn" where
  "Raise e \<equiv> Inl e"

abbreviation Return :: "'a \<Rightarrow> 'a exn" where
  "Return x \<equiv> Inr x"

definition bindE :: "'a exn \<Rightarrow> ('a \<Rightarrow> 'b exn) \<Rightarrow> 'b exn" where
  "bindE m f = (case m of Inl e \<Rightarrow> Inl e | Inr x \<Rightarrow> f x)"

lemma bindE_Raise [simp, exn_simps]: "bindE (Raise e) f = Raise e"
  by (simp add: bindE_def)

lemma bindE_Return [simp, exn_simps]: "bindE (Return x) f = f x"
  by (simp add: bindE_def)

lemma bindE_assoc: "bindE (bindE m f) g = bindE m (\<lambda>x. bindE (f x) g)"
  by (cases m) simp_all

lemma bindE_eq_Return [exn_simps]:
  "bindE m f = Return y \<longleftrightarrow> (\<exists>x. m = Return x \<and> f x = Return y)"
  by (cases m) simp_all

lemma bindE_eq_Raise:
  "bindE m f = Raise e \<longleftrightarrow> m = Raise e \<or> (\<exists>x. m = Return x \<and> f x = Raise e)"
  by (cases m) simp_all

text \<open>A list comprehension whose body may raise: left to right, stopping at the first exception.\<close>

fun mapE :: "('a \<Rightarrow> 'b exn) \<Rightarrow> 'a list \<Rightarrow> 'b list exn" where
  "mapE f [] = Return []"
| "mapE f (x # xs) = bindE (f x) (\<lambda>y. bindE (mapE f xs) (\<lambda>ys. Return (y # ys)))"

lemma mapE_Return: "(\<And>x. x \<in> set xs \<Longrightarrow> f x = Return (g x)) \<Longrightarrow> mapE f xs = Return (map g xs)"
  by (induction xs) simp_all

lemma mapE_length: "mapE f xs = Return ys \<Longrightarrow> length ys = length xs"
  by (induction xs arbitrary: ys) (auto simp: exn_simps)

lemma mapE_nth: "mapE f xs = Return ys \<Longrightarrow> i < length xs \<Longrightarrow> f (xs ! i) = Return (ys ! i)"
  by (induction xs arbitrary: ys i) (auto simp: exn_simps nth_Cons split: nat.splits)

text \<open>Python's \<open>//\<close> and \<open>divmod\<close>: floor division, raising on a zero divisor.\<close>

definition py_div :: "int \<Rightarrow> int \<Rightarrow> int exn" where
  "py_div a b = (if b = 0 then Raise ZeroDivisionError else Return (a div b))"

definition py_mod :: "int \<Rightarrow> int \<Rightarrow> int exn" where
  "py_mod a b = (if b = 0 then Raise ZeroDivisionError else Return (a mod b))"

definition py_divmod :: "int \<Rightarrow> int \<Rightarrow> (int \<times> int) exn" where
  "py_divmod a b = (if b = 0 then Raise ZeroDivisionError else Return (a div b, a mod b))"

lemma py_div_pos [simp, exn_simps]: "b \<noteq> 0 \<Longrightarrow> py_div a b = Return (a div b)"
  by (simp add: py_div_def)

lemma py_mod_pos [simp, exn_simps]: "b \<noteq> 0 \<Longrightarrow> py_mod a b = Return (a mod b)"
  by (simp add: py_mod_def)

lemma py_divmod_pos [simp, exn_simps]: "b \<noteq> 0 \<Longrightarrow> py_divmod a b = Return (a div b, a mod b)"
  by (simp add: py_divmod_def)

section \<open>Expected outcomes: Ok and Err\<close>

datatype ('t, 'e) Result = Ok 't | Err 'e

section \<open>Integer ranges\<close>

text \<open>Python's \<open>range(n)\<close>, empty for a negative bound.\<close>

definition range_list :: "int \<Rightarrow> int list" where
  "range_list n = map int [0..<nat n]"

lemma length_range_list [simp, range_simps]: "length (range_list n) = nat n"
  by (simp add: range_list_def)

lemma nth_range_list [simp, range_simps]: "i < nat n \<Longrightarrow> range_list n ! i = int i"
  by (simp add: range_list_def)

lemma set_range_list [simp, range_simps]: "set (range_list n) = {0..<n}"
proof -
  have "x \<in> int ` {0..<nat n}" if "0 \<le> x" "x < n" for x
    using that by (intro image_eqI [where x = "nat x"]) auto
  then show ?thesis by (auto simp: range_list_def)
qed

lemma range_list_empty [simp, range_simps]: "n \<le> 0 \<Longrightarrow> range_list n = []"
  by (simp add: range_list_def)

lemma range_list_Suc [range_simps]: "0 \<le> n \<Longrightarrow> range_list (n + 1) = range_list n @ [n]"
  by (simp add: range_list_def nat_add_distrib)

lemma range_list_int: "range_list (int n) = map int [0..<n]"
  by (simp add: range_list_def)

lemma sum_list_range_list:
  "sum_list (map f (range_list (int n))) = (\<Sum>i<n. f (int i))"
  by (simp add: range_list_int o_def interv_sum_list_conv_sum_set_nat lessThan_atLeast0)

lemma upt_join: "i \<le> j \<Longrightarrow> j \<le> k \<Longrightarrow> [i..<j] @ [j..<k] = [i..<k]"
  using upt_add_eq_append [of i j "k - j"] by simp

text \<open>The half-open interval a contiguous span of rows covers.\<close>

lemma nat_less_int_bound: "i < nat n \<Longrightarrow> int i < n"
  by simp

lemma ex_next_bound:
  fixes bound :: "nat \<Rightarrow> int"
  assumes "bound 0 \<le> x" and "x < bound n"
  shows "\<exists>i<n. bound i \<le> x \<and> x < bound (Suc i)"
  using assms
proof (induction n)
  case 0
  then show ?case by simp
next
  case (Suc n)
  show ?case
  proof (cases "x < bound n")
    case True
    with Suc obtain i where "i < n" "bound i \<le> x" "x < bound (Suc i)" by blast
    then show ?thesis by (intro exI [where x = i]) simp
  next
    case False
    with Suc.prems show ?thesis by (intro exI [where x = n]) simp
  qed
qed

lemma mono_bound:
  fixes bound :: "nat \<Rightarrow> int"
  assumes "\<And>i. bound i \<le> bound (Suc i)" and "i \<le> j"
  shows "bound i \<le> bound j"
  using assms(1) assms(2) by (rule lift_Suc_mono_le)

end
