(* ===== verification/Posix_Path.thy ===== *)
theory Posix_Path
  imports Py_Text
begin

text \<open>
  The lexical part of Python's \<open>pathlib\<close> (\<open>PurePosixPath\<close>, and \<open>Path\<close> where no file system is
  consulted): a root and the remaining components, with the operations the sources use. Parsing drops
  empty and \<open>.\<close> components but keeps \<open>..\<close>, as \<open>pathlib\<close> does; joining an absolute path replaces the
  left operand.
\<close>

datatype path = Path (path_root: string) (path_segs: "string list")

definition path_of :: "string \<Rightarrow> path" where
  "path_of s =
     Path (if take 2 s = ''//'' \<and> take 3 s \<noteq> ''///'' then ''//''
           else if take 1 s = ''/'' then ''/'' else [])
          (filter (\<lambda>p. p \<noteq> [] \<and> p \<noteq> ''.'') (split_char CHR ''/'' s))"

definition path_str :: "path \<Rightarrow> string" where
  "path_str p = (if path_root p = [] \<and> path_segs p = [] then ''.''
                 else path_root p @ join ''/'' (path_segs p))"

definition is_absolute :: "path \<Rightarrow> bool" where
  "is_absolute p = (path_root p \<noteq> [])"

definition path_parts :: "path \<Rightarrow> string list" where
  "path_parts p = (if path_root p = [] then [] else [path_root p]) @ path_segs p"

definition path_join :: "path \<Rightarrow> path \<Rightarrow> path" where
  "path_join p q = (if is_absolute q then q else Path (path_root p) (path_segs p @ path_segs q))"

definition path_parent :: "path \<Rightarrow> path" where
  "path_parent p = Path (path_root p) (butlast (path_segs p))"

definition is_relative_to :: "path \<Rightarrow> path \<Rightarrow> bool" where
  "is_relative_to p q \<longleftrightarrow>
     path_root p = path_root q \<and> take (length (path_segs q)) (path_segs p) = path_segs q"

definition relative_to :: "path \<Rightarrow> path \<Rightarrow> path exn" where
  "relative_to p q =
     (if is_relative_to p q then Return (Path [] (drop (length (path_segs q)) (path_segs p)))
      else Raise (ValueError (path_str p @ '' is not in the subpath of '' @ path_str q)))"

text \<open>Joining one validated component: \<open>path / name\<close> for a plain segment.\<close>

definition path_child :: "path \<Rightarrow> string \<Rightarrow> path" where
  "path_child p name = path_join p (path_of name)"

definition plain_segment :: "string \<Rightarrow> bool" where
  "plain_segment s \<longleftrightarrow> s \<noteq> [] \<and> s \<noteq> ''.'' \<and> CHR ''/'' \<notin> set s"

lemma split_char_plain: "sep \<notin> set s \<Longrightarrow> split_char sep s = [s]"
  by (induction s) auto

lemma path_of_plain: "plain_segment s \<Longrightarrow> path_of s = Path [] [s]"
proof -
  assume s: "plain_segment s"
  then obtain c cs where "s = c # cs" "c \<noteq> CHR ''/''" by (cases s) (auto simp: plain_segment_def)
  moreover have "split_char CHR ''/'' s = [s]" using s
    by (simp add: plain_segment_def split_char_plain)
  ultimately show ?thesis using s by (simp add: path_of_def plain_segment_def)
qed

lemma path_child_plain:
  "plain_segment s \<Longrightarrow> path_child p s = Path (path_root p) (path_segs p @ [s])"
  by (simp add: path_child_def path_join_def path_of_plain is_absolute_def)

lemma path_parent_child: "plain_segment s \<Longrightarrow> path_parent (path_child p s) = p"
  by (simp add: path_child_plain path_parent_def)

lemma path_child_inject:
  assumes "plain_segment s" and "plain_segment t"
  shows "path_child p s = path_child p t \<longleftrightarrow> s = t"
  using assms by (simp add: path_child_plain)

lemma relative_to_join:
  assumes "relative_to p q = Return r"
  shows "path_join q r = p"
proof -
  from assms have rel: "is_relative_to p q" and r: "r = Path [] (drop (length (path_segs q)) (path_segs p))"
    by (auto simp: relative_to_def split: if_splits)
  then have "path_segs q @ path_segs r = path_segs p"
    by (metis append_take_drop_id is_relative_to_def path.sel(2))
  with rel r show ?thesis
    by (metis is_absolute_def is_relative_to_def path.collapse path.sel(1) path_join_def)
qed

end
