(* ===== verification/Records.thy ===== *)
theory Records
  imports Posix_Path
begin

text \<open>
  The value types of \<open>src/dataset_rt/records.py\<close>: per-source write outcomes, manifest migration
  reports and contiguous row spans. The outcome types \<open>Ok\<close> and \<open>Err\<close> are in the prelude.
\<close>

record RowSpan =
  span_offset :: int
  span_length :: int

definition mk_RowSpan :: "int \<Rightarrow> int \<Rightarrow> RowSpan" where
  "mk_RowSpan offset len = \<lparr>span_offset = offset, span_length = len\<rparr>"

lemma mk_RowSpan_sel [simp]:
  "span_offset (mk_RowSpan a b) = a" "span_length (mk_RowSpan a b) = b"
  by (simp_all add: mk_RowSpan_def)

text \<open>The rows a span names.\<close>

definition span_rows :: "RowSpan \<Rightarrow> int set" where
  "span_rows s = {span_offset s ..< span_offset s + span_length s}"

datatype CacheWriteResult =
    CacheWriteSuccess string path
  | CacheWriteError string string

fun source_name :: "CacheWriteResult \<Rightarrow> string" where
  "source_name (CacheWriteSuccess name p) = name"
| "source_name (CacheWriteError name msg) = name"

fun is_write_success :: "CacheWriteResult \<Rightarrow> bool" where
  "is_write_success (CacheWriteSuccess name p) = True"
| "is_write_success (CacheWriteError name msg) = False"

end
