(* ===== verification/Config.thy ===== *)
theory Config
  imports Posix_Path Complex_Main
begin

text \<open>
  \<open>src/dataset_rt/config.py\<close>: the frozen configuration records and the constraints their fields
  declare. A constructor is a function that returns the record or raises the \<open>ValueError\<close> pydantic's
  validation error is a subclass of. Field values arrive with the declared type; pydantic's coercions
  between types are not modelled, and its generic field validation, where a class wraps it, is an
  argument (\<open>handler\<close>). Floating-point fields that must be finite are rationals.
\<close>

section \<open>Compression policies\<close>

text \<open>\<open>CompressionAlgo\<close>, the deprecated policy and the four whole-record variants.\<close>

datatype CompressionAlgo = AlgoNone | AlgoLz4

record ShardCompression =
  shard_algo :: CompressionAlgo
  shard_ratio :: rat

datatype RecordCompression =
    NoCompression
  | Lz4Fast int
  | Lz4HC int
  | Brotli int

datatype shard_policy = WholeRecord RecordCompression | Legacy ShardCompression

definition check_Lz4Fast :: "int \<Rightarrow> RecordCompression exn" where
  "check_Lz4Fast acceleration =
     (if 1 \<le> acceleration \<and> acceleration \<le> 65537 then Return (Lz4Fast acceleration)
      else Raise (ValueError ''acceleration''))"

definition check_Lz4HC :: "int \<Rightarrow> RecordCompression exn" where
  "check_Lz4HC level =
     (if 1 \<le> level \<and> level \<le> 12 then Return (Lz4HC level) else Raise (ValueError ''level''))"

definition check_Brotli :: "int \<Rightarrow> RecordCompression exn" where
  "check_Brotli level =
     (if 0 \<le> level \<and> level \<le> 11 then Return (Brotli level) else Raise (ValueError ''level''))"

definition DEFAULT_SHARD_COMPRESSION :: RecordCompression where
  "DEFAULT_SHARD_COMPRESSION = Lz4Fast 1"

text \<open>
  The discriminators \<open>algo\<close> and \<open>mode\<close> each variant persists; the union is discriminated by \<open>mode\<close>.
\<close>

fun compression_algo :: "RecordCompression \<Rightarrow> string" where
  "compression_algo NoCompression = ''none''"
| "compression_algo (Lz4Fast a) = ''lz4''"
| "compression_algo (Lz4HC l) = ''lz4''"
| "compression_algo (Brotli l) = ''brotli''"

fun compression_mode :: "RecordCompression \<Rightarrow> string" where
  "compression_mode NoCompression = ''none''"
| "compression_mode (Lz4Fast a) = ''fast''"
| "compression_mode (Lz4HC l) = ''hc''"
| "compression_mode (Brotli l) = ''brotli''"

text \<open>
  The wrap validator of the deprecated policy: an instance passes quietly; a mapping that carries an
  option of the new variants is rejected before field validation; anything else is validated by
  \<open>handler\<close> and, only when accepted, warns. The second component holds the warnings.
\<close>

datatype 'j legacy_input = Instance ShardCompression | Mapping "string list" 'j | Other 'j

definition legacy_warning :: string where
  "legacy_warning = ''ShardCompression is deprecated; use NoCompression(), Lz4Fast(acceleration=1), '' @
     ''Lz4HC(level=9), or Brotli(level=5). '' @
     ''Legacy ratio never controlled compression and remains ignored. '' @
     ''Legacy calls write payload-only v3 caches; new variants write whole-record v4 caches.''"

definition validate_legacy ::
  "('j legacy_input \<Rightarrow> ShardCompression exn) \<Rightarrow> 'j legacy_input \<Rightarrow> (ShardCompression \<times> string list) exn" where
  "validate_legacy handler v =
     (case v of
        Instance s \<Rightarrow> bindE (handler v) (\<lambda>r. Return (r, []))
      | _ \<Rightarrow>
        if (case v of Mapping keys j \<Rightarrow> list_ex (\<lambda>k. k \<in> set keys) [''mode'', ''level'', ''acceleration'']
                    | _ \<Rightarrow> False)
        then Raise (ValueError ''compression options belong to NoCompression, Lz4Fast, Lz4HC, or Brotli'')
        else bindE (handler v) (\<lambda>r. Return (r, [legacy_warning])))"

section \<open>Writer and reader configuration\<close>

record WriterProfilerConfig =
  profiler_enabled :: bool
  profiler_path :: path

definition DEFAULT_WRITER_PROFILER_CONFIG :: WriterProfilerConfig where
  "DEFAULT_WRITER_PROFILER_CONFIG =
     \<lparr>profiler_enabled = False, profiler_path = path_of ''dataset_rt_profile.json''\<rparr>"

record WriterConfig =
  num_processes :: int
  process_timeout_seconds :: rat
  writer_prefetch_size :: int
  max_shard_bytes :: int
  shard_compression :: shard_policy
  show_progress :: bool
  writer_validate_cache :: bool
  profiler :: WriterProfilerConfig

definition check_WriterConfig :: "WriterConfig \<Rightarrow> WriterConfig exn" where
  "check_WriterConfig c =
     (if 0 \<le> num_processes c \<and> 0 < process_timeout_seconds c \<and> 0 < writer_prefetch_size c
         \<and> 0 < max_shard_bytes c
      then Return c else Raise (ValueError ''WriterConfig''))"

definition DEFAULT_WRITER_CONFIG :: WriterConfig where
  "DEFAULT_WRITER_CONFIG =
     \<lparr>num_processes = 0, process_timeout_seconds = 3600, writer_prefetch_size = 64,
      max_shard_bytes = 64 * 1024 * 1024, shard_compression = WholeRecord DEFAULT_SHARD_COMPRESSION,
      show_progress = True, writer_validate_cache = False, profiler = DEFAULT_WRITER_PROFILER_CONFIG\<rparr>"

record ReaderConfig =
  reader_seed_value :: int
  prefetch_size :: int
  reader_shuffle :: bool
  validate_cache :: bool

definition check_ReaderConfig :: "ReaderConfig \<Rightarrow> ReaderConfig exn" where
  "check_ReaderConfig c = (if 0 < prefetch_size c then Return c else Raise (ValueError ''prefetch_size''))"

section \<open>Facts\<close>

lemma default_writer_config_valid:
  "check_WriterConfig DEFAULT_WRITER_CONFIG = Return DEFAULT_WRITER_CONFIG"
  by (simp add: check_WriterConfig_def DEFAULT_WRITER_CONFIG_def)

lemma default_compression_valid: "check_Lz4Fast 1 = Return DEFAULT_SHARD_COMPRESSION"
  by (simp add: check_Lz4Fast_def DEFAULT_SHARD_COMPRESSION_def)

lemma compression_mode_injective:
  "compression_mode c = compression_mode d \<Longrightarrow>
   (case (c, d) of (NoCompression, NoCompression) \<Rightarrow> True | (Lz4Fast a, Lz4Fast b) \<Rightarrow> True
    | (Lz4HC a, Lz4HC b) \<Rightarrow> True | (Brotli a, Brotli b) \<Rightarrow> True | _ \<Rightarrow> False)"
  by (cases c; cases d) simp_all

end
