(* ===== verification/Writer.thy ===== *)
theory Writer
  imports Records Config "HOL-Library.AList"
begin

text \<open>
  \<open>src/dataset_rt/writer.py\<close>: spawned source writers under a supervising parent.

  Both ends of the protocol are here: the child loop \<open>_worker\<close> with its mailbox and result pipe, and the
  parent's preflight, dispatch, poll and supervision. A worker record holds the parent's view
  (\<open>Starting\<close>, \<open>Idle\<close>, \<open>Active\<close>), the mailbox, the pipe and the child. What happens between two actions of
  the parent is an environment: a list of child actions, what the clock shows, whether a cleanup fails.
  It is an argument of every parent operation, so a statement for all environments covers every
  interleaving; children share no state, so their actions only matter relative to their own parent's.

  Outside the model: the native \<open>write_cache\<close> call is the argument \<open>write\<close>; \<open>str.casefold\<close>,
  \<open>unicodedata.normalize\<close> and \<open>str.encode\<close> are the record \<open>unicode\<close>. An exception is its class, its
  type name and its text, absent if formatting it raises.
\<close>

section \<open>Exceptions and diagnostics\<close>

datatype exit_code = ExitInt int | ExitStr string | ExitNone | ExitOther

datatype exc_class =
    OSErrorClass
  | ValueErrorClass
  | RuntimeErrorClass
  | OtherException
  | KeyboardInterruptClass
  | SystemExitClass exit_code

record raised =
  exc_class :: exc_class
  exc_type :: string
  exc_text :: "string option"

definition is_exception :: "raised \<Rightarrow> bool" where
  "is_exception e = (case exc_class e of KeyboardInterruptClass \<Rightarrow> False | SystemExitClass c \<Rightarrow> False | _ \<Rightarrow> True)"

definition diagnostic :: "raised \<Rightarrow> string" where
  "diagnostic e = (case exc_text e of Some t \<Rightarrow> take 2048 (exc_type e @ '': '' @ t) | None \<Rightarrow> exc_type e)"

definition exit_status :: "exit_code \<Rightarrow> raised \<Rightarrow> int + string" where
  "exit_status code e =
     (case code of ExitInt i \<Rightarrow> Inl i | ExitStr s \<Rightarrow> Inr (take 2048 s) | ExitNone \<Rightarrow> Inl 0 | ExitOther \<Rightarrow> Inr (diagnostic e))"

abbreviation value_error :: "string \<Rightarrow> raised" where
  "value_error msg \<equiv> \<lparr>exc_class = ValueErrorClass, exc_type = ''ValueError'', exc_text = Some msg\<rparr>"

section \<open>Source names\<close>

record unicode =
  casefold :: "string \<Rightarrow> string"
  nfc :: "string \<Rightarrow> string"
  encode :: "string \<Rightarrow> nat list option"

definition validate_source_name :: "unicode \<Rightarrow> string \<Rightarrow> (string, string) Result" where
  "validate_source_name u name =
     (if name = [] \<or> casefold u name \<in> {''.'', ''..'', ''tmp''}
      then Err ''CacheSource.name must be a non-reserved plain path segment''
      else if CHR ''/'' \<in> set name \<or> CHR 0x00 \<in> set name
      then Err ''CacheSource.name must be a plain path segment''
      else case encode u name of
          None \<Rightarrow> Err ''CacheSource.name must be valid UTF-8''
        | Some encoded \<Rightarrow>
            if length encoded > 255
            then Err ''CacheSource.name exceeds the supported filesystem component limit''
            else Ok name)"

definition destination_identity :: "unicode \<Rightarrow> string \<Rightarrow> string" where
  "destination_identity u name = nfc u (casefold u name)"

section \<open>Messages\<close>

datatype interrupt_kind = Keyboard | Exit

datatype worker_message =
    Ready
  | Finished CacheWriteResult
  | Interrupted interrupt_kind string "int + string"
  | Failed string

text \<open>What the parent finds in the pipe: a message, another object, or a transport error.\<close>

datatype wire = Message worker_message | UnknownObject | Broken raised

definition receive :: "wire \<Rightarrow> (worker_message, string) Result" where
  "receive w =
     (case w of
        Message m \<Rightarrow> Ok m
      | UnknownObject \<Rightarrow> Err ''invalid writer worker message''
      | Broken e \<Rightarrow> Err (''writer transport failed: '' @ diagnostic e))"

section \<open>The child\<close>

type_synonym 's native_write = "string \<Rightarrow> 's \<Rightarrow> raised + (string \<times> string \<times> string) list"

definition run_source :: "'s native_write \<Rightarrow> string \<Rightarrow> 's \<Rightarrow> raised + CacheWriteResult" where
  "run_source write name source =
     (case write name source of
        Inl e \<Rightarrow>
          (case exc_class e of
             ValueErrorClass \<Rightarrow> Inr (CacheWriteError name (diagnostic e))
           | RuntimeErrorClass \<Rightarrow> Inr (CacheWriteError name (diagnostic e))
           | _ \<Rightarrow> Inl e)
      | Inr records \<Rightarrow>
          (case records of
             [(status, native_name, detail)] \<Rightarrow>
               if status = ''success'' then Inr (CacheWriteSuccess native_name (path_of detail))
               else if status = ''error'' then Inr (CacheWriteError native_name (take 2048 detail))
               else Inl (value_error (''invalid native writer status: '' @ status))
           | _ \<Rightarrow> Inl (value_error ''native single-source writer returned an invalid outcome count'')))"

datatype 's mail = StopMail | JobMail string 's

datatype child = Booting | Waiting | Ended int

datatype worker_state = Starting rat | Idle | Active nat rat path

text \<open>The source and the temporary directory a worker holds.\<close>

fun held_index :: "worker_state \<Rightarrow> nat list" where
  "held_index (Active i d p) = [i]"
| "held_index st = []"

fun held_paths :: "worker_state \<Rightarrow> path list" where
  "held_paths (Active i d p) = [p]"
| "held_paths st = []"

record 's worker =
  wk_state :: worker_state
  wk_mailbox :: "'s mail option"
  wk_pipe :: "wire list"
  wk_child :: child

text \<open>
  What can happen in a child: native runtime creation (which may raise), one turn of the job loop with
  the outcome of unpickling, an exception raised asynchronously, and death with an exit code, which may
  leave a truncated message behind.
\<close>

datatype child_action =
    CreateRuntime "raised option"
  | TakeJob "raised option" bool
  | RaiseAsync raised
  | Crash int "raised option"

text \<open>The \<open>except\<close> and \<open>finally\<close> clauses of \<open>_worker\<close>: the last messages and the exit code.\<close>

definition last_words :: "raised \<Rightarrow> wire list" where
  "last_words e =
     (case exc_class e of
        KeyboardInterruptClass \<Rightarrow> [Message (Interrupted Keyboard (diagnostic e) (Inl 0))]
      | SystemExitClass code \<Rightarrow> [Message (Interrupted Exit (diagnostic e) (exit_status code e))]
      | _ \<Rightarrow> [])"

definition worker_end :: "raised \<Rightarrow> 's worker \<Rightarrow> 's worker" where
  "worker_end e w = w\<lparr>wk_pipe := wk_pipe w @ last_words e, wk_child := Ended (if is_exception e then 1 else 0)\<rparr>"

definition send :: "worker_message \<Rightarrow> 's worker \<Rightarrow> 's worker" where
  "send m w = w\<lparr>wk_pipe := wk_pipe w @ [Message m]\<rparr>"

fun worker_turn :: "'s native_write \<Rightarrow> raised option \<Rightarrow> bool \<Rightarrow> 's mail \<Rightarrow> 's worker \<Rightarrow> 's worker" where
  "worker_turn write unpickled is_job StopMail w = w\<lparr>wk_child := Ended 0\<rparr>"
| "worker_turn write unpickled is_job (JobMail name source) w =
     (case unpickled of
        Some e \<Rightarrow>
          if is_exception e
          then (send (Failed (''source deserialization failed: '' @ diagnostic e)) w)\<lparr>wk_child := Ended 0\<rparr>
          else worker_end e w
      | None \<Rightarrow>
          if \<not> is_job then worker_end (value_error ''invalid writer job'') w
          else (case run_source write name source of
                  Inl e \<Rightarrow> worker_end e w
                | Inr r \<Rightarrow> send (Finished r) w))"

fun child_act :: "'s native_write \<Rightarrow> child_action \<Rightarrow> 's worker \<Rightarrow> 's worker" where
  "child_act write (CreateRuntime fault) w =
     (if wk_child w \<noteq> Booting then w
      else case fault of None \<Rightarrow> (send Ready w)\<lparr>wk_child := Waiting\<rparr> | Some e \<Rightarrow> worker_end e w)"
| "child_act write (TakeJob unpickled is_job) w =
     (if wk_child w \<noteq> Waiting then w
      else case wk_mailbox w of
          None \<Rightarrow> w
        | Some mail \<Rightarrow> worker_turn write unpickled is_job mail (w\<lparr>wk_mailbox := None\<rparr>))"
| "child_act write (RaiseAsync e) w = (case wk_child w of Ended c \<Rightarrow> w | _ \<Rightarrow> worker_end e w)"
| "child_act write (Crash code truncated) w =
     (case wk_child w of
        Ended c \<Rightarrow> w
      | _ \<Rightarrow> w\<lparr>wk_pipe := wk_pipe w @ (case truncated of None \<Rightarrow> [] | Some e \<Rightarrow> [Broken e]), wk_child := Ended code\<rparr>)"

definition child_run :: "'s native_write \<Rightarrow> child_action list \<Rightarrow> 's worker \<Rightarrow> 's worker" where
  "child_run write acts w = fold (child_act write) acts w"

section \<open>Preflight and destinations\<close>

datatype 's job = SourceJob (job_label: string) 's | Rejected (job_label: string) string

record 's source =
  src_name :: "raised + string"
  src_body :: 's

definition preflight_job :: "unicode \<Rightarrow> nat \<Rightarrow> 's source \<Rightarrow> 's job" where
  "preflight_job u index source =
     (case src_name source of
        Inl e \<Rightarrow> Rejected (''source['' @ str_int (int index) @ '']'') (diagnostic e)
      | Inr name \<Rightarrow>
          (case validate_source_name u name of
             Err msg \<Rightarrow> Rejected (''source['' @ str_int (int index) @ '']'') msg
           | Ok nm \<Rightarrow> SourceJob nm (src_body source)))"

text \<open>The first job whose destination identity was seen before.\<close>

fun first_duplicate :: "unicode \<Rightarrow> string list \<Rightarrow> 's job list \<Rightarrow> string option" where
  "first_duplicate u seen [] = None"
| "first_duplicate u seen (Rejected name msg # jobs) = first_duplicate u seen jobs"
| "first_duplicate u seen (SourceJob name source # jobs) =
     (if destination_identity u name \<in> set seen then Some name
      else first_duplicate u (destination_identity u name # seen) jobs)"

fun reject_job :: "string \<Rightarrow> 's job \<Rightarrow> CacheWriteResult" where
  "reject_job msg (Rejected name m) = CacheWriteError name m"
| "reject_job msg (SourceJob name source) = CacheWriteError name msg"

definition preflight_jobs :: "unicode \<Rightarrow> 's source list \<Rightarrow> 's job list" where
  "preflight_jobs u sources = map (\<lambda>(i, s). preflight_job u i s) (enumerate 0 sources)"

definition preflight :: "unicode \<Rightarrow> 's source list \<Rightarrow> ('s job list, CacheWriteResult list) Result" where
  "preflight u sources =
     (let jobs = preflight_jobs u sources in
      case first_duplicate u [] jobs of
        Some name \<Rightarrow> Err (map (reject_job (''duplicate generated cache path: '' @ name)) jobs)
      | None \<Rightarrow> Ok jobs)"

text \<open>
  Dispatching a source: whether pickling it raises, what the file system says of its temporary path,
  and the clock.
\<close>

record dispatch_env =
  de_pickle :: "raised option"
  de_exists :: "raised + bool"
  de_resolve :: "raised + path"
  de_clock :: rat

definition temporary_path :: "path \<Rightarrow> string \<Rightarrow> path" where
  "temporary_path p name = path_child (path_child p ''tmp'') name"

definition destination :: "dispatch_env \<Rightarrow> path \<Rightarrow> string \<Rightarrow> raised + (CacheWriteResult + path)" where
  "destination env p name =
     (case de_exists env of
        Inl e \<Rightarrow> Inl e
      | Inr True \<Rightarrow> Inr (Inl (CacheWriteError name (''refusing unowned temporary cache: '' @ path_str (temporary_path p name))))
      | Inr False \<Rightarrow> (case de_resolve env of Inl e \<Rightarrow> Inl e | Inr q \<Rightarrow> Inr (Inr q)))"

definition dispatch :: "dispatch_env \<Rightarrow> nat \<Rightarrow> string \<Rightarrow> path \<Rightarrow> rat \<Rightarrow> CacheWriteResult + worker_state" where
  "dispatch env index name p timeout =
     (case de_pickle env of
        Some e \<Rightarrow> Inl (CacheWriteError name (''source serialization failed: '' @ diagnostic e))
      | None \<Rightarrow>
          (case destination env p name of
             Inl e \<Rightarrow> Inl (CacheWriteError name (''destination preflight failed: '' @ diagnostic e))
           | Inr (Inl err) \<Rightarrow> Inl err
           | Inr (Inr temporary) \<Rightarrow> Inr (Active index (de_clock env + timeout) temporary)))"

section \<open>The supervising parent\<close>

text \<open>
  The pool: the workers, \<open>next_index\<close>, the outcomes in the order they were recorded, the temporary
  directories cleaned up, the dispatches (worker and source index) in order with the temporary
  directories they gave away, and the progress lines.
\<close>

type_synonym outcomes = "(nat \<times> CacheWriteResult) list"

record 's pool =
  pool_workers :: "'s worker list"
  pool_next :: nat
  pool_outcomes :: outcomes
  pool_cleaned :: "path list"
  pool_dispatched :: "(nat \<times> nat) list"
  pool_owned :: "path list"
  pool_reported :: nat
  pool_progress :: "string list"

text \<open>
  One poll of a worker: child actions before the pipe is read and before the exit code is read, whether
  the end of the pipe of a dead child is already visible, whether removing a finished source's temporary
  directory raises, and the clock.
\<close>

record poll_env =
  pe_before :: "child_action list"
  pe_between :: "child_action list"
  pe_eof :: bool
  pe_cleanup :: "raised option"
  pe_clock :: rat

abbreviation eof_error :: raised where
  "eof_error \<equiv> \<lparr>exc_class = OtherException, exc_type = ''EOFError'', exc_text = Some []\<rparr>"

definition next_wire :: "bool \<Rightarrow> 's worker \<Rightarrow> (wire \<times> 's worker) option" where
  "next_wire eof w =
     (case wk_pipe w of
        m # rest \<Rightarrow> Some (m, w\<lparr>wk_pipe := rest\<rparr>)
      | [] \<Rightarrow> (case wk_child w of Ended c \<Rightarrow> if eof then Some (Broken eof_error, w) else None | _ \<Rightarrow> None))"

text \<open>The end of \<open>_poll\<close>: a child that has exited, then the deadline of its current state.\<close>

definition poll_lifetime :: "'s native_write \<Rightarrow> poll_env \<Rightarrow> 's worker \<Rightarrow> (unit, string) Result \<times> 's worker" where
  "poll_lifetime write env w =
     (let w' = child_run write (pe_between env) w;
          timed = (\<lambda>d. if pe_clock env \<ge> d then Err ''writer process timeout exceeded'' else Ok ()) in
      (case wk_child w' of
         Ended code \<Rightarrow> Err (''writer child exited with code '' @ str_int code)
       | _ \<Rightarrow> (case wk_state w' of Starting d \<Rightarrow> timed d | Active i d p \<Rightarrow> timed d | Idle \<Rightarrow> Ok ()), w'))"

definition poll ::
  "'s native_write \<Rightarrow> poll_env \<Rightarrow> 's worker \<Rightarrow> outcomes \<Rightarrow>
   (raised + (unit, string) Result) \<times> 's worker \<times> outcomes \<times> path list" where
  "poll write env w0 outcomes =
     (let lifetime = (\<lambda>w out cleaned. case poll_lifetime write env w of (r, w') \<Rightarrow> (Inr r, w', out, cleaned));
          w1 = child_run write (pe_before env) w0 in
      case next_wire (pe_eof env) w1 of
        None \<Rightarrow> lifetime w1 outcomes []
      | Some (m, w) \<Rightarrow>
          (case receive m of
             Err failure \<Rightarrow> (Inr (Err failure), w, outcomes, [])
           | Ok Ready \<Rightarrow> lifetime (w\<lparr>wk_state := Idle\<rparr>) outcomes []
           | Ok (Finished r) \<Rightarrow>
               (case wk_state w of
                  Active i d temporary \<Rightarrow>
                    let w' = w\<lparr>wk_state := Idle\<rparr>; out = AList.update i r outcomes in
                    (case pe_cleanup env of
                       Some e \<Rightarrow> (Inl e, w', out, [])
                     | None \<Rightarrow> lifetime w' out [temporary])
                | _ \<Rightarrow> (Inr (Err ''writer protocol violation''), w, outcomes, []))
           | Ok (Interrupted Keyboard msg status) \<Rightarrow>
               (Inl \<lparr>exc_class = KeyboardInterruptClass, exc_type = ''KeyboardInterrupt'', exc_text = Some msg\<rparr>, w, outcomes, [])
           | Ok (Interrupted Exit msg status) \<Rightarrow>
               (Inl \<lparr>exc_class = SystemExitClass (case status of Inl i \<Rightarrow> ExitInt i | Inr s \<Rightarrow> ExitStr s), exc_type = ''SystemExit'',
                     exc_text = Some (case status of Inl i \<Rightarrow> str_int i | Inr s \<Rightarrow> s)\<rparr>, w, outcomes, [])
           | Ok (Failed msg) \<Rightarrow> (Inr (Err msg), w, outcomes, [])))"

definition poll_worker ::
  "'s native_write \<Rightarrow> poll_env \<Rightarrow> nat \<Rightarrow> 's pool \<Rightarrow> (raised + (unit, string) Result) \<times> 's pool" where
  "poll_worker write env k pool =
     (case poll write env (pool_workers pool ! k) (pool_outcomes pool) of
        (r, w, out, cleaned) \<Rightarrow>
          (r, pool\<lparr>pool_workers := (pool_workers pool)[k := w], pool_outcomes := out,
                   pool_cleaned := pool_cleaned pool @ cleaned\<rparr>))"

text \<open>The list comprehension over all workers: an exception ends it at once.\<close>

fun poll_all ::
  "'s native_write \<Rightarrow> (nat \<Rightarrow> poll_env) \<Rightarrow> nat list \<Rightarrow> 's pool \<Rightarrow> (raised + (unit, string) Result list) \<times> 's pool" where
  "poll_all write env [] pool = (Inr [], pool)"
| "poll_all write env (k # ks) pool =
     (case poll_worker write (env k) k pool of
        (Inl e, p) \<Rightarrow> (Inl e, p)
      | (Inr r, p) \<Rightarrow>
          (case poll_all write env ks p of
             (Inl e, q) \<Rightarrow> (Inl e, q)
           | (Inr rs, q) \<Rightarrow> (Inr (r # rs), q)))"

fun first_failure :: "(unit, string) Result list \<Rightarrow> string option" where
  "first_failure [] = None"
| "first_failure (Err msg # rs) = Some msg"
| "first_failure (Ok u # rs) = first_failure rs"

text \<open>The inner \<open>while\<close>: hand jobs to one worker until it is busy or none is left.\<close>

definition idle_at :: "'s pool \<Rightarrow> nat \<Rightarrow> bool" where
  "idle_at pool k \<longleftrightarrow> wk_state (pool_workers pool ! k) = Idle"

definition record_outcome :: "nat \<Rightarrow> CacheWriteResult \<Rightarrow> 's pool \<Rightarrow> 's pool" where
  "record_outcome i r pool = pool\<lparr>pool_outcomes := AList.update i r (pool_outcomes pool)\<rparr>"

definition assign_next :: "(nat \<Rightarrow> dispatch_env) \<Rightarrow> rat \<Rightarrow> path \<Rightarrow> 's job list \<Rightarrow> nat \<Rightarrow> 's pool \<Rightarrow> 's pool" where
  "assign_next env timeout p jobs k pool =
     (let i = pool_next pool; pool1 = pool\<lparr>pool_next := i + 1\<rparr> in
      case jobs ! i of
        Rejected name msg \<Rightarrow> record_outcome i (CacheWriteError name msg) pool1
      | SourceJob name source \<Rightarrow>
          (case dispatch (env i) i name p timeout of
             Inl err \<Rightarrow> record_outcome i err pool1
           | Inr active \<Rightarrow>
               pool1\<lparr>pool_workers := (pool_workers pool)[k := (pool_workers pool ! k)\<lparr>wk_state := active,
                        wk_mailbox := Some (JobMail name source)\<rparr>],
                     pool_dispatched := pool_dispatched pool @ [(k, i)], pool_owned := pool_owned pool @ held_paths active\<rparr>))"

lemma assign_next_index [simp]: "pool_next (assign_next env timeout p jobs k pool) = Suc (pool_next pool)"
  by (simp add: assign_next_def Let_def record_outcome_def split: job.split sum.split)

function assign :: "(nat \<Rightarrow> dispatch_env) \<Rightarrow> rat \<Rightarrow> path \<Rightarrow> 's job list \<Rightarrow> nat \<Rightarrow> 's pool \<Rightarrow> 's pool" where
  "assign env timeout p jobs k pool =
     (if idle_at pool k \<and> pool_next pool < length jobs
      then assign env timeout p jobs k (assign_next env timeout p jobs k pool) else pool)"
  by pat_completeness auto
termination by (relation "measure (\<lambda>(env, timeout, p, jobs, k, pool). length jobs - pool_next pool)") auto

declare assign.simps [simp del]

definition assign_all :: "(nat \<Rightarrow> dispatch_env) \<Rightarrow> rat \<Rightarrow> path \<Rightarrow> 's job list \<Rightarrow> nat list \<Rightarrow> 's pool \<Rightarrow> 's pool" where
  "assign_all env timeout p jobs ks pool = fold (assign env timeout p jobs) ks pool"

definition report_progress :: "WriterConfig \<Rightarrow> nat \<Rightarrow> 's pool \<Rightarrow> 's pool" where
  "report_progress config total_jobs pool =
     (let done = length (pool_outcomes pool) in
      if show_progress config \<and> done \<noteq> pool_reported pool
      then pool\<lparr>pool_reported := done, pool_progress := pool_progress pool @
             [''DatasetRT sources completed: '' @ str_int (int done) @ ''/'' @ str_int (int total_jobs)]\<rparr>
      else pool)"

record round_env =
  rnd_poll :: "nat \<Rightarrow> poll_env"
  rnd_dispatch :: "nat \<Rightarrow> dispatch_env"

text \<open>One turn of the outer loop: either the loop ends with an exception or a failure, or it goes on.\<close>

definition supervise_round ::
  "'s native_write \<Rightarrow> round_env \<Rightarrow> WriterConfig \<Rightarrow> path \<Rightarrow> 's job list \<Rightarrow> 's pool \<Rightarrow> (raised + string) option \<times> 's pool" where
  "supervise_round write env config p jobs pool =
     (let ks = [0..<length (pool_workers pool)] in
      case poll_all write (rnd_poll env) ks pool of
        (Inl e, pool1) \<Rightarrow> (Some (Inl e), pool1)
      | (Inr results, pool1) \<Rightarrow>
          (case first_failure results of
             Some msg \<Rightarrow> (Some (Inr msg), pool1)
           | None \<Rightarrow> (None, report_progress config (length jobs)
               (assign_all (rnd_dispatch env) (process_timeout_seconds config) p jobs ks pool1))))"

text \<open>The outer \<open>while\<close>; \<open>env n\<close> is the environment of round \<open>n\<close>. Not returning is \<open>None\<close>.\<close>

partial_function (option) supervise ::
  "'s native_write \<Rightarrow> (nat \<Rightarrow> round_env) \<Rightarrow> WriterConfig \<Rightarrow> path \<Rightarrow> 's job list \<Rightarrow> nat \<Rightarrow> 's pool \<Rightarrow>
   ((raised + (unit, string) Result) \<times> 's pool) option" where
  "supervise write env config p jobs n pool =
     (if length jobs \<le> length (pool_outcomes pool) then Some (Inr (Ok ()), pool)
      else case supervise_round write (env n) config p jobs pool of
          (None, pool') \<Rightarrow> supervise write env config p jobs (Suc n) pool'
        | (Some (Inl e), pool') \<Rightarrow> Some (Inl e, pool')
        | (Some (Inr msg), pool') \<Rightarrow> Some (Inr (Err msg), pool'))"

section \<open>Start and shutdown\<close>

text \<open>\<open>_start\<close>: the clock after the process started, or what starting it raised.\<close>

definition start_worker :: "WriterConfig \<Rightarrow> raised + rat \<Rightarrow> raised + 's worker" where
  "start_worker config started =
     (case started of
        Inl e \<Rightarrow> Inl e
      | Inr now \<Rightarrow> Inr \<lparr>wk_state = Starting (now + process_timeout_seconds config), wk_mailbox = None, wk_pipe = [], wk_child = Booting\<rparr>)"

fun start_all :: "WriterConfig \<Rightarrow> (nat \<Rightarrow> raised + rat) \<Rightarrow> nat list \<Rightarrow> raised option \<times> 's worker list" where
  "start_all config started [] = (None, [])"
| "start_all config started (k # ks) =
     (case start_worker config (started k) of
        Inl e \<Rightarrow> (Some e, [])
      | Inr w \<Rightarrow> (case start_all config started ks of (r, ws) \<Rightarrow> (r, w # ws)))"

text \<open>
  \<open>WriterProcess.stop\<close>: \<open>alive\<close> gives the four successive answers of \<open>is_alive\<close>, \<open>cleanup\<close> what removing
  the temporary directory raises. The result is the signals sent, the directories removed, and the
  exception.
\<close>

datatype stop_signal = Sentinel | Terminate | Kill

record stop_env =
  se_alive :: "nat \<Rightarrow> bool"
  se_cleanup :: "raised option"

definition stop_signals :: "stop_env \<Rightarrow> worker_state \<Rightarrow> stop_signal list" where
  "stop_signals env st =
     (if st = Idle \<and> se_alive env 0 then [Sentinel] else []) @ (if se_alive env 1 then [Terminate] else []) @
     (if se_alive env 2 then [Kill] else [])"

definition stop_worker :: "stop_env \<Rightarrow> 's worker \<Rightarrow> stop_signal list \<times> path list \<times> raised option \<times> 's worker" where
  "stop_worker env w =
     (let signals = stop_signals env (wk_state w) in
      if se_alive env 3
      then (signals, [], Some \<lparr>exc_class = RuntimeErrorClass, exc_type = ''RuntimeError'',
              exc_text = Some ''writer child could not be stopped; temporary cache retained''\<rparr>, w)
      else case wk_state w of
          Active i d temporary \<Rightarrow>
            (signals, (if se_cleanup env = None then [temporary] else []), se_cleanup env, w\<lparr>wk_state := Idle\<rparr>)
        | _ \<Rightarrow> (signals, [], None, w))"

text \<open>\<open>_stop_all\<close>: every worker is stopped; the first exception is raised afterwards.\<close>

fun stop_all :: "stop_env list \<Rightarrow> 's worker list \<Rightarrow> path list \<times> raised option \<times> 's worker list" where
  "stop_all (env # envs) (w # ws) =
     (case stop_worker env w of
        (signals, cleaned, err, w') \<Rightarrow>
          (case stop_all envs ws of
             (cleaned', err', ws') \<Rightarrow> (cleaned @ cleaned', (case err of Some e \<Rightarrow> Some e | None \<Rightarrow> err'), w' # ws')))"
| "stop_all envs ws = ([], None, ws)"

section \<open>Writing in parallel\<close>

definition ordered_outcome :: "outcomes \<Rightarrow> string \<Rightarrow> path \<Rightarrow> nat \<Rightarrow> 's job \<Rightarrow> CacheWriteResult" where
  "ordered_outcome outcomes failure p index job =
     (let result = (case map_of outcomes index of Some r \<Rightarrow> r | None \<Rightarrow> reject_job failure job) in
      case result of
        CacheWriteSuccess name q \<Rightarrow> CacheWriteSuccess name (path_child p name)
      | CacheWriteError name msg \<Rightarrow> result)"

definition ordered_outcomes :: "'s job list \<Rightarrow> outcomes \<Rightarrow> string \<Rightarrow> path \<Rightarrow> CacheWriteResult list" where
  "ordered_outcomes jobs outcomes failure p = map (\<lambda>(i, job). ordered_outcome outcomes failure p i job) (enumerate 0 jobs)"

record write_env =
  we_resolve :: "raised + path"
  we_started :: "nat \<Rightarrow> raised + rat"
  we_rounds :: "nat \<Rightarrow> round_env"
  we_stop :: "nat \<Rightarrow> stop_env"

definition new_pool :: "'s worker list \<Rightarrow> 's pool" where
  "new_pool ws = \<lparr>pool_workers = ws, pool_next = 0, pool_outcomes = [], pool_cleaned = [], pool_dispatched = [],
     pool_owned = [], pool_reported = 0, pool_progress = []\<rparr>"

definition child_config :: "WriterConfig \<Rightarrow> WriterConfig" where
  "child_config config = config\<lparr>num_processes := 0, show_progress := False\<rparr>"

text \<open>
  The \<open>try\<close> block: resolve the path, start the workers one by one, supervise. The pool that is left has
  exactly the workers that were started.
\<close>

definition run_pool ::
  "(path \<Rightarrow> WriterConfig \<Rightarrow> 's native_write) \<Rightarrow> write_env \<Rightarrow> WriterConfig \<Rightarrow> 's job list \<Rightarrow>
   ((raised + (unit, string) Result) \<times> 's pool) option" where
  "run_pool write_cache env config jobs =
     (case we_resolve env of
        Inl e \<Rightarrow> Some (Inl e, new_pool [])
      | Inr p \<Rightarrow>
          (case start_all config (we_started env) [0..<min (nat (num_processes config)) (length jobs)] of
             (Some e, ws) \<Rightarrow> Some (Inl e, new_pool ws)
           | (None, ws) \<Rightarrow> supervise (write_cache p (child_config config)) (we_rounds env) config p jobs 0 (new_pool ws)))"

text \<open>
  \<open>write_parallel\<close>: \<open>None\<close> if supervision never returns, else the exception that propagates or the
  outcomes, with the pool as it was left by supervision.
\<close>

definition write_parallel ::
  "unicode \<Rightarrow> (path \<Rightarrow> WriterConfig \<Rightarrow> 's native_write) \<Rightarrow> write_env \<Rightarrow> 's source list \<Rightarrow> path \<Rightarrow> WriterConfig \<Rightarrow>
   ((raised + CacheWriteResult list) \<times> 's pool) option" where
  "write_parallel u write_cache env sources p config =
     (case preflight u sources of
        Err errors \<Rightarrow> Some (Inr errors, new_pool [])
      | Ok [] \<Rightarrow> Some (Inr [], new_pool [])
      | Ok jobs \<Rightarrow>
          (case run_pool write_cache env config jobs of
             None \<Rightarrow> None
           | Some (r, pool) \<Rightarrow>
               (case stop_all (map (we_stop env) [0..<length (pool_workers pool)]) (pool_workers pool) of
                  (cleaned, stop_error, ws) \<Rightarrow>
                    let left = pool\<lparr>pool_workers := ws, pool_cleaned := pool_cleaned pool @ cleaned\<rparr>;
                        ordered = (\<lambda>failure. case stop_error of Some e \<Rightarrow> Inl e
                                    | None \<Rightarrow> Inr (ordered_outcomes jobs (pool_outcomes pool) failure p)) in
                    Some (case r of
                        Inl e \<Rightarrow>
                          if exc_class e = OSErrorClass then ordered (''writer pool failed: '' @ diagnostic e)
                          else (case stop_error of Some e' \<Rightarrow> Inl e' | None \<Rightarrow> Inl e)
                      | Inr (Err msg) \<Rightarrow> ordered msg
                      | Inr (Ok u) \<Rightarrow> ordered ''writer pool stopped'', left))))"

end
