(* ===== verification/Writer_Pool.thy ===== *)
theory Writer_Pool
  imports Writer "HOL-Library.Multiset"
begin

text \<open>
  Correctness of the writer pool: the conversation between a child and its parent, the bookkeeping of
  the supervision loop, its termination, and the outcomes \<open>write_parallel\<close> returns.
\<close>

section \<open>The conversation of one worker\<close>

text \<open>Messages after which a child sends nothing more.\<close>

fun final_wire :: "wire \<Rightarrow> bool" where
  "final_wire (Message (Interrupted k m c)) = True"
| "final_wire (Message (Failed m)) = True"
| "final_wire (Broken e) = True"
| "final_wire m = False"

definition closing :: "wire list \<Rightarrow> bool" where
  "closing ms \<longleftrightarrow> ms = [] \<or> (\<exists>m. ms = [m] \<and> final_wire m)"

lemma closing_simps [simp]: "closing []" "closing [m] = final_wire m" "closing (m # n # ms) = False"
  by (simp_all add: closing_def)

text \<open>
  What the pipe and the mailbox hold in each state of the parent: \<open>Ready\<close> only while it is starting, one
  \<open>Finished\<close> with the result of exactly the job the worker was given, and at most one final message.
\<close>

definition answer :: "'s native_write \<Rightarrow> string \<Rightarrow> 's \<Rightarrow> wire \<Rightarrow> bool" where
  "answer write name source m \<longleftrightarrow> (\<exists>r. run_source write name source = Inr r \<and> m = Message (Finished r))"

definition conversation :: "'s native_write \<Rightarrow> 's job list \<Rightarrow> 's worker \<Rightarrow> bool" where
  "conversation write jobs w =
     (case wk_state w of
        Starting d \<Rightarrow>
          (case wk_child w of
             Booting \<Rightarrow> wk_mailbox w = None \<and> wk_pipe w = []
           | Waiting \<Rightarrow> wk_mailbox w = None \<and> wk_pipe w = [Message Ready]
           | Ended c \<Rightarrow> closing (wk_pipe w) \<or> (\<exists>ms. wk_pipe w = Message Ready # ms \<and> closing ms))
      | Idle \<Rightarrow>
          (case wk_child w of
             Booting \<Rightarrow> False
           | Waiting \<Rightarrow> wk_mailbox w = None \<and> wk_pipe w = []
           | Ended c \<Rightarrow> closing (wk_pipe w))
      | Active i d p \<Rightarrow>
          (\<exists>name source. i < length jobs \<and> jobs ! i = SourceJob name source \<and>
            (case wk_child w of
               Booting \<Rightarrow> False
             | Waiting \<Rightarrow> wk_mailbox w = Some (JobMail name source) \<and> wk_pipe w = [] \<or>
                 wk_mailbox w = None \<and> (\<exists>m. answer write name source m \<and> wk_pipe w = [m])
             | Ended c \<Rightarrow> closing (wk_pipe w) \<or> (\<exists>m ms. answer write name source m \<and> wk_pipe w = m # ms \<and> closing ms))))"

lemma worker_end_simps [simp]:
  "wk_state (worker_end e w) = wk_state w" "wk_pipe (worker_end e w) = wk_pipe w @ last_words e"
  "wk_child (worker_end e w) = Ended (if is_exception e then 1 else 0)" "wk_mailbox (worker_end e w) = wk_mailbox w"
  by (simp_all add: worker_end_def)

lemma closing_last_words [simp]: "closing (last_words e)"
  by (simp add: last_words_def split: exc_class.split)

lemma worker_turn_state [simp]: "wk_state (worker_turn write unpickled is_job mail w) = wk_state w"
  by (cases mail) (simp_all add: send_def split: option.split sum.split)

lemma child_act_state [simp]: "wk_state (child_act write a w) = wk_state w"
  by (cases a) (simp_all add: send_def split: option.split child.split)

text \<open>The end of a living child appends at most one final message.\<close>

lemma conversation_end:
  assumes "conversation write jobs w" and "\<And>c. wk_child w \<noteq> Ended c" and "closing ms"
    and "wk_state w' = wk_state w" "wk_pipe w' = wk_pipe w @ ms" "wk_child w' = Ended c"
  shows "conversation write jobs w'"
  using assms by (cases "wk_child w"; cases "wk_state w") (auto simp: conversation_def)

lemma conversation_child_act:
  assumes ok: "conversation write jobs w"
  shows "conversation write jobs (child_act write a w)"
proof (cases "\<exists>c. wk_child w = Ended c")
  case True
  then show ?thesis using ok by (cases a) auto
next
  case alive: False
  show ?thesis
  proof (cases a)
    case (CreateRuntime fault)
    show ?thesis
    proof (cases fault)
      case None
      then show ?thesis using ok CreateRuntime
        by (cases "wk_state w") (auto simp: conversation_def send_def)
    next
      case (Some e)
      then show ?thesis using conversation_end [OF ok _ closing_last_words [of e], of "worker_end e w"] ok alive CreateRuntime
        by (auto simp: worker_end_def)
    qed
  next
    case (TakeJob unpickled is_job)
    show ?thesis
    proof (cases "wk_child w = Waiting \<and> wk_mailbox w \<noteq> None")
      case False
      then show ?thesis using ok TakeJob by auto
    next
      case True
      then obtain i d p name source where active: "wk_state w = Active i d p" "i < length jobs" "jobs ! i = SourceJob name source"
          "wk_mailbox w = Some (JobMail name source)" "wk_pipe w = []"
        using ok by (cases "wk_state w") (auto simp: conversation_def)
      then show ?thesis using True TakeJob
        by (auto simp: conversation_def send_def answer_def split: option.split sum.split)
    qed
  next
    case (RaiseAsync e)
    then show ?thesis using conversation_end [OF ok _ closing_last_words [of e], of "worker_end e w"] alive
      by (cases "wk_child w") auto
  next
    case (Crash code truncated)
    have "closing (case truncated of None \<Rightarrow> [] | Some e \<Rightarrow> [Broken e])" by (simp split: option.split)
    from conversation_end [OF ok _ this, of "child_act write a w" code] show ?thesis
      using Crash alive by (cases "wk_child w") auto
  qed
qed

lemma child_run_state [simp]: "wk_state (child_run write acts w) = wk_state w"
  by (induction acts arbitrary: w) (simp_all add: child_run_def)

lemma conversation_child_run:
  "conversation write jobs w \<Longrightarrow> conversation write jobs (child_run write acts w)"
  by (induction acts arbitrary: w) (simp_all add: child_run_def conversation_child_act)

section \<open>One poll\<close>

text \<open>The next message of a conversation is one the parent expects in its state.\<close>

lemma next_wire_expected:
  assumes ok: "conversation write jobs w" and m: "next_wire eof w = Some (m, w')"
  shows "wk_state w' = wk_state w \<and>
    (final_wire m \<and> conversation write jobs w' \<or>
     m = Message Ready \<and> (\<exists>d. wk_state w = Starting d) \<and> conversation write jobs (w'\<lparr>wk_state := Idle\<rparr>) \<or>
     (\<exists>i d p name source r. wk_state w = Active i d p \<and> i < length jobs \<and> jobs ! i = SourceJob name source \<and>
       run_source write name source = Inr r \<and> m = Message (Finished r) \<and> conversation write jobs (w'\<lparr>wk_state := Idle\<rparr>)))"
proof (cases "wk_pipe w")
  case Nil
  then obtain c where "wk_child w = Ended c" "m = Broken eof_error" "w' = w"
    using m by (auto simp: next_wire_def split: child.splits if_splits)
  then show ?thesis using ok by simp
next
  case (Cons a rest)
  then have "m = a" "w' = w\<lparr>wk_pipe := rest\<rparr>" using m by (auto simp: next_wire_def)
  then show ?thesis using ok Cons
    by (cases "wk_state w"; cases "wk_child w")
      (auto simp: conversation_def answer_def closing_def)
qed

lemma poll_lifetime_spec:
  assumes "conversation write jobs w" and "poll_lifetime write env w = (r, w')"
  shows "wk_state w' = wk_state w" and "conversation write jobs w'"
    and "r = Ok () \<Longrightarrow> wk_state w = Starting d \<or> wk_state w = Active i d p \<Longrightarrow> pe_clock env < d"
  using assms conversation_child_run [OF assms(1), of "pe_between env"]
  by (auto simp: poll_lifetime_def Let_def split: child.splits worker_state.splits if_splits)

text \<open>
  What a poll can do: nothing but look at the deadline, accept a started child, or record the answer to
  the job the worker holds. The conversation stays in order in each case.
\<close>

definition poll_quiet :: "poll_env \<Rightarrow> 's worker \<Rightarrow> outcomes \<Rightarrow> raised + (unit, string) Result \<Rightarrow> 's worker \<Rightarrow> outcomes \<Rightarrow> path list \<Rightarrow> bool" where
  "poll_quiet env w out r w' out' cleaned \<longleftrightarrow> wk_state w' = wk_state w \<and> out' = out \<and> cleaned = [] \<and>
     (r = Inr (Ok ()) \<longrightarrow> (\<forall>i d p. wk_state w = Starting d \<or> wk_state w = Active i d p \<longrightarrow> pe_clock env < d))"

definition poll_started :: "'s worker \<Rightarrow> outcomes \<Rightarrow> 's worker \<Rightarrow> outcomes \<Rightarrow> path list \<Rightarrow> bool" where
  "poll_started w out w' out' cleaned \<longleftrightarrow> (\<exists>d. wk_state w = Starting d) \<and> wk_state w' = Idle \<and> out' = out \<and> cleaned = []"

definition poll_finished ::
  "'s native_write \<Rightarrow> 's job list \<Rightarrow> poll_env \<Rightarrow> 's worker \<Rightarrow> outcomes \<Rightarrow> raised + (unit, string) Result \<Rightarrow> 's worker \<Rightarrow> outcomes \<Rightarrow>
   path list \<Rightarrow> bool" where
  "poll_finished write jobs env w out r w' out' cleaned \<longleftrightarrow>
     (\<exists>i d p name source res. wk_state w = Active i d p \<and> i < length jobs \<and> jobs ! i = SourceJob name source \<and>
       run_source write name source = Inr res \<and> wk_state w' = Idle \<and> out' = AList.update i res out \<and>
       (case pe_cleanup env of None \<Rightarrow> cleaned = [p] | Some e \<Rightarrow> cleaned = [] \<and> r = Inl e))"

lemma poll_spec:
  assumes ok: "conversation write jobs w" and run: "poll write env w out = (r, w', out', cleaned)"
  shows "conversation write jobs w' \<and>
    (poll_quiet env w out r w' out' cleaned \<or> poll_started w out w' out' cleaned \<or>
     poll_finished write jobs env w out r w' out' cleaned)"
proof -
  let ?w1 = "child_run write (pe_before env) w"
  have ok1: "conversation write jobs ?w1" by (rule conversation_child_run [OF ok])
  show ?thesis
  proof (cases "next_wire (pe_eof env) ?w1")
    case None
    obtain r1 w1 where life: "poll_lifetime write env ?w1 = (r1, w1)" by fastforce
    then have "r = Inr r1" "w' = w1" "out' = out" "cleaned = []" using run None by (auto simp: poll_def Let_def)
    then show ?thesis using poll_lifetime_spec [OF ok1 life] by (auto simp: poll_quiet_def)
  next
    case (Some mw)
    then obtain m w2 where mw: "next_wire (pe_eof env) ?w1 = Some (m, w2)" by (cases mw) auto
    have st: "wk_state w2 = wk_state w" using next_wire_expected [OF ok1 mw] by simp
    from next_wire_expected [OF ok1 mw] consider
        (final) "final_wire m" "conversation write jobs w2"
      | (ready) d where "m = Message Ready" "wk_state w = Starting d" "conversation write jobs (w2\<lparr>wk_state := Idle\<rparr>)"
      | (finished) i d p name source res where "wk_state w = Active i d p" "i < length jobs" "jobs ! i = SourceJob name source"
          "run_source write name source = Inr res" "m = Message (Finished res)" "conversation write jobs (w2\<lparr>wk_state := Idle\<rparr>)"
      by auto
    then show ?thesis
    proof cases
      case final
      then show ?thesis using run mw st
        by (cases m rule: final_wire.cases) (auto simp: poll_def poll_quiet_def Let_def receive_def split: interrupt_kind.splits)
    next
      case ready
      obtain r1 w1 where life: "poll_lifetime write env (w2\<lparr>wk_state := Idle\<rparr>) = (r1, w1)" by fastforce
      then have "r = Inr r1" "w' = w1" "out' = out" "cleaned = []" using run mw ready by (auto simp: poll_def Let_def receive_def)
      then show ?thesis using poll_lifetime_spec(1,2) [OF ready(3) life] ready by (auto simp: poll_started_def)
    next
      case finished
      obtain r1 w1 where life: "poll_lifetime write env (w2\<lparr>wk_state := Idle\<rparr>) = (r1, w1)" by fastforce
      show ?thesis
      proof (cases "pe_cleanup env")
        case None
        then have "r = Inr r1" "w' = w1" "out' = AList.update i res out" "cleaned = [p]"
          using run mw finished st life by (auto simp: poll_def Let_def receive_def)
        then show ?thesis using poll_lifetime_spec(1,2) [OF finished(6) life] finished None by (auto simp: poll_finished_def)
      next
        case (Some e)
        then show ?thesis using run mw finished st by (auto simp: poll_def Let_def receive_def poll_finished_def)
      qed
    qed
  qed
qed

section \<open>Steps of the pool\<close>

definition produced :: "'s native_write \<Rightarrow> 's job list \<Rightarrow> nat \<Rightarrow> CacheWriteResult \<Rightarrow> bool" where
  "produced write jobs i r =
     (case jobs ! i of
        Rejected name msg \<Rightarrow> r = CacheWriteError name msg
      | SourceJob name source \<Rightarrow> run_source write name source = Inr r \<or> (\<exists>msg. r = CacheWriteError name msg))"

definition active_ids :: "'s worker list \<Rightarrow> nat list" where
  "active_ids ws = concat (map (\<lambda>w. held_index (wk_state w)) ws)"

definition held_temporaries :: "'s worker list \<Rightarrow> path list" where
  "held_temporaries ws = concat (map (\<lambda>w. held_paths (wk_state w)) ws)"

text \<open>
  The effects the supervision loop is made of. \<open>faulty\<close> allows a temporary directory whose removal
  raises; everything else is common to all runs.
\<close>

inductive pool_step :: "'s native_write \<Rightarrow> 's job list \<Rightarrow> bool \<Rightarrow> 's pool \<Rightarrow> 's pool \<Rightarrow> bool"
  for nw jobs faulty where
  quiet: "\<lbrakk>k < length (pool_workers pool); wk_state w = wk_state (pool_workers pool ! k); conversation nw jobs w\<rbrakk> \<Longrightarrow>
    pool_step nw jobs faulty pool (pool\<lparr>pool_workers := (pool_workers pool)[k := w]\<rparr>)"
| started: "\<lbrakk>k < length (pool_workers pool); wk_state (pool_workers pool ! k) = Starting d; wk_state w = Idle;
     conversation nw jobs w\<rbrakk> \<Longrightarrow>
    pool_step nw jobs faulty pool (pool\<lparr>pool_workers := (pool_workers pool)[k := w]\<rparr>)"
| finished: "\<lbrakk>k < length (pool_workers pool); wk_state (pool_workers pool ! k) = Active i d p; i < length jobs;
     jobs ! i = SourceJob name source; run_source nw name source = Inr r; wk_state w = Idle; conversation nw jobs w;
     cleaned = [p] \<or> faulty \<and> cleaned = []\<rbrakk> \<Longrightarrow>
    pool_step nw jobs faulty pool (pool\<lparr>pool_workers := (pool_workers pool)[k := w],
      pool_outcomes := AList.update i r (pool_outcomes pool), pool_cleaned := pool_cleaned pool @ cleaned\<rparr>)"
| refused: "\<lbrakk>pool_next pool < length jobs; jobs ! pool_next pool = Rejected name msg \<or> jobs ! pool_next pool = SourceJob name source\<rbrakk> \<Longrightarrow>
    pool_step nw jobs faulty pool (record_outcome (pool_next pool) (CacheWriteError name msg) (pool\<lparr>pool_next := pool_next pool + 1\<rparr>))"
| dispatched: "\<lbrakk>pool_next pool < length jobs; jobs ! pool_next pool = SourceJob name source; k < length (pool_workers pool);
     wk_state (pool_workers pool ! k) = Idle\<rbrakk> \<Longrightarrow>
    pool_step nw jobs faulty pool (pool\<lparr>pool_next := pool_next pool + 1,
      pool_workers := (pool_workers pool)[k := (pool_workers pool ! k)\<lparr>wk_state := Active (pool_next pool) d q,
        wk_mailbox := Some (JobMail name source)\<rparr>],
      pool_dispatched := pool_dispatched pool @ [(k, pool_next pool)], pool_owned := pool_owned pool @ [q]\<rparr>)"
| reported: "pool_step nw jobs faulty pool (pool\<lparr>pool_reported := n, pool_progress := lines\<rparr>)"

inductive_cases pool_stepE: "pool_step write jobs faulty pool pool'"

lemma poll_worker_step:
  assumes ok: "list_all (conversation write jobs) (pool_workers pool)" and k: "k < length (pool_workers pool)"
    and run: "poll_worker write env k pool = (r, pool')" and faulty: "pe_cleanup env \<noteq> None \<Longrightarrow> faulty"
  shows "pool_step write jobs faulty pool pool'"
proof -
  obtain r1 w out cleaned where poll: "poll write env (pool_workers pool ! k) (pool_outcomes pool) = (r1, w, out, cleaned)"
    by (cases "poll write env (pool_workers pool ! k) (pool_outcomes pool)") auto
  then have pool': "pool' = pool\<lparr>pool_workers := (pool_workers pool)[k := w], pool_outcomes := out,
      pool_cleaned := pool_cleaned pool @ cleaned\<rparr>" and r: "r = r1" using run by (auto simp: poll_worker_def)
  have "conversation write jobs (pool_workers pool ! k)" using ok k by (simp add: list_all_length)
  from poll_spec [OF this poll] have w: "conversation write jobs w" and cases:
      "poll_quiet env (pool_workers pool ! k) (pool_outcomes pool) r1 w out cleaned \<or>
       poll_started (pool_workers pool ! k) (pool_outcomes pool) w out cleaned \<or>
       poll_finished write jobs env (pool_workers pool ! k) (pool_outcomes pool) r1 w out cleaned" by auto
  from cases show ?thesis
  proof (elim disjE)
    assume "poll_quiet env (pool_workers pool ! k) (pool_outcomes pool) r1 w out cleaned"
    then show ?thesis using pool_step.quiet [OF k _ w] pool' by (auto simp: poll_quiet_def)
  next
    assume "poll_started (pool_workers pool ! k) (pool_outcomes pool) w out cleaned"
    then show ?thesis using pool_step.started [OF k _ _ w] pool' by (auto simp: poll_started_def)
  next
    assume "poll_finished write jobs env (pool_workers pool ! k) (pool_outcomes pool) r1 w out cleaned"
    then obtain i d p name source res where fin: "wk_state (pool_workers pool ! k) = Active i d p" "i < length jobs"
        "jobs ! i = SourceJob name source" "run_source write name source = Inr res" "wk_state w = Idle"
        "out = AList.update i res (pool_outcomes pool)" "cleaned = [p] \<or> pe_cleanup env \<noteq> None \<and> cleaned = []"
      by (auto simp: poll_finished_def split: option.splits)
    then have "cleaned = [p] \<or> faulty \<and> cleaned = []" using faulty by blast
    from pool_step.finished [OF k fin(1-5) w this] show ?thesis using pool' fin(6) by simp
  qed
qed

lemma dispatch_cases:
  "(\<exists>msg. dispatch env i name p timeout = Inl (CacheWriteError name msg)) \<or>
   (\<exists>q. dispatch env i name p timeout = Inr (Active i (de_clock env + timeout) q))"
  by (auto simp: dispatch_def destination_def split: option.split sum.split bool.split)

lemma assign_next_step:
  assumes "idle_at pool k" and "pool_next pool < length jobs" and "k < length (pool_workers pool)"
  shows "pool_step write jobs faulty pool (assign_next env timeout p jobs k pool)"
proof (cases "jobs ! pool_next pool")
  case (Rejected name msg)
  then show ?thesis using pool_step.refused [OF assms(2), of name msg] by (simp add: assign_next_def Let_def)
next
  case (SourceJob name source)
  from dispatch_cases [of "env (pool_next pool)" "pool_next pool" name p timeout] show ?thesis
  proof (elim disjE exE)
    fix msg
    assume "dispatch (env (pool_next pool)) (pool_next pool) name p timeout = Inl (CacheWriteError name msg)"
    then show ?thesis using pool_step.refused [OF assms(2), of name msg] SourceJob by (simp add: assign_next_def Let_def)
  next
    fix q
    assume "dispatch (env (pool_next pool)) (pool_next pool) name p timeout =
      Inr (Active (pool_next pool) (de_clock (env (pool_next pool)) + timeout) q)"
    then show ?thesis using pool_step.dispatched [OF assms(2) SourceJob assms(3)] SourceJob assms(1)
      by (simp add: assign_next_def Let_def idle_at_def)
  qed
qed

lemma report_progress_step: "pool_step write jobs faulty pool (report_progress config n pool)"
proof -
  have "pool\<lparr>pool_reported := pool_reported pool, pool_progress := pool_progress pool\<rparr> = pool" by simp
  then show ?thesis using pool_step.reported [where n = "pool_reported pool" and lines = "pool_progress pool" and pool = pool]
    by (auto simp: report_progress_def Let_def intro: pool_step.reported)
qed

section \<open>Bookkeeping\<close>

lemma update_fresh: "i \<notin> fst ` set al \<Longrightarrow> AList.update i r al = al @ [(i, r)]"
  by (induction al) auto

lemma mset_concat_update:
  assumes "k < length ws"
  shows "mset (concat (map f (ws[k := w]))) + mset (f (ws ! k)) = mset (concat (map f ws)) + mset (f w)"
  using assms
proof (induction ws arbitrary: k)
  case (Cons v ws)
  then show ?case by (cases k) (auto simp: ac_simps dest!: Cons.IH)
qed simp

lemma active_ids_update:
  "k < length ws \<Longrightarrow>
   mset (active_ids (ws[k := w])) + mset (held_index (wk_state (ws ! k))) = mset (active_ids ws) + mset (held_index (wk_state w))"
  unfolding active_ids_def by (rule mset_concat_update)

lemma held_temporaries_update:
  "k < length ws \<Longrightarrow>
   mset (held_temporaries (ws[k := w])) + mset (held_paths (wk_state (ws ! k))) = mset (held_temporaries ws) + mset (held_paths (wk_state w))"
  unfolding held_temporaries_def by (rule mset_concat_update)

text \<open>
  The invariant: every conversation is in order; the sources up to \<open>next_index\<close> are, without repetition,
  those with an outcome and those a worker holds; outcomes are those of their own source; sources are
  dispatched in input order, each at most once.
\<close>

definition pool_ok :: "'s native_write \<Rightarrow> 's job list \<Rightarrow> 's pool \<Rightarrow> bool" where
  "pool_ok write jobs pool \<longleftrightarrow>
     list_all (conversation write jobs) (pool_workers pool) \<and> pool_next pool \<le> length jobs \<and>
     mset (map fst (pool_outcomes pool)) + mset (active_ids (pool_workers pool)) = mset [0..<pool_next pool] \<and>
     (\<forall>(i, r)\<in>set (pool_outcomes pool). produced write jobs i r) \<and>
     sorted_wrt (<) (map snd (pool_dispatched pool)) \<and> (\<forall>i\<in>set (map snd (pool_dispatched pool)). i < pool_next pool)"

lemma pool_ok_partition:
  assumes "pool_ok write jobs pool"
  shows "set (map fst (pool_outcomes pool)) \<union> set (active_ids (pool_workers pool)) = {..<pool_next pool}"
    and "distinct (map fst (pool_outcomes pool))" and "distinct (active_ids (pool_workers pool))"
    and "set (map fst (pool_outcomes pool)) \<inter> set (active_ids (pool_workers pool)) = {}"
proof -
  have eq: "mset (map fst (pool_outcomes pool) @ active_ids (pool_workers pool)) = mset [0..<pool_next pool]"
    using assms by (simp add: pool_ok_def)
  then have "distinct (map fst (pool_outcomes pool) @ active_ids (pool_workers pool))" using distinct_upt mset_eq_imp_distinct_iff by blast
  then show "distinct (map fst (pool_outcomes pool))" "distinct (active_ids (pool_workers pool))"
    "set (map fst (pool_outcomes pool)) \<inter> set (active_ids (pool_workers pool)) = {}" by simp_all
  have "set (map fst (pool_outcomes pool) @ active_ids (pool_workers pool)) = set [0..<pool_next pool]" by (rule mset_eq_setD [OF eq])
  then show "set (map fst (pool_outcomes pool)) \<union> set (active_ids (pool_workers pool)) = {..<pool_next pool}"
    by (simp only: set_append set_upt lessThan_atLeast0)
qed

lemma held_in_active:
  assumes "k < length (pool_workers pool)" and "wk_state (pool_workers pool ! k) = Active i d p"
  shows "i \<in> set (active_ids (pool_workers pool))"
  using assms nth_mem [OF assms(1)] unfolding active_ids_def by (auto intro!: bexI [of _ "pool_workers pool ! k"])

lemma conversation_dispatched:
  assumes "conversation write jobs w" and "wk_state w = Idle" and "i < length jobs" and "jobs ! i = SourceJob name source"
  shows "conversation write jobs (w\<lparr>wk_state := Active i d q, wk_mailbox := Some (JobMail name source)\<rparr>)"
  using assms by (auto simp: conversation_def split: child.splits)

lemma list_all_update: "list_all P xs \<Longrightarrow> P x \<Longrightarrow> list_all P (xs[k := x])"
  using set_update_subset_insert [of xs k x] by (auto simp: list_all_iff)

lemma pool_ok_step:
  assumes step: "pool_step write jobs faulty pool pool'" and ok: "pool_ok write jobs pool"
  shows "pool_ok write jobs pool'"
  using step
proof cases
  case (quiet k w)
  then show ?thesis using ok active_ids_update [OF quiet(2), of w] by (simp add: pool_ok_def list_all_update)
next
  case (started k d w)
  then show ?thesis using ok active_ids_update [OF started(2), of w] by (simp add: pool_ok_def list_all_update)
next
  case (finished k i d p name source r w cleaned)
  have "i \<notin> fst ` set (pool_outcomes pool)"
    using pool_ok_partition(4) [OF ok] held_in_active [OF finished(2,3)] by auto
  then have "AList.update i r (pool_outcomes pool) = pool_outcomes pool @ [(i, r)]" by (rule update_fresh)
  moreover have "produced write jobs i r" using finished by (simp add: produced_def)
  moreover have "mset (active_ids (pool_workers pool)) = add_mset i (mset (active_ids ((pool_workers pool)[k := w])))"
    using active_ids_update [OF finished(2), of w] finished(3,7) by simp
  ultimately show ?thesis using ok finished(1,8) by (simp add: pool_ok_def list_all_update)
next
  case (refused name msg source)
  have "pool_next pool \<notin> fst ` set (pool_outcomes pool)" using pool_ok_partition(1) [OF ok] by auto
  then have "AList.update (pool_next pool) (CacheWriteError name msg) (pool_outcomes pool) =
      pool_outcomes pool @ [(pool_next pool, CacheWriteError name msg)]" by (rule update_fresh)
  moreover have "produced write jobs (pool_next pool) (CacheWriteError name msg)" using refused(3) by (auto simp: produced_def)
  moreover have "mset [0..<pool_next pool + 1] = add_mset (pool_next pool) (mset [0..<pool_next pool])" by simp
  ultimately show ?thesis using ok refused(1,2) unfolding pool_ok_def record_outcome_def by (auto simp del: mset_upt upt_Suc)
next
  case (dispatched name source k q d)
  let ?w = "(pool_workers pool ! k)\<lparr>wk_state := Active (pool_next pool) d q, wk_mailbox := Some (JobMail name source)\<rparr>"
  have "conversation write jobs (pool_workers pool ! k)" using ok dispatched(4) by (simp add: pool_ok_def list_all_length)
  then have "conversation write jobs ?w" by (rule conversation_dispatched [OF _ dispatched(5,2,3)])
  moreover have "mset (active_ids ((pool_workers pool)[k := ?w])) = add_mset (pool_next pool) (mset (active_ids (pool_workers pool)))"
    using active_ids_update [OF dispatched(4), of ?w] dispatched(5) by simp
  moreover have "mset [0..<pool_next pool + 1] = add_mset (pool_next pool) (mset [0..<pool_next pool])" by simp
  ultimately show ?thesis using ok dispatched(1,2) unfolding pool_ok_def
    by (auto simp: list_all_update sorted_wrt_append simp del: mset_upt upt_Suc)
next
  case (reported n lines)
  then show ?thesis using ok by (simp add: pool_ok_def)
qed

lemma pool_ok_steps: "(pool_step write jobs faulty)\<^sup>*\<^sup>* pool pool' \<Longrightarrow> pool_ok write jobs pool \<Longrightarrow> pool_ok write jobs pool'"
  by (induction rule: rtranclp_induct) (auto intro: pool_ok_step)

section \<open>The loop is made of these steps\<close>

lemma pool_step_length: "pool_step write jobs faulty pool pool' \<Longrightarrow> length (pool_workers pool') = length (pool_workers pool)"
  by (erule pool_stepE) (simp_all add: record_outcome_def)

lemma pool_steps_length: "(pool_step write jobs faulty)\<^sup>*\<^sup>* pool pool' \<Longrightarrow> length (pool_workers pool') = length (pool_workers pool)"
  by (induction rule: rtranclp_induct) (auto dest: pool_step_length)

lemma poll_all_steps:
  assumes "pool_ok write jobs pool" and "\<forall>k\<in>set ks. k < length (pool_workers pool)" and "poll_all write env ks pool = (r, pool')"
    and "\<And>k. pe_cleanup (env k) \<noteq> None \<Longrightarrow> faulty"
  shows "(pool_step write jobs faulty)\<^sup>*\<^sup>* pool pool'"
  using assms(1-3)
proof (induction ks arbitrary: pool r pool')
  case (Cons k ks)
  obtain r1 pool1 where one: "poll_worker write (env k) k pool = (r1, pool1)" by fastforce
  have "list_all (conversation write jobs) (pool_workers pool)" using Cons.prems(1) by (simp add: pool_ok_def)
  then have step: "pool_step write jobs faulty pool pool1"
    using poll_worker_step [OF _ _ one, of jobs faulty] Cons.prems(2) assms(4) [of k] by auto
  show ?case
  proof (cases r1)
    case (Inl e)
    then show ?thesis using Cons.prems(3) one step by auto
  next
    case (Inr res)
    obtain r2 pool2 where rest: "poll_all write env ks pool1 = (r2, pool2)" by fastforce
    have "(pool_step write jobs faulty)\<^sup>*\<^sup>* pool1 pool2"
      using Cons.IH [OF pool_ok_step [OF step Cons.prems(1)] _ rest] Cons.prems(2) pool_step_length [OF step] by simp
    moreover have "pool' = pool2" using Cons.prems(3) one Inr rest by (auto split: sum.splits)
    ultimately show ?thesis using step by auto
  qed
qed simp

lemma assign_steps:
  "k < length (pool_workers pool) \<Longrightarrow> (pool_step write jobs faulty)\<^sup>*\<^sup>* pool (assign env timeout p jobs k pool)"
proof (induction env timeout p jobs k pool rule: assign.induct)
  case (1 env timeout p jobs k pool)
  show ?case
  proof (cases "idle_at pool k \<and> pool_next pool < length jobs")
    case True
    then have step: "pool_step write jobs faulty pool (assign_next env timeout p jobs k pool)"
      using assign_next_step 1(2) by blast
    then show ?thesis
      using 1(1) [OF True] 1(2) True pool_step_length [OF step] by (simp add: assign.simps [of env timeout p jobs k pool])
  qed (auto simp: assign.simps [of env timeout p jobs k pool])
qed

lemma assign_all_steps:
  "\<forall>k\<in>set ks. k < length (pool_workers pool) \<Longrightarrow> (pool_step write jobs faulty)\<^sup>*\<^sup>* pool (assign_all env timeout p jobs ks pool)"
proof (induction ks arbitrary: pool)
  case (Cons k ks)
  have one: "(pool_step write jobs faulty)\<^sup>*\<^sup>* pool (assign env timeout p jobs k pool)" using Cons.prems by (simp add: assign_steps)
  moreover have "(pool_step write jobs faulty)\<^sup>*\<^sup>* (assign env timeout p jobs k pool)
      (assign_all env timeout p jobs ks (assign env timeout p jobs k pool))"
    using Cons pool_steps_length [OF one] by simp
  ultimately show ?case by (simp add: assign_all_def)
qed (simp add: assign_all_def)

lemma round_steps:
  assumes "pool_ok write jobs pool" and "supervise_round write env config p jobs pool = (r, pool')"
    and "\<And>k. pe_cleanup (rnd_poll env k) \<noteq> None \<Longrightarrow> faulty"
  shows "(pool_step write jobs faulty)\<^sup>*\<^sup>* pool pool'"
proof -
  let ?ks = "[0..<length (pool_workers pool)]"
  obtain r1 pool1 where polled: "poll_all write (rnd_poll env) ?ks pool = (r1, pool1)" by fastforce
  have steps: "(pool_step write jobs faulty)\<^sup>*\<^sup>* pool pool1"
    using poll_all_steps [OF assms(1) _ polled, of faulty] assms(3) by simp
  let ?pool2 = "assign_all (rnd_dispatch env) (process_timeout_seconds config) p jobs ?ks pool1"
  have "(pool_step write jobs faulty)\<^sup>*\<^sup>* pool1 ?pool2"
    using assign_all_steps [of ?ks pool1] pool_steps_length [OF steps] by simp
  then have "(pool_step write jobs faulty)\<^sup>*\<^sup>* pool1 (report_progress config (length jobs) ?pool2)"
    by (rule rtranclp.rtrancl_into_rtrancl) (rule report_progress_step)
  moreover have "pool' = pool1 \<or> pool' = report_progress config (length jobs) ?pool2"
    using assms(2) polled by (auto simp: supervise_round_def Let_def split: sum.splits option.splits)
  ultimately show ?thesis using steps by (auto intro: rtranclp_trans)
qed

lemma supervise_steps:
  assumes run: "supervise write env config p jobs n pool = Some (r, pool')" and ok: "pool_ok write jobs pool"
    and faults: "\<And>n k. pe_cleanup (rnd_poll (env n) k) \<noteq> None \<Longrightarrow> faulty"
  shows "(pool_step write jobs faulty)\<^sup>*\<^sup>* pool pool' \<and> (r = Inr (Ok ()) \<longrightarrow> length jobs \<le> length (pool_outcomes pool'))"
proof -
  have "(\<lambda>write env config p jobs n pool (r, pool'). pool_ok write jobs pool \<longrightarrow>
      (\<forall>n k. pe_cleanup (rnd_poll (env n) k) \<noteq> None \<longrightarrow> faulty) \<longrightarrow>
      (pool_step write jobs faulty)\<^sup>*\<^sup>* pool pool' \<and> (r = Inr (Ok ()) \<longrightarrow> length jobs \<le> length (pool_outcomes pool')))
      write env config p jobs n pool (r, pool')"
  proof (rule supervise.raw_induct [OF _ run], goal_cases)
    case (1 sup "write" env config p jobs n pool y)
    obtain r pool' where y: "y = (r, pool')" by (cases y)
    obtain c pool1 where rnd: "supervise_round write (env n) config p jobs pool = (c, pool1)" by fastforce
    show ?case unfolding y prod.case
    proof (intro impI)
      assume ok: "pool_ok write jobs pool" and faults: "\<forall>n k. pe_cleanup (rnd_poll (env n) k) \<noteq> None \<longrightarrow> faulty"
      have step: "(pool_step write jobs faulty)\<^sup>*\<^sup>* pool pool1" using round_steps [OF ok rnd] faults by blast
      show "(pool_step write jobs faulty)\<^sup>*\<^sup>* pool pool' \<and> (r = Inr (Ok ()) \<longrightarrow> length jobs \<le> length (pool_outcomes pool'))"
        using 1(1) [of "write" env config p jobs "Suc n" pool1 y] 1(2) y rnd step pool_ok_steps [OF step ok] faults
        by (auto split: if_splits option.splits sum.splits intro: rtranclp_trans)
    qed
  qed
  then show ?thesis using ok faults by auto
qed

section \<open>The abstract job board\<close>

text \<open>
  What supervision promises, without processes, pipes or clocks: each source is pending, running or done.
  Sources leave the pending state in input order, none goes back, and an outcome never changes. A running
  source ends with the result of running it; a pending one can only be refused under its own name.
\<close>

datatype status = Pending | Running | Done CacheWriteResult

inductive board_step :: "'s native_write \<Rightarrow> 's job list \<Rightarrow> (nat \<Rightarrow> status) \<Rightarrow> (nat \<Rightarrow> status) \<Rightarrow> bool"
  for nw jobs where
  begin_source: "\<lbrakk>i < length jobs; board i = Pending; \<forall>j<i. board j \<noteq> Pending; jobs ! i = SourceJob name source\<rbrakk> \<Longrightarrow>
    board_step nw jobs board (board(i := Running))"
| refuse_source: "\<lbrakk>i < length jobs; board i = Pending; \<forall>j<i. board j \<noteq> Pending; job_label (jobs ! i) = name\<rbrakk> \<Longrightarrow>
    board_step nw jobs board (board(i := Done (CacheWriteError name msg)))"
| end_source: "\<lbrakk>i < length jobs; board i = Running; jobs ! i = SourceJob name source; run_source nw name source = Inr r\<rbrakk> \<Longrightarrow>
    board_step nw jobs board (board(i := Done r))"

definition board_of :: "'s pool \<Rightarrow> nat \<Rightarrow> status" where
  "board_of pool i =
     (case map_of (pool_outcomes pool) i of
        Some r \<Rightarrow> Done r
      | None \<Rightarrow> if i \<in> set (active_ids (pool_workers pool)) then Running else Pending)"

lemma board_of_pending:
  assumes "pool_ok write jobs pool"
  shows "board_of pool i = Pending \<longleftrightarrow> pool_next pool \<le> i"
proof -
  have "board_of pool i = Pending \<longleftrightarrow> i \<notin> set (map fst (pool_outcomes pool)) \<union> set (active_ids (pool_workers pool))"
    by (auto simp: board_of_def simp flip: map_of_eq_None_iff split: option.splits)
  then show ?thesis unfolding pool_ok_partition(1) [OF assms] by auto
qed

lemma active_ids_same: "k < length ws \<Longrightarrow> wk_state w = wk_state (ws ! k) \<Longrightarrow> active_ids (ws[k := w]) = active_ids ws"
proof -
  assume "k < length ws" "wk_state w = wk_state (ws ! k)"
  then have "map (\<lambda>w. held_index (wk_state w)) (ws[k := w]) = map (\<lambda>w. held_index (wk_state w)) ws"
    by (simp add: map_update list_update_same_conv)
  then show "active_ids (ws[k := w]) = active_ids ws" by (simp add: active_ids_def)
qed

lemma active_ids_set_update:
  assumes "distinct (active_ids ws)" and "k < length ws"
  shows "set (active_ids (ws[k := w])) = set (active_ids ws) - set (held_index (wk_state (ws ! k))) \<union> set (held_index (wk_state w))"
proof -
  let ?old = "held_index (wk_state (ws ! k))"
  have eq: "mset (active_ids (ws[k := w])) + mset ?old = mset (active_ids ws) + mset (held_index (wk_state w))"
    by (rule active_ids_update [OF assms(2)])
  have sub: "mset ?old \<subseteq># mset (active_ids ws)"
  proof (cases "wk_state (ws ! k)")
    case (Active i d p)
    then have "i \<in> set (active_ids ws)" using assms(2) by (force simp: active_ids_def intro: nth_mem)
    then show ?thesis using Active by simp
  qed simp_all
  then have "mset (active_ids (ws[k := w])) = (mset (active_ids ws) - mset ?old) + mset (held_index (wk_state w))"
    using eq by (metis add_diff_cancel_right' subset_mset.add_diff_assoc2 union_commute)
  then have "set_mset (mset (active_ids (ws[k := w]))) = set_mset (mset (active_ids ws) - mset ?old) \<union> set (held_index (wk_state w))"
    by simp
  moreover have "set_mset (mset (active_ids ws) - mset ?old) = set (active_ids ws) - set ?old"
    using assms(1) by (simp add: set_mset_diff distinct_count_atmost_1 in_diff_count set_eq_iff flip: mset_remove1)
  ultimately show ?thesis by simp
qed

lemma board_of_step:
  assumes step: "pool_step write jobs faulty pool pool'" and ok: "pool_ok write jobs pool"
  shows "board_of pool' = board_of pool \<or> board_step write jobs (board_of pool) (board_of pool')"
  using step
proof cases
  case (quiet k w)
  then show ?thesis using active_ids_same [OF quiet(2,3)] by (simp add: board_of_def fun_eq_iff)
next
  case (started k d w)
  then show ?thesis using active_ids_set_update [OF pool_ok_partition(3) [OF ok] started(2), of w]
    by (auto simp: board_of_def fun_eq_iff split: option.split)
next
  case (finished k i d p name source r w cleaned)
  have i: "i \<in> set (active_ids (pool_workers pool))" "i \<notin> fst ` set (pool_outcomes pool)"
    using pool_ok_partition(4) [OF ok] held_in_active [OF finished(2,3)] by auto
  then have "board_of pool i = Running" by (simp add: board_of_def map_of_eq_None_iff [THEN iffD2])
  then have "board_step write jobs (board_of pool) ((board_of pool)(i := Done r))"
    by (rule board_step.end_source [OF finished(4) _ finished(5,6)])
  moreover have "board_of pool' = (board_of pool)(i := Done r)"
    using active_ids_set_update [OF pool_ok_partition(3) [OF ok] finished(2), of w] finished(1,3,7) i
    by (auto simp: board_of_def fun_eq_iff update_conv' split: option.split)
  ultimately show ?thesis by simp
next
  case (refused name msg source)
  let ?i = "pool_next pool"
  have "job_label (jobs ! ?i) = name" using refused(3) by auto
  then have "board_step write jobs (board_of pool) ((board_of pool)(?i := Done (CacheWriteError name msg)))"
    using board_step.refuse_source [of ?i jobs "board_of pool"] refused(2) board_of_pending [OF ok] by simp
  moreover have "board_of pool' = (board_of pool)(?i := Done (CacheWriteError name msg))"
    using refused(1) by (auto simp: board_of_def record_outcome_def fun_eq_iff update_conv' split: option.split)
  ultimately show ?thesis by simp
next
  case (dispatched name source k q d)
  let ?i = "pool_next pool"
  have "board_step write jobs (board_of pool) ((board_of pool)(?i := Running))"
    using board_step.begin_source [of ?i jobs "board_of pool"] dispatched(2,3) board_of_pending [OF ok] by simp
  moreover have "map_of (pool_outcomes pool) ?i = None" using pool_ok_partition(1) [OF ok] by (force simp: map_of_eq_None_iff)
  then have "board_of pool' = (board_of pool)(?i := Running)"
    using active_ids_set_update [OF pool_ok_partition(3) [OF ok] dispatched(4)] dispatched(1,5)
    by (auto simp: board_of_def fun_eq_iff split: option.split)
  ultimately show ?thesis by simp
next
  case (reported n lines)
  then show ?thesis by (simp add: board_of_def fun_eq_iff)
qed

lemma board_of_steps:
  assumes "(pool_step write jobs faulty)\<^sup>*\<^sup>* pool pool'" and "pool_ok write jobs pool"
  shows "(board_step write jobs)\<^sup>*\<^sup>* (board_of pool) (board_of pool')"
  using assms
proof (induction rule: rtranclp_induct)
  case (step pool1 pool2)
  then show ?case using board_of_step [OF step(2) pool_ok_steps [OF step(1) assms(2)]]
    by (metis rtranclp.rtrancl_into_rtrancl)
qed simp

section \<open>Progress\<close>

fun deadline :: "worker_state \<Rightarrow> rat option" where
  "deadline (Starting d) = Some d"
| "deadline Idle = None"
| "deadline (Active i d p) = Some d"

fun is_starting :: "worker_state \<Rightarrow> bool" where
  "is_starting (Starting d) = True"
| "is_starting st = False"

text \<open>Children yet to report and outcomes yet to come: what the loop can still achieve.\<close>

definition potential :: "'s job list \<Rightarrow> 's pool \<Rightarrow> nat" where
  "potential jobs pool = length (filter (\<lambda>w. is_starting (wk_state w)) (pool_workers pool)) + (length jobs - length (pool_outcomes pool))"

definition same_progress :: "'s pool \<Rightarrow> 's pool \<Rightarrow> bool" where
  "same_progress pool pool' \<longleftrightarrow> map wk_state (pool_workers pool') = map wk_state (pool_workers pool) \<and>
     pool_outcomes pool' = pool_outcomes pool \<and> pool_next pool' = pool_next pool"

lemma same_progress_trans: "same_progress a b \<Longrightarrow> same_progress b c \<Longrightarrow> same_progress a c"
  by (simp add: same_progress_def)

lemma filter_length_states:
  "length (filter (\<lambda>w. P (wk_state w)) ws) = length (filter P (map wk_state ws))"
  by (simp add: filter_map o_def)

lemma same_progress_potential: "same_progress pool pool' \<Longrightarrow> potential jobs pool' = potential jobs pool"
  by (simp add: potential_def same_progress_def filter_length_states)

lemma same_progress_state:
  assumes "same_progress pool pool'" and "k < length (pool_workers pool)"
  shows "wk_state (pool_workers pool' ! k) = wk_state (pool_workers pool ! k)"
proof -
  have "map wk_state (pool_workers pool') ! k = map wk_state (pool_workers pool) ! k" "length (pool_workers pool') = length (pool_workers pool)"
    using assms(1) by (auto simp: same_progress_def dest: map_eq_imp_length_eq)
  then show ?thesis using assms(2) by simp
qed

lemma outcomes_bound:
  assumes "pool_ok write jobs pool"
  shows "length (pool_outcomes pool) + length (active_ids (pool_workers pool)) = pool_next pool" and "pool_next pool \<le> length jobs"
proof -
  have "size (mset (map fst (pool_outcomes pool)) + mset (active_ids (pool_workers pool))) = size (mset [0..<pool_next pool])"
    using assms by (simp add: pool_ok_def)
  then show "length (pool_outcomes pool) + length (active_ids (pool_workers pool)) = pool_next pool"
    by (simp only: size_union size_mset length_map length_upt diff_zero)
  show "pool_next pool \<le> length jobs" using assms by (simp add: pool_ok_def)
qed

lemma starting_update:
  assumes "k < length ws"
  shows "length (filter (\<lambda>w. is_starting (wk_state w)) (ws[k := w])) + (if is_starting (wk_state (ws ! k)) then 1 else 0) =
    length (filter (\<lambda>w. is_starting (wk_state w)) ws) + (if is_starting (wk_state w) then 1 else 0)"
  using assms
proof (induction ws arbitrary: k)
  case (Cons v ws)
  then show ?case by (cases k) auto
qed simp

text \<open>Every step keeps or lowers the potential, except that handing out jobs leaves it alone.\<close>

lemma potential_step:
  assumes step: "pool_step write jobs faulty pool pool'" and ok: "pool_ok write jobs pool"
  shows "potential jobs pool' \<le> potential jobs pool"
  using step
proof cases
  case (quiet k w)
  then show ?thesis using starting_update [OF quiet(2), of w] by (simp add: potential_def)
next
  case (started k d w)
  then show ?thesis using starting_update [OF started(2), of w] by (simp add: potential_def)
next
  case (finished k i d p name source r w cleaned)
  have "i \<notin> fst ` set (pool_outcomes pool)"
    using pool_ok_partition(4) [OF ok] held_in_active [OF finished(2,3)] by auto
  then show ?thesis using starting_update [OF finished(2), of w] finished by (simp add: potential_def update_fresh)
next
  case (refused name msg source)
  have "pool_next pool \<notin> fst ` set (pool_outcomes pool)" using pool_ok_partition(1) [OF ok] by auto
  then show ?thesis using refused(1) by (simp add: potential_def record_outcome_def update_fresh)
next
  case (dispatched name source k q d)
  then show ?thesis using starting_update [OF dispatched(4)] by (simp add: potential_def)
next
  case (reported n lines)
  then show ?thesis by (simp add: potential_def)
qed

lemma potential_steps:
  assumes "(pool_step write jobs faulty)\<^sup>*\<^sup>* pool pool'" and "pool_ok write jobs pool"
  shows "potential jobs pool' \<le> potential jobs pool"
  using assms
proof (induction rule: rtranclp_induct)
  case (step pool1 pool2)
  then show ?case using potential_step [OF step(2) pool_ok_steps [OF step(1) assms(2)]] by simp
qed simp

lemma poll_worker_progress:
  assumes ok: "pool_ok write jobs pool" and k: "k < length (pool_workers pool)" and run: "poll_worker write env k pool = (Inr (Ok ()), pool')"
  shows "potential jobs pool' < potential jobs pool \<or>
    same_progress pool pool' \<and> (\<forall>d. deadline (wk_state (pool_workers pool ! k)) = Some d \<longrightarrow> pe_clock env < d)"
proof -
  obtain w out cleaned where poll: "poll write env (pool_workers pool ! k) (pool_outcomes pool) = (Inr (Ok ()), w, out, cleaned)"
    using run by (cases "poll write env (pool_workers pool ! k) (pool_outcomes pool)") (auto simp: poll_worker_def)
  then have pool': "pool' = pool\<lparr>pool_workers := (pool_workers pool)[k := w], pool_outcomes := out,
      pool_cleaned := pool_cleaned pool @ cleaned\<rparr>" using run by (auto simp: poll_worker_def)
  have conv: "conversation write jobs (pool_workers pool ! k)" using ok k by (simp add: pool_ok_def list_all_length)
  note starting = starting_update [OF k, of w]
  from poll_spec [OF conv poll] consider
      (quiet) "poll_quiet env (pool_workers pool ! k) (pool_outcomes pool) (Inr (Ok ())) w out cleaned"
    | (started) "poll_started (pool_workers pool ! k) (pool_outcomes pool) w out cleaned"
    | (finished) "poll_finished write jobs env (pool_workers pool ! k) (pool_outcomes pool) (Inr (Ok ())) w out cleaned" by blast
  then show ?thesis
  proof cases
    case quiet
    then have "map wk_state ((pool_workers pool)[k := w]) = map wk_state (pool_workers pool)"
      using k by (simp add: poll_quiet_def map_update list_update_same_conv)
    moreover have "pe_clock env < d" if "deadline (wk_state (pool_workers pool ! k)) = Some d" for d
      using quiet that by (cases "wk_state (pool_workers pool ! k)") (auto simp: poll_quiet_def)
    ultimately show ?thesis using quiet pool' by (auto simp: same_progress_def poll_quiet_def)
  next
    case started
    then show ?thesis using starting pool' by (auto simp: poll_started_def potential_def)
  next
    case finished
    then obtain i d p res where fin: "wk_state (pool_workers pool ! k) = Active i d p" "wk_state w = Idle"
        "out = AList.update i res (pool_outcomes pool)" by (auto simp: poll_finished_def)
    have act: "i \<in> set (active_ids (pool_workers pool))" by (rule held_in_active [OF k fin(1)])
    then have "out = pool_outcomes pool @ [(i, res)]"
      using pool_ok_partition(4) [OF ok] fin(3) update_fresh [of i "pool_outcomes pool" res] by auto
    moreover have "0 < length (active_ids (pool_workers pool))" using act by (auto simp: length_pos_if_in_set)
    then have "length (pool_outcomes pool) < length jobs" using outcomes_bound [OF ok] by linarith
    ultimately show ?thesis using starting fin(1,2) pool' by (auto simp: potential_def)
  qed
qed

lemma first_failure_Cons: "first_failure (r # rs) = None \<longleftrightarrow> r = Ok () \<and> first_failure rs = None"
  by (cases r) auto

lemma poll_all_progress:
  assumes "pool_ok write jobs pool" and "\<forall>k\<in>set ks. k < length (pool_workers pool)"
    and "poll_all write env ks pool = (Inr rs, pool')" and "first_failure rs = None"
  shows "potential jobs pool' < potential jobs pool \<or>
    same_progress pool pool' \<and> (\<forall>k\<in>set ks. \<forall>d. deadline (wk_state (pool_workers pool ! k)) = Some d \<longrightarrow> pe_clock (env k) < d)"
  using assms
proof (induction ks arbitrary: pool rs pool')
  case Nil
  then show ?case by (simp add: same_progress_def)
next
  case (Cons k ks)
  obtain pool1 rs1 where one: "poll_worker write (env k) k pool = (Inr (Ok ()), pool1)"
      and rest: "poll_all write env ks pool1 = (Inr rs1, pool')" "first_failure rs1 = None"
    using Cons.prems(3,4) by (auto simp: first_failure_Cons split: prod.splits sum.splits)
  have k: "k < length (pool_workers pool)" using Cons.prems(2) by simp
  have "list_all (conversation write jobs) (pool_workers pool)" using Cons.prems(1) by (simp add: pool_ok_def)
  then have step: "pool_step write jobs True pool pool1" using poll_worker_step [OF _ k one] by blast
  have ok1: "pool_ok write jobs pool1" by (rule pool_ok_step [OF step Cons.prems(1)])
  have ks: "\<forall>k\<in>set ks. k < length (pool_workers pool1)" using Cons.prems(2) pool_step_length [OF step] by simp
  have le: "potential jobs pool' \<le> potential jobs pool1"
    using potential_steps [OF poll_all_steps [OF ok1 ks rest(1), of True] ok1] by simp
  from poll_worker_progress [OF Cons.prems(1) k one] show ?case
  proof
    assume same: "same_progress pool pool1 \<and> (\<forall>d. deadline (wk_state (pool_workers pool ! k)) = Some d \<longrightarrow> pe_clock (env k) < d)"
    then have "wk_state (pool_workers pool1 ! j) = wk_state (pool_workers pool ! j)" if "j \<in> set ks" for j
      using same_progress_state that Cons.prems(2) by (metis list.set_intros(2))
    then show ?thesis using Cons.IH [OF ok1 ks rest] same same_progress_potential [of pool pool1 jobs]
      by (auto intro: same_progress_trans)
  qed (use le in simp)
qed

section \<open>Handing out jobs\<close>

definition settled :: "'s job list \<Rightarrow> 's pool \<Rightarrow> nat \<Rightarrow> bool" where
  "settled jobs pool k \<longleftrightarrow> \<not> (idle_at pool k \<and> pool_next pool < length jobs)"

definition due_by :: "rat \<Rightarrow> 's pool \<Rightarrow> bool" where
  "due_by t pool \<longleftrightarrow> (\<forall>w\<in>set (pool_workers pool). \<forall>d. deadline (wk_state w) = Some d \<longrightarrow> d \<le> t)"

lemma assign_settles: "settled jobs (assign env timeout p jobs k pool) k"
proof (induction env timeout p jobs k pool rule: assign.induct)
  case (1 env timeout p jobs k pool)
  then show ?case by (cases "idle_at pool k \<and> pool_next pool < length jobs")
    (auto simp: assign.simps [of env timeout p jobs k pool] settled_def)
qed

lemma assign_settled: "settled jobs pool k \<Longrightarrow> assign env timeout p jobs k pool = pool"
  unfolding assign.simps [of env timeout p jobs k pool] settled_def by (simp only: if_False)

lemma assign_next_other: "j \<noteq> k \<Longrightarrow> pool_workers (assign_next env timeout p jobs k pool) ! j = pool_workers pool ! j"
  by (simp add: assign_next_def Let_def record_outcome_def split: job.split sum.split)

lemma assign_other:
  "j \<noteq> k \<Longrightarrow> pool_workers (assign env timeout p jobs k pool) ! j = pool_workers pool ! j \<and>
   pool_next pool \<le> pool_next (assign env timeout p jobs k pool)"
proof (induction env timeout p jobs k pool rule: assign.induct)
  case (1 env timeout p jobs k pool)
  then show ?case by (cases "idle_at pool k \<and> pool_next pool < length jobs")
    (auto simp: assign.simps [of env timeout p jobs k pool] assign_next_other)
qed

lemma assign_keeps_settled: "settled jobs pool j \<Longrightarrow> settled jobs (assign env timeout p jobs k pool) j"
proof (cases "j = k")
  case True
  then show ?thesis by (simp add: assign_settles)
next
  case False
  assume "settled jobs pool j"
  then show ?thesis using assign_other [OF False, of env timeout p jobs pool] by (auto simp: settled_def idle_at_def)
qed

lemma assign_all_settles:
  "(j \<in> set ks \<or> settled jobs pool j) \<Longrightarrow> settled jobs (assign_all env timeout p jobs ks pool) j"
proof (induction ks arbitrary: pool)
  case (Cons k ks)
  then have "j \<in> set ks \<or> settled jobs (assign env timeout p jobs k pool) j"
    using assign_settles [of jobs env timeout p k pool] assign_keeps_settled [of jobs pool j env timeout p k] by auto
  from Cons.IH [OF this] show ?case by (simp add: assign_all_def)
qed (simp add: assign_all_def)

lemma assign_all_settled: "\<forall>k\<in>set ks. settled jobs pool k \<Longrightarrow> assign_all env timeout p jobs ks pool = pool"
  by (induction ks) (simp_all add: assign_all_def assign_settled)

lemma assign_next_due:
  assumes "due_by t pool" and "\<And>i. de_clock (env i) + timeout \<le> t"
  shows "due_by t (assign_next env timeout p jobs k pool)"
proof (cases "jobs ! pool_next pool")
  case (Rejected name msg)
  then show ?thesis using assms(1) by (simp add: assign_next_def Let_def record_outcome_def due_by_def)
next
  case (SourceJob name source)
  let ?ws = "pool_workers pool" and ?i = "pool_next pool"
  have upd: "due_by t (pool\<lparr>pool_next := a, pool_workers := ?ws[k := w], pool_dispatched := b, pool_owned := c\<rparr>)"
    if "deadline (wk_state w) = Some d" "d \<le> t" for w a b c d
    using assms(1) that set_update_subset_insert [of ?ws k w] by (auto simp: due_by_def)
  from dispatch_cases [of "env ?i" ?i name p timeout] show ?thesis
  proof (elim disjE exE)
    fix msg
    assume "dispatch (env ?i) ?i name p timeout = Inl (CacheWriteError name msg)"
    then show ?thesis using assms(1) SourceJob by (simp add: assign_next_def Let_def record_outcome_def due_by_def)
  next
    fix q
    assume "dispatch (env ?i) ?i name p timeout = Inr (Active ?i (de_clock (env ?i) + timeout) q)"
    then show ?thesis using SourceJob upd [OF _ assms(2)] by (simp add: assign_next_def Let_def)
  qed
qed

lemma assign_due:
  assumes "due_by t pool" and "\<And>i. de_clock (env i) + timeout \<le> t"
  shows "due_by t (assign env timeout p jobs k pool)"
  using assms
proof (induction env timeout p jobs k pool rule: assign.induct)
  case (1 env timeout p jobs k pool)
  have "due_by t (assign_next env timeout p jobs k pool)" by (rule assign_next_due) (use 1 in auto)
  then show ?case using 1 by (cases "idle_at pool k \<and> pool_next pool < length jobs")
    (auto simp: assign.simps [of env timeout p jobs k pool])
qed

lemma assign_all_due:
  assumes "\<And>i. de_clock (env i) + timeout \<le> t"
  shows "due_by t pool \<Longrightarrow> due_by t (assign_all env timeout p jobs ks pool)"
proof (induction ks arbitrary: pool)
  case (Cons k ks)
  then show ?case using Cons.IH [OF assign_due [OF Cons.prems assms]] by (simp add: assign_all_def)
qed (simp add: assign_all_def)

section \<open>Supervision ends\<close>

text \<open>
  The clock: round \<open>n\<close> begins at \<open>now n\<close> and reads no earlier time when polling; dispatches of the round
  happen before the next round begins; and each unfinished round sleeps for at least \<open>tick\<close>.
\<close>

definition clock_ok :: "(nat \<Rightarrow> round_env) \<Rightarrow> (nat \<Rightarrow> rat) \<Rightarrow> rat \<Rightarrow> bool" where
  "clock_ok env now tick \<longleftrightarrow> 0 < tick \<and>
     (\<forall>n. now n + tick \<le> now (Suc n) \<and> (\<forall>k. now n \<le> pe_clock (rnd_poll (env n) k)) \<and>
       (\<forall>i. de_clock (rnd_dispatch (env n) i) \<le> now (Suc n)))"

lemma clock_runs:
  assumes "clock_ok env now tick"
  shows "now n + of_nat m * tick \<le> now (n + m)"
proof (induction m)
  case (Suc m)
  have "now (n + m) + tick \<le> now (Suc (n + m))" using assms by (simp add: clock_ok_def)
  then show ?case using Suc by (simp add: algebra_simps)
qed simp

lemma due_by_steps:
  assumes "pool_ok write jobs pool" and "due_by t pool" and "poll_all write env ks pool = (r, pool')"
    and "\<forall>k\<in>set ks. k < length (pool_workers pool)"
  shows "due_by t pool'"
  using assms
proof (induction ks arbitrary: pool r pool')
  case (Cons k ks)
  have k: "k < length (pool_workers pool)" using Cons.prems(4) by simp
  obtain r1 pool1 where one: "poll_worker write (env k) k pool = (r1, pool1)" by fastforce
  obtain r2 w out cleaned where poll: "poll write (env k) (pool_workers pool ! k) (pool_outcomes pool) = (r2, w, out, cleaned)"
    by (cases "poll write (env k) (pool_workers pool ! k) (pool_outcomes pool)") auto
  then have pool1: "pool_workers pool1 = (pool_workers pool)[k := w]" using one by (auto simp: poll_worker_def)
  have conv: "list_all (conversation write jobs) (pool_workers pool)" using Cons.prems(1) by (simp add: pool_ok_def)
  then have "wk_state w = wk_state (pool_workers pool ! k) \<or> wk_state w = Idle"
    using poll_spec [OF _ poll, of jobs] k by (auto simp: list_all_length poll_quiet_def poll_started_def poll_finished_def)
  then have "d \<le> t" if "deadline (wk_state w) = Some d" for d
    using Cons.prems(2) that nth_mem [OF k] by (auto simp: due_by_def)
  then have due1: "due_by t pool1"
    using Cons.prems(2) set_update_subset_insert [of "pool_workers pool" k w] by (auto simp: due_by_def pool1)
  have step: "pool_step write jobs True pool pool1" using poll_worker_step [OF conv k one] by blast
  show ?case
  proof (cases r1)
    case (Inl e)
    then show ?thesis using Cons.prems(3) one due1 by simp
  next
    case (Inr a)
    obtain r3 pool3 where rest: "poll_all write env ks pool1 = (r3, pool3)" by fastforce
    have "pool' = pool3" using Cons.prems(3) one Inr rest by (auto split: sum.splits)
    then show ?thesis
      using Cons.IH [OF pool_ok_step [OF step Cons.prems(1)] due1 rest] Cons.prems(4) pool_step_length [OF step] by simp
  qed
qed simp

text \<open>An unfinished pool whose idle workers have nothing left to take still waits for somebody.\<close>

lemma somebody_due:
  assumes ok: "pool_ok write jobs pool" and "\<forall>k<length (pool_workers pool). settled jobs pool k" and "pool_workers pool \<noteq> []"
    and "length (pool_outcomes pool) < length jobs"
  shows "\<exists>k<length (pool_workers pool). \<exists>d. deadline (wk_state (pool_workers pool ! k)) = Some d"
proof (cases "pool_next pool < length jobs")
  case True
  then have "\<not> idle_at pool 0" using assms(2,3) by (auto simp: settled_def)
  then show ?thesis using assms(3) by (intro exI [of _ 0]) (cases "wk_state (pool_workers pool ! 0)"; simp add: idle_at_def)
next
  case False
  then have "active_ids (pool_workers pool) \<noteq> []" using outcomes_bound [OF ok] assms(4) by auto
  then obtain w where "w \<in> set (pool_workers pool)" "held_index (wk_state w) \<noteq> []" by (auto simp: active_ids_def)
  moreover have "\<exists>d. deadline st = Some d" if "held_index st \<noteq> []" for st using that by (cases st) auto
  ultimately show ?thesis by (metis in_set_conv_nth)
qed

text \<open>The pools between two rounds.\<close>

definition between_rounds :: "'s native_write \<Rightarrow> 's job list \<Rightarrow> rat \<Rightarrow> 's pool \<Rightarrow> bool" where
  "between_rounds write jobs t pool \<longleftrightarrow> pool_ok write jobs pool \<and> pool_workers pool \<noteq> [] \<and>
     (\<forall>k<length (pool_workers pool). settled jobs pool k) \<and> due_by t pool"

lemma round_continues:
  assumes btw: "between_rounds write jobs (now n + timeout) pool" and clock: "clock_ok env now tick"
    and timeout: "timeout = process_timeout_seconds config"
    and run: "supervise_round write (env n) config p jobs pool = (None, pool')"
  shows "between_rounds write jobs (now (Suc n) + timeout) pool' \<and>
    (potential jobs pool' < potential jobs pool \<or>
     potential jobs pool' = potential jobs pool \<and>
     (\<forall>k<length (pool_workers pool). wk_state (pool_workers pool' ! k) = wk_state (pool_workers pool ! k) \<and>
       (\<forall>d. deadline (wk_state (pool_workers pool ! k)) = Some d \<longrightarrow> now n < d)))"
proof -
  let ?ks = "[0..<length (pool_workers pool)]"
  let ?assign = "assign_all (rnd_dispatch (env n)) timeout p jobs ?ks"
  have ok: "pool_ok write jobs pool" and ks: "\<forall>k\<in>set ?ks. k < length (pool_workers pool)" using btw by (simp_all add: between_rounds_def)
  obtain rs pool1 where polled: "poll_all write (rnd_poll (env n)) ?ks pool = (Inr rs, pool1)" and fine: "first_failure rs = None"
      and pool': "pool' = report_progress config (length jobs) (?assign pool1)"
    using run timeout by (auto simp: supervise_round_def Let_def split: prod.splits sum.splits option.splits)
  have steps: "(pool_step write jobs True)\<^sup>*\<^sup>* pool pool'" by (rule round_steps [OF ok run]) simp
  have polls: "(pool_step write jobs True)\<^sup>*\<^sup>* pool pool1" by (rule poll_all_steps [OF ok ks polled]) simp
  have len: "length (pool_workers pool1) = length (pool_workers pool)" "length (pool_workers pool') = length (pool_workers pool)"
    using pool_steps_length [OF polls] pool_steps_length [OF steps] by simp_all
  have fields: "pool_workers pool' = pool_workers (?assign pool1)" "pool_next pool' = pool_next (?assign pool1)"
      "pool_outcomes pool' = pool_outcomes (?assign pool1)"
    using pool' by (simp_all add: report_progress_def Let_def)
  have settled: "settled jobs pool' k" if "k < length (pool_workers pool')" for k
    using assign_all_settles [of k ?ks jobs pool1 "rnd_dispatch (env n)" timeout p] that len
    by (simp add: settled_def idle_at_def fields)
  have mono: "now n + timeout \<le> now (Suc n) + timeout" using clock by (simp add: clock_ok_def) (meson add_increasing2 le_less order_trans)
  have "due_by (now (Suc n) + timeout) pool" using btw mono by (force simp: between_rounds_def due_by_def)
  then have "due_by (now (Suc n) + timeout) pool1" by (rule due_by_steps [OF ok _ polled ks])
  then have "due_by (now (Suc n) + timeout) (?assign pool1)"
    using clock by (intro assign_all_due) (simp_all add: clock_ok_def)
  then have "due_by (now (Suc n) + timeout) pool'" by (simp add: due_by_def fields)
  then have between: "between_rounds write jobs (now (Suc n) + timeout) pool'"
    using pool_ok_steps [OF steps ok] btw len settled by (auto simp: between_rounds_def)
  from poll_all_progress [OF ok ks polled fine] show ?thesis
  proof
    assume "potential jobs pool1 < potential jobs pool"
    moreover have "(pool_step write jobs True)\<^sup>*\<^sup>* pool1 (?assign pool1)" using len(1) by (intro assign_all_steps) simp
    then have "potential jobs (?assign pool1) \<le> potential jobs pool1" using potential_steps pool_ok_steps [OF polls ok] by blast
    ultimately show ?thesis using between fields by (simp add: potential_def)
  next
    assume same: "same_progress pool pool1 \<and>
      (\<forall>k\<in>set ?ks. \<forall>d. deadline (wk_state (pool_workers pool ! k)) = Some d \<longrightarrow> pe_clock (rnd_poll (env n) k) < d)"
    then have "\<forall>k\<in>set ?ks. settled jobs pool1 k"
      using btw same_progress_state [of pool pool1] by (auto simp: between_rounds_def settled_def idle_at_def same_progress_def)
    then have id: "?assign pool1 = pool1" by (rule assign_all_settled)
    then have "potential jobs pool' = potential jobs pool"
      using same_progress_potential [of pool pool1 jobs] same fields by (simp add: potential_def)
    moreover have "now n < d" if "k < length (pool_workers pool)" "deadline (wk_state (pool_workers pool ! k)) = Some d" for k d
    proof -
      have "pe_clock (rnd_poll (env n) k) < d" using same that by simp
      then show ?thesis using clock by (auto simp: clock_ok_def intro: le_less_trans)
    qed
    ultimately show ?thesis using between same_progress_state [of pool pool1] same fields id by simp
  qed
qed

lemma supervise_returns_within:
  assumes outer: "\<And>n' pool'. potential jobs pool' < c \<Longrightarrow> between_rounds write jobs (now n' + timeout) pool' \<Longrightarrow>
      \<exists>y. supervise write env config p jobs n' pool' = Some y"
    and clock: "clock_ok env now tick" and timeout: "timeout = process_timeout_seconds config"
    and "between_rounds write jobs (now n + timeout) pool" and "potential jobs pool = c"
    and "k < length (pool_workers pool)" and "deadline (wk_state (pool_workers pool ! k)) = Some d" and "d \<le> now (n + m)"
  shows "\<exists>y. supervise write env config p jobs n pool = Some y"
  using assms(4-)
proof (induction m arbitrary: n pool)
  case 0
  show ?case
  proof (cases "supervise_round write (env n) config p jobs pool")
    case (Pair r pool')
    show ?thesis
    proof (cases r)
      case None
      with round_continues [OF 0(1) clock timeout] Pair 0
      have "potential jobs pool' < c" "between_rounds write jobs (now (Suc n) + timeout) pool'" by fastforce+
      from outer [OF this] show ?thesis using Pair None by (subst supervise.simps) auto
    next
      case (Some e)
      then show ?thesis using Pair by (subst supervise.simps) (auto split: sum.split)
    qed
  qed
next
  case (Suc m)
  show ?case
  proof (cases "supervise_round write (env n) config p jobs pool")
    case (Pair r pool')
    show ?thesis
    proof (cases r)
      case None
      have step: "between_rounds write jobs (now (Suc n) + timeout) pool'"
          "potential jobs pool' < c \<or> potential jobs pool' = c \<and> wk_state (pool_workers pool' ! k) = wk_state (pool_workers pool ! k)"
        using round_continues [OF Suc.prems(1) clock timeout] Pair None Suc.prems by blast+
      have steps: "(pool_step write jobs True)\<^sup>*\<^sup>* pool pool'"
        using round_steps [of "write" jobs pool "env n" config p None pool' True] Suc.prems(1) Pair None
        by (simp add: between_rounds_def)
      have "\<exists>y. supervise write env config p jobs (Suc n) pool' = Some y"
        using step(2)
      proof
        assume "potential jobs pool' < c"
        then show ?thesis by (rule outer [OF _ step(1)])
      next
        assume same: "potential jobs pool' = c \<and> wk_state (pool_workers pool' ! k) = wk_state (pool_workers pool ! k)"
        then show ?thesis using Suc.IH [OF step(1)] Suc.prems pool_steps_length [OF steps] by simp
      qed
      then show ?thesis using Pair None by (subst supervise.simps) auto
    next
      case (Some e)
      then show ?thesis using Pair by (subst supervise.simps) (auto split: sum.split)
    qed
  qed
qed

lemma supervise_returns:
  assumes clock: "clock_ok env now tick" and timeout: "timeout = process_timeout_seconds config"
    and "between_rounds write jobs (now n + timeout) pool"
  shows "\<exists>y. supervise write env config p jobs n pool = Some y"
  using assms(3)
proof (induction "potential jobs pool" arbitrary: n pool rule: less_induct)
  case less
  show ?case
  proof (cases "length jobs \<le> length (pool_outcomes pool)")
    case True
    then show ?thesis by (subst supervise.simps) simp
  next
    case False
    then obtain k d where k: "k < length (pool_workers pool)" "deadline (wk_state (pool_workers pool ! k)) = Some d"
      using somebody_due [of "write" jobs pool] less.prems by (auto simp: between_rounds_def)
    then have due: "d \<le> now n + timeout" using less.prems nth_mem [OF k(1)] by (auto simp: between_rounds_def due_by_def)
    obtain m :: nat where "timeout / tick < of_nat m" using reals_Archimedean2 [of "timeout / tick"] by blast
    then have "timeout \<le> of_nat m * tick" using clock by (simp add: clock_ok_def divide_less_eq)
    then have "d \<le> now (n + m)" using due clock_runs [OF clock, of n m] by linarith
    then show ?thesis using supervise_returns_within [OF less.hyps clock timeout less.prems refl k] by blast
  qed
qed

end
