(* ===== verification/Writing.thy ===== *)
theory Writing
  imports Writer_Pool
begin

text \<open>
  What \<open>write_parallel\<close> guarantees its caller, from the invariants of the pool: it returns, it answers
  every source once and in input order, it never retries, it leaves no temporary directory behind, and
  it refuses colliding destinations before any process starts.
\<close>

section \<open>Starting workers\<close>

lemma start_all_fresh:
  assumes "start_all config started ks = (r, ws)"
  shows "\<forall>w\<in>set ws. \<exists>k\<in>set ks. \<exists>now. started k = Inr now \<and>
      w = \<lparr>wk_state = Starting (now + process_timeout_seconds config), wk_mailbox = None, wk_pipe = [], wk_child = Booting\<rparr>"
    and "r = None \<Longrightarrow> length ws = length ks"
  using assms
  by (induction ks arbitrary: r ws) (fastforce simp: start_worker_def split: sum.splits prod.splits)+

lemma fresh_pool_ok:
  assumes "start_all config started ks = (r, ws)"
  shows "pool_ok write jobs (new_pool ws)" and "active_ids ws = []" and "held_temporaries ws = []"
proof -
  have fresh: "\<exists>d. w = \<lparr>wk_state = Starting d, wk_mailbox = None, wk_pipe = [], wk_child = Booting\<rparr>" if "w \<in> set ws" for w
    using start_all_fresh(1) [OF assms] that by blast
  then have "held_index (wk_state w) = []" "held_paths (wk_state w) = []" if "w \<in> set ws" for w
    using that by force+
  then show ids: "active_ids ws = []" and "held_temporaries ws = []" by (simp_all add: active_ids_def held_temporaries_def)
  have "list_all (conversation write jobs) ws" using fresh by (force simp: list_all_iff conversation_def)
  then show "pool_ok write jobs (new_pool ws)" using ids by (simp add: pool_ok_def new_pool_def)
qed

lemma fresh_between_rounds:
  assumes "start_all config started ks = (r, ws)" and "ws \<noteq> []" and "\<And>k t. started k = Inr t \<Longrightarrow> t \<le> now"
  shows "between_rounds write jobs (now + process_timeout_seconds config) (new_pool ws)"
proof -
  have fresh: "\<exists>t\<le>now. wk_state w = Starting (t + process_timeout_seconds config)" if "w \<in> set ws" for w
    using start_all_fresh(1) [OF assms(1)] that assms(3) by fastforce
  have "settled jobs (new_pool ws) k" if "k < length ws" for k
    using fresh [OF nth_mem [OF that]] by (auto simp: settled_def idle_at_def new_pool_def)
  moreover have "due_by (now + process_timeout_seconds config) (new_pool ws)"
    using fresh by (fastforce simp: due_by_def new_pool_def)
  ultimately show ?thesis using fresh_pool_ok [OF assms(1)] assms(2) by (auto simp: between_rounds_def new_pool_def)
qed

text \<open>The steps a run of the \<open>try\<close> block is made of.\<close>

lemma run_pool_steps:
  fixes write_cache :: "path \<Rightarrow> WriterConfig \<Rightarrow> 's native_write"
  assumes run: "run_pool write_cache env config jobs = Some (r, pool)"
    and faults: "\<And>n k. pe_cleanup (rnd_poll (we_rounds env n) k) \<noteq> None \<Longrightarrow> faulty"
  shows "\<exists>q ws. (pool_step (write_cache q (child_config config)) jobs faulty)\<^sup>*\<^sup>* (new_pool ws) pool \<and>
    pool_ok (write_cache q (child_config config)) jobs (new_pool ws) \<and> active_ids ws = [] \<and> held_temporaries ws = []"
proof (cases "we_resolve env")
  case (Inl e)
  then have "pool = new_pool []" using run by (simp add: run_pool_def)
  then show ?thesis by (intro exI [of _ "undefined"] exI [of _ "[]"])
    (simp add: pool_ok_def new_pool_def active_ids_def held_temporaries_def)
next
  case (Inr q)
  obtain e and ws :: "'s worker list" where start: "start_all config (we_started env) [0..<min (nat (num_processes config)) (length jobs)] = (e, ws)" by fastforce
  note fresh = fresh_pool_ok(1) [OF start, of "write_cache q (child_config config)" jobs] fresh_pool_ok(2,3) [OF start]
  show ?thesis
  proof (cases e)
    case None
    then have "supervise (write_cache q (child_config config)) (we_rounds env) config q jobs 0 (new_pool ws) = Some (r, pool)"
      using run Inr start by (simp add: run_pool_def)
    from supervise_steps [OF this fresh(1), of faulty] have "(pool_step (write_cache q (child_config config)) jobs faulty)\<^sup>*\<^sup>* (new_pool ws) pool"
      using faults by blast
    then show ?thesis using fresh by blast
  next
    case (Some err)
    then have "pool = new_pool ws" using run Inr start by (simp add: run_pool_def)
    then show ?thesis using fresh by blast
  qed
qed

section \<open>Outcomes\<close>

lemma length_ordered_outcomes [simp]: "length (ordered_outcomes jobs outcomes failure p) = length jobs"
  by (simp add: ordered_outcomes_def)

lemma nth_ordered_outcomes:
  "i < length jobs \<Longrightarrow> ordered_outcomes jobs outcomes failure p ! i = ordered_outcome outcomes failure p i (jobs ! i)"
  by (simp add: ordered_outcomes_def nth_enumerate_eq)

lemma length_preflight_jobs [simp]: "length (preflight_jobs u sources) = length sources"
  by (simp add: preflight_jobs_def)

lemma nth_preflight_jobs: "i < length sources \<Longrightarrow> preflight_jobs u sources ! i = preflight_job u i (sources ! i)"
  by (simp add: preflight_jobs_def nth_enumerate_eq)

lemma reject_job_simps [simp]:
  "source_name (reject_job msg job) = job_label job" "reject_job msg job \<noteq> CacheWriteSuccess name q" "\<not> is_write_success (reject_job msg job)"
  by (cases job; simp)+

text \<open>The contract of the native writer: every record it returns carries the name it was given.\<close>

definition native_names :: "'s native_write \<Rightarrow> bool" where
  "native_names write \<longleftrightarrow> (\<forall>name source records. write name source = Inr records \<longrightarrow> (\<forall>(st, n, d)\<in>set records. n = name))"

lemma run_source_name:
  assumes "native_names write" and "run_source write name source = Inr r"
  shows "source_name r = name"
  using assms by (force simp: run_source_def native_names_def split: sum.splits exc_class.splits list.splits if_splits)

lemma produced_name:
  assumes "native_names write" and "produced write jobs i r"
  shows "source_name r = job_label (jobs ! i)"
  using assms by (auto simp: produced_def run_source_name split: job.splits)

lemma ordered_outcome_name:
  assumes "native_names write" and "\<forall>(i, r)\<in>set outcomes. produced write jobs i r"
  shows "source_name (ordered_outcome outcomes failure p i (jobs ! i)) = job_label (jobs ! i)"
proof -
  have "source_name r = job_label (jobs ! i)" if "map_of outcomes i = Some r" for r
    using produced_name [OF assms(1), of jobs i r] assms(2) map_of_SomeD [OF that] by auto
  moreover have "source_name (case r of CacheWriteSuccess name q \<Rightarrow> CacheWriteSuccess name (path_child p name) | CacheWriteError name msg \<Rightarrow> r) =
      source_name r" for r by (cases r) simp_all
  ultimately show ?thesis by (cases "map_of outcomes i") (simp_all add: ordered_outcome_def Let_def)
qed

section \<open>Unfolding a call\<close>

text \<open>A call whose sources pass preflight, once the pool has been run and stopped.\<close>

lemma write_parallel_cases:
  assumes "write_parallel u write_cache env sources p config = Some (res, left)"
  obtains (rejected) errors where "preflight u sources = Err errors" "res = Inr errors" "left = new_pool []"
    | (empty) "preflight u sources = Ok []" "res = Inr []" "left = new_pool []"
    | (ran) jobs r pool cleaned stop_error ws where "preflight u sources = Ok jobs" "jobs \<noteq> []"
        "run_pool write_cache env config jobs = Some (r, pool)"
        "stop_all (map (we_stop env) [0..<length (pool_workers pool)]) (pool_workers pool) = (cleaned, stop_error, ws)"
        "left = pool\<lparr>pool_workers := ws, pool_cleaned := pool_cleaned pool @ cleaned\<rparr>"
        "\<And>results. res = Inr results \<Longrightarrow>
           stop_error = None \<and> (\<exists>failure. results = ordered_outcomes jobs (pool_outcomes pool) failure p)"
proof (cases "preflight u sources")
  case (Err errors)
  then show ?thesis using assms rejected by (simp add: write_parallel_def)
next
  case (Ok jobs)
  show ?thesis
  proof (cases jobs)
    case Nil
    then show ?thesis using assms empty Ok by (simp add: write_parallel_def)
  next
    case (Cons j js)
    then obtain r pool where run: "run_pool write_cache env config jobs = Some (r, pool)"
      using assms Ok by (auto simp: write_parallel_def split: option.splits)
    obtain cleaned stop_error ws where stop: "stop_all (map (we_stop env) [0..<length (pool_workers pool)]) (pool_workers pool) =
        (cleaned, stop_error, ws)" by (cases "stop_all (map (we_stop env) [0..<length (pool_workers pool)]) (pool_workers pool)") auto
    have call: "left = pool\<lparr>pool_workers := ws, pool_cleaned := pool_cleaned pool @ cleaned\<rparr>"
      "\<And>results. res = Inr results \<Longrightarrow> stop_error = None \<and> (\<exists>failure. results = ordered_outcomes jobs (pool_outcomes pool) failure p)"
      using assms Ok Cons run stop
      by (auto simp: write_parallel_def Let_def split: option.splits sum.splits Result.splits if_splits)
    show ?thesis by (rule ran [OF Ok _ run stop call]) (use Cons in auto)
  qed
qed

lemma preflight_Ok: "preflight u sources = Ok jobs \<Longrightarrow> jobs = preflight_jobs u sources"
  by (simp add: preflight_def Let_def split: option.splits)

lemma preflight_Err:
  "preflight u sources = Err errors \<Longrightarrow> \<exists>msg. errors = map (reject_job msg) (preflight_jobs u sources)"
  by (auto simp: preflight_def Let_def split: option.splits)

section \<open>Temporary directories\<close>

definition temporaries_ok :: "'s pool \<Rightarrow> bool" where
  "temporaries_ok pool \<longleftrightarrow> mset (pool_cleaned pool) + mset (held_temporaries (pool_workers pool)) = mset (pool_owned pool)"

lemma temporaries_step:
  assumes step: "pool_step write jobs False pool pool'" and ok: "temporaries_ok pool"
  shows "temporaries_ok pool'"
  using step
proof cases
  case (quiet k w)
  then show ?thesis using ok held_temporaries_update [OF quiet(2), of w] by (simp add: temporaries_ok_def)
next
  case (started k d w)
  then show ?thesis using ok held_temporaries_update [OF started(2), of w] by (simp add: temporaries_ok_def)
next
  case (finished k i d p name source r w cleaned)
  have "mset (held_temporaries (pool_workers pool)) = add_mset p (mset (held_temporaries ((pool_workers pool)[k := w])))"
    using held_temporaries_update [OF finished(2), of w] finished(3,7) by simp
  then show ?thesis using ok finished(1,9) by (simp add: temporaries_ok_def)
next
  case (refused name msg source)
  then show ?thesis using ok by (simp add: temporaries_ok_def record_outcome_def)
next
  case (dispatched name source k q d)
  then show ?thesis using ok held_temporaries_update [OF dispatched(4)] by (simp add: temporaries_ok_def)
next
  case (reported n lines)
  then show ?thesis using ok by (simp add: temporaries_ok_def)
qed

lemma temporaries_steps:
  "(pool_step write jobs False)\<^sup>*\<^sup>* pool pool' \<Longrightarrow> temporaries_ok pool \<Longrightarrow> temporaries_ok pool'"
  by (induction rule: rtranclp_induct) (auto intro: temporaries_step)

lemma stop_worker_clean:
  assumes "\<not> se_alive env 3" and "se_cleanup env = None"
  shows "\<exists>signals w'. stop_worker env w = (signals, held_paths (wk_state w), None, w') \<and> held_paths (wk_state w') = []"
  using assms by (cases "wk_state w") (auto simp: stop_worker_def Let_def)

lemma stop_all_clean:
  assumes "length envs = length ws" and "\<forall>env\<in>set envs. \<not> se_alive env 3 \<and> se_cleanup env = None"
  shows "\<exists>ws'. stop_all envs ws = (held_temporaries ws, None, ws') \<and> held_temporaries ws' = []"
  using assms
proof (induction envs ws rule: list_induct2)
  case (Cons env envs w ws)
  then obtain ws' where rest: "stop_all envs ws = (held_temporaries ws, None, ws')" "held_temporaries ws' = []" by auto
  obtain signals w' where "stop_worker env w = (signals, held_paths (wk_state w), None, w')" "held_paths (wk_state w') = []"
    using stop_worker_clean [of env w] Cons.prems by auto
  then show ?case using rest by (simp add: held_temporaries_def)
qed (simp add: held_temporaries_def)

section \<open>Destinations\<close>

fun accepted_names :: "'s job list \<Rightarrow> string list" where
  "accepted_names [] = []"
| "accepted_names (SourceJob name source # jobs) = name # accepted_names jobs"
| "accepted_names (Rejected name msg # jobs) = accepted_names jobs"

lemma first_duplicate_None:
  "first_duplicate u seen jobs = None \<longleftrightarrow>
   distinct (map (destination_identity u) (accepted_names jobs)) \<and> set (map (destination_identity u) (accepted_names jobs)) \<inter> set seen = {}"
proof (induction jobs arbitrary: seen)
  case (Cons job jobs)
  then show ?case by (cases job) auto
qed simp

lemma accepted_in_jobs: "name \<in> set (accepted_names jobs) \<Longrightarrow> \<exists>i source. i < length jobs \<and> jobs ! i = SourceJob name source"
proof (induction jobs)
  case (Cons job jobs)
  then show ?case by (cases job) (auto simp: gr0_conv_Suc nth_Cons split: nat.splits)
qed simp

lemma validated_plain:
  assumes "validate_source_name u name = Ok nm" and "casefold u ''.'' = ''.''"
  shows "nm = name" and "plain_segment name" and "casefold u name \<noteq> ''tmp''"
  using assms by (auto simp: validate_source_name_def plain_segment_def split: if_splits option.splits)

lemma accepted_plain:
  assumes "name \<in> set (accepted_names (preflight_jobs u sources))" and "casefold u ''.'' = ''.''"
  shows "plain_segment name" and "casefold u name \<noteq> ''tmp''"
proof -
  obtain i source where i: "i < length sources" "preflight_jobs u sources ! i = SourceJob name source"
    using accepted_in_jobs [OF assms(1)] by auto
  then obtain given where "validate_source_name u given = Ok name"
    by (auto simp: nth_preflight_jobs preflight_job_def split: sum.splits Result.splits)
  from validated_plain [OF this assms(2)] show "plain_segment name" "casefold u name \<noteq> ''tmp''" by auto
qed

section \<open>Results\<close>

lemma ordered_results:
  assumes call: "write_parallel u write_cache env sources p config = Some (Inr results, pool)"
    and names: "\<And>q c. native_names (write_cache q c)"
  shows "length results = length sources \<and>
    (\<forall>i<length sources. source_name (results ! i) = job_label (preflight_job u i (sources ! i)) \<and>
      (\<forall>name q. results ! i = CacheWriteSuccess name q \<longrightarrow> q = path_child p name \<and>
        preflight_job u i (sources ! i) = SourceJob name (src_body (sources ! i)) \<and>
        (\<exists>d r. run_source (write_cache d (child_config config)) name (src_body (sources ! i)) = Inr (CacheWriteSuccess name r))))"
  using call
proof (cases rule: write_parallel_cases)
  case (rejected errors)
  then obtain msg where "results = map (reject_job msg) (preflight_jobs u sources)" using preflight_Err by blast
  then show ?thesis by (simp add: nth_preflight_jobs)
next
  case empty
  then show ?thesis using preflight_Ok [of u sources "[]"] length_preflight_jobs [of u sources] by simp
next
  case (ran jobs r pool' cleaned stop_error ws)
  have jobs: "jobs = preflight_jobs u sources" by (rule preflight_Ok [OF ran(1)])
  obtain failure where results: "results = ordered_outcomes jobs (pool_outcomes pool') failure p" using ran(6) by blast
  obtain q ws' where steps: "(pool_step (write_cache q (child_config config)) jobs True)\<^sup>*\<^sup>* (new_pool ws') pool'"
      and "pool_ok (write_cache q (child_config config)) jobs (new_pool ws')"
    using run_pool_steps [OF ran(3), of True] by blast
  then have "pool_ok (write_cache q (child_config config)) jobs pool'" by (rule pool_ok_steps)
  then have made: "\<forall>(i, r)\<in>set (pool_outcomes pool'). produced (write_cache q (child_config config)) jobs i r" by (simp add: pool_ok_def)
  show ?thesis
  proof (intro conjI allI impI)
    show "length results = length sources" by (simp add: results jobs)
  next
    fix i assume i: "i < length sources"
    then have at_i: "results ! i = ordered_outcome (pool_outcomes pool') failure p i (jobs ! i)"
      by (simp add: results jobs nth_ordered_outcomes)
    show "source_name (results ! i) = job_label (preflight_job u i (sources ! i))"
      using ordered_outcome_name [OF names made, of failure p i] at_i i by (simp add: jobs nth_preflight_jobs)
    fix name q' assume success: "results ! i = CacheWriteSuccess name q'"
    then obtain r where r: "map_of (pool_outcomes pool') i = Some (CacheWriteSuccess name r)" and "q' = path_child p name"
      using at_i by (auto simp: ordered_outcome_def Let_def split: option.splits CacheWriteResult.splits)
    then have prod: "produced (write_cache q (child_config config)) jobs i (CacheWriteSuccess name r)" using made map_of_SomeD by fastforce
    then obtain nm s where job: "jobs ! i = SourceJob nm s" "run_source (write_cache q (child_config config)) nm s = Inr (CacheWriteSuccess name r)"
      by (auto simp: produced_def split: job.splits)
    have "s = src_body (sources ! i)" using job(1) i
      by (auto simp: jobs nth_preflight_jobs preflight_job_def split: sum.splits Result.splits)
    moreover have "nm = name" using run_source_name [OF names job(2)] by simp
    ultimately show "q' = path_child p name" "preflight_job u i (sources ! i) = SourceJob name (src_body (sources ! i))"
        "\<exists>d r. run_source (write_cache d (child_config config)) name (src_body (sources ! i)) = Inr (CacheWriteSuccess name r)"
      using job i \<open>q' = path_child p name\<close> by (auto simp: jobs nth_preflight_jobs)
  qed
qed

section \<open>A concrete run\<close>

definition demo_unicode :: unicode where
  "demo_unicode = \<lparr>casefold = (\<lambda>s. s), nfc = (\<lambda>s. s), encode = (\<lambda>s. Some (map of_char s))\<rparr>"

definition demo_write_cache :: "path \<Rightarrow> WriterConfig \<Rightarrow> unit native_write" where
  "demo_write_cache p config name source = Inr [(''success'', name, ''/out'')]"

definition demo_round :: "nat \<Rightarrow> round_env" where
  "demo_round n = \<lparr>rnd_poll = (\<lambda>k. \<lparr>pe_before = [CreateRuntime None, TakeJob None True], pe_between = [], pe_eof = True, pe_cleanup = None, pe_clock = of_nat n\<rparr>),
     rnd_dispatch = (\<lambda>i. \<lparr>de_pickle = None, de_exists = Inr False, de_resolve = Inr (Path ''/'' [str_int (int i)]), de_clock = of_nat n\<rparr>)\<rparr>"

definition demo_env :: write_env where
  "demo_env = \<lparr>we_resolve = Inr (Path ''/'' []), we_started = (\<lambda>k. Inr 0), we_rounds = demo_round,
     we_stop = (\<lambda>k. \<lparr>se_alive = (\<lambda>j. j = 0), se_cleanup = None\<rparr>)\<rparr>"

definition demo_writer_config :: WriterConfig where
  "demo_writer_config = DEFAULT_WRITER_CONFIG\<lparr>num_processes := 1, show_progress := False\<rparr>"

definition demo_sources :: "unit source list" where
  "demo_sources = [\<lparr>src_name = Inr ''a'', src_body = ()\<rparr>, \<lparr>src_name = Inr ''a/b'', src_body = ()\<rparr>, \<lparr>src_name = Inr ''b'', src_body = ()\<rparr>]"

lemmas writer_eval = write_parallel_def preflight_def preflight_jobs_def preflight_job_def validate_source_name_def
  destination_identity_def run_pool_def new_pool_def start_worker_def supervise.simps supervise_round_def poll_worker_def poll_def
  child_run_def next_wire_def receive_def poll_lifetime_def send_def run_source_def assign_all_def assign.simps assign_next_def
  record_outcome_def dispatch_def destination_def report_progress_def idle_at_def ordered_outcomes_def ordered_outcome_def
  stop_worker_def child_config_def Let_def numeral_2_eq_2 upt_rec path_child_plain plain_segment_def

lemmas demo_writer_defs = demo_unicode_def demo_write_cache_def demo_round_def demo_env_def demo_writer_config_def demo_sources_def
  DEFAULT_WRITER_CONFIG_def

lemma str_int_one: "str_int 1 = ''1''"
  by code_simp

lemma demo_write_parallel:
  "\<exists>pool. write_parallel demo_unicode demo_write_cache demo_env demo_sources (Path [] [''out'']) demo_writer_config =
     Some (Inr [CacheWriteSuccess ''a'' (Path [] [''out'', ''a'']),
                CacheWriteError ''source[1]'' ''CacheSource.name must be a plain path segment'',
                CacheWriteSuccess ''b'' (Path [] [''out'', ''b''])], pool) \<and>
     pool_dispatched pool = [(0, 0), (0, 2)]"
  by (simp add: writer_eval demo_writer_defs str_int_one)

lemma demo_supervise:
  assumes "start_all demo_writer_config (\<lambda>k. Inr 0) [0] = (None, ws)"
  shows "\<exists>pool. supervise (demo_write_cache (Path ''/'' []) demo_writer_config) demo_round demo_writer_config (Path ''/'' [])
     [SourceJob ''a'' (), SourceJob ''b'' ()] 0 (new_pool ws) = Some (Inr (Ok ()), pool) \<and>
     map_of (pool_outcomes pool) 1 = Some (CacheWriteSuccess ''b'' (path_of ''/out''))"
proof -
  have ws: "ws = [\<lparr>wk_state = Starting (0 + process_timeout_seconds demo_writer_config), wk_mailbox = None, wk_pipe = [], wk_child = Booting\<rparr>]"
    using assms by (simp add: start_worker_def)
  show ?thesis unfolding ws by (simp add: writer_eval demo_writer_defs)
qed

section \<open>Properties\<close>

text \<open>
  C4. Parallel writing returns: with at least one process, whatever the children and their sources do
  (hang, crash, be interrupted, never start), supervision ends, because every child that is waited for has
  a deadline and every unfinished round sleeps. The clock is monotonic and advances by at least \<open>tick\<close> per
  round.
\<close>

theorem write_parallel_returns:
  fixes write_cache :: "path \<Rightarrow> WriterConfig \<Rightarrow> 's native_write"
  assumes "0 < num_processes config" and "clock_ok (we_rounds env) now tick" and "\<And>k t. we_started env k = Inr t \<Longrightarrow> t \<le> now 0"
  shows "\<exists>r pool. write_parallel u write_cache env sources p config = Some (r, pool)"
proof -
  have run: "\<exists>y. run_pool write_cache env config jobs = Some y" if "jobs \<noteq> []" for jobs :: "'s job list"
  proof (cases "we_resolve env")
    case (Inr q)
    let ?ks = "[0..<min (nat (num_processes config)) (length jobs)]"
    obtain e and ws :: "'s worker list" where start: "start_all config (we_started env) ?ks = (e, ws)" by fastforce
    show ?thesis
    proof (cases e)
      case None
      have "?ks \<noteq> []" using assms(1) that by simp
      then have "ws \<noteq> []" using start_all_fresh(2) [OF start None] by (metis length_0_conv)
      then have "between_rounds (write_cache q (child_config config)) jobs (now 0 + process_timeout_seconds config) (new_pool ws)"
        by (rule fresh_between_rounds [OF start]) (rule assms(3))
      from supervise_returns [OF assms(2) refl this] show ?thesis using Inr start None by (simp add: run_pool_def)
    qed (use Inr start in \<open>simp add: run_pool_def\<close>)
  qed (simp add: run_pool_def)
  show ?thesis
  proof (cases "preflight u sources")
    case (Ok jobs)
    then show ?thesis using run [of jobs] by (cases jobs) (auto simp: write_parallel_def Let_def split: prod.split)
  qed (simp add: write_parallel_def)
qed

theorem write_parallel_returns_witness:
  "\<exists>r pool. write_parallel demo_unicode demo_write_cache (demo_env\<lparr>we_rounds := \<lambda>n. (demo_round n)\<lparr>rnd_poll := \<lambda>k.
      \<lparr>pe_before = [], pe_between = [], pe_eof = True, pe_cleanup = None, pe_clock = of_nat n\<rparr>\<rparr>\<rparr>)
     demo_sources (Path [] [''out'']) demo_writer_config = Some (r, pool)"
  by (rule write_parallel_returns [where now = "\<lambda>n. of_nat n" and tick = 1])
    (auto simp: demo_writer_config_def clock_ok_def demo_env_def demo_round_def)



text \<open>
  C19. The supervised pool refines the job board: from the start of the workers to the end of the loop,
  whatever happens in between, the sources only move from pending to running to done in the ways the board
  allows, so none is dispatched twice, retried or answered twice; and if the loop ends without a failure
  every source is done.
\<close>

theorem supervision_refines_board:
  assumes start: "start_all config started ks = (None, ws)"
    and run: "supervise write env config p jobs 0 (new_pool ws) = Some (r, pool)"
  shows "(board_step write jobs)\<^sup>*\<^sup>* (\<lambda>i. Pending) (board_of pool) \<and>
    (r = Inr (Ok ()) \<longrightarrow> (\<forall>i<length jobs. \<exists>res. board_of pool i = Done res))"
proof -
  note ok = fresh_pool_ok(1) [OF start]
  from supervise_steps [OF run ok, of True] have steps: "(pool_step write jobs True)\<^sup>*\<^sup>* (new_pool ws) pool"
    and end_ok: "r = Inr (Ok ()) \<longrightarrow> length jobs \<le> length (pool_outcomes pool)" by auto
  have board0: "board_of (new_pool ws) = (\<lambda>i. Pending)"
    using fresh_pool_ok(2) [OF start] by (simp add: board_of_def new_pool_def fun_eq_iff)
  have pool: "pool_ok write jobs pool" by (rule pool_ok_steps [OF steps ok])
  have "\<exists>res. board_of pool i = Done res" if "r = Inr (Ok ())" "i < length jobs" for i
  proof -
    have "length (active_ids (pool_workers pool)) = 0 \<and> pool_next pool = length jobs"
      using outcomes_bound [OF pool] end_ok that(1) by linarith
    then have "i \<in> set (map fst (pool_outcomes pool))" using pool_ok_partition(1) [OF pool] that(2) by auto
    then show ?thesis by (cases "map_of (pool_outcomes pool) i") (auto simp: board_of_def map_of_eq_None_iff)
  qed
  then show ?thesis using board_of_steps [OF steps ok] board0 by simp
qed

theorem supervision_refines_board_witness:
  "\<exists>ws r pool. start_all demo_writer_config (\<lambda>k. Inr 0) [0] = (None, ws) \<and>
     supervise (demo_write_cache (Path ''/'' []) demo_writer_config) demo_round demo_writer_config (Path ''/'' [])
       [SourceJob ''a'' (), SourceJob ''b'' ()] 0 (new_pool ws) = Some (r, pool) \<and> board_of pool 1 = Done (CacheWriteSuccess ''b'' (path_of ''/out''))"
proof -
  obtain ws :: "unit worker list" where start: "start_all demo_writer_config (\<lambda>k. Inr 0) [0] = (None, ws)" by (simp add: start_worker_def)
  then have "\<exists>pool. supervise (demo_write_cache (Path ''/'' []) demo_writer_config) demo_round demo_writer_config (Path ''/'' [])
      [SourceJob ''a'' (), SourceJob ''b'' ()] 0 (new_pool ws) = Some (Inr (Ok ()), pool) \<and>
      map_of (pool_outcomes pool) 1 = Some (CacheWriteSuccess ''b'' (path_of ''/out''))" using demo_supervise by blast
  then obtain pool where run: "supervise (demo_write_cache (Path ''/'' []) demo_writer_config) demo_round demo_writer_config (Path ''/'' [])
      [SourceJob ''a'' (), SourceJob ''b'' ()] 0 (new_pool ws) = Some (Inr (Ok ()), pool)"
      "map_of (pool_outcomes pool) 1 = Some (CacheWriteSuccess ''b'' (path_of ''/out''))" by blast
  from supervision_refines_board [OF start run(1)] have "\<exists>res. board_of pool 1 = Done res" by simp
  then show ?thesis using start run by (intro exI [of _ ws] exI [of _ "Inr (Ok ())"] exI [of _ pool]) (simp add: board_of_def)
qed



text \<open>
  The conversation with a child never surprises the parent: in every state the loop reaches, and
  whatever the child does next, the message waiting in the pipe is \<open>Ready\<close> only from a starting child, is
  \<open>Finished\<close> only for the job the worker holds and then carries the result of running exactly that job, and
  is otherwise a last message. The \<open>protocol violation\<close> and \<open>invalid message\<close> failures cannot occur.
\<close>

theorem messages_expected:
  assumes start: "start_all config started ks = (None, ws)"
    and reached: "(\<lambda>a b. \<exists>env. supervise_round write env config p jobs a = (None, b))\<^sup>*\<^sup>* (new_pool ws) pool"
    and "k < length (pool_workers pool)" and msg: "next_wire eof (child_run write acts (pool_workers pool ! k)) = Some (m, w)"
  shows "m = Message Ready \<and> (\<exists>d. wk_state w = Starting d) \<or>
    (\<exists>i d q name source r. m = Message (Finished r) \<and> wk_state w = Active i d q \<and> i < length jobs \<and>
      jobs ! i = SourceJob name source \<and> run_source write name source = Inr r) \<or>
    final_wire m"
proof -
  have "pool_ok write jobs pool"
    using reached
  proof (induction rule: rtranclp_induct)
    case base
    then show ?case by (rule fresh_pool_ok(1) [OF start])
  next
    case (step a b)
    then obtain env where "supervise_round write env config p jobs a = (None, b)" by blast
    from pool_ok_steps [OF round_steps [OF step(3) this, of True] step(3)] show ?case by simp
  qed
  then have "conversation write jobs (pool_workers pool ! k)" using assms(3) by (simp add: pool_ok_def list_all_length)
  from next_wire_expected [OF conversation_child_run [OF this] msg] show ?thesis by auto
qed

theorem messages_expected_witness:
  "\<exists>ws :: unit worker list. start_all demo_writer_config (\<lambda>k. Inr 0) [0] = (None, ws) \<and>
     (\<exists>m w. next_wire True (child_run (demo_write_cache (Path ''/'' []) demo_writer_config) [CreateRuntime None] (ws ! 0)) = Some (m, w) \<and>
       (\<exists>d. wk_state w = Starting d))"
proof -
  let ?native = "demo_write_cache (Path ''/'' []) demo_writer_config"
  obtain ws :: "unit worker list" where start: "start_all demo_writer_config (\<lambda>k. Inr 0) [0] = (None, ws)" by (simp add: start_worker_def)
  obtain w where m: "next_wire True (child_run ?native [CreateRuntime None] (pool_workers (new_pool ws) ! 0)) = Some (Message Ready, w)"
    using start by (auto simp: start_worker_def child_run_def send_def next_wire_def new_pool_def)
  have "0 < length (pool_workers (new_pool ws))" using start by (auto simp: start_worker_def new_pool_def)
  from messages_expected [where jobs = "[]" and p = "Path [] []", OF start rtranclp.rtrancl_refl this m] show ?thesis using start m by (auto simp: new_pool_def)
qed



end
