(* ===== verification/Windows.thy ===== *)
theory Windows
  imports Prelude
begin

text \<open>
  Consuming an endless sample stream through finite windows.

  A dataset gives its samples in windows, one per iterator it opens; the loader's adapter keeps the
  unfinished window between passes and opens the next one when it runs out. \<open>pull\<close> and \<open>emit\<close> are the
  body and the loop of \<open>ReaderAdapter.__iter__\<close> (\<open>src/dataset_rt/integrations/loader.py\<close>) over any
  operation that opens a window. The locale \<open>window_source\<close> states what the loop relies on, and its
  lemmas show that the loop emits consecutive elements of the stream, whatever the window length.
\<close>

section \<open>The loop\<close>

text \<open>
  \<open>next(state.stream)\<close>, reopening the stream when it is exhausted. The stream is a generator over one
  native window: the list holds what is left of it, and the empty list stands for a generator that has
  finished or has not been started, since the native window opens at the first \<open>next\<close>. A window that
  raises finishes its generator, so what was left of it is gone. An iterator that is exhausted at once
  lets \<open>StopIteration\<close> escape into the adapter's generator, which Python turns into a \<open>RuntimeError\<close>.
\<close>

definition advance :: "'a exn \<Rightarrow> 'a exn list \<Rightarrow> 's \<Rightarrow> 'a exn \<times> ('a exn list \<times> 's)" where
  "advance x rest s = (x, (case x of Inl e \<Rightarrow> [] | Inr v \<Rightarrow> rest, s))"

definition pull ::
  "('s \<Rightarrow> ('a exn list \<times> 's) exn) \<Rightarrow> 'a exn list \<times> 's \<Rightarrow> 'a exn \<times> ('a exn list \<times> 's)" where
  "pull open_window st =
     (case st of
        (x # rest, s) \<Rightarrow> advance x rest s
      | ([], s) \<Rightarrow>
          (case open_window s of
             Inl e \<Rightarrow> (Raise e, ([], s))
           | Inr ([], s') \<Rightarrow> (Raise (RuntimeError ''generator raised StopIteration''), ([], s'))
           | Inr (x # rest, s') \<Rightarrow> advance x rest s'))"

text \<open>
  \<open>n\<close> iterations: the values yielded, the exception that ended the pass early if any, and the state
  retained. A consumer that stops after fewer iterations runs the loop with the smaller number.
\<close>

fun emit ::
  "('s \<Rightarrow> ('a exn list \<times> 's) exn) \<Rightarrow> ('a \<Rightarrow> 'b exn) \<Rightarrow> nat \<Rightarrow> 'a exn list \<times> 's \<Rightarrow>
   ('b list \<times> py_error option) \<times> ('a exn list \<times> 's)" where
  "emit open_window transform 0 st = (([], None), st)"
| "emit open_window transform (Suc n) st =
     (case pull open_window st of
        (r, st') \<Rightarrow>
          (case bindE r transform of
             Inl e \<Rightarrow> (([], Some e), st')
           | Inr y \<Rightarrow>
               (case emit open_window transform n st' of ((ys, err), st'') \<Rightarrow> ((y # ys, err), st''))))"

section \<open>The contract of the dataset\<close>

text \<open>
  \<open>positioned s p\<close> says that the next window opened in state \<open>s\<close> begins at element \<open>p\<close> of the stream.
  \<open>within q\<close> bounds the positions up to which windows can be opened: native draw offsets are unsigned
  64-bit numbers.
\<close>

locale window_source =
  fixes open_window :: "'s \<Rightarrow> ('a exn list \<times> 's) exn"
    and positioned :: "'s \<Rightarrow> nat \<Rightarrow> bool"
    and stream :: "nat \<Rightarrow> 'a exn"
    and len :: nat
    and within :: "nat \<Rightarrow> bool"
  assumes len_pos: "positioned s p \<Longrightarrow> 0 < len"
    and open_at: "positioned s p \<Longrightarrow> within (p + len) \<Longrightarrow>
      \<exists>s'. open_window s = Return (map stream [p..<p + len], s') \<and> positioned s' (p + len)"
    and within_mono: "within q \<Longrightarrow> p \<le> q \<Longrightarrow> within p"
begin

text \<open>The state of a consumer that has taken \<open>q\<close> elements: the rest of a window, and the next position.\<close>

definition consumed :: "'a exn list \<times> 's \<Rightarrow> nat \<Rightarrow> bool" where
  "consumed st q \<longleftrightarrow> (\<exists>p. q \<le> p \<and> p \<le> q + len \<and> positioned (snd st) p \<and> fst st = map stream [q..<p])"

lemma consumed_start: "positioned s q \<Longrightarrow> consumed ([], s) q"
  using len_pos by (auto simp: consumed_def)

lemma advance_consumed:
  assumes "positioned s p" and "q < p" and "p \<le> q + len"
  shows "\<exists>st' r. advance (stream q) (map stream [Suc q..<p]) s = (stream q, st') \<and> consumed st' r \<and> q < r \<and> r \<le> q + len \<and>
    (\<forall>v. stream q = Return v \<longrightarrow> r = Suc q)"
proof (cases "stream q")
  case (Inl e)
  then show ?thesis using assms consumed_start [OF assms(1)] by (auto simp: advance_def intro: exI [of _ p])
next
  case (Inr v)
  have "consumed (map stream [Suc q..<p], s) (Suc q)"
    using assms by (auto simp: consumed_def intro: exI [of _ p])
  then show ?thesis using Inr assms by (auto simp: advance_def)
qed

text \<open>After a sample the consumer is right behind it; after a failed one it is behind the rest of the window.\<close>

lemma pull_consumed:
  assumes "consumed st q" and "within (q + len)"
  shows "\<exists>st' r. pull open_window st = (stream q, st') \<and> consumed st' r \<and> q < r \<and> r \<le> q + len \<and>
    (\<forall>v. stream q = Return v \<longrightarrow> r = Suc q)"
proof -
  obtain p where p: "q \<le> p" "p \<le> q + len" "positioned (snd st) p" "fst st = map stream [q..<p]"
    using assms(1) by (auto simp: consumed_def)
  obtain w s where st: "st = (w, s)" by (cases st)
  show ?thesis
  proof (cases "q < p")
    case True
    then have "w = stream q # map stream [Suc q..<p]" using p(4) st by (simp add: upt_conv_Cons)
    then have "pull open_window st = advance (stream q) (map stream [Suc q..<p]) s" using st by (simp add: pull_def)
    then show ?thesis using advance_consumed [of s p q] p(2,3) True st by simp
  next
    case False
    then have q: "p = q" "w = []" using p st by simp_all
    with p st obtain s' where s': "open_window s = Return (map stream [q..<q + len], s')" "positioned s' (q + len)"
      using open_at [of s q] assms(2) by auto
    moreover have "map stream [q..<q + len] = stream q # map stream [Suc q..<q + len]"
      using len_pos [OF p(3)] by (simp add: upt_conv_Cons)
    ultimately have "pull open_window st = advance (stream q) (map stream [Suc q..<q + len]) s'" using st q by (simp add: pull_def)
    then show ?thesis using advance_consumed [of s' "q + len" q] s'(2) len_pos [OF p(3)] by simp
  qed
qed

text \<open>
  A pass of \<open>n\<close> iterations yields the next \<open>n\<close> transformed elements and leaves the consumer right behind
  them, provided none of them fails.
\<close>

lemma emit_consecutive:
  assumes "consumed st q" and "within (q + n + len)"
    and "\<And>i. i < n \<Longrightarrow> bindE (stream (q + i)) transform = Return (f (q + i))"
  shows "\<exists>st'. emit open_window transform n st = ((map f [q..<q + n], None), st') \<and> consumed st' (q + n)"
  using assms
proof (induction n arbitrary: st q)
  case (Suc n)
  have "within (q + len)" using within_mono [OF Suc.prems(2)] by simp
  moreover have "\<exists>v. stream q = Return v" using Suc.prems(3) [of 0] by (auto simp: exn_simps)
  ultimately obtain st' where st': "pull open_window st = (stream q, st')" "consumed st' (Suc q)"
    using pull_consumed [OF Suc.prems(1)] by blast
  have "\<exists>st''. emit open_window transform n st' = ((map f [Suc q..<Suc q + n], None), st'') \<and> consumed st'' (Suc q + n)"
  proof (rule Suc.IH [OF st'(2)])
    show "within (Suc q + n + len)" using within_mono [OF Suc.prems(2)] by simp
    show "bindE (stream (Suc q + i)) transform = Return (f (Suc q + i))" if "i < n" for i
      using Suc.prems(3) [of "Suc i"] that by simp
  qed
  moreover have "bindE (stream q) transform = Return (f q)" using Suc.prems(3) [of 0] by simp
  moreover have "[q..<q + Suc n] = q # [Suc q..<Suc q + n]" by (simp add: upt_conv_Cons)
  ultimately show ?case using st'(1) by auto
qed (simp add: upt_conv_Cons)

text \<open>
  If element \<open>j\<close> of the pass is the first to fail, the pass yields the ones before it and raises; the next
  pass goes on behind it, at most one window later.
\<close>

lemma emit_failure:
  assumes "consumed st q" and "within (q + n + len)" and "j < n"
    and "\<And>i. i < j \<Longrightarrow> bindE (stream (q + i)) transform = Return (f (q + i))"
    and "bindE (stream (q + j)) transform = Raise e"
  shows "\<exists>st' r. emit open_window transform n st = ((map f [q..<q + j], Some e), st') \<and> consumed st' r \<and>
    q + j < r \<and> r \<le> q + j + len"
  using assms
proof (induction n arbitrary: st q j)
  case (Suc n)
  have lim: "within (q + len)" using within_mono [OF Suc.prems(2)] by simp
  show ?case
  proof (cases j)
    case 0
    obtain st' r where "pull open_window st = (stream q, st')" "consumed st' r" "q < r" "r \<le> q + len"
      using pull_consumed [OF Suc.prems(1) lim] by blast
    then show ?thesis using Suc.prems(5) 0 by auto
  next
    case (Suc i)
    have ok: "bindE (stream q) transform = Return (f q)" using Suc.prems(4) [of 0] Suc by simp
    then have "\<exists>v. stream q = Return v" by (auto simp: exn_simps)
    then obtain st' where st': "pull open_window st = (stream q, st')" "consumed st' (Suc q)"
      using pull_consumed [OF Suc.prems(1) lim] by blast
    have "\<exists>st'' r. emit open_window transform n st' = ((map f [Suc q..<Suc q + i], Some e), st'') \<and>
        consumed st'' r \<and> Suc q + i < r \<and> r \<le> Suc q + i + len"
    proof (rule Suc.IH [OF st'(2)])
      show "within (Suc q + n + len)" using within_mono [OF Suc.prems(2)] by simp
      show "i < n" using Suc.prems(3) Suc by simp
      show "bindE (stream (Suc q + k)) transform = Return (f (Suc q + k))" if "k < i" for k
        using Suc.prems(4) [of "Suc k"] that Suc by simp
      show "bindE (stream (Suc q + i)) transform = Raise e" using Suc.prems(5) Suc by simp
    qed
    moreover have "[q..<q + j] = q # [Suc q..<Suc q + i]" using Suc by (simp add: upt_conv_Cons)
    ultimately show ?thesis using st'(1) Suc ok by auto
  qed
qed simp

end

end
