(* ===== verification/Native_Dataset.thy ===== *)
theory Native_Dataset
  imports Windows Complex_Main "HOL-Library.Word"
begin

unbundle bit_operations_syntax

text \<open>
  The native reader state the Python layer delegates to: \<open>src/src/dataset_rt/dataset.rs\<close> (loaded caches,
  the mutex-protected active population, epoch length and cursors), \<open>sampling.rs\<close> (the replacement
  samplers) and the plan and sample location of \<open>runtime.rs\<close>.

  \<open>usize\<close> and \<open>u64\<close> values are \<open>nat\<close> below $2^{64}$, with every checked addition written out. Reading a
  sample from its shard is the field \<open>cache_read\<close> of a loaded cache. The pseudo-random draws of the
  crates \<open>rand\<close> and \<open>rand_chacha\<close>, and the acceptance of floating-point weights, are the record \<open>rng\<close>;
  a weight is a rational. A native error is the Python exception \<open>into_py_err\<close> makes of it.
\<close>

section \<open>State\<close>

text \<open>A row of a metadata table: the required columns and the others.\<close>

record 'x metadata_row =
  row_cache_id :: nat
  row_sample_id :: nat
  row_weight :: rat
  row_columns :: 'x

record 'x ActiveTable =
  physical_indices :: "nat list"
  weights :: "rat list"
  table_rows :: "'x metadata_row list"

datatype 'x ActiveMetadata = Full | Table "'x ActiveTable"

record ('a, 'x) loaded_cache =
  cache_id :: nat
  cache_schema :: "(string \<times> string) list"
  cache_count :: nat
  cache_read :: "nat \<Rightarrow> 'a exn"
  cache_columns :: "nat \<Rightarrow> 'x"

record 'a CachedSample =
  sample_value :: 'a
  sample_cache_id :: nat
  sample_id :: nat

text \<open>\<open>DatasetState\<close> with the fields of \<open>MutableDatasetState\<close> last.\<close>

record ('a, 'x) native_dataset =
  nd_caches :: "('a, 'x) loaded_cache list"
  nd_total :: nat
  nd_seed :: nat
  nd_prefetch :: nat
  nd_num_workers :: nat
  nd_shuffle :: bool
  nd_active :: "'x ActiveMetadata"
  nd_epoch_len :: nat
  nd_sequential_offset :: nat
  nd_draw_offset :: nat

record rng =
  uniform_draw :: "64 word \<Rightarrow> nat \<Rightarrow> nat"
  weighted_draw :: "64 word \<Rightarrow> rat list \<Rightarrow> nat"
  accept_weights :: "rat list \<Rightarrow> bool"

section \<open>Locating physical samples\<close>

text \<open>\<open>cache_offsets\<close>: the first physical index of each cache, and the total (with the overflow checks).\<close>

fun offsets_from :: "nat \<Rightarrow> ('a, 'x) loaded_cache list \<Rightarrow> (nat list \<times> nat) exn" where
  "offsets_from next_offset [] = Return ([], next_offset)"
| "offsets_from next_offset (c # cs) =
     (if next_offset + cache_count c < 2 ^ 64
      then bindE (offsets_from (next_offset + cache_count c) cs) (\<lambda>(offs, total). Return (next_offset # offs, total))
      else Raise (ValueError ''total sample count overflowed usize''))"

definition collect_cache_offsets :: "('a, 'x) loaded_cache list \<Rightarrow> (nat list \<times> nat) exn" where
  "collect_cache_offsets caches = offsets_from 0 caches"

text \<open>\<open>slice::partition_point\<close> on a sorted slice.\<close>

definition partition_point :: "(nat \<Rightarrow> bool) \<Rightarrow> nat list \<Rightarrow> nat" where
  "partition_point P xs = length (takeWhile P xs)"

definition locate_physical_sample :: "('a, 'x) loaded_cache list \<Rightarrow> nat list \<Rightarrow> nat \<Rightarrow> (nat \<times> nat) exn" where
  "locate_physical_sample caches offsets physical_index =
     (let point = partition_point (\<lambda>off. off \<le> physical_index) offsets in
      if point = 0 then Raise (ValueError ''physical sample is out of range'')
      else let cache_index = point - 1 in
        if cache_index \<ge> length caches then Raise (ValueError ''cache id is out of range'')
        else let sample_index = physical_index - offsets ! cache_index in
          if sample_index \<ge> cache_count (caches ! cache_index)
          then Raise (ValueError ''physical sample is out of range'')
          else Return (cache_index, sample_index))"

definition load_planned_sample :: "('a, 'x) loaded_cache list \<Rightarrow> nat list \<Rightarrow> nat \<Rightarrow> 'a CachedSample exn" where
  "load_planned_sample caches offsets physical_index =
     bindE (locate_physical_sample caches offsets physical_index) (\<lambda>(c, i).
     bindE (cache_read (caches ! c) i) (\<lambda>v.
     Return \<lparr>sample_value = v, sample_cache_id = cache_id (caches ! c), sample_id = i\<rparr>))"

text \<open>\<open>cache_lookup\<close> from identities to positions, rejecting duplicates.\<close>

fun lookup_from :: "nat \<Rightarrow> (nat \<Rightarrow> nat option) \<Rightarrow> ('a, 'x) loaded_cache list \<Rightarrow> (nat \<Rightarrow> nat option) exn" where
  "lookup_from position m [] = Return m"
| "lookup_from position m (c # cs) =
     (if m (cache_id c) \<noteq> None then Raise (ValueError ''duplicate cache_id'')
      else lookup_from (position + 1) (m(cache_id c \<mapsto> position)) cs)"

definition cache_lookup :: "('a, 'x) loaded_cache list \<Rightarrow> (nat \<Rightarrow> nat option) exn" where
  "cache_lookup caches = lookup_from 0 (\<lambda>k. None) caches"

text \<open>\<open>common_schema\<close>: names and kinds must agree with the first cache, column by column.\<close>

definition common_schema :: "('a, 'x) loaded_cache list \<Rightarrow> (string \<times> string) list exn" where
  "common_schema caches =
     (case caches of
        [] \<Rightarrow> Raise (ValueError ''no caches provided'')
      | first # rest \<Rightarrow>
          if list_all (\<lambda>c. cache_schema c = cache_schema first) rest then Return (cache_schema first)
          else Raise (ValueError ''all caches must share the same metadata schema''))"

text \<open>Unknown identities are \<open>InvalidInput\<close>, which \<open>get_item\<close> turns into \<open>IndexError\<close>.\<close>

definition load_sample_by_identity ::
  "('a, 'x) loaded_cache list \<Rightarrow> (nat \<Rightarrow> nat option) \<Rightarrow> nat \<Rightarrow> nat \<Rightarrow> 'a CachedSample exn" where
  "load_sample_by_identity caches lookup cid sid =
     (case lookup cid of
        None \<Rightarrow> Raise (IndexError ''cache_id is out of range'')
      | Some c \<Rightarrow>
        if c \<ge> length caches then Raise (IndexError ''cache_id is out of range'')
        else if sid \<ge> cache_count (caches ! c) then Raise (IndexError ''sample_id is out of range for cache_id'')
        else bindE (cache_read (caches ! c) sid) (\<lambda>v.
          Return \<lparr>sample_value = v, sample_cache_id = cache_id (caches ! c), sample_id = sid\<rparr>))"

section \<open>Epoch plans\<close>

definition advance_cyclic_offset :: "nat \<Rightarrow> nat \<Rightarrow> nat \<Rightarrow> nat exn" where
  "advance_cyclic_offset start step population_len =
     (if population_len = 0 then Raise (ValueError ''cannot iterate an empty active population'')
      else let s = step mod population_len; distance_to_wrap = population_len - s in
        if start \<ge> distance_to_wrap then Return (start - distance_to_wrap) else Return (start + s))"

definition advance_draw_offset :: "nat \<Rightarrow> nat \<Rightarrow> nat exn" where
  "advance_draw_offset start step =
     (if start + step < 2 ^ 64 then Return (start + step)
      else Raise (ValueError ''shuffled draw offset overflowed u64''))"

definition wrapping_add_mod :: "nat \<Rightarrow> nat \<Rightarrow> nat \<Rightarrow> nat option" where
  "wrapping_add_mod start offset bound =
     (if bound = 0 then None
      else let off = offset mod bound; distance_to_wrap = bound - off in
        if start \<ge> distance_to_wrap then Some (start - distance_to_wrap) else Some (start + off))"

definition sample_key :: "nat \<Rightarrow> nat \<Rightarrow> 64 word" where
  "sample_key seed draw = word_of_nat seed XOR word_rotl 32 (word_of_nat draw)"

datatype EpochSampler =
    Uniform (sampler_seed: nat) (next_draw: nat) (remaining: nat) nat
  | Weighted "rat list" (sampler_seed: nat) (next_draw: nat) (remaining: nat)

definition saturating_succ :: "nat \<Rightarrow> nat" where
  "saturating_succ d = min (2 ^ 64 - 1) (d + 1)"

fun sampler_next :: "rng \<Rightarrow> EpochSampler \<Rightarrow> (nat \<times> EpochSampler) option" where
  "sampler_next g (Uniform seed draw rem n) =
     (if rem = 0 then None
      else Some (uniform_draw g (sample_key seed draw) n, Uniform seed (saturating_succ draw) (rem - 1) n))"
| "sampler_next g (Weighted ws seed draw rem) =
     (if rem = 0 then None
      else Some (weighted_draw g (sample_key seed draw) ws, Weighted ws seed (saturating_succ draw) (rem - 1)))"

datatype EpochPlan =
    SequentialPlan nat nat nat "nat list option"
  | ShuffledPlan EpochSampler "nat list option"

fun plan_len :: "EpochPlan \<Rightarrow> nat" where
  "plan_len (SequentialPlan n start pop idx) = n"
| "plan_len (ShuffledPlan sampler idx) = remaining sampler"

definition index_get :: "nat list option \<Rightarrow> nat \<Rightarrow> nat option" where
  "index_get idx i = (case idx of None \<Rightarrow> Some i | Some xs \<Rightarrow> if i < length xs then Some (xs ! i) else None)"

fun next_physical_index :: "rng \<Rightarrow> EpochPlan \<Rightarrow> nat \<Rightarrow> nat option \<times> EpochPlan" where
  "next_physical_index g (SequentialPlan n start pop idx) sequence =
     ((if sequence \<ge> n then None
       else case wrapping_add_mod start sequence pop of None \<Rightarrow> None | Some i \<Rightarrow> index_get idx i),
      SequentialPlan n start pop idx)"
| "next_physical_index g (ShuffledPlan sampler idx) sequence =
     (case sampler_next g sampler of
        None \<Rightarrow> (None, ShuffledPlan sampler idx)
      | Some (i, sampler') \<Rightarrow> (index_get idx i, ShuffledPlan sampler' idx))"

section \<open>Operations of the native dataset\<close>

definition active_len :: "('a, 'x) native_dataset \<Rightarrow> nat" where
  "active_len nd = (case nd_active nd of Full \<Rightarrow> nd_total nd | Table t \<Rightarrow> length (physical_indices t))"

definition active_physical_indices :: "('a, 'x) native_dataset \<Rightarrow> nat list option" where
  "active_physical_indices nd = (case nd_active nd of Full \<Rightarrow> None | Table t \<Rightarrow> Some (physical_indices t))"

definition new_epoch_len :: "nat \<Rightarrow> nat exn" where
  "new_epoch_len n = (if n = 0 then Raise (ValueError ''epoch_len must be at least 1'') else Return n)"

text \<open>\<open>DatasetState::load\<close>, given what loading the cache directories returned.\<close>

definition native_load ::
  "('a, 'x) loaded_cache list exn \<Rightarrow> nat \<Rightarrow> nat \<Rightarrow> nat \<Rightarrow> bool \<Rightarrow> bool \<Rightarrow> ('a, 'x) native_dataset exn" where
  "native_load loaded num_workers seed prefetch shuffle paths_empty =
     (if paths_empty then Raise (ValueError ''CachedDataset requires at least one cache path'')
      else if prefetch = 0 then Raise (ValueError ''prefetch_size must be greater than zero'')
      else bindE loaded (\<lambda>caches.
        bindE (cache_lookup caches) (\<lambda>_.
        bindE (common_schema caches) (\<lambda>_.
        bindE (collect_cache_offsets caches) (\<lambda>(offs, total).
        if total = 0 then Raise (ValueError ''dataset contains no physical samples'')
        else Return \<lparr>nd_caches = caches, nd_total = total, nd_seed = seed, nd_prefetch = prefetch,
               nd_num_workers = num_workers, nd_shuffle = shuffle, nd_active = Full, nd_epoch_len = total,
               nd_sequential_offset = 0, nd_draw_offset = 0\<rparr>)))))"

definition native_set_epoch_len :: "('a, 'x) native_dataset \<Rightarrow> nat \<Rightarrow> ('a, 'x) native_dataset exn" where
  "native_set_epoch_len nd n = bindE (new_epoch_len n) (\<lambda>len. Return (nd\<lparr>nd_epoch_len := len\<rparr>))"

definition replace_active :: "('a, 'x) native_dataset \<Rightarrow> 'x ActiveTable \<Rightarrow> ('a, 'x) native_dataset exn" where
  "replace_active nd t =
     bindE (new_epoch_len (length (physical_indices t))) (\<lambda>len.
     Return (nd\<lparr>nd_active := Table t, nd_epoch_len := len, nd_sequential_offset := 0, nd_draw_offset := 0\<rparr>))"

definition new_sampler :: "rng \<Rightarrow> ('a, 'x) native_dataset \<Rightarrow> EpochSampler exn" where
  "new_sampler g nd =
     (case nd_active nd of
        Full \<Rightarrow>
          if nd_total nd = 0 then Raise (ValueError ''cannot sample from an empty population'')
          else Return (Uniform (nd_seed nd) (nd_draw_offset nd) (nd_epoch_len nd) (nd_total nd))
      | Table t \<Rightarrow>
          if \<not> accept_weights g (weights t) then Raise (ValueError ''invalid weights'')
          else Return (Weighted (weights t) (nd_seed nd) (nd_draw_offset nd) (nd_epoch_len nd)))"

definition epoch_plan :: "rng \<Rightarrow> ('a, 'x) native_dataset \<Rightarrow> (EpochPlan \<times> ('a, 'x) native_dataset) exn" where
  "epoch_plan g nd =
     (if \<not> nd_shuffle nd then
        bindE (advance_cyclic_offset (nd_sequential_offset nd) (nd_epoch_len nd) (active_len nd)) (\<lambda>next_offset.
        Return (SequentialPlan (nd_epoch_len nd) (nd_sequential_offset nd) (active_len nd) (active_physical_indices nd),
                nd\<lparr>nd_sequential_offset := next_offset\<rparr>))
      else
        bindE (advance_draw_offset (nd_draw_offset nd) (nd_epoch_len nd)) (\<lambda>next_draw.
        bindE (new_sampler g nd) (\<lambda>sampler.
        Return (ShuffledPlan sampler (active_physical_indices nd), nd\<lparr>nd_draw_offset := next_draw\<rparr>))))"

text \<open>
  \<open>extract_metadata_arrow\<close>: every row must name a known physical sample. Column presence and types are
  those of the row record; the weights are checked last, together.
\<close>

definition physical_index ::
  "('a, 'x) loaded_cache list \<Rightarrow> nat list \<Rightarrow> (nat \<Rightarrow> nat option) \<Rightarrow> nat \<Rightarrow> nat \<Rightarrow> nat exn" where
  "physical_index caches offs lookup cid sid =
     (case lookup cid of
        None \<Rightarrow> Raise (ValueError ''unknown samples metadata row identity'')
      | Some c \<Rightarrow>
        if c \<ge> length caches \<or> sid \<ge> cache_count (caches ! c)
        then Raise (ValueError ''unknown samples metadata row identity'')
        else if offs ! c + sid < 2 ^ 64 then Return (offs ! c + sid)
        else Raise (ValueError ''physical weight index overflowed usize''))"

definition extract_metadata :: "rng \<Rightarrow> ('a, 'x) native_dataset \<Rightarrow> 'x metadata_row list \<Rightarrow> 'x ActiveTable exn" where
  "extract_metadata g nd rows =
     (if rows = [] then Raise (ValueError ''metadata table must include at least one sample'')
      else bindE (cache_lookup (nd_caches nd)) (\<lambda>lookup.
        bindE (collect_cache_offsets (nd_caches nd)) (\<lambda>(offs, total).
        bindE (mapE (\<lambda>r. physical_index (nd_caches nd) offs lookup (row_cache_id r) (row_sample_id r)) rows) (\<lambda>idx.
        if accept_weights g (map row_weight rows)
        then Return \<lparr>physical_indices = idx, weights = map row_weight rows, table_rows = rows\<rparr>
        else Raise (ValueError ''invalid weights'')))))"

text \<open>The active table a reader sees: the accepted rows, or those of all caches with unit weights.\<close>

definition original_rows :: "('a, 'x) native_dataset \<Rightarrow> 'x metadata_row list" where
  "original_rows nd = concat (map (\<lambda>c. map (\<lambda>i.
     \<lparr>row_cache_id = cache_id c, row_sample_id = i, row_weight = 1, row_columns = cache_columns c i\<rparr>)
     [0..<cache_count c]) (nd_caches nd))"

definition metadata_rows :: "('a, 'x) native_dataset \<Rightarrow> 'x metadata_row list" where
  "metadata_rows nd = (case nd_active nd of Full \<Rightarrow> original_rows nd | Table t \<Rightarrow> table_rows t)"

text \<open>\<open>update_metadata_arrow\<close>: select the rows, validate all of them, then replace the state.\<close>

definition select_rows :: "'r list \<Rightarrow> int list option \<Rightarrow> 'r list exn" where
  "select_rows rows selection =
     (case selection of
        None \<Rightarrow> Return rows
      | Some sel \<Rightarrow>
          if list_all (\<lambda>j. 0 \<le> j \<and> j < int (length rows)) sel then Return (map (\<lambda>j. rows ! nat j) sel)
          else Raise (ValueError ''metadata selection is out of range''))"

definition native_update_metadata ::
  "rng \<Rightarrow> ('a, 'x) native_dataset \<Rightarrow> 'x metadata_row list \<Rightarrow> int list option \<Rightarrow> ('a, 'x) native_dataset exn" where
  "native_update_metadata g nd rows selection =
     bindE (select_rows rows selection) (\<lambda>active.
     bindE (extract_metadata g nd active) (\<lambda>t. replace_active nd t))"

definition native_get_item :: "('a, 'x) native_dataset \<Rightarrow> nat \<Rightarrow> nat \<Rightarrow> 'a CachedSample exn" where
  "native_get_item nd cid sid =
     bindE (cache_lookup (nd_caches nd)) (\<lambda>lookup. load_sample_by_identity (nd_caches nd) lookup cid sid)"

text \<open>The samples a plan yields: its physical indices in sequence, each read from its cache.\<close>

fun plan_indices :: "rng \<Rightarrow> EpochPlan \<Rightarrow> nat \<Rightarrow> nat \<Rightarrow> nat option list" where
  "plan_indices g plan sequence 0 = []"
| "plan_indices g plan sequence (Suc n) =
     (case next_physical_index g plan sequence of (i, plan') \<Rightarrow> i # plan_indices g plan' (sequence + 1) n)"

definition load_index :: "('a, 'x) native_dataset \<Rightarrow> nat option \<Rightarrow> 'a CachedSample exn" where
  "load_index nd i =
     (case i of
        None \<Rightarrow> Raise (RuntimeError ''native worker failed'')
      | Some p \<Rightarrow> bindE (collect_cache_offsets (nd_caches nd)) (\<lambda>(offs, total). load_planned_sample (nd_caches nd) offs p))"

definition open_window :: "rng \<Rightarrow> ('a, 'x) native_dataset \<Rightarrow> ('a CachedSample exn list \<times> ('a, 'x) native_dataset) exn" where
  "open_window g nd =
     bindE (epoch_plan g nd) (\<lambda>(plan, nd').
     Return (map (load_index nd) (plan_indices g plan 0 (plan_len plan)), nd'))"

section \<open>Cursors\<close>

lemma cyclic_step:
  fixes start step n :: nat
  assumes "start < n"
  shows "(if n - step mod n \<le> start then start - (n - step mod n) else start + step mod n) = (start + step) mod n"
proof -
  have s: "step mod n < n" using assms by simp
  then have wrapped: "start + step mod n - n < n" using assms by linarith
  have "(start + step) mod n = (start + step mod n) mod n" by (simp add: mod_add_right_eq)
  also have "\<dots> = (if n \<le> start + step mod n then start + step mod n - n else start + step mod n)"
    using assms s wrapped le_mod_geq [of n "start + step mod n"] mod_less [OF wrapped] by auto
  finally show ?thesis using s by auto
qed

lemma advance_cyclic_offset_mod:
  "start < n \<Longrightarrow> advance_cyclic_offset start step n = Return ((start + step) mod n)"
  using cyclic_step [of start n step] by (auto simp: advance_cyclic_offset_def Let_def)

lemma wrapping_add_mod_mod:
  "start < n \<Longrightarrow> wrapping_add_mod start offset n = Some ((start + offset) mod n)"
  using cyclic_step [of start n offset] by (auto simp: wrapping_add_mod_def Let_def)

section \<open>The stream behind the windows\<close>

text \<open>
  Element \<open>p\<close> of the endless stream of a dataset: in sequential mode the active rows over and over, in
  shuffled mode the draw numbered \<open>p\<close>.
\<close>

definition active_pick :: "rng \<Rightarrow> ('a, 'x) native_dataset \<Rightarrow> nat \<Rightarrow> nat" where
  "active_pick g nd p =
     (if \<not> nd_shuffle nd then p mod active_len nd
      else case nd_active nd of
        Full \<Rightarrow> uniform_draw g (sample_key (nd_seed nd) p) (nd_total nd)
      | Table t \<Rightarrow> weighted_draw g (sample_key (nd_seed nd) p) (weights t))"

definition sample_stream :: "rng \<Rightarrow> ('a, 'x) native_dataset \<Rightarrow> nat \<Rightarrow> 'a CachedSample exn" where
  "sample_stream g nd p = load_index nd (index_get (active_physical_indices nd) (active_pick g nd p))"

text \<open>Same dataset up to its cursors.\<close>

definition same_source :: "('a, 'x) native_dataset \<Rightarrow> ('a, 'x) native_dataset \<Rightarrow> bool" where
  "same_source nd nd' \<longleftrightarrow> nd' = nd\<lparr>nd_sequential_offset := nd_sequential_offset nd', nd_draw_offset := nd_draw_offset nd'\<rparr>"

definition ready :: "rng \<Rightarrow> ('a, 'x) native_dataset \<Rightarrow> bool" where
  "ready g nd \<longleftrightarrow> 0 < nd_epoch_len nd \<and> 0 < active_len nd \<and>
     (nd_shuffle nd \<longrightarrow> (case nd_active nd of Full \<Rightarrow> True | Table t \<Rightarrow> accept_weights g (weights t)))"

definition positioned :: "rng \<Rightarrow> ('a, 'x) native_dataset \<Rightarrow> ('a, 'x) native_dataset \<Rightarrow> nat \<Rightarrow> bool" where
  "positioned g nd0 nd p \<longleftrightarrow> ready g nd0 \<and> same_source nd0 nd \<and>
     (if nd_shuffle nd0 then nd_draw_offset nd = p else nd_sequential_offset nd = p mod active_len nd0)"

definition draw_limit :: "('a, 'x) native_dataset \<Rightarrow> nat \<Rightarrow> bool" where
  "draw_limit nd0 p \<longleftrightarrow> \<not> nd_shuffle nd0 \<or> p < 2 ^ 64"

lemma plan_indices_sequential:
  assumes "start < pop" and "sequence + m \<le> n"
  shows "plan_indices g (SequentialPlan n start pop idx) sequence m =
    map (\<lambda>k. index_get idx ((start + k) mod pop)) [sequence..<sequence + m]"
  using assms(2)
proof (induction m arbitrary: sequence)
  case (Suc m)
  then show ?case using assms(1)
    by (simp add: wrapping_add_mod_mod upt_conv_Cons del: upt_Suc)
qed simp

definition sampler_value :: "rng \<Rightarrow> EpochSampler \<Rightarrow> nat \<Rightarrow> nat" where
  "sampler_value g s d =
     (case s of Uniform seed draw rem n \<Rightarrow> uniform_draw g (sample_key seed d) n
              | Weighted ws seed draw rem \<Rightarrow> weighted_draw g (sample_key seed d) ws)"

lemma plan_indices_shuffled:
  assumes "m \<le> remaining s" and "next_draw s + m < 2 ^ 64"
  shows "plan_indices g (ShuffledPlan s idx) sequence m =
    map (\<lambda>d. index_get idx (sampler_value g s d)) [next_draw s..<next_draw s + m]"
  using assms
proof (induction m arbitrary: s sequence)
  case (Suc m)
  have sat: "saturating_succ (next_draw s) = Suc (next_draw s)" using Suc.prems(2) by (simp add: saturating_succ_def)
  obtain s' where s': "sampler_next g s = Some (sampler_value g s (next_draw s), s')" "remaining s' = remaining s - 1"
      "next_draw s' = Suc (next_draw s)" "sampler_value g s' = sampler_value g s"
    using Suc.prems(1) sat by (cases s) (auto simp: sampler_value_def fun_eq_iff)
  have "plan_indices g (ShuffledPlan s' idx) (sequence + 1) m =
      map (\<lambda>d. index_get idx (sampler_value g s d)) [Suc (next_draw s)..<Suc (next_draw s) + m]"
    using Suc.IH [of s' "sequence + 1"] Suc.prems s' by simp
  then show ?case using s' by (simp add: upt_conv_Cons del: upt_Suc)
qed simp

lemma same_source_fields:
  assumes "same_source nd0 nd"
  shows "nd_caches nd = nd_caches nd0" "nd_total nd = nd_total nd0" "nd_seed nd = nd_seed nd0" "nd_shuffle nd = nd_shuffle nd0"
    "nd_active nd = nd_active nd0" "nd_epoch_len nd = nd_epoch_len nd0" "active_len nd = active_len nd0"
    "active_physical_indices nd = active_physical_indices nd0" "load_index nd = load_index nd0"
proof -
  obtain a b where nd: "nd = nd0\<lparr>nd_sequential_offset := a, nd_draw_offset := b\<rparr>" using assms unfolding same_source_def by blast
  show "nd_caches nd = nd_caches nd0" "nd_total nd = nd_total nd0" "nd_seed nd = nd_seed nd0" "nd_shuffle nd = nd_shuffle nd0"
    "nd_active nd = nd_active nd0" "nd_epoch_len nd = nd_epoch_len nd0" "active_len nd = active_len nd0"
    "active_physical_indices nd = active_physical_indices nd0" "load_index nd = load_index nd0"
    by (simp_all add: nd active_len_def active_physical_indices_def load_index_def fun_eq_iff
        split: ActiveMetadata.split option.split)
qed

lemma same_source_cursors:
  assumes "same_source nd0 nd"
  shows "same_source nd0 (nd\<lparr>nd_sequential_offset := a\<rparr>)" "same_source nd0 (nd\<lparr>nd_draw_offset := b\<rparr>)"
proof -
  obtain c d where "nd = nd0\<lparr>nd_sequential_offset := c, nd_draw_offset := d\<rparr>" using assms unfolding same_source_def by blast
  then show "same_source nd0 (nd\<lparr>nd_sequential_offset := a\<rparr>)" "same_source nd0 (nd\<lparr>nd_draw_offset := b\<rparr>)"
    by (simp_all add: same_source_def)
qed

lemma open_window_sequential:
  assumes ready: "ready g nd0" and same: "same_source nd0 nd" and "\<not> nd_shuffle nd0"
    and off: "nd_sequential_offset nd = p mod active_len nd0"
  shows "\<exists>nd'. open_window g nd = Return (map (sample_stream g nd0) [p..<p + nd_epoch_len nd0], nd') \<and>
    positioned g nd0 nd' (p + nd_epoch_len nd0)"
proof -
  let ?n = "active_len nd0" and ?len = "nd_epoch_len nd0"
  note same = same_source_fields [OF same] and n = ready [unfolded ready_def]
  let ?nd' = "nd\<lparr>nd_sequential_offset := (p + ?len) mod ?n\<rparr>"
  have "p mod ?n < ?n" using n by simp
  then have plan: "epoch_plan g nd = Return (SequentialPlan ?len (p mod ?n) ?n (active_physical_indices nd0), ?nd')"
    using assms(3) same off by (simp add: epoch_plan_def advance_cyclic_offset_mod mod_add_left_eq)
  have "plan_indices g (SequentialPlan ?len (p mod ?n) ?n (active_physical_indices nd0)) 0 ?len =
      map (\<lambda>k. index_get (active_physical_indices nd0) ((p mod ?n + k) mod ?n)) [0..<?len]"
    using plan_indices_sequential [of "p mod ?n" ?n 0 ?len ?len g] n by simp
  also have "\<dots> = map (\<lambda>q. index_get (active_physical_indices nd0) (active_pick g nd0 q)) [p..<p + ?len]"
    using assms(3) by (intro nth_equalityI) (simp_all add: active_pick_def mod_add_left_eq)
  finally have "open_window g nd = Return (map (sample_stream g nd0) [p..<p + ?len], ?nd')"
    using plan same by (simp add: open_window_def sample_stream_def o_def)
  moreover have "positioned g nd0 ?nd' (p + ?len)"
    using ready assms(2,3) by (simp add: positioned_def same_source_cursors)
  ultimately show ?thesis by blast
qed

lemma open_window_shuffled:
  assumes ready: "ready g nd0" and same: "same_source nd0 nd" and "nd_shuffle nd0"
    and off: "nd_draw_offset nd = p" and "p + nd_epoch_len nd0 < 2 ^ 64"
  shows "\<exists>nd'. open_window g nd = Return (map (sample_stream g nd0) [p..<p + nd_epoch_len nd0], nd') \<and>
    positioned g nd0 nd' (p + nd_epoch_len nd0)"
proof -
  let ?len = "nd_epoch_len nd0"
  note fields = same_source_fields [OF same] and n = ready [unfolded ready_def]
  let ?nd' = "nd\<lparr>nd_draw_offset := p + ?len\<rparr>"
  obtain s where s: "new_sampler g nd = Return s" "next_draw s = p" "remaining s = ?len"
      "\<And>d. sampler_value g s d = active_pick g nd0 d"
    using n assms(3) fields off
    by (cases "nd_active nd0") (auto simp: new_sampler_def active_pick_def sampler_value_def active_len_def)
  have "epoch_plan g nd = Return (ShuffledPlan s (active_physical_indices nd0), ?nd')"
    using assms(3,5) fields off s by (simp add: epoch_plan_def advance_draw_offset_def)
  moreover have "plan_indices g (ShuffledPlan s (active_physical_indices nd0)) 0 ?len =
      map (\<lambda>d. index_get (active_physical_indices nd0) (active_pick g nd0 d)) [p..<p + ?len]"
    using plan_indices_shuffled [of ?len s g "active_physical_indices nd0" 0] s assms(5) by simp
  ultimately have "open_window g nd = Return (map (sample_stream g nd0) [p..<p + ?len], ?nd')"
    using fields s by (simp add: open_window_def sample_stream_def o_def)
  moreover have "positioned g nd0 ?nd' (p + ?len)"
    using ready assms(2,3) by (simp add: positioned_def same_source_cursors)
  ultimately show ?thesis by blast
qed

text \<open>The native dataset keeps the contract of a window source.\<close>

interpretation native: window_source "open_window g" "positioned g nd0" "sample_stream g nd0"
    "nd_epoch_len nd0" "draw_limit nd0" for g nd0
proof
  show "positioned g nd0 nd p \<Longrightarrow> 0 < nd_epoch_len nd0" for nd p
    by (simp add: positioned_def ready_def)
  show "\<exists>nd'. open_window g nd = Return (map (sample_stream g nd0) [p..<p + nd_epoch_len nd0], nd') \<and>
      positioned g nd0 nd' (p + nd_epoch_len nd0)"
    if "positioned g nd0 nd p" "draw_limit nd0 (p + nd_epoch_len nd0)" for nd p
    using that open_window_sequential [of g nd0 nd p] open_window_shuffled [of g nd0 nd p]
    by (auto simp: positioned_def draw_limit_def split: if_splits)
  show "draw_limit nd0 q \<Longrightarrow> p \<le> q \<Longrightarrow> draw_limit nd0 p" for p q
    by (auto simp: draw_limit_def)
qed

section \<open>Physical indices and identities\<close>

abbreviation first_index :: "('a, 'x) loaded_cache list \<Rightarrow> nat \<Rightarrow> nat" where
  "first_index caches c \<equiv> sum_list (map cache_count (take c caches))"

lemma offsets_from_values:
  assumes "offsets_from base caches = Return (offs, n)"
  shows "offs = map (\<lambda>c. base + first_index caches c) [0..<length caches]" and "n = base + first_index caches (length caches)"
proof -
  have "offs = map (\<lambda>c. base + first_index caches c) [0..<length caches] \<and> n = base + first_index caches (length caches)"
    using assms
  proof (induction caches arbitrary: base offs n)
    case (Cons c cs)
    then obtain offs' where rest: "offsets_from (base + cache_count c) cs = Return (offs', n)" "offs = base # offs'"
      by (auto simp: exn_simps split: if_splits)
    then show ?case using Cons.IH [OF rest(1)]
      by (simp add: upt_conv_Cons map_Suc_upt [symmetric] o_def add.assoc del: upt_Suc)
  qed simp
  then show "offs = map (\<lambda>c. base + first_index caches c) [0..<length caches]"
    "n = base + first_index caches (length caches)" by simp_all
qed

lemma first_index_mono: "i \<le> j \<Longrightarrow> first_index caches i \<le> first_index caches j"
proof -
  assume "i \<le> j"
  then have "take j caches = take i caches @ take (j - i) (drop i caches)"
    by (metis add_diff_inverse_nat linorder_not_le take_add)
  then show ?thesis by simp
qed

lemma first_index_Suc: "c < length caches \<Longrightarrow> first_index caches (Suc c) = first_index caches c + cache_count (caches ! c)"
  by (simp add: take_Suc_conv_app_nth)

lemma partition_point_last:
  assumes "mono f" and "c < n" and "f c \<le> (p :: nat)" and "c + 1 = n \<or> p < f (Suc c)"
  shows "partition_point (\<lambda>off. off \<le> p) (map f [0..<n]) = Suc c"
proof -
  have below: "\<forall>x\<in>set (map f [0..<Suc c]). x \<le> p"
  proof
    fix x assume "x \<in> set (map f [0..<Suc c])"
    then obtain j where "x = f j" "j \<le> c" by auto
    then show "x \<le> p" using monoD [OF assms(1), of j c] assms(3) by simp
  qed
  have split: "map f [0..<n] = map f [0..<Suc c] @ map f [Suc c..<n]"
    using assms(2) by (metis Suc_leI map_append upt_join le0)
  have "takeWhile (\<lambda>off. off \<le> p) (map f [Suc c..<n]) = []"
    using assms(4) by (cases "Suc c < n") (auto simp: upt_conv_Cons simp del: upt_Suc)
  then have "takeWhile (\<lambda>off. off \<le> p) (map f [0..<n]) = map f [0..<Suc c]"
    unfolding split using below by (subst takeWhile_append2) auto
  then show ?thesis by (simp add: partition_point_def)
qed

lemma locate_eq:
  assumes "collect_cache_offsets caches = Return (offs, n)" and "c < length caches" and "i < cache_count (caches ! c)"
  shows "locate_physical_sample caches offs (first_index caches c + i) = Return (c, i)"
proof -
  have offs: "offs = map (first_index caches) [0..<length caches]"
    using offsets_from_values(1) [of 0 caches offs n] assms(1) by (simp add: collect_cache_offsets_def)
  have "partition_point (\<lambda>off. off \<le> first_index caches c + i) offs = Suc c"
    unfolding offs using assms(2,3) first_index_Suc [OF assms(2)]
    by (intro partition_point_last) (auto simp: mono_def first_index_mono)
  then show ?thesis using assms(2,3) offs by (simp add: locate_physical_sample_def)
qed

lemma locate_exists:
  assumes "p < first_index caches (length caches)"
  shows "\<exists>c i. c < length caches \<and> i < cache_count (caches ! c) \<and> p = first_index caches c + i"
  using assms
proof (induction caches arbitrary: p)
  case (Cons k ks)
  show ?case
  proof (cases "p < cache_count k")
    case True
    then show ?thesis by (intro exI [of _ 0] exI [of _ p]) simp
  next
    case False
    then obtain c i where "c < length ks" "i < cache_count (ks ! c)" "p - cache_count k = first_index ks c + i"
      using Cons by (metis (no_types, lifting) add_diff_inverse_nat length_Cons list.simps(9) nat_add_left_cancel_less
          sum_list.Cons take_Suc_Cons)
    then show ?thesis using False by (intro exI [of _ "Suc c"] exI [of _ i]) simp
  qed
qed simp

lemma lookup_from_position:
  assumes "lookup_from position m caches = Return lookup"
  shows "(\<forall>k. m k \<noteq> None \<longrightarrow> lookup k = m k) \<and> (\<forall>c<length caches. lookup (cache_id (caches ! c)) = Some (position + c))"
  using assms
proof (induction caches arbitrary: position m)
  case (Cons x xs)
  then have "m (cache_id x) = None" "lookup_from (position + 1) (m(cache_id x \<mapsto> position)) xs = Return lookup"
    by (auto split: if_splits)
  with Cons.IH [OF this(2)] show ?case by (auto simp: nth_Cons split: nat.splits if_splits)
qed simp

section \<open>Properties\<close>

text \<open>
  Physical indices name the samples of all caches exactly once: location succeeds below the total,
  and maps the indices one to one onto the pairs of a cache position and a sample row in that cache.
\<close>

theorem physical_indices_bijective:
  assumes "collect_cache_offsets caches = Return (offs, n)"
  shows "(\<forall>p<n. \<exists>c i. locate_physical_sample caches offs p = Return (c, i)) \<and>
    bij_betw (\<lambda>p. projr (locate_physical_sample caches offs p)) {..<n}
      {(c, i). c < length caches \<and> i < cache_count (caches ! c)}"
proof -
  have n: "n = first_index caches (length caches)"
    using offsets_from_values(2) [of 0 caches offs n] assms by (simp add: collect_cache_offsets_def)
  have at: "\<exists>c i. c < length caches \<and> i < cache_count (caches ! c) \<and> p = first_index caches c + i \<and>
      locate_physical_sample caches offs p = Return (c, i)" if p: "p < n" for p
  proof -
    obtain c i where ci: "c < length caches" "i < cache_count (caches ! c)" "p = first_index caches c + i"
      using locate_exists p unfolding n by blast
    then show ?thesis using locate_eq [OF assms ci(1,2)] by blast
  qed
  have "bij_betw (\<lambda>p. projr (locate_physical_sample caches offs p)) {..<n} {(c, i). c < length caches \<and> i < cache_count (caches ! c)}"
  proof (rule bij_betwI')
    fix p q assume pq: "p \<in> {..<n}" "q \<in> {..<n}"
    obtain c i where p: "p = first_index caches c + i" "locate_physical_sample caches offs p = Return (c, i)"
      using at pq(1) by blast
    obtain c' i' where q: "q = first_index caches c' + i'" "locate_physical_sample caches offs q = Return (c', i')"
      using at pq(2) by blast
    show "projr (locate_physical_sample caches offs p) = projr (locate_physical_sample caches offs q) \<longleftrightarrow> p = q"
      unfolding p(2) q(2) sum.sel using p q by (metis Inr_inject prod.inject)
  next
    fix p assume "p \<in> {..<n}"
    then show "projr (locate_physical_sample caches offs p) \<in> {(c, i). c < length caches \<and> i < cache_count (caches ! c)}"
      using at [of p] by auto
  next
    fix y assume "y \<in> {(c, i). c < length caches \<and> i < cache_count (caches ! c)}"
    then obtain c i where y: "y = (c, i)" "c < length caches" "i < cache_count (caches ! c)" by auto
    then have "first_index caches c + i < n"
      using first_index_mono [of "Suc c" "length caches" caches] first_index_Suc [of c caches] n by simp
    then show "\<exists>p\<in>{..<n}. y = projr (locate_physical_sample caches offs p)"
      using locate_eq [OF assms y(2,3)] y(1) by (intro bexI [of _ "first_index caches c + i"]) auto
  qed
  then show ?thesis using at by blast
qed

definition demo_caches :: "(string, string) loaded_cache list" where
  "demo_caches = [\<lparr>cache_id = 40, cache_schema = [], cache_count = 2, cache_read = (\<lambda>i. Return ''a''), cache_columns = (\<lambda>i. [])\<rparr>,
     \<lparr>cache_id = 7, cache_schema = [], cache_count = 0, cache_read = (\<lambda>i. Return ''b''), cache_columns = (\<lambda>i. [])\<rparr>,
     \<lparr>cache_id = 9, cache_schema = [], cache_count = 3, cache_read = (\<lambda>i. Return ''c''), cache_columns = (\<lambda>i. [])\<rparr>]"

lemma demo_offsets: "collect_cache_offsets demo_caches = Return ([0, 2, 2], 5)"
  by (simp add: collect_cache_offsets_def demo_caches_def)

theorem physical_indices_bijective_witness:
  "bij_betw (\<lambda>p. projr (locate_physical_sample demo_caches [0, 2, 2] p)) {..<5}
     {(c, i). c < length demo_caches \<and> i < cache_count (demo_caches ! c)}"
  using physical_indices_bijective [OF demo_offsets] by simp

text \<open>
  Random access agrees with iteration: the identity an iterated sample carries, passed to
  \<open>get_item\<close>, returns that sample again, independently of the active rows and the cursors.
\<close>

theorem get_item_agrees:
  assumes "cache_lookup (nd_caches nd) = Return lookup" and "load_index nd i = Return s"
  shows "native_get_item nd (sample_cache_id s) (sample_id s) = Return s"
proof -
  obtain p offs n where p: "collect_cache_offsets (nd_caches nd) = Return (offs, n)"
      "load_planned_sample (nd_caches nd) offs p = Return s"
    using assms(2) by (auto simp: load_index_def exn_simps split: option.splits)
  then obtain c k v where "locate_physical_sample (nd_caches nd) offs p = Return (c, k)"
      and v: "cache_read (nd_caches nd ! c) k = Return v"
      and s: "s = \<lparr>sample_value = v, sample_cache_id = cache_id (nd_caches nd ! c), sample_id = k\<rparr>"
    by (auto simp: load_planned_sample_def exn_simps)
  then have c: "c < length (nd_caches nd)" "k < cache_count (nd_caches nd ! c)"
    by (auto simp: locate_physical_sample_def Let_def split: if_splits)
  have "lookup (cache_id (nd_caches nd ! c)) = Some c"
    using lookup_from_position [of 0 "\<lambda>k. None" "nd_caches nd" lookup] assms(1) c(1) by (simp add: cache_lookup_def)
  then show ?thesis using assms(1) c v s by (simp add: native_get_item_def load_sample_by_identity_def)
qed

definition demo_native :: "(string, string) native_dataset" where
  "demo_native = \<lparr>nd_caches = demo_caches, nd_total = 5, nd_seed = 7, nd_prefetch = 64, nd_num_workers = 2,
     nd_shuffle = False, nd_active = Table \<lparr>physical_indices = [4, 0, 4], weights = [1, 2, 1], table_rows = []\<rparr>,
     nd_epoch_len = 2, nd_sequential_offset = 0, nd_draw_offset = 0\<rparr>"

theorem get_item_agrees_witness:
  "\<exists>s. load_index demo_native (Some 4) = Return s \<and> native_get_item demo_native (sample_cache_id s) (sample_id s) = Return s"
proof -
  have "locate_physical_sample demo_caches [0, 2, 2] 4 = Return (2, 2)"
    by (simp add: locate_physical_sample_def partition_point_def demo_caches_def Let_def)
  then have "load_index demo_native (Some 4) = Return \<lparr>sample_value = ''c'', sample_cache_id = 9, sample_id = 2\<rparr>"
    using demo_offsets by (simp add: load_index_def demo_native_def load_planned_sample_def demo_caches_def)
  moreover have "cache_lookup (nd_caches demo_native) = Return ((\<lambda>k. None)(40 \<mapsto> 0, 7 \<mapsto> 1, 9 \<mapsto> 2))"
    by (simp add: cache_lookup_def demo_native_def demo_caches_def numeral_2_eq_2)
  ultimately show ?thesis using get_item_agrees [of demo_native] by blast
qed

end
