(* ===== verification/Reconstruction.thy ===== *)
theory Reconstruction
  imports Config Records "HOL-Library.Multiset"
begin

text \<open>
  \<open>src/dataset_rt/reconstruction.py\<close>: construction artifacts, that is the exported configuration,
  the metadata snapshot and the shared row order, and the row selection a worker reads through them.

  The file system is a map from paths to directories and typed file contents. Path resolution, the
  JSON codec of pydantic and numpy's seeded shuffle are arguments. An input/output step may fail: a
  \<open>fault\<close> carries the exception and what a failed write left behind; \<open>unlink\<close> during the cleanup
  itself is taken to succeed. An unsigned 64-bit numpy array is a list of \<open>int\<close> with the wrap-around
  written out.
\<close>

section \<open>Files\<close>

datatype 'row content = Json string | Arrow "'row list" | Npy "int list"

datatype 'row node = Directory | File "'row content"

type_synonym 'row fs = "path \<Rightarrow> 'row node option"

definition is_directory :: "'row fs \<Rightarrow> path \<Rightarrow> bool" where
  "is_directory fs p \<longleftrightarrow> fs p = Some Directory"

definition is_file :: "'row fs \<Rightarrow> path \<Rightarrow> bool" where
  "is_file fs p \<longleftrightarrow> (case fs p of Some (File c) \<Rightarrow> True | _ \<Rightarrow> False)"

text \<open>The pydantic adapters \<open>DIRECTORY_PATH\<close> and \<open>FILE_PATH\<close>.\<close>

definition DIRECTORY_PATH :: "'row fs \<Rightarrow> path \<Rightarrow> path exn" where
  "DIRECTORY_PATH fs p =
     (if is_directory fs p then Return p else Raise (ValueError ''Path does not point to a directory''))"

definition FILE_PATH :: "'row fs \<Rightarrow> path \<Rightarrow> path exn" where
  "FILE_PATH fs p =
     (if is_file fs p then Return p else Raise (ValueError ''Path does not point to a file''))"

definition CONFIG_NAME :: string where "CONFIG_NAME = ''dataset.json''"
definition METADATA_NAME :: string where "METADATA_NAME = ''metadata.arrow''"
definition ORDER_NAME :: string where "ORDER_NAME = ''partition-order.npy''"

section \<open>The exported configuration\<close>

record DatasetConfiguration =
  cfg_cache_paths :: "path list"
  cfg_reader_config :: ReaderConfig
  cfg_num_workers :: int
  cfg_epoch_len :: int
  cfg_row_count :: int

definition check_DatasetConfiguration :: "'row fs \<Rightarrow> DatasetConfiguration \<Rightarrow> DatasetConfiguration exn" where
  "check_DatasetConfiguration fs c =
     (if cfg_cache_paths c = [] then Raise (ValueError ''cache_paths'')
      else if \<not> list_all (is_directory fs) (cfg_cache_paths c) then Raise (ValueError ''cache_paths'')
      else if cfg_num_workers c < 1 then Raise (ValueError ''num_workers'')
      else if cfg_epoch_len c < 1 then Raise (ValueError ''epoch_len'')
      else if cfg_row_count c < 1 then Raise (ValueError ''row_count'')
      else bindE (check_ReaderConfig (cfg_reader_config c)) (\<lambda>_. Return c))"

section \<open>Publishing an export\<close>

datatype 'row fs_op =
    Write path "'row content"
  | Sync path
  | Replace path path
  | Validate DatasetConfiguration

type_synonym 'row fault = "(py_error \<times> 'row node option) option"

definition exec_op :: "'row fs \<Rightarrow> 'row fs_op \<Rightarrow> 'row fault \<Rightarrow> 'row fs \<times> py_error option" where
  "exec_op fs oper fault =
     (case oper of
        Write p c \<Rightarrow>
          (case fault of None \<Rightarrow> (fs(p \<mapsto> File c), None) | Some (e, left) \<Rightarrow> (fs(p := left), Some e))
      | Sync p \<Rightarrow>
          (case fault of
             Some (e, left) \<Rightarrow> (fs, Some e)
           | None \<Rightarrow> (fs, if is_file fs p then None else Some (FileNotFoundError (path_str p))))
      | Replace p q \<Rightarrow>
          (case fault of
             Some (e, left) \<Rightarrow> (fs, Some e)
           | None \<Rightarrow> if fs p = None then (fs, Some (FileNotFoundError (path_str p)))
                     else (fs(q := fs p, p := None), None))
      | Validate c \<Rightarrow>
          (fs, case check_DatasetConfiguration fs c of Inl e \<Rightarrow> Some e | Inr _ \<Rightarrow> None))"

text \<open>The states a run of operations passes through, and the exception that stopped it.\<close>

fun run_ops :: "'row fs \<Rightarrow> ('row fs_op \<times> 'row fault) list \<Rightarrow> 'row fs list \<times> py_error option" where
  "run_ops fs [] = ([], None)"
| "run_ops fs ((oper, fault) # rest) =
     (case exec_op fs oper fault of
        (fs', Some e) \<Rightarrow> ([fs'], Some e)
      | (fs', None) \<Rightarrow> (case run_ops fs' rest of (states, r) \<Rightarrow> (fs' # states, r)))"

fun unlink_all :: "'row fs \<Rightarrow> path list \<Rightarrow> 'row fs" where
  "unlink_all fs [] = fs"
| "unlink_all fs (p # ps) = unlink_all (fs(p := None)) ps"

definition config_target :: "path \<Rightarrow> path" where "config_target d = path_child d CONFIG_NAME"
definition metadata_target :: "path \<Rightarrow> path" where "metadata_target d = path_child d METADATA_NAME"
definition pending_config :: "path \<Rightarrow> path" where
  "pending_config d = path_child d (CONFIG_NAME @ ''.partial'')"
definition pending_metadata :: "path \<Rightarrow> path" where
  "pending_metadata d = path_child d (METADATA_NAME @ ''.partial'')"

definition export_targets :: "path \<Rightarrow> path list" where
  "export_targets d = [config_target d, metadata_target d, pending_config d, pending_metadata d]"

text \<open>What \<open>dump_configuration\<close> reads of the dataset: its recipe, native state and runtime.\<close>

record 'row export_source =
  exp_rows :: "'row list"
  exp_cache_paths :: "path list"
  exp_reader_config :: ReaderConfig
  exp_num_workers :: int
  exp_epoch_len :: int

definition export_config :: "(path \<Rightarrow> path) \<Rightarrow> 'row export_source \<Rightarrow> DatasetConfiguration" where
  "export_config resolve ds =
     \<lparr>cfg_cache_paths = map resolve (exp_cache_paths ds), cfg_reader_config = exp_reader_config ds,
      cfg_num_workers = exp_num_workers ds, cfg_epoch_len = exp_epoch_len ds,
      cfg_row_count = int (length (exp_rows ds))\<rparr>"

definition export_ops ::
  "(DatasetConfiguration \<Rightarrow> string) \<Rightarrow> (path \<Rightarrow> path) \<Rightarrow> 'row export_source \<Rightarrow> path \<Rightarrow> 'row fs_op list" where
  "export_ops dump_json resolve ds d =
     [Write (pending_metadata d) (Arrow (exp_rows ds)),
      Validate (export_config resolve ds),
      Sync (pending_metadata d),
      Write (pending_config d) (Json (dump_json (export_config resolve ds))),
      Sync (pending_config d),
      Replace (pending_metadata d) (metadata_target d),
      Replace (pending_config d) (config_target d)]"

text \<open>
  The result: the states the file system passes through after the call started, the last one being the
  state it leaves, and the outcome.
\<close>

definition dump_configuration ::
  "(DatasetConfiguration \<Rightarrow> string) \<Rightarrow> (path \<Rightarrow> path) \<Rightarrow> (nat \<Rightarrow> 'row fault) \<Rightarrow>
   'row fs \<Rightarrow> 'row export_source \<Rightarrow> path \<Rightarrow> 'row fs list \<times> path exn" where
  "dump_configuration dump_json resolve faults fs ds p =
     (case DIRECTORY_PATH fs p of
        Inl e \<Rightarrow> ([fs], Raise e)
      | Inr p' \<Rightarrow>
        let d = resolve p' in
        if list_ex (\<lambda>t. fs t \<noteq> None) (export_targets d)
        then ([fs], Raise (FileExistsError ''dataset export already exists; choose an unused directory''))
        else let ops = export_ops dump_json resolve ds d in
          case run_ops fs (zip ops (map faults [0..<length ops])) of
            (states, Some e) \<Rightarrow> (states @ [unlink_all (last states) (export_targets d)], Raise e)
          | (states, None) \<Rightarrow> (states, FILE_PATH (last states) (config_target d)))"

section \<open>Loading an export\<close>

definition load_configuration ::
  "(string \<Rightarrow> DatasetConfiguration exn) \<Rightarrow> 'row fs \<Rightarrow> path \<Rightarrow> DatasetConfiguration exn" where
  "load_configuration parse_json fs p =
     bindE (FILE_PATH fs p) (\<lambda>config_path.
     case fs config_path of
       Some (File (Json text)) \<Rightarrow> bindE (parse_json text) (check_DatasetConfiguration fs)
     | _ \<Rightarrow> Raise (ValueError ''Invalid JSON''))"

definition load_metadata :: "'row fs \<Rightarrow> path \<Rightarrow> DatasetConfiguration \<Rightarrow> 'row list exn" where
  "load_metadata fs p config =
     bindE (FILE_PATH fs p) (\<lambda>config_path.
     bindE (FILE_PATH fs (path_child (path_parent config_path) METADATA_NAME)) (\<lambda>metadata_path.
     case fs metadata_path of
       Some (File (Arrow rows)) \<Rightarrow>
         if int (length rows) \<noteq> cfg_row_count config
         then Raise (ValueError ''metadata row count does not match dataset configuration'')
         else Return rows
     | _ \<Rightarrow> Raise (OSError ''not an Arrow file'')))"

section \<open>Row order and row selection\<close>

text \<open>
  The initialization loop of \<open>prepare_row_order\<close>: chunks of 65536 positions are stored into the mapped
  array, which is shuffled afterwards.
\<close>

definition store_slice :: "int list \<Rightarrow> nat \<Rightarrow> int list \<Rightarrow> int list" where
  "store_slice arr start xs = take start arr @ xs @ drop (start + length xs) arr"

function fill_order :: "nat \<Rightarrow> nat \<Rightarrow> int list \<Rightarrow> int list" where
  "fill_order n_rows start arr =
     (if start < n_rows
      then let stop = min n_rows (start + 65536) in
        fill_order n_rows (start + 65536) (store_slice arr start (map int [start..<stop]))
      else arr)"
  by pat_completeness auto
termination
  by (relation "measure (\<lambda>(n_rows, start, arr). n_rows - start)") auto

declare fill_order.simps [simp del]

definition prepare_row_order ::
  "(int \<Rightarrow> int list \<Rightarrow> int list) \<Rightarrow> 'row fs \<Rightarrow> path \<Rightarrow> nat \<Rightarrow> int \<Rightarrow> 'row fs" where
  "prepare_row_order shuffle fs p n_rows seed =
     fs(path_child (path_parent p) ORDER_NAME \<mapsto>
        File (Npy (shuffle seed (fill_order n_rows 0 (replicate n_rows 0)))))"

definition wrap_u64 :: "int \<Rightarrow> int" where
  "wrap_u64 x = x mod 2 ^ 64"

text \<open>\<open>np.arange(length, dtype=np.uint64)\<close>, then \<open>+= start\<close> and \<open>%= n_rows\<close> in place.\<close>

definition cyclic_positions :: "int \<Rightarrow> int \<Rightarrow> int \<Rightarrow> int list" where
  "cyclic_positions start len n_rows = map (\<lambda>i. wrap_u64 (wrap_u64 i + start) mod n_rows) (range_list len)"

definition population_selection ::
  "'row fs \<Rightarrow> path \<Rightarrow> int \<Rightarrow> int \<Rightarrow> int \<Rightarrow> int option \<Rightarrow> int list option exn" where
  "population_selection fs p n_rows offset len partition_seed =
     (if offset < 0 \<or> len \<le> 0
      then Raise (ValueError ''population selection requires a nonnegative offset and positive length'')
      else if partition_seed = None \<and> offset = 0 \<and> len = n_rows then Return None
      else if partition_seed = None then
        bindE (py_mod offset n_rows) (\<lambda>start. Return (Some (cyclic_positions start len n_rows)))
      else case fs (path_child (path_parent p) ORDER_NAME) of
        Some (File (Npy order)) \<Rightarrow>
          if int (length order) \<noteq> n_rows
          then Raise (ValueError ''partition order does not match metadata row count'')
          else bindE (py_mod offset n_rows) (\<lambda>start.
            if start + len \<le> n_rows
            then Return (Some (take (nat len) (drop (nat start) order)))
            else Return (Some (map (\<lambda>j. order ! nat j) (cyclic_positions start len n_rows))))
      | _ \<Rightarrow> Raise (FileNotFoundError ORDER_NAME))"

definition select_population ::
  "(int \<Rightarrow> nat \<Rightarrow> nat list) \<Rightarrow> 'row list \<Rightarrow> int \<Rightarrow> int \<Rightarrow> int option \<Rightarrow> 'row list exn" where
  "select_population permutation table offset len partition_seed =
     (if len < 0 \<or> offset < 0
      then Raise (ValueError ''population selection requires nonnegative offset and length'')
      else if len = 0 then Return []
      else let n_rows = int (length table) in
        if partition_seed = None \<and> offset + len \<le> n_rows
        then Return (take (nat len) (drop (nat offset) table))
        else bindE (py_mod offset n_rows) (\<lambda>start.
          let indices = map (\<lambda>i. (i + start) mod n_rows) (range_list len) in
          let picked = (case partition_seed of
                          None \<Rightarrow> indices
                        | Some seed \<Rightarrow> map (\<lambda>j. int (permutation seed (length table) ! nat j)) indices) in
          Return (map (\<lambda>j. table ! nat j) picked)))"

section \<open>Artifact directories\<close>

record ConstructionArtifacts =
  art_directory :: path
  art_pid :: int
  art_temporary :: bool

text \<open>\<open>mkdtemp\<close> gives a path that was absent and creates the directory.\<close>

definition create_artifacts ::
  "(path option \<Rightarrow> path) \<Rightarrow> 'row fs \<Rightarrow> int \<Rightarrow> path option \<Rightarrow> ('row fs \<times> ConstructionArtifacts) exn" where
  "create_artifacts mkdtemp fs pid work_dir =
     bindE (case work_dir of None \<Rightarrow> Return None | Some w \<Rightarrow> bindE (DIRECTORY_PATH fs w) (\<lambda>d. Return (Some d)))
       (\<lambda>root. Return (fs(mkdtemp root \<mapsto> Directory),
          \<lparr>art_directory = mkdtemp root, art_pid = pid, art_temporary = (work_dir = None)\<rparr>))"

definition rmtree :: "'row fs \<Rightarrow> path \<Rightarrow> 'row fs" where
  "rmtree fs d = (\<lambda>p. if is_relative_to p d then None else fs p)"

definition discard_artifacts :: "'row fs \<Rightarrow> int \<Rightarrow> ConstructionArtifacts \<Rightarrow> 'row fs" where
  "discard_artifacts fs getpid a = (if art_pid a = getpid then rmtree fs (art_directory a) else fs)"

definition del_artifacts :: "'row fs \<Rightarrow> int \<Rightarrow> ConstructionArtifacts \<Rightarrow> 'row fs" where
  "del_artifacts fs getpid a = (if art_temporary a then discard_artifacts fs getpid a else fs)"

section \<open>The export is all or nothing\<close>

lemma export_paths_plain:
  "plain_segment CONFIG_NAME" "plain_segment METADATA_NAME" "plain_segment ORDER_NAME"
  "plain_segment (CONFIG_NAME @ ''.partial'')" "plain_segment (METADATA_NAME @ ''.partial'')"
  by (simp_all add: plain_segment_def CONFIG_NAME_def METADATA_NAME_def ORDER_NAME_def)

lemmas export_path_defs = config_target_def metadata_target_def pending_config_def pending_metadata_def

lemma export_targets_distinct: "distinct (export_targets d)"
  using export_paths_plain
  by (simp add: export_targets_def export_path_defs path_child_inject)
     (simp add: CONFIG_NAME_def METADATA_NAME_def)

lemma export_target_neq [simp]:
  "config_target d \<noteq> metadata_target d" "config_target d \<noteq> pending_config d"
  "config_target d \<noteq> pending_metadata d" "metadata_target d \<noteq> pending_config d"
  "metadata_target d \<noteq> pending_metadata d" "pending_config d \<noteq> pending_metadata d"
  "metadata_target d \<noteq> config_target d" "pending_config d \<noteq> config_target d"
  "pending_metadata d \<noteq> config_target d" "pending_config d \<noteq> metadata_target d"
  "pending_metadata d \<noteq> metadata_target d" "pending_metadata d \<noteq> pending_config d"
  using export_targets_distinct [of d] by (auto simp: export_targets_def)

lemma unlink_all_apply: "unlink_all fs ps p = (if p \<in> set ps then None else fs p)"
  by (induction ps arbitrary: fs) auto

fun op_paths :: "'row fs_op \<Rightarrow> path set" where
  "op_paths (Write p c) = {p}"
| "op_paths (Sync p) = {}"
| "op_paths (Replace p q) = {p, q}"
| "op_paths (Validate c) = {}"

lemma exec_op_frame: "p \<notin> op_paths oper \<Longrightarrow> fst (exec_op fs oper fault) p = fs p"
  by (cases oper) (auto simp: exec_op_def split: option.splits)

lemma run_ops_frame:
  assumes "s \<in> set (fst (run_ops fs ops))" and "p \<notin> (\<Union>x\<in>set ops. op_paths (fst x))"
  shows "s p = fs p"
  using assms
proof (induction ops arbitrary: fs)
  case (Cons x rest)
  obtain oper fault where x: "x = (oper, fault)" by fastforce
  obtain fs' r where e: "exec_op fs oper fault = (fs', r)" by fastforce
  have "fs' p = fs p" using exec_op_frame [of p oper fs fault] Cons.prems(2) x e by simp
  moreover have "s = fs' \<or> s \<in> set (fst (run_ops fs' rest))"
    using Cons.prems(1) x e by (cases r) (auto split: prod.splits)
  ultimately show ?case using Cons.IH [of fs'] Cons.prems(2) by auto
qed simp

lemma run_ops_nonempty: "ops \<noteq> [] \<Longrightarrow> fst (run_ops fs ops) \<noteq> []"
  by (cases ops) (auto split: prod.splits option.splits)

lemma export_ops_paths:
  "(oper, fault) \<in> set (zip (export_ops dump_json resolve ds d) xs) \<Longrightarrow> op_paths oper \<subseteq> set (export_targets d)"
  by (drule set_zip_leftD) (auto simp: export_ops_def export_targets_def)

text \<open>
  Unfolding of an export that starts: nothing happened yet and no target exists, or the call raised at
  the directory or the occupancy check.
\<close>

lemma dump_configuration_cases:
  assumes "dump_configuration dump_json resolve faults fs ds p = (states, result)"
  obtains (refused) e where "states = [fs]" "result = Raise e"
  | (started) d ss r where "is_directory fs p" "d = resolve p" "\<forall>t\<in>set (export_targets d). fs t = None"
      "run_ops fs (zip (export_ops dump_json resolve ds d)
        (map faults [0..<length (export_ops dump_json resolve ds d)])) = (ss, r)"
      "(r = None \<and> states = ss \<and> result = FILE_PATH (last ss) (config_target d)) \<or>
       (\<exists>e. r = Some e \<and> states = ss @ [unlink_all (last ss) (export_targets d)] \<and> result = Raise e)"
proof (cases "DIRECTORY_PATH fs p")
  case (Inl e)
  show ?thesis by (rule refused [of e]) (use assms Inl in \<open>simp_all add: dump_configuration_def\<close>)
next
  case (Inr p')
  then have p: "p' = p" "is_directory fs p" by (auto simp: DIRECTORY_PATH_def split: if_splits)
  show ?thesis
  proof (cases "list_ex (\<lambda>t. fs t \<noteq> None) (export_targets (resolve p))")
    case True
    then show ?thesis using assms Inr p refused by (auto simp: dump_configuration_def)
  next
    case False
    obtain ss r where run: "run_ops fs (zip (export_ops dump_json resolve ds (resolve p))
        (map faults [0..<length (export_ops dump_json resolve ds (resolve p))])) = (ss, r)" by fastforce
    from False have "\<forall>t\<in>set (export_targets (resolve p)). fs t = None" by (simp add: list_ex_iff)
    moreover from assms Inr p False run have "(r = None \<and> states = ss \<and> result = FILE_PATH (last ss) (config_target (resolve p))) \<or>
       (\<exists>e. r = Some e \<and> states = ss @ [unlink_all (last ss) (export_targets (resolve p))] \<and> result = Raise e)"
      by (cases r) (auto simp: dump_configuration_def Let_def)
    ultimately show ?thesis using started [of "resolve p" ss r] p run by blast
  qed
qed

lemma export_states_outside:
  assumes "run_ops fs (zip (export_ops dump_json resolve ds d) xs) = (ss, r)" and "s \<in> set ss"
    and "q \<notin> set (export_targets d)"
  shows "s q = fs q"
proof (rule run_ops_frame)
  show "s \<in> set (fst (run_ops fs (zip (export_ops dump_json resolve ds d) xs)))" using assms by simp
  show "q \<notin> (\<Union>x\<in>set (zip (export_ops dump_json resolve ds d) xs). op_paths (fst x))"
    using export_ops_paths [of _ _ dump_json resolve ds d xs] assms(3) by fastforce
qed

lemma zip_export_ops:
  "zip (export_ops dump_json resolve ds d) (map faults [0..<length (export_ops dump_json resolve ds d)]) =
   [(Write (pending_metadata d) (Arrow (exp_rows ds)), faults 0),
    (Validate (export_config resolve ds), faults 1),
    (Sync (pending_metadata d), faults 2),
    (Write (pending_config d) (Json (dump_json (export_config resolve ds))), faults 3),
    (Sync (pending_config d), faults 4),
    (Replace (pending_metadata d) (metadata_target d), faults 5),
    (Replace (pending_config d) (config_target d), faults 6)]"
  by (simp add: export_ops_def upt_rec numeral_eq_Suc)

lemma export_published_order:
  assumes "\<forall>t\<in>set (export_targets d). fs t = None"
    and "run_ops fs (zip (export_ops dump_json resolve ds d)
        (map faults [0..<length (export_ops dump_json resolve ds d)])) = (ss, r)"
  shows "\<forall>s\<in>set ss. s (config_target d) \<noteq> None \<longrightarrow>
      s (metadata_target d) = Some (File (Arrow (exp_rows ds))) \<and>
      s (config_target d) = Some (File (Json (dump_json (export_config resolve ds))))"
  using assms unfolding zip_export_ops
  by (auto simp: export_targets_def exec_op_def is_file_def split: option.splits prod.splits if_splits)

lemma check_configuration_cong:
  assumes "\<And>p. is_directory fs p = is_directory fs' p"
  shows "check_DatasetConfiguration fs c = check_DatasetConfiguration fs' c"
proof -
  have "is_directory fs = is_directory fs'" using assms by blast
  then show ?thesis by (simp add: check_DatasetConfiguration_def)
qed

lemma check_DatasetConfiguration_same:
  "check_DatasetConfiguration fs c = Return c' \<Longrightarrow> c' = c"
  by (auto simp: check_DatasetConfiguration_def exn_simps split: if_splits)

lemma export_success:
  assumes "\<forall>t\<in>set (export_targets d). fs t = None"
    and "run_ops fs (zip (export_ops dump_json resolve ds d)
        (map faults [0..<length (export_ops dump_json resolve ds d)])) = (ss, None)"
  shows "last ss (config_target d) = Some (File (Json (dump_json (export_config resolve ds)))) \<and>
    last ss (metadata_target d) = Some (File (Arrow (exp_rows ds))) \<and>
    last ss (pending_config d) = None \<and> last ss (pending_metadata d) = None \<and>
    check_DatasetConfiguration fs (export_config resolve ds) = Return (export_config resolve ds)"
proof -
  have "is_directory (fs(pending_metadata d \<mapsto> File (Arrow (exp_rows ds)))) q = is_directory fs q" for q
    using assms(1) by (auto simp: is_directory_def export_targets_def)
  then have check: "check_DatasetConfiguration (fs(pending_metadata d \<mapsto> File (Arrow (exp_rows ds)))) c =
      check_DatasetConfiguration fs c" for c
    by (rule check_configuration_cong)
  show ?thesis using assms(2) unfolding zip_export_ops
    by (auto simp: exec_op_def is_file_def check dest: check_DatasetConfiguration_same
        split: option.splits prod.splits if_splits sum.splits)
qed

lemma export_run_no_faults:
  assumes "\<forall>t\<in>set (export_targets d). fs t = None"
    and "check_DatasetConfiguration fs (export_config resolve ds) = Return (export_config resolve ds)"
    and "\<And>i. faults i = None"
  shows "\<exists>ss. run_ops fs (zip (export_ops dump_json resolve ds d)
        (map faults [0..<length (export_ops dump_json resolve ds d)])) = (ss, None)"
proof -
  have "is_directory (fs(pending_metadata d \<mapsto> File (Arrow (exp_rows ds)))) q = is_directory fs q" for q
    using assms(1) by (auto simp: is_directory_def export_targets_def)
  then have "check_DatasetConfiguration (fs(pending_metadata d \<mapsto> File (Arrow (exp_rows ds)))) (export_config resolve ds) =
      Return (export_config resolve ds)"
    using check_configuration_cong assms(2) by metis
  then show ?thesis using assms(3) unfolding zip_export_ops
    by (simp add: exec_op_def is_file_def)
qed

lemma export_directories:
  assumes "\<forall>t\<in>set (export_targets d). fs t = None"
    and run: "run_ops fs (zip (export_ops dump_json resolve ds d)
        (map faults [0..<length (export_ops dump_json resolve ds d)])) = (ss, None)"
  shows "is_directory (last ss) q = is_directory fs q"
proof (cases "q \<in> set (export_targets d)")
  case True
  then show ?thesis using export_success [OF assms] assms(1)
    by (auto simp: export_targets_def is_directory_def)
next
  case False
  have "last ss \<in> set ss" using run_ops_nonempty run
    by (metis fst_conv last_in_set list.distinct(1) zip_export_ops)
  then show ?thesis using export_states_outside [OF run _ False] by (simp add: is_directory_def)
qed

section \<open>Row order and selection\<close>

lemma length_store_slice: "start + length xs \<le> length arr \<Longrightarrow> length (store_slice arr start xs) = length arr"
  by (simp add: store_slice_def)

lemma fill_order_correct:
  assumes "length arr = n" and "take start arr = map int [0..<min start n]"
  shows "fill_order n start arr = map int [0..<n]"
  using assms
proof (induction n start arr rule: fill_order.induct)
  case (1 n start arr)
  show ?case
  proof (cases "start < n")
    case True
    let ?stop = "min n (start + 65536)"
    let ?arr = "store_slice arr start (map int [start..<?stop])"
    have len: "length ?arr = n" using "1.prems"(1) True by (simp add: length_store_slice)
    have "take (start + 65536) ?arr = take (start + 65536) (take start arr @ map int [start..<?stop]) @
        take (start + 65536 - ?stop) (drop ?stop arr)"
      using True "1.prems"(1) by (simp add: store_slice_def add.commute)
    also have "\<dots> = map int [0..<?stop]"
    proof -
      have "take start arr = map int [0..<start]" using "1.prems"(2) True by simp
      moreover have "map int [0..<start] @ map int [start..<?stop] = map int [0..<?stop]"
        using True upt_join [of 0 start ?stop] by (simp flip: map_append)
      moreover have "take (start + 65536 - ?stop) (drop ?stop arr) = []"
        using "1.prems"(1) by (simp add: min_def)
      ultimately show ?thesis by simp
    qed
    finally have "take (start + 65536) ?arr = map int [0..<min (start + 65536) n]" by (simp add: min.commute)
    with "1.IH" [OF True _ len] show ?thesis
      using True by (subst fill_order.simps) (simp add: Let_def)
  next
    case False
    with "1.prems" show ?thesis by (subst fill_order.simps) simp
  qed
qed

lemma fill_order_range: "fill_order n 0 (replicate n 0) = map int [0..<n]"
  by (rule fill_order_correct) simp_all

text \<open>The row positions a selection stands for: no selection means the whole table.\<close>

definition selected_rows :: "int \<Rightarrow> int list option \<Rightarrow> int list" where
  "selected_rows n sel = (case sel of None \<Rightarrow> range_list n | Some xs \<Rightarrow> xs)"

text \<open>The specification: \<open>len\<close> consecutive positions from \<open>offset\<close>, modulo the row count, through the order.\<close>

definition cyclic_span :: "(int \<Rightarrow> 'a) \<Rightarrow> int \<Rightarrow> int \<Rightarrow> int \<Rightarrow> 'a list" where
  "cyclic_span row n offset len = map (\<lambda>i. row ((offset + i) mod n)) (range_list len)"

definition order_at :: "int option \<Rightarrow> int list \<Rightarrow> int \<Rightarrow> int" where
  "order_at partition_seed order j = (case partition_seed of None \<Rightarrow> j | Some s \<Rightarrow> order ! nat j)"

lemma order_at_simps [simp]:
  "order_at None order = (\<lambda>j. j)" "order_at (Some s) order = (\<lambda>j. order ! nat j)"
  by (simp_all add: order_at_def fun_eq_iff)

lemma cyclic_positions_eq:
  assumes "0 \<le> start" and "start + len \<le> 2 ^ 64"
  shows "cyclic_positions start len n = map (\<lambda>i. (start + i) mod n) (range_list len)"
  unfolding cyclic_positions_def
proof (rule map_cong)
  fix i assume "i \<in> set (range_list len)"
  then have "wrap_u64 i = i" "wrap_u64 (i + start) = i + start"
    unfolding wrap_u64_def using assms by (auto intro!: mod_pos_pos_trivial)
  then show "wrap_u64 (wrap_u64 i + start) mod n = (start + i) mod n" by (simp add: add.commute)
qed simp

lemma cyclic_span_mod: "cyclic_span row n (offset mod n) len = cyclic_span row n offset len"
  by (simp add: cyclic_span_def mod_add_left_eq)

lemma cyclic_span_slice:
  assumes "0 \<le> start" "0 \<le> len" "start + len \<le> int (length xs)"
  shows "cyclic_span (\<lambda>j. xs ! nat j) (int (length xs)) start len = take (nat len) (drop (nat start) xs)"
proof (rule nth_equalityI)
  fix i assume "i < length (cyclic_span (\<lambda>j. xs ! nat j) (int (length xs)) start len)"
  then have i: "int i < len" by (simp add: cyclic_span_def)
  then have "(start + int i) mod int (length xs) = start + int i" "nat (start + int i) = nat start + i"
    using assms by auto
  then show "cyclic_span (\<lambda>j. xs ! nat j) (int (length xs)) start len ! i = take (nat len) (drop (nat start) xs) ! i"
    using i assms by (simp add: cyclic_span_def)
qed (use assms in \<open>simp add: cyclic_span_def\<close>)

lemma range_list_cyclic: "cyclic_span (\<lambda>j. j) n 0 n = range_list n"
  unfolding cyclic_span_def by (rule map_idI) simp

lemma population_selection_spec:
  assumes "0 < n" "0 \<le> offset" "0 < len" "n + len \<le> 2 ^ 64"
    and "partition_seed \<noteq> None \<Longrightarrow>
      fs (path_child (path_parent p) ORDER_NAME) = Some (File (Npy order)) \<and> int (length order) = n"
  shows "\<exists>sel. population_selection fs p n offset len partition_seed = Return sel \<and>
    selected_rows n sel = cyclic_span (order_at partition_seed order) n offset len"
proof -
  have start: "0 \<le> offset mod n" "offset mod n < n" using assms(1) by simp_all
  then have pos: "cyclic_positions (offset mod n) len n = cyclic_span (\<lambda>j. j) n offset len"
    using assms(4) cyclic_positions_eq [of "offset mod n" len n] cyclic_span_mod [of "\<lambda>j. j" n offset len]
    by (simp add: cyclic_span_def)
  show ?thesis
  proof (cases partition_seed)
    case None
    then show ?thesis using assms(1-3) pos range_list_cyclic [of n]
      by (auto simp: population_selection_def selected_rows_def)
  next
    case (Some s)
    then have stored: "fs (path_child (path_parent p) ORDER_NAME) = Some (File (Npy order))" and len: "int (length order) = n"
      using assms(5) by auto
    have slice: "take (nat len) (drop (nat (offset mod n)) order) = cyclic_span (\<lambda>j. order ! nat j) n offset len"
      if "offset mod n + len \<le> n"
      using cyclic_span_slice [of "offset mod n" len order] that start assms(3) len
        cyclic_span_mod [of "\<lambda>j. order ! nat j" n offset len] by simp
    have picks: "map (\<lambda>j. order ! nat j) (cyclic_span (\<lambda>j. j) n offset len) = cyclic_span (\<lambda>j. order ! nat j) n offset len"
      by (simp add: cyclic_span_def)
    show ?thesis using Some stored len assms(1-3) pos slice picks
      by (auto simp: population_selection_def selected_rows_def)
  qed
qed

lemma select_population_spec:
  assumes "0 < length table" "0 \<le> offset" "0 < len"
    and "partition_seed \<noteq> None \<Longrightarrow> length order = length table"
    and order: "\<And>s. partition_seed = Some s \<Longrightarrow> order = map int (permutation s (length table))"
  shows "select_population permutation table offset len partition_seed =
    Return (cyclic_span (\<lambda>j. table ! nat (order_at partition_seed order j)) (int (length table)) offset len)"
proof -
  let ?n = "int (length table)"
  have slice: "take (nat len) (drop (nat offset) table) = cyclic_span (\<lambda>j. table ! nat j) ?n offset len"
    if "offset + len \<le> ?n" using cyclic_span_slice [of offset len table] that assms by simp
  have idx: "map (\<lambda>i. f ((i + offset mod ?n) mod ?n)) (range_list len) = cyclic_span f ?n offset len"
    for f :: "int \<Rightarrow> 'a"
    by (simp add: cyclic_span_def add.commute mod_add_right_eq)
  show ?thesis
  proof (cases partition_seed)
    case None
    then show ?thesis
      using assms(1-3) slice idx [of "\<lambda>j. table ! nat j"]
      by (auto simp: select_population_def Let_def o_def)
  next
    case (Some s)
    have in_range: "nat ((i + offset mod ?n) mod ?n) < length (permutation s (length table))" for i
      using assms(1,4) order [OF Some] Some by (simp add: nat_less_iff)
    then have "map (\<lambda>i. table ! (permutation s (length table) ! nat ((i + offset mod ?n) mod ?n))) (range_list len) =
      map (\<lambda>i. table ! nat (order ! nat ((i + offset mod ?n) mod ?n))) (range_list len)"
      using order [OF Some] by simp
    then show ?thesis
      using Some assms(1-3) idx [of "\<lambda>j. table ! nat (order ! nat j)"]
      by (simp add: select_population_def Let_def o_def)
  qed
qed

text \<open>A concrete export: one cache directory, two rows, no faults.\<close>

definition demo_fs :: "int fs" where
  "demo_fs = (\<lambda>q. if q = Path ''/'' [''cache''] \<or> q = Path ''/'' [''export''] then Some Directory else None)"

definition demo_source :: "int export_source" where
  "demo_source = \<lparr>exp_rows = [10, 20], exp_cache_paths = [Path ''/'' [''cache'']],
     exp_reader_config = \<lparr>reader_seed_value = 7, prefetch_size = 64, reader_shuffle = True, validate_cache = False\<rparr>,
     exp_num_workers = 2, exp_epoch_len = 2\<rparr>"

lemma demo_export_ready:
  "is_directory demo_fs (Path ''/'' [''export''])"
  "\<forall>t\<in>set (export_targets (Path ''/'' [''export''])). demo_fs t = None"
  "check_DatasetConfiguration demo_fs (export_config (\<lambda>q. q) demo_source) = Return (export_config (\<lambda>q. q) demo_source)"
  using export_paths_plain
  by (simp_all add: is_directory_def demo_fs_def export_targets_def export_path_defs path_child_plain
      check_DatasetConfiguration_def export_config_def demo_source_def check_ReaderConfig_def)

lemma demo_dump:
  obtains ss where "dump_configuration (\<lambda>c. ''json'') (\<lambda>q. q) (\<lambda>i. None) demo_fs demo_source (Path ''/'' [''export'']) =
      (ss, Return (config_target (Path ''/'' [''export''])))"
    "last ss \<in> set ss" "last ss (config_target (Path ''/'' [''export''])) \<noteq> None"
proof -
  let ?ops = "export_ops (\<lambda>c. ''json'') (\<lambda>q. q) demo_source (Path ''/'' [''export''])"
  have "\<exists>ss. run_ops demo_fs (zip ?ops (map (\<lambda>i. None) [0..<length ?ops])) = (ss, None)"
    by (rule export_run_no_faults [OF demo_export_ready(2,3)]) simp
  then obtain ss where run: "run_ops demo_fs (zip ?ops (map (\<lambda>i. None) [0..<length ?ops])) = (ss, None)" by blast
  have "\<not> list_ex (\<lambda>t. demo_fs t \<noteq> None) (export_targets (Path ''/'' [''export'']))"
    using demo_export_ready(2) by (simp add: list_ex_iff)
  then have "dump_configuration (\<lambda>c. ''json'') (\<lambda>q. q) (\<lambda>i. None) demo_fs demo_source (Path ''/'' [''export'']) =
      (ss, Return (config_target (Path ''/'' [''export''])))"
    using demo_export_ready(1) run export_success [OF demo_export_ready(2) run]
    by (simp add: dump_configuration_def DIRECTORY_PATH_def Let_def FILE_PATH_def is_file_def)
  moreover have "last ss \<in> set ss" using run_ops_nonempty run
    by (metis fst_conv last_in_set list.distinct(1) zip_export_ops)
  ultimately show thesis using that export_success [OF demo_export_ready(2) run] by simp
qed

lemma dump_then_load:
  assumes dump: "dump_configuration dump_json resolve faults fs ds p = (states, Return config_path)"
    and codec: "parse_json (dump_json (export_config resolve ds)) = Return (export_config resolve ds)"
  shows "load_configuration parse_json (last states) config_path = Return (export_config resolve ds) \<and>
    load_metadata (last states) config_path (export_config resolve ds) = Return (exp_rows ds)"
  using dump
proof (cases rule: dump_configuration_cases)
  case (started d ss r)
  then have r: "r = None" "states = ss" by auto
  have path: "config_path = config_target d"
    using started(5) by (auto simp: FILE_PATH_def split: if_splits)
  note ok = export_success [OF started(3) started(4) [unfolded r(1)]]
  have "check_DatasetConfiguration (last ss) (export_config resolve ds) = Return (export_config resolve ds)"
    using check_configuration_cong [OF export_directories [OF started(3) started(4) [unfolded r(1)]]] ok by simp
  moreover have "path_child (path_parent (config_target d)) METADATA_NAME = metadata_target d"
    using export_paths_plain by (simp add: config_target_def metadata_target_def path_parent_child)
  ultimately show ?thesis
    using ok codec path r(2)
    by (simp add: load_configuration_def load_metadata_def FILE_PATH_def is_file_def export_config_def)
qed simp

lemma dump_without_faults:
  assumes "is_directory fs p" and "\<forall>t\<in>set (export_targets (resolve p)). fs t = None"
    and "check_DatasetConfiguration fs (export_config resolve ds) = Return (export_config resolve ds)"
    and "\<And>i. faults i = None"
  shows "\<exists>states. dump_configuration dump_json resolve faults fs ds p = (states, Return (config_target (resolve p)))"
proof -
  obtain ss where run: "run_ops fs (zip (export_ops dump_json resolve ds (resolve p))
      (map faults [0..<length (export_ops dump_json resolve ds (resolve p))])) = (ss, None)"
    using export_run_no_faults [OF assms(2,3), of faults] assms(4) by blast
  have "\<not> list_ex (\<lambda>t. fs t \<noteq> None) (export_targets (resolve p))" using assms(2) by (simp add: list_ex_iff)
  moreover have "FILE_PATH (last ss) (config_target (resolve p)) = Return (config_target (resolve p))"
    using export_success [OF assms(2) run] by (simp add: FILE_PATH_def is_file_def)
  ultimately show ?thesis
    using assms(1) run by (simp add: dump_configuration_def DIRECTORY_PATH_def Let_def)
qed

lemma load_metadata_length:
  "load_metadata fs p config = Return rows \<Longrightarrow> cfg_row_count config = int (length rows)"
  by (auto simp: load_metadata_def bindE_def split: sum.split_asm option.split_asm node.split_asm content.split_asm if_split_asm)

lemma load_configuration_positive:
  assumes "load_configuration parse_json fs p = Return config"
  shows "1 \<le> cfg_row_count config" "1 \<le> cfg_epoch_len config" "1 \<le> cfg_num_workers config"
  using assms
  by (auto simp: load_configuration_def check_DatasetConfiguration_def bindE_def
      split: sum.split_asm option.split_asm node.split_asm content.split_asm if_split_asm)

section \<open>Properties\<close>

text \<open>
  C26. An export that fails, at any step and whatever a failed write left behind, leaves the file system
  exactly as it was before the call.
\<close>

theorem dump_failure_restores:
  assumes dump: "dump_configuration dump_json resolve faults fs ds p = (states, Raise e)"
  shows "last states = fs"
  using dump
proof (cases rule: dump_configuration_cases)
  case (started d ss r)
  show ?thesis
  proof (cases r)
    case None
    then have "is_file (last ss) (config_target d)"
      using export_success [OF started(3)] started(4) by (simp add: is_file_def)
    with started(5) None show ?thesis by (simp add: FILE_PATH_def)
  next
    case (Some e')
    have "last ss \<in> set ss" using run_ops_nonempty started(4)
      by (metis fst_conv last_in_set list.distinct(1) zip_export_ops)
    then have "unlink_all (last ss) (export_targets d) q = fs q" for q
      using export_states_outside [OF started(4), of "last ss" q] started(3) by (simp add: unlink_all_apply)
    with started(5) Some show ?thesis by auto
  qed
qed simp

theorem dump_failure_restores_witness:
  "\<exists>states e. dump_configuration (\<lambda>c. []) (\<lambda>q. q) (\<lambda>i. None) demo_fs demo_source (Path ''/'' [''absent'']) =
      (states, Raise e) \<and> last states = demo_fs"
proof -
  have d: "dump_configuration (\<lambda>c. []) (\<lambda>q. q) (\<lambda>i. None) demo_fs demo_source (Path ''/'' [''absent'']) =
      ([demo_fs], Raise (ValueError ''Path does not point to a directory''))"
    by (simp add: dump_configuration_def DIRECTORY_PATH_def is_directory_def demo_fs_def)
  show ?thesis using d dump_failure_restores [OF d] by blast
qed

text \<open>
  C27. The configuration is published last: in every state an export passes through, including those of
  a failing one, a configuration in the directory is complete and comes with the complete metadata file.
\<close>

theorem dump_publishes_config_last:
  assumes dump: "dump_configuration dump_json resolve faults fs ds p = (states, result)"
    and "s \<in> set states" and "s (config_target (resolve p)) \<noteq> None" and "fs (config_target (resolve p)) = None"
  shows "s (metadata_target (resolve p)) = Some (File (Arrow (exp_rows ds))) \<and>
    s (config_target (resolve p)) = Some (File (Json (dump_json (export_config resolve ds))))"
  using dump
proof (cases rule: dump_configuration_cases)
  case refused
  then show ?thesis using assms(2-4) by simp
next
  case (started d ss r)
  then have "s \<in> set ss"
    using assms(2,3) by (auto simp: unlink_all_apply export_targets_def)
  then show ?thesis using export_published_order [OF started(3,4)] assms(3) started(2) by blast
qed

theorem dump_publishes_config_last_witness:
  "\<exists>s :: int fs. s (metadata_target (Path ''/'' [''export''])) = Some (File (Arrow (exp_rows demo_source))) \<and>
    s (config_target (Path ''/'' [''export''])) = Some (File (Json ''json''))"
proof -
  obtain ss where d: "dump_configuration (\<lambda>c. ''json'') (\<lambda>q. q) (\<lambda>i. None) demo_fs demo_source
      (Path ''/'' [''export'']) = (ss, Return (config_target (Path ''/'' [''export''])))"
      "last ss \<in> set ss" "last ss (config_target (Path ''/'' [''export''])) \<noteq> None"
    using demo_dump by blast
  have "demo_fs (config_target (Path ''/'' [''export''])) = None"
    using demo_export_ready(2) by (simp add: export_targets_def)
  with dump_publishes_config_last [OF d] show ?thesis by blast
qed

text \<open>
  Without input/output faults, an export into an existing directory with no earlier export and a
  valid configuration succeeds and returns the configuration file.
\<close>

theorem dump_succeeds:
  assumes "is_directory fs p" and "\<forall>t\<in>set (export_targets (resolve p)). fs t = None"
    and "check_DatasetConfiguration fs (export_config resolve ds) = Return (export_config resolve ds)"
    and "\<And>i. faults i = None"
  shows "\<exists>states. dump_configuration dump_json resolve faults fs ds p = (states, Return (config_target (resolve p)))"
  using assms by (rule dump_without_faults)

theorem dump_succeeds_witness:
  "\<exists>states. dump_configuration (\<lambda>c. ''json'') (\<lambda>q. q) (\<lambda>i. None) demo_fs demo_source (Path ''/'' [''export'']) =
     (states, Return (config_target (Path ''/'' [''export''])))"
  using dump_succeeds [of demo_fs "Path ''/'' [''export'']" "\<lambda>q. q" demo_source "\<lambda>i. None"] demo_export_ready by simp

text \<open>
  C28. What a successful export wrote is what loading returns: the configuration and the active rows in
  order, given that parsing the JSON text of a configuration returns it (pydantic's contract).
\<close>

theorem dump_load_roundtrip:
  assumes dump: "dump_configuration dump_json resolve faults fs ds p = (states, Return config_path)"
    and codec: "parse_json (dump_json (export_config resolve ds)) = Return (export_config resolve ds)"
  shows "load_configuration parse_json (last states) config_path = Return (export_config resolve ds) \<and>
    load_metadata (last states) config_path (export_config resolve ds) = Return (exp_rows ds)"
  using assms by (rule dump_then_load)

theorem dump_load_roundtrip_witness:
  "\<exists>states q. dump_configuration (\<lambda>c. ''json'') (\<lambda>q. q) (\<lambda>i. None) demo_fs demo_source (Path ''/'' [''export'']) =
     (states, Return q) \<and>
     load_configuration (\<lambda>t. Return (export_config (\<lambda>q. q) demo_source)) (last states) q =
       Return (export_config (\<lambda>q. q) demo_source) \<and>
     load_metadata (last states) q (export_config (\<lambda>q. q) demo_source) = Return [10, 20]"
proof -
  obtain ss where d: "dump_configuration (\<lambda>c. ''json'') (\<lambda>q. q) (\<lambda>i. None) demo_fs demo_source
      (Path ''/'' [''export'']) = (ss, Return (config_target (Path ''/'' [''export''])))"
    using demo_dump by blast
  have "exp_rows demo_source = [10, 20]" by (simp add: demo_source_def)
  with d dump_load_roundtrip [OF d, of "\<lambda>t. Return (export_config (\<lambda>q. q) demo_source)"]
  show ?thesis by auto
qed

text \<open>
  The two row selections agree: mapping the positions a worker selects through the shared order over
  the table gives the rows the reference selection takes directly, provided the stored order is the
  permutation the reference draws.
\<close>

theorem population_selection_agrees:
  assumes "0 < length table" and "0 \<le> offset" and "0 < len" and "int (length table) + len \<le> 2 ^ 64"
    and "partition_seed \<noteq> None \<Longrightarrow>
      fs (path_child (path_parent p) ORDER_NAME) = Some (File (Npy order)) \<and> length order = length table"
    and "\<And>s. partition_seed = Some s \<Longrightarrow> order = map int (permutation s (length table))"
  shows "\<exists>sel. population_selection fs p (int (length table)) offset len partition_seed = Return sel \<and>
    select_population permutation table offset len partition_seed =
    Return (map (\<lambda>j. table ! nat j) (selected_rows (int (length table)) sel))"
proof -
  obtain sel where sel: "population_selection fs p (int (length table)) offset len partition_seed = Return sel"
      "selected_rows (int (length table)) sel = cyclic_span (order_at partition_seed order) (int (length table)) offset len"
    using population_selection_spec [of "int (length table)" offset len partition_seed fs p order] assms by auto
  moreover have "select_population permutation table offset len partition_seed =
      Return (cyclic_span (\<lambda>j. table ! nat (order_at partition_seed order j)) (int (length table)) offset len)"
    using select_population_spec [of table offset len partition_seed order permutation] assms by blast
  ultimately show ?thesis by (simp add: cyclic_span_def o_def)
qed

theorem population_selection_agrees_witness:
  "\<exists>sel. population_selection (\<lambda>q. Some (File (Npy [2, 0, 1]))) (Path [] []) (int (length [10 :: int, 20, 30]))
      4 2 (Some 7) = Return sel \<and>
    select_population (\<lambda>s n. [2, 0, 1]) [10 :: int, 20, 30] 4 2 (Some 7) =
    Return (map (\<lambda>j. [10, 20, 30] ! nat j) (selected_rows (int (length [10 :: int, 20, 30])) sel))"
  by (rule population_selection_agrees [where order = "[2, 0, 1]"]) simp_all

text \<open>
  The shared order lists every row position exactly once, for any shuffle that permutes its input
  (numpy's contract): the chunked initialization leaves no position out and repeats none.
\<close>

theorem prepare_row_order_permutation:
  assumes shuffle: "\<And>s xs. mset (shuffle s xs) = mset xs"
  shows "\<exists>order. prepare_row_order shuffle fs p n seed (path_child (path_parent p) ORDER_NAME) =
    Some (File (Npy order)) \<and> length order = n \<and> distinct order \<and> set order = {0..<int n}"
proof -
  let ?order = "shuffle seed (fill_order n 0 (replicate n 0))"
  have perm: "mset ?order = mset (map int [0..<n])" using shuffle by (simp add: fill_order_range)
  then have "length ?order = n" using mset_eq_length by fastforce
  moreover have "set ?order = {0..<int n}" using mset_eq_setD [OF perm] set_range_list [of "int n"]
    by (simp add: range_list_int)
  moreover have "distinct ?order" using mset_eq_imp_distinct_iff [OF perm] by (simp add: distinct_map)
  ultimately show ?thesis by (simp add: prepare_row_order_def)
qed

theorem prepare_row_order_permutation_witness:
  "\<exists>order. prepare_row_order (\<lambda>s xs. rev xs) (demo_fs :: int fs) (Path ''/'' [''export'', ''dataset.json'']) 3 7
      (path_child (path_parent (Path ''/'' [''export'', ''dataset.json''])) ORDER_NAME) = Some (File (Npy order)) \<and>
    length order = 3 \<and> distinct order \<and> set order = {0..<int 3}"
  by (rule prepare_row_order_permutation) simp

text \<open>
  Only the process that created an artifact directory ever removes it: a forked child that drops its
  copy changes nothing, and a caller-selected directory survives its owner.
\<close>

theorem artifacts_owner_only:
  assumes "create_artifacts mkdtemp fs pid work_dir = Return (fs', a)"
  shows "(child \<noteq> pid \<longrightarrow> del_artifacts fs'' child a = fs'' \<and> discard_artifacts fs'' child a = fs'') \<and>
    (work_dir \<noteq> None \<longrightarrow> del_artifacts fs'' pid a = fs'') \<and>
    (work_dir = None \<longrightarrow> del_artifacts fs'' pid a (art_directory a) = None)"
proof -
  have a: "art_pid a = pid" "art_temporary a = (work_dir = None)"
    using assms by (auto simp: create_artifacts_def exn_simps)
  have "rmtree fs'' d d = None" for d by (simp add: rmtree_def is_relative_to_def)
  then show ?thesis using a by (simp add: del_artifacts_def discard_artifacts_def)
qed

theorem artifacts_owner_only_witness:
  "\<exists>(fs' :: int fs) a. create_artifacts (\<lambda>root. Path ''/'' [''tmp'', ''x'']) demo_fs 1 None = Return (fs', a) \<and>
     del_artifacts fs' 2 a = fs' \<and> del_artifacts fs' 1 a (art_directory a) = None"
proof -
  obtain fs' :: "int fs" and a where c: "create_artifacts (\<lambda>root. Path ''/'' [''tmp'', ''x'']) demo_fs 1 None = Return (fs', a)"
    by (simp add: create_artifacts_def)
  show ?thesis using c artifacts_owner_only [OF c, of 2 fs'] by auto
qed

end
