(* ===== verification/Resources.thy ===== *)
theory Resources
  imports Posix_Path Complex_Main
begin

text \<open>
  \<open>src/dataset_rt/resources.py\<close>: the CPU budget of the process, from affinity and the control-group
  limits the kernel shows, and its division among loading processes and native threads.

  Reading a file is the argument \<open>read\<close>, which gives its text or the exception; a \<open>Fraction\<close> is a rational.
  The generators of the source are lists: nothing of what they yield is used once a later element raises.
\<close>

section \<open>Parsing kernel files\<close>

record Membership =
  mem_controllers :: "string list"
  mem_path :: path

record Mount =
  mnt_root :: path
  mnt_path :: path
  mnt_version :: nat
  mnt_controllers :: "string list"

definition absolute_path :: "string \<Rightarrow> path exn" where
  "absolute_path v =
     (let p = path_of v in
      if \<not> is_absolute p \<or> ''..'' \<in> set (path_parts p) then Raise (ValueError ''invalid cgroup path'') else Return p)"

abbreviation unpack_error :: "'b exn" where
  "unpack_error \<equiv> Raise (ValueError ''not enough values to unpack'')"

definition membership_line :: "string \<Rightarrow> Membership exn" where
  "membership_line line =
     (case split_char_max 2 CHR '':'' line of
        [hierarchy, controllers, p] \<Rightarrow>
          bindE (py_int hierarchy) (\<lambda>_.
          bindE (absolute_path p) (\<lambda>q.
          Return \<lparr>mem_controllers = filter (\<lambda>c. c \<noteq> []) (split_char CHR '','' controllers), mem_path = q\<rparr>))
      | _ \<Rightarrow> unpack_error)"

definition memberships :: "string \<Rightarrow> Membership list exn" where
  "memberships text = mapE membership_line (splitlines text)"

text \<open>The four octal escapes, replaced one after the other; the backslash itself comes last.\<close>

definition escape_codes :: "(string \<times> string) list" where
  "escape_codes = [([CHR 0x5C] @ ''040'', '' ''), ([CHR 0x5C] @ ''011'', [CHR 0x09]), ([CHR 0x5C] @ ''012'', [CHR 0x0A]),
     ([CHR 0x5C] @ ''134'', [CHR 0x5C])]"

definition unescape_mount :: "string \<Rightarrow> string" where
  "unescape_mount v = fold (\<lambda>(escaped, character) s. replace_all escaped character s) escape_codes v"

definition field_at :: "string list \<Rightarrow> nat \<Rightarrow> string exn" where
  "field_at columns i = (if i < length columns then Return (columns ! i) else Raise (IndexError ''list index out of range''))"

definition mount_line :: "string \<Rightarrow> Mount option exn" where
  "mount_line line =
     (case split_first '' - '' line of
        None \<Rightarrow> unpack_error
      | Some (before, after) \<Rightarrow>
          (case split_ws_max 2 after of
             [filesystem, source, options] \<Rightarrow>
               if filesystem \<noteq> ''cgroup'' \<and> filesystem \<noteq> ''cgroup2'' then Return None
               else
                 let columns = split_ws before in
                 bindE (bindE (field_at columns 3) (\<lambda>f. absolute_path (unescape_mount f))) (\<lambda>root.
                 bindE (bindE (field_at columns 4) (\<lambda>f. absolute_path (unescape_mount f))) (\<lambda>p.
                 let controllers = split_char CHR '','' options in
                 Return (if filesystem = ''cgroup2'' \<or> ''cpu'' \<in> set controllers \<or> ''cpuset'' \<in> set controllers
                   then Some \<lparr>mnt_root = root, mnt_path = p, mnt_version = (if filesystem = ''cgroup2'' then 2 else 1),
                              mnt_controllers = controllers\<rparr>
                   else None)))
           | _ \<Rightarrow> unpack_error))"

definition mounts :: "string \<Rightarrow> Mount list exn" where
  "mounts text = bindE (mapE mount_line (splitlines text)) (\<lambda>ms. Return (List.map_filter (\<lambda>m. m) ms))"

section \<open>Limits of one directory\<close>

type_synonym reader = "path \<Rightarrow> string exn"

definition read_optional :: "reader \<Rightarrow> path \<Rightarrow> string option exn" where
  "read_optional read p =
     (case read p of
        Inr text \<Rightarrow> Return (Some (strip text))
      | Inl (FileNotFoundError m) \<Rightarrow> Return None
      | Inl e \<Rightarrow> Raise e)"

fun cpuset_loop :: "int \<Rightarrow> int \<Rightarrow> string list \<Rightarrow> int exn" where
  "cpuset_loop counted previous [] = Return counted"
| "cpuset_loop counted previous (item # items) =
     (let ends = split_char CHR ''-'' item in
      bindE (py_int (ends ! 0)) (\<lambda>start.
      bindE (if length ends = 2 then py_int (ends ! 1) else Return start) (\<lambda>stop.
      if length ends > 2 \<or> start \<le> previous \<or> stop < start then Raise (ValueError ''invalid cgroup CPU set'')
      else cpuset_loop (counted + (stop - start + 1)) stop items)))"

definition cpuset_limit :: "string \<Rightarrow> int option exn" where
  "cpuset_limit v =
     (if v = [] then Return None
      else bindE (cpuset_loop 0 (-1) (split_char CHR '','' v)) (\<lambda>n. Return (Some n)))"

definition quota_v2 :: "string \<Rightarrow> rat list exn" where
  "quota_v2 maximum =
     (case split_ws maximum of
        [quota, period] \<Rightarrow>
          bindE (py_int period) (\<lambda>d.
          if d \<le> 0 then Raise (ValueError ''invalid cgroup CPU period'')
          else if quota = ''max'' then Return []
          else bindE (py_int quota) (\<lambda>n.
            let limit = Fract n d in
            if limit \<le> 0 then Raise (ValueError ''invalid cgroup CPU quota'') else Return [limit]))
      | _ \<Rightarrow> unpack_error)"

definition quota_v1 :: "string option \<Rightarrow> string option \<Rightarrow> rat list exn" where
  "quota_v1 quota period =
     (case (quota, period) of
        (None, None) \<Rightarrow> Return []
      | (Some q, Some p) \<Rightarrow>
          bindE (py_int p) (\<lambda>d.
          if d \<le> 0 then Raise (ValueError ''invalid cgroup CPU quota'')
          else bindE (py_int q) (\<lambda>n.
            if n = 0 \<or> n < -1 then Raise (ValueError ''invalid cgroup CPU quota'')
            else Return (if n > 0 then [Fract n d] else [])))
      | _ \<Rightarrow> Raise (ValueError ''incomplete cgroup CPU quota''))"

definition cpus_limit :: "string option \<Rightarrow> rat list exn" where
  "cpus_limit cpus =
     (case cpus of
        None \<Rightarrow> Return []
      | Some v \<Rightarrow> bindE (cpuset_limit v) (\<lambda>c. Return (case c of None \<Rightarrow> [] | Some n \<Rightarrow> [of_int n])))"

definition directory_limits :: "reader \<Rightarrow> path \<Rightarrow> Mount \<Rightarrow> rat list exn" where
  "directory_limits read p mount =
     (if mnt_version mount = 2 then
        bindE (read_optional read (path_child p ''cpu.max'')) (\<lambda>maximum.
        bindE (case maximum of None \<Rightarrow> Return [] | Some m \<Rightarrow> quota_v2 m) (\<lambda>limits.
        bindE (read_optional read (path_child p ''cpuset.cpus.effective'')) (\<lambda>cpus.
        bindE (cpus_limit cpus) (\<lambda>more. Return (limits @ more)))))
      else
        bindE (if ''cpu'' \<in> set (mnt_controllers mount)
               then bindE (read_optional read (path_child p ''cpu.cfs_quota_us'')) (\<lambda>quota.
                    bindE (read_optional read (path_child p ''cpu.cfs_period_us'')) (\<lambda>period. quota_v1 quota period))
               else Return []) (\<lambda>limits.
        bindE (if ''cpuset'' \<in> set (mnt_controllers mount)
               then read_optional read (path_child p ''cpuset.cpus'') else Return None) (\<lambda>cpus.
        bindE (cpus_limit cpus) (\<lambda>more. Return (limits @ more)))))"

section \<open>The process hierarchy\<close>

definition applies :: "Mount \<Rightarrow> Membership \<Rightarrow> bool" where
  "applies mount membership =
     (if mnt_version mount = 2 then mem_controllers membership = []
      else list_ex (\<lambda>c. c \<in> set (mnt_controllers mount)) (mem_controllers membership))"

definition relative_membership :: "Mount \<Rightarrow> Membership \<Rightarrow> path exn" where
  "relative_membership mount membership =
     relative_to (mem_path membership)
       (if is_relative_to (mem_path membership) (mnt_root mount) then mnt_root mount else path_of ''/'')"

text \<open>The inner \<open>while True\<close>: from a directory up to the mount point. Not returning is \<open>None\<close>.\<close>

partial_function (option) walk_up :: "(path \<Rightarrow> rat list exn) \<Rightarrow> path \<Rightarrow> path \<Rightarrow> rat list exn option" where
  "walk_up limits mount_point current =
     (case limits current of
        Inl e \<Rightarrow> Some (Raise e)
      | Inr ls \<Rightarrow>
          if current = mount_point then Some (Return ls)
          else Option.bind (walk_up limits mount_point (path_parent current)) (\<lambda>rest.
            Some (bindE rest (\<lambda>more. Return (ls @ more)))))"

definition membership_limits :: "reader \<Rightarrow> Mount \<Rightarrow> Membership \<Rightarrow> rat list exn option" where
  "membership_limits read mount membership =
     (if \<not> applies mount membership then Some (Return [])
      else case relative_membership mount membership of
          Inl e \<Rightarrow> Some (Raise e)
        | Inr rel \<Rightarrow> walk_up (\<lambda>d. directory_limits read d mount) (mnt_path mount) (path_join (mnt_path mount) rel))"

text \<open>A loop over a list whose body may raise or not return, joining what it yields.\<close>

fun concat_limits :: "('b \<Rightarrow> rat list exn option) \<Rightarrow> 'b list \<Rightarrow> rat list exn option" where
  "concat_limits f [] = Some (Return [])"
| "concat_limits f (x # xs) =
     (case f x of
        None \<Rightarrow> None
      | Some (Inl e) \<Rightarrow> Some (Raise e)
      | Some (Inr ls) \<Rightarrow> map_option (\<lambda>rest. bindE rest (\<lambda>more. Return (ls @ more))) (concat_limits f xs))"

definition linux_limits :: "reader \<Rightarrow> path \<Rightarrow> rat list exn option" where
  "linux_limits read proc =
     (case bindE (read (path_child proc ''cgroup'')) (\<lambda>cg. bindE (memberships cg) (\<lambda>ms.
           bindE (read (path_child proc ''mountinfo'')) (\<lambda>mi. bindE (mounts mi) (\<lambda>mounted. Return (ms, mounted))))) of
        Inl e \<Rightarrow> Some (Raise e)
      | Inr (ms, mounted) \<Rightarrow>
          concat_limits (\<lambda>mount. concat_limits (membership_limits read mount) ms) mounted)"

section \<open>The CPU budget\<close>

fun error_text :: "py_error \<Rightarrow> string" where
  "error_text (ValueError m) = m"
| "error_text (OSError m) = m"
| "error_text (FileNotFoundError m) = m"
| "error_text (IndexError m) = m"
| "error_text e = []"

fun is_os_error :: "py_error \<Rightarrow> bool" where
  "is_os_error (OSError m) = True"
| "is_os_error (FileNotFoundError m) = True"
| "is_os_error (FileExistsError m) = True"
| "is_os_error e = False"

fun is_limit_error :: "py_error \<Rightarrow> bool" where
  "is_limit_error (ValueError m) = True"
| "is_limit_error (IndexError m) = True"
| "is_limit_error e = is_os_error e"

text \<open>
  \<open>cpus\<close> is \<open>os.cpu_count()\<close>; \<open>affinity\<close> is absent where the platform has no such call. The result is the
  budget and the warnings.
\<close>

definition available_cpu_count ::
  "int option \<Rightarrow> int option exn \<Rightarrow> bool \<Rightarrow> reader \<Rightarrow> (int \<times> string list) exn option" where
  "available_cpu_count cpus affinity on_linux read =
     (let host = of_int (case cpus of None \<Rightarrow> 1 | Some n \<Rightarrow> if n = 0 then 1 else n) :: rat in
      case affinity of
        Inl e \<Rightarrow>
          Some (if is_os_error e then Return (1, [''Cannot determine CPU affinity; using one CPU: '' @ error_text e]) else Raise e)
      | Inr aff \<Rightarrow>
          let limit = (case aff of None \<Rightarrow> host | Some a \<Rightarrow> if a = 0 then host else min host (of_int a)) in
          if \<not> on_linux then Some (Return (max 1 \<lfloor>limit\<rfloor>, []))
          else (case linux_limits read (path_of ''/proc/self'') of
              None \<Rightarrow> None
            | Some (Inl e) \<Rightarrow>
                Some (if is_limit_error e
                  then Return (1, [''Cannot determine container CPU limits; using one CPU: '' @ error_text e]) else Raise e)
            | Some (Inr constraints) \<Rightarrow> Some (Return (max 1 \<lfloor>fold (\<lambda>c l. min l c) constraints limit\<rfloor>, []))))"

section \<open>Sharing a CPU budget\<close>

definition native_worker_count :: "int \<Rightarrow> int \<Rightarrow> int \<Rightarrow> int exn" where
  "native_worker_count cpu_count num_workers local_ranks =
     (if cpu_count < 1 \<or> num_workers < 0 \<or> local_ranks < 1
      then Raise (ValueError ''CPU and rank budgets must be positive; loading workers nonnegative'')
      else Return (max 1 (min 4 (cpu_count div (max 1 num_workers * local_ranks)))))"

definition loading_worker_count :: "int \<Rightarrow> int \<Rightarrow> int exn" where
  "loading_worker_count cpu_count local_ranks =
     (if cpu_count < 1 \<or> local_ranks < 1
      then Raise (ValueError ''CPU and rank budgets must be positive'')
      else Return (min 4 (max 0 (cpu_count div local_ranks - 1))))"

section \<open>The walk ends\<close>

definition ancestors :: "string \<Rightarrow> string list \<Rightarrow> string list \<Rightarrow> path list" where
  "ancestors r0 base rel = map (\<lambda>n. Path r0 (base @ take n rel)) (rev [0..<Suc (length rel)])"

lemma ancestors_snoc: "ancestors r0 base (rel @ [x]) = Path r0 (base @ rel @ [x]) # ancestors r0 base rel"
  by (simp add: ancestors_def)

lemma walk_up_ancestors:
  "walk_up limits (Path r0 base) (Path r0 (base @ rel)) =
   Some (bindE (mapE limits (ancestors r0 base rel)) (\<lambda>ls. Return (concat ls)))"
proof (induction rel rule: rev_induct)
  case Nil
  then show ?case by (subst walk_up.simps) (simp add: ancestors_def split: sum.split)
next
  case (snoc x rel)
  have "path_parent (Path r0 (base @ rel @ [x])) = Path r0 (base @ rel)"
    by (simp add: path_parent_def butlast_append flip: append_assoc)
  then show ?case using snoc
    by (subst walk_up.simps) (auto simp: ancestors_snoc bindE_assoc split: sum.split)
qed

lemma relative_not_absolute: "relative_to p q = Return r \<Longrightarrow> \<not> is_absolute r"
  by (auto simp: relative_to_def is_absolute_def split: if_splits)

lemma membership_limits_returns: "\<exists>r. membership_limits read mount membership = Some r"
proof (cases "applies mount membership")
  case True
  show ?thesis
  proof (cases "relative_membership mount membership")
    case (Inr rel)
    then have "path_join (mnt_path mount) rel = Path (path_root (mnt_path mount)) (path_segs (mnt_path mount) @ path_segs rel)"
      using relative_not_absolute by (simp add: path_join_def relative_membership_def)
    then show ?thesis
      using True Inr walk_up_ancestors [of _ "path_root (mnt_path mount)" "path_segs (mnt_path mount)" "path_segs rel"]
      by (simp add: membership_limits_def)
  qed (simp add: membership_limits_def)
qed (simp add: membership_limits_def)

lemma concat_limits_returns: "(\<And>x. x \<in> set xs \<Longrightarrow> \<exists>r. f x = Some r) \<Longrightarrow> \<exists>r. concat_limits f xs = Some r"
proof (induction xs)
  case (Cons x xs)
  obtain r where "f x = Some r" using Cons.prems [of x] by auto
  moreover obtain s where "concat_limits f xs = Some s" using Cons by auto
  ultimately show ?case by (cases r) auto
qed simp

lemma linux_limits_returns: "\<exists>r. linux_limits read proc = Some r"
  by (auto simp: linux_limits_def membership_limits_returns concat_limits_returns split: sum.split)

section \<open>Escapes and CPU sets\<close>

text \<open>The kernel escapes the four characters in mount paths.\<close>

definition escape_code :: "char \<Rightarrow> string" where
  "escape_code c = CHR 0x5C # (if c = CHR '' '' then ''040'' else if c = CHR 0x09 then ''011'' else if c = CHR 0x0A then ''012'' else ''134'')"

fun escape_chars :: "char list \<Rightarrow> string \<Rightarrow> string" where
  "escape_chars A [] = []"
| "escape_chars A (c # cs) = (if c \<in> set A then escape_code c else [c]) @ escape_chars A cs"

abbreviation escaped_chars :: "char list" where
  "escaped_chars \<equiv> [CHR '' '', CHR 0x09, CHR 0x0A, CHR 0x5C]"

definition mount_escape :: "string \<Rightarrow> string" where
  "mount_escape s = escape_chars escaped_chars s"

lemma replace_all_plain: "old \<noteq> [] \<Longrightarrow> hd old \<notin> set w \<Longrightarrow> replace_all old new (w @ s) = w @ replace_all old new s"
  by (induction w) (simp_all add: replace_all_miss)

lemma replace_all_differs:
  "old \<noteq> [] \<Longrightarrow> take (length old) (c # s) \<noteq> old \<Longrightarrow> replace_all old new (c # s) = c # replace_all old new s"
  by (subst replace_all.simps) simp

lemma escape_code_facts:
  "length (escape_code c) = 4" "hd (escape_code c) = CHR 0x5C" "escape_code c \<noteq> []" "CHR 0x5C \<notin> set (tl (escape_code c))"
  by (simp_all add: escape_code_def)

lemma escape_code_inject:
  "c \<in> set escaped_chars \<Longrightarrow> d \<in> set escaped_chars \<Longrightarrow> escape_code c = escape_code d \<longleftrightarrow> c = d"
  by (auto simp: escape_code_def)

text \<open>Replacing one code leaves the others alone as long as every backslash still begins a code.\<close>

lemma replace_one_code:
  assumes A: "set (a # A) \<subseteq> set escaped_chars" "CHR 0x5C \<in> set (a # A)" "a \<notin> set A"
  shows "replace_all (escape_code a) [a] (escape_chars (a # A) s) = escape_chars A s"
proof (induction s)
  case (Cons c s)
  consider "c = a" | "c \<in> set A" "c \<noteq> a" | "c \<notin> set (a # A)" by auto
  then show ?case
  proof cases
    case 1
    then show ?thesis using Cons A(3) replace_all_hit [OF escape_code_facts(3)] by simp
  next
    case 2
    let ?rest = "escape_chars (a # A) s"
    obtain tail where code: "escape_code c = CHR 0x5C # tail" "CHR 0x5C \<notin> set tail" using escape_code_facts [of c] by (cases "escape_code c") auto
    have "escape_code c \<noteq> escape_code a" using 2 A(1) escape_code_inject [of c a] by auto
    then have "take (length (escape_code a)) (escape_code c @ ?rest) \<noteq> escape_code a" by (simp add: escape_code_facts)
    then have "replace_all (escape_code a) [a] (escape_code c @ ?rest) = escape_code c @ replace_all (escape_code a) [a] ?rest"
      using code replace_all_differs [OF escape_code_facts(3)] replace_all_plain [OF escape_code_facts(3)]
      by (simp add: escape_code_facts)
    then show ?thesis using Cons 2 by simp
  next
    case 3
    then have "c \<noteq> hd (escape_code a)" using A(2) by (auto simp: escape_code_facts)
    then show ?thesis using Cons 3 replace_all_miss [OF escape_code_facts(3)] by simp
  qed
qed simp

lemma escape_chars_none: "escape_chars [] s = s"
  by (induction s) simp_all

lemma unescape_mount_steps:
  "unescape_mount v = replace_all (escape_code (CHR 0x5C)) [CHR 0x5C] (replace_all (escape_code (CHR 0x0A)) [CHR 0x0A]
     (replace_all (escape_code (CHR 0x09)) [CHR 0x09] (replace_all (escape_code (CHR '' '')) [CHR '' ''] v)))"
  by (simp add: unescape_mount_def escape_codes_def escape_code_def)

lemma unescape_escape: "unescape_mount (mount_escape s) = s"
proof -
  have "replace_all (escape_code (CHR '' '')) [CHR '' ''] (mount_escape s) = escape_chars [CHR 0x09, CHR 0x0A, CHR 0x5C] s"
    unfolding mount_escape_def by (rule replace_one_code) simp_all
  moreover have "replace_all (escape_code (CHR 0x09)) [CHR 0x09] (escape_chars [CHR 0x09, CHR 0x0A, CHR 0x5C] s) = escape_chars [CHR 0x0A, CHR 0x5C] s"
    by (rule replace_one_code) simp_all
  moreover have "replace_all (escape_code (CHR 0x0A)) [CHR 0x0A] (escape_chars [CHR 0x0A, CHR 0x5C] s) = escape_chars [CHR 0x5C] s"
    by (rule replace_one_code) simp_all
  moreover have "replace_all (escape_code (CHR 0x5C)) [CHR 0x5C] (escape_chars [CHR 0x5C] s) = escape_chars [] s"
    by (rule replace_one_code) simp_all
  ultimately show ?thesis by (simp add: unescape_mount_steps escape_chars_none)
qed

text \<open>The text of a CPU set: increasing ranges, single CPUs without a dash.\<close>

fun range_text :: "int \<times> int \<Rightarrow> string" where
  "range_text (a, b) = (if a = b then str_int a else str_int a @ ''-'' @ str_int b)"

fun increasing :: "int \<Rightarrow> (int \<times> int) list \<Rightarrow> bool" where
  "increasing previous [] \<longleftrightarrow> True"
| "increasing previous ((a, b) # rs) \<longleftrightarrow> previous < a \<and> a \<le> b \<and> increasing b rs"

definition cpus_of :: "(int \<times> int) list \<Rightarrow> int set" where
  "cpus_of rs = (\<Union>(a, b)\<in>set rs. {a..b})"

lemma split_char_append: "sep \<notin> set w \<Longrightarrow> split_char sep (w @ sep # s) = w # split_char sep s"
  by (induction w) auto

lemma split_char_join: "ws \<noteq> [] \<Longrightarrow> \<forall>w\<in>set ws. sep \<notin> set w \<Longrightarrow> split_char sep (join [sep] ws) = ws"
proof (induction ws rule: induct_list012)
  case (3 a b cs)
  then show ?case by (simp add: split_char_append)
qed (simp_all add: split_char_plain)

lemma str_int_chars: "0 \<le> i \<Longrightarrow> c \<in> set (str_int i) \<Longrightarrow> is_digit c"
  using str_nat_digits by (auto simp: str_int_def list_all_iff)

lemma not_digits: "\<not> is_digit CHR ''-''" "\<not> is_digit CHR '',''"
  by (simp_all add: is_digit_def)

lemma range_text_plain: "0 \<le> a \<Longrightarrow> a \<le> b \<Longrightarrow> CHR '','' \<notin> set (range_text (a, b))"
  using str_int_chars [of a] str_int_chars [of b] not_digits by auto

lemma range_text_nonempty: "range_text r \<noteq> []"
  by (cases r) (simp add: str_int_def)

lemma join_nonempty: "w \<noteq> [] \<Longrightarrow> join sep (w # ws) \<noteq> []"
  by (cases ws) simp_all

lemma range_text_ends:
  assumes "0 \<le> a" and "a \<le> b"
  shows "split_char CHR ''-'' (range_text (a, b)) = (if a = b then [str_int a] else [str_int a, str_int b])"
proof -
  have "CHR ''-'' \<notin> set (str_int a)" "CHR ''-'' \<notin> set (str_int b)"
    using str_int_chars [of a] str_int_chars [of b] not_digits(1) assms by (meson order_trans)+
  then show ?thesis by (simp add: split_char_append split_char_plain)
qed

lemma cpuset_loop_ranges:
  "-1 \<le> previous \<Longrightarrow> increasing previous rs \<Longrightarrow>
   cpuset_loop counted previous (map range_text rs) = Return (counted + sum_list (map (\<lambda>(a, b). b - a + 1) rs))"
proof (induction rs arbitrary: counted previous rule: list.induct)
  case (Cons r rs)
  obtain a b where r: "r = (a, b)" by (cases r)
  then have ab: "0 \<le> a" "a \<le> b" "previous < a" "increasing b rs" using Cons.prems by auto
  have "cpuset_loop counted previous (range_text (a, b) # map range_text rs) = cpuset_loop (counted + (b - a + 1)) b (map range_text rs)"
    using ab by (simp add: range_text_ends py_int_str_int Let_def del: range_text.simps)
  then show ?case using Cons.IH [of b] ab r by (simp add: algebra_simps del: range_text.simps)
qed simp

lemma increasing_above: "increasing previous rs \<Longrightarrow> x \<in> cpus_of rs \<Longrightarrow> previous < x"
  by (induction previous rs rule: increasing.induct) (fastforce simp: cpus_of_def)+

lemma increasing_member: "increasing previous rs \<Longrightarrow> (a, b) \<in> set rs \<Longrightarrow> previous < a \<and> a \<le> b"
  by (induction previous rs rule: increasing.induct) fastforce+

lemma card_cpus_of: "increasing previous rs \<Longrightarrow> finite (cpus_of rs) \<and> int (card (cpus_of rs)) = sum_list (map (\<lambda>(a, b). b - a + 1) rs)"
proof (induction previous rs rule: increasing.induct)
  case (2 previous a b rs)
  have "cpus_of ((a, b) # rs) = {a..b} \<union> cpus_of rs" by (auto simp: cpus_of_def)
  moreover have "{a..b} \<inter> cpus_of rs = {}" using increasing_above 2 by fastforce
  ultimately show ?case using 2 by (simp add: card_Un_disjoint)
qed (simp add: cpus_of_def)

section \<open>Rounding limits\<close>

lemma fold_min_bounds: "fold (\<lambda>c l. min l c) cs l \<le> l \<and> (\<forall>c\<in>set cs. fold (\<lambda>c l. min l c) cs l \<le> c)" for l :: "'b :: linorder"
proof (induction cs arbitrary: l)
  case (Cons c cs)
  have "fold (\<lambda>c l. min l c) cs (min l c) \<le> min l c" using Cons by blast
  then show ?case using Cons [of "min l c"] by auto
qed simp

lemma floor_budget:
  fixes x :: rat
  shows "x \<le> of_int c \<Longrightarrow> max 1 \<lfloor>x\<rfloor> \<le> max 1 c" and "x \<le> l \<Longrightarrow> of_int (max 1 \<lfloor>x\<rfloor>) \<le> max 1 l"
proof -
  show "max 1 \<lfloor>x\<rfloor> \<le> max 1 c" if "x \<le> of_int c" using that by (simp add: floor_le_iff le_max_iff_disj) linarith
  show "of_int (max 1 \<lfloor>x\<rfloor>) \<le> max 1 l" if "x \<le> l"
    unfolding of_int_max of_int_1 using order_trans [OF of_int_floor_le that] by (rule max.mono [OF order_refl])
qed

definition host_limit :: "int option \<Rightarrow> rat" where
  "host_limit cpus = of_int (case cpus of None \<Rightarrow> 1 | Some n \<Rightarrow> if n = 0 then 1 else n)"

definition affinity_limit :: "int option \<Rightarrow> rat \<Rightarrow> rat" where
  "affinity_limit aff host = (case aff of None \<Rightarrow> host | Some a \<Rightarrow> if a = 0 then host else min host (of_int a))"

lemma host_affinity_budget:
  assumes "x \<le> affinity_limit aff (host_limit cpus)"
  shows "case cpus of Some c \<Rightarrow> max 1 \<lfloor>x\<rfloor> \<le> max 1 c | None \<Rightarrow> max 1 \<lfloor>x\<rfloor> = 1"
    and "case aff of Some a \<Rightarrow> a = 0 \<or> max 1 \<lfloor>x\<rfloor> \<le> max 1 a | None \<Rightarrow> True"
proof -
  have host: "x \<le> host_limit cpus" using assms by (auto simp: affinity_limit_def split: option.splits if_splits)
  show "case cpus of Some c \<Rightarrow> max 1 \<lfloor>x\<rfloor> \<le> max 1 c | None \<Rightarrow> max 1 \<lfloor>x\<rfloor> = 1"
  proof (cases cpus)
    case None
    then have "x \<le> of_int 1" using host by (simp add: host_limit_def)
    from floor_budget(1) [OF this] show ?thesis using None by simp
  next
    case (Some c)
    then have "x \<le> of_int (if c = 0 then 1 else c)" using host by (simp add: host_limit_def)
    from floor_budget(1) [OF this] show ?thesis using Some by (auto split: if_splits)
  qed
  show "case aff of Some a \<Rightarrow> a = 0 \<or> max 1 \<lfloor>x\<rfloor> \<le> max 1 a | None \<Rightarrow> True"
  proof (cases aff)
    case (Some a)
    then show ?thesis using assms floor_budget(1) [of x a] by (auto simp: affinity_limit_def split: if_splits)
  qed simp
qed

section \<open>Properties\<close>


text \<open>
  Mount paths survive the kernel's escaping: undoing the four octal escapes one after the other, the
  backslash last, gives back any path.
\<close>

theorem unescape_mount_roundtrip: "unescape_mount (mount_escape s) = s"
  by (rule unescape_escape)

text \<open>
  A CPU set counts its CPUs: for the text of any increasing list of ranges, the result is the number of
  different CPUs in them.
\<close>

theorem cpuset_counts_cpus:
  assumes "rs \<noteq> []" and inc: "increasing (-1) rs"
  shows "cpuset_limit (join '','' (map range_text rs)) = Return (Some (int (card (cpus_of rs))))"
proof -
  have "\<forall>w\<in>set (map range_text rs). CHR '','' \<notin> set w"
    using increasing_member [OF inc] range_text_plain by fastforce
  then have "split_char CHR '','' (join '','' (map range_text rs)) = map range_text rs"
    using split_char_join assms(1) by simp
  moreover have "join '','' (map range_text rs) \<noteq> []"
    using assms(1) join_nonempty range_text_nonempty by (cases rs) auto
  ultimately show ?thesis using cpuset_loop_ranges [OF _ inc] card_cpus_of [OF inc] by (simp add: cpuset_limit_def)
qed

theorem cpuset_counts_cpus_witness:
  "cpuset_limit (join '','' (map range_text [(0, 3), (8, 8)])) = Return (Some (int (card (cpus_of [(0, 3), (8, 8)]))))"
  by (rule cpuset_counts_cpus) simp_all

end
