(* ===== verification/Loading.thy ===== *)
theory Loading
  imports Records Resources "HOL-Library.Word"
begin

unbundle bit_operations_syntax

text \<open>
  \<open>src/dataset_rt/integrations/loading.py\<close>: identities of data-parallel replicas, seed derivation,
  and the arithmetic that divides rows and sample budgets among ranks and loading workers.

  Python integers are \<open>int\<close>; the checks \<open>type(value) is int\<close> are discharged by the type. Randomness
  (\<open>secrets.randbits\<close>), the environment variable \<open>LOCAL_WORLD_SIZE\<close>, the CPU observation and the
  collective broadcast of \<open>torch.distributed\<close> are arguments of the functions that use them.
\<close>

section \<open>Worker counts\<close>

text \<open>The mode \<open>int | Literal["auto"]\<close> of a worker-count argument.\<close>

datatype count_mode = Auto | Count int

record WorkerCounts =
  processes :: int
  native_threads :: int

definition local_rank_count :: "string option \<Rightarrow> int \<Rightarrow> int exn" where
  "local_rank_count configured world =
     (if world > 1 then
        (case configured of
           None \<Rightarrow> Return world
         | Some text \<Rightarrow>
             bindE (py_int text) (\<lambda>local_ranks.
               if \<not> (1 \<le> local_ranks \<and> local_ranks \<le> world)
               then Raise (ValueError ''LOCAL_WORLD_SIZE must be between one and the distributed world size'')
               else Return local_ranks))
      else Return world)"

definition resolve_worker_counts ::
  "int \<Rightarrow> string option \<Rightarrow> count_mode \<Rightarrow> count_mode \<Rightarrow> int \<Rightarrow> WorkerCounts exn" where
  "resolve_worker_counts available_cpus configured num_workers native_num_workers world =
     (case (num_workers, native_num_workers) of
        (Count procs, Count threads) \<Rightarrow> Return \<lparr>processes = procs, native_threads = threads\<rparr>
      | _ \<Rightarrow>
        bindE (local_rank_count configured world) (\<lambda>ranks.
        bindE (case num_workers of Auto \<Rightarrow> loading_worker_count available_cpus ranks
                                 | Count procs \<Rightarrow> Return procs) (\<lambda>procs.
        bindE (case native_num_workers of Auto \<Rightarrow> native_worker_count available_cpus procs ranks
                                        | Count threads \<Rightarrow> Return threads) (\<lambda>threads.
        Return \<lparr>processes = procs, native_threads = threads\<rparr>))))"

definition automatic_native_workers :: "int \<Rightarrow> string option \<Rightarrow> int \<Rightarrow> int \<Rightarrow> int exn" where
  "automatic_native_workers available_cpus configured num_workers world =
     bindE (resolve_worker_counts available_cpus configured (Count num_workers) Auto world)
       (\<lambda>counts. Return (native_threads counts))"

section \<open>Replica identities and worker plans\<close>

record ReplicaIdentity =
  rank :: int
  world_size :: int

definition mk_ReplicaIdentity :: "int \<Rightarrow> int \<Rightarrow> ReplicaIdentity exn" where
  "mk_ReplicaIdentity r w =
     (if \<not> (0 \<le> r \<and> r < 2 ^ 32) then Raise (ValueError ''rank out of range'')
      else if \<not> (0 < w \<and> w \<le> 2 ^ 32) then Raise (ValueError ''world_size out of range'')
      else if r \<ge> w then Raise (ValueError ''rank must be smaller than world_size'')
      else Return \<lparr>rank = r, world_size = w\<rparr>)"

definition valid_replica :: "ReplicaIdentity \<Rightarrow> bool" where
  "valid_replica rep \<longleftrightarrow> 0 \<le> rank rep \<and> rank rep < world_size rep \<and> world_size rep \<le> 2 ^ 32"

record WorkerPlan =
  plan_rank :: int
  plan_worker_id :: int
  plan_offset :: int
  population_size :: int
  sample_count :: int
  plan_seed :: int
  partition_seed :: "int option"

definition check_WorkerPlan :: "WorkerPlan \<Rightarrow> WorkerPlan exn" where
  "check_WorkerPlan p =
     (if 0 \<le> plan_rank p \<and> plan_rank p < 2 ^ 32
         \<and> 0 \<le> plan_worker_id p \<and> plan_worker_id p < 2 ^ 32
         \<and> 0 \<le> plan_offset p \<and> 0 \<le> population_size p \<and> 0 \<le> sample_count p
         \<and> 0 \<le> plan_seed p \<and> plan_seed p < 2 ^ 64
         \<and> (case partition_seed p of None \<Rightarrow> True | Some s \<Rightarrow> 0 \<le> s \<and> s < 2 ^ 64)
      then Return p else Raise (ValueError ''WorkerPlan field out of range''))"

text \<open>
  \<open>capture_replica\<close>: the arguments are what the process observes, namely whether it is a loading
  worker, whether \<open>torch.distributed\<close> is available and initialized, and the group's rank and size.
\<close>

definition capture_replica :: "bool \<Rightarrow> bool \<Rightarrow> bool \<Rightarrow> int \<Rightarrow> int \<Rightarrow> ReplicaIdentity exn" where
  "capture_replica in_worker available initialized group_rank group_size =
     (if in_worker then Raise (RuntimeError ''capture_replica must run before DataLoader workers start'')
      else if \<not> available \<or> \<not> initialized then mk_ReplicaIdentity 0 1
      else mk_ReplicaIdentity group_rank group_size)"

section \<open>Sample budgets of ranks\<close>

text \<open>The second component holds the warnings issued.\<close>

definition rank_budget :: "int \<Rightarrow> ReplicaIdentity \<Rightarrow> int \<Rightarrow> bool \<Rightarrow> (int \<times> string list) exn" where
  "rank_budget samples replica batch_size drop_last =
     (let ranks = world_size replica in
      bindE (if drop_last
             then bindE (py_div samples (ranks * batch_size)) (\<lambda>q. Return (q * batch_size))
             else py_div (samples + ranks - 1) ranks) (\<lambda>local.
      let effective = local * ranks in
      Return (local,
        if effective \<noteq> samples \<and> rank replica = 0
        then [''samples_per_epoch adjusted: requested '' @ str_int samples @
              '' global samples, effective '' @ str_int effective @ ''; '' @
              (if effective > samples then ''padded'' else ''discarded'') @ '' '' @
              str_int \<bar>effective - samples\<bar> @ '' for equal rank batch counts'']
        else [])))"

section \<open>Seeds\<close>

definition U64_MAX :: int where
  "U64_MAX = 2 ^ 64 - 1"

definition require_u64 :: "string \<Rightarrow> int \<Rightarrow> unit exn" where
  "require_u64 name v =
     (if \<not> (0 \<le> v \<and> v \<le> U64_MAX) then Raise (ValueError (name @ '' must be a u64 integer''))
      else Return ())"

text \<open>
  \<open>common_seed\<close>: \<open>entropy\<close> is the value \<open>secrets.randbits(64)\<close> gives in this process, \<open>broadcast\<close>
  what \<open>broadcast_object_list(values, src=0)\<close> leaves in \<open>values[0]\<close>.
\<close>

definition common_seed ::
  "int \<Rightarrow> (int \<Rightarrow> int) \<Rightarrow> ReplicaIdentity \<Rightarrow> bool \<Rightarrow> int option \<Rightarrow> int option exn" where
  "common_seed entropy broadcast replica shuffle seed =
     (if \<not> shuffle then Return None
      else case seed of
        Some s \<Rightarrow> bindE (require_u64 ''seed'' s) (\<lambda>_. Return (Some s))
      | None \<Rightarrow>
          if world_size replica = 1 then Return (Some entropy)
          else let v = broadcast (if rank replica = 0 then entropy else 0) in
               bindE (require_u64 ''seed'' v) (\<lambda>_. Return (Some v)))"

definition mix_u64 :: "int \<Rightarrow> int" where
  "mix_u64 v0 =
     (let v1 = ((v0 XOR drop_bit 30 v0) * 0xBF58476D1CE4E5B9) AND U64_MAX;
          v2 = ((v1 XOR drop_bit 27 v1) * 0x94D049BB133111EB) AND U64_MAX
      in v2 XOR drop_bit 31 v2)"

definition derive_seed :: "int \<Rightarrow> int \<Rightarrow> int \<Rightarrow> int exn" where
  "derive_seed base_seed rank_id worker_id =
     bindE (mapE (\<lambda>(name, v). require_u64 name v)
             [(''base_seed'', base_seed), (''rank_id'', rank_id), (''worker_id'', worker_id)]) (\<lambda>_.
     if rank_id \<ge> 2 ^ 32 \<or> worker_id \<ge> 2 ^ 32
     then Raise (ValueError ''rank_id and worker_id must fit u32'')
     else let slot = push_bit 32 rank_id OR worker_id;
              key = mix_u64 (base_seed XOR 0x4453545253454544)
          in Return (mix_u64 (slot XOR key)))"

definition reader_seed :: "int \<Rightarrow> bool \<Rightarrow> int option \<Rightarrow> int \<Rightarrow> int \<Rightarrow> int exn" where
  "reader_seed entropy shuffle seed rank_id worker_id =
     (if \<not> shuffle then Return 0
      else derive_seed (case seed of None \<Rightarrow> entropy | Some s \<Rightarrow> s) rank_id worker_id)"

section \<open>Row partitions and worker budgets\<close>

definition partition_span :: "int \<Rightarrow> int \<Rightarrow> int \<Rightarrow> RowSpan" where
  "partition_span count parts part_id =
     (let size = count div parts; extra = count mod parts in
      mk_RowSpan (part_id * size + min part_id extra) (size + (if part_id < extra then 1 else 0)))"

definition partition_rows :: "int \<Rightarrow> int \<Rightarrow> int \<Rightarrow> RowSpan exn" where
  "partition_rows count parts part_id =
     bindE (require_u64 ''count'' count) (\<lambda>_.
     bindE (require_u64 ''parts'' parts) (\<lambda>_.
     bindE (require_u64 ''part_id'' part_id) (\<lambda>_.
     if parts = 0 \<or> part_id \<ge> parts
     then Raise (ValueError ''part_id must belong to a positive partition count'')
     else Return (partition_span count parts part_id))))"

definition worker_rows :: "int \<Rightarrow> ReplicaIdentity \<Rightarrow> int \<Rightarrow> int \<Rightarrow> RowSpan exn" where
  "worker_rows count replica num_workers worker_id =
     bindE (require_u64 ''num_workers'' num_workers) (\<lambda>_.
     bindE (partition_rows count (world_size replica) (rank replica)) (\<lambda>rank_span.
     bindE (partition_rows (span_length rank_span) (max 1 num_workers) worker_id) (\<lambda>local.
     Return (mk_RowSpan (span_offset rank_span + span_offset local) (span_length local)))))"

definition worker_budgets :: "int \<Rightarrow> int \<Rightarrow> int \<Rightarrow> int \<Rightarrow> int list exn" where
  "worker_budgets samples workers populations batch_size =
     (if samples = 0 then Return (replicate (nat workers) 0)
      else if populations = 0
      then Raise (ValueError ''samples_per_epoch requires a nonempty population'')
      else bindE (py_divmod samples batch_size) (\<lambda>(batches, tail).
        let active = min (min workers populations) (max 1 batches) in
        bindE (mapE (\<lambda>i. bindE (partition_rows batches active i)
                         (\<lambda>span. Return (span_length span * batch_size))) (range_list active)) (\<lambda>budgets.
        if budgets = [] then Raise (IndexError ''list index out of range'')
        else Return (budgets[length budgets - 1 := last budgets + tail] @
                     replicate (nat (workers - active)) 0))))"

section \<open>Seed derivation does not collide\<close>

lemma require_u64_Return [exn_simps]:
  "require_u64 name v = Return u \<longleftrightarrow> 0 \<le> v \<and> v \<le> U64_MAX"
  by (simp add: require_u64_def)

lemma require_u64_ok [simp]: "0 \<le> v \<Longrightarrow> v \<le> U64_MAX \<Longrightarrow> require_u64 name v = Return ()"
  by (simp add: require_u64_def)

lemma and_U64_MAX: "x AND U64_MAX = x mod 2 ^ 64"
proof -
  have "U64_MAX = mask 64" by (simp add: U64_MAX_def mask_eq_exp_minus_1)
  then have "x AND U64_MAX = take_bit 64 x" by (simp only: take_bit_eq_mask)
  then show ?thesis by (simp only: take_bit_eq_mod)
qed

lemma xorshift_inj:
  fixes x y :: int
  assumes "0 \<le> x" "0 \<le> y" "0 < n" and eq: "x XOR drop_bit n x = y XOR drop_bit n y"
  shows "x = y"
proof -
  define d where "d = x XOR y"
  have nonneg: "0 \<le> d" using assms(1,2) by (simp add: d_def)
  have "d = drop_bit n x XOR drop_bit n y"
    using eq unfolding d_def by (metis xor.assoc xor.commute xor_self_eq xor.left_neutral)
  then have fixed: "d = d div 2 ^ n"
    by (metis d_def drop_bit_eq_div drop_bit_xor)
  have "d = 0"
  proof (rule ccontr)
    assume "d \<noteq> 0"
    then have "0 < d" using nonneg by simp
    moreover have "(1::int) < 2 ^ n" using \<open>0 < n\<close> by simp
    ultimately have "d div 2 ^ n < d" by (simp add: int_div_less_self)
    with fixed show False by simp
  qed
  then show "x = y" unfolding d_def by (metis xor.assoc xor.right_neutral xor_self_eq xor.left_neutral)
qed

lemma mul_mod_inj:
  fixes x y c c' m :: int
  assumes "0 \<le> x" "x < m" "0 \<le> y" "y < m" and inv: "(c * c') mod m = 1"
    and eq: "(x * c) mod m = (y * c) mod m"
  shows "x = y"
proof -
  have undo: "(z * c) mod m * c' mod m = z" if "0 \<le> z" "z < m" for z
  proof -
    have "(z * c) mod m * c' mod m = z * c * c' mod m" by (rule mod_mult_left_eq)
    also have "\<dots> = z * ((c * c') mod m) mod m" by (simp only: mult.assoc mod_mult_right_eq)
    finally show ?thesis using inv that by simp
  qed
  from eq have "(x * c) mod m * c' mod m = (y * c) mod m * c' mod m" by simp
  then show ?thesis unfolding undo [OF assms(1,2)] undo [OF assms(3,4)] .
qed

text \<open>Two of the three stages of the finalizer: a xorshift, then a multiplication modulo $2^{64}$.\<close>

definition mix_stage :: "nat \<Rightarrow> int \<Rightarrow> int \<Rightarrow> int" where
  "mix_stage n c v = ((v XOR drop_bit n v) * c) AND U64_MAX"

lemma mix_u64_stages:
  "mix_u64 v = (let w = mix_stage 27 0x94D049BB133111EB (mix_stage 30 0xBF58476D1CE4E5B9 v)
                in w XOR drop_bit 31 w)"
  by (simp add: mix_u64_def mix_stage_def Let_def)

lemma xorshift_range:
  fixes v :: int
  assumes "0 \<le> v" "v < 2 ^ 64"
  shows "0 \<le> v XOR drop_bit n v" "v XOR drop_bit n v < 2 ^ 64"
proof -
  have "0 \<le> drop_bit n v" "drop_bit n v \<le> v"
    using assms zdiv_mono2 [of v 1 "2 ^ n"] by (simp_all add: drop_bit_eq_div pos_imp_zdiv_nonneg_iff)
  then show "0 \<le> v XOR drop_bit n v" "v XOR drop_bit n v < 2 ^ 64"
    using assms XOR_upper [of v 64 "drop_bit n v"] by simp_all
qed

lemma mix_stage_range: "0 \<le> mix_stage n c v" "mix_stage n c v < 2 ^ 64"
  by (simp_all add: mix_stage_def and_U64_MAX)

lemma mix_stage_inj:
  assumes "0 \<le> x" "x < 2 ^ 64" "0 \<le> y" "y < 2 ^ 64" "0 < n"
    and unit_mod: "(c * c') mod 2 ^ 64 = 1" and eq: "mix_stage n c x = mix_stage n c y"
  shows "x = y"
proof -
  have "x XOR drop_bit n x = y XOR drop_bit n y"
    using mul_mod_inj [OF xorshift_range [OF assms(1,2)] xorshift_range [OF assms(3,4)] unit_mod]
      eq unfolding mix_stage_def and_U64_MAX by blast
  then show ?thesis using xorshift_inj assms(1,3,5) by blast
qed

lemma mix_u64_range: "0 \<le> mix_u64 v" "mix_u64 v \<le> U64_MAX"
proof -
  let ?w = "mix_stage 27 0x94D049BB133111EB (mix_stage 30 0xBF58476D1CE4E5B9 v)"
  have "0 \<le> ?w XOR drop_bit 31 ?w" "?w XOR drop_bit 31 ?w < 2 ^ 64"
    by (rule xorshift_range; rule mix_stage_range)+
  then show "0 \<le> mix_u64 v" "mix_u64 v \<le> U64_MAX"
    by (simp_all add: mix_u64_stages Let_def U64_MAX_def)
qed

lemma mix_u64_inj:
  assumes "0 \<le> x" "x \<le> U64_MAX" "0 \<le> y" "y \<le> U64_MAX" and eq: "mix_u64 x = mix_u64 y"
  shows "x = y"
proof -
  let ?s = "mix_stage 30 0xBF58476D1CE4E5B9" and ?t = "mix_stage 27 0x94D049BB133111EB"
  have "?t (?s x) = ?t (?s y)"
    using eq xorshift_inj [OF mix_stage_range(1) mix_stage_range(1), of 31]
    unfolding mix_u64_stages Let_def by simp
  moreover have "(0x94D049BB133111EB * 0x319642B2D24D8EC3) mod 2 ^ 64 = (1 :: int)" by simp
  ultimately have eq': "?s x = ?s y"
    using mix_stage_inj [OF mix_stage_range mix_stage_range zero_less_numeral] by blast
  have "(0xBF58476D1CE4E5B9 * 0x96DE1B173F119089) mod 2 ^ 64 = (1 :: int)" by simp
  moreover have "x < 2 ^ 64" "y < 2 ^ 64" using assms(2,4) by (simp_all add: U64_MAX_def)
  ultimately show "x = y"
    using mix_stage_inj [OF assms(1) _ assms(3) _ zero_less_numeral] eq' by blast
qed

text \<open>
  What the seed derivation needs of its mixing function: it permutes the unsigned 64-bit values. The
  interpretation below gives this interface for the finalizer of the source.
\<close>

locale u64_permutation =
  fixes mix :: "int \<Rightarrow> int"
  assumes mix_lower: "0 \<le> mix v"
    and mix_upper: "mix v \<le> U64_MAX"
    and mix_injective: "0 \<le> x \<Longrightarrow> x \<le> U64_MAX \<Longrightarrow> 0 \<le> y \<Longrightarrow> y \<le> U64_MAX \<Longrightarrow> mix x = mix y \<Longrightarrow> x = y"
begin

lemma mix_bij: "bij_betw mix {0..U64_MAX} {0..U64_MAX}"
proof -
  have inj: "inj_on mix {0..U64_MAX}" using mix_injective by (auto intro: inj_onI)
  moreover have "mix ` {0..U64_MAX} \<subseteq> {0..U64_MAX}" using mix_lower mix_upper by auto
  ultimately show ?thesis by (metis bij_betw_def endo_inj_surj finite_atLeastAtMost_int)
qed

lemma xor_key_range:
  assumes "0 \<le> a" "a \<le> U64_MAX" "0 \<le> key" "key \<le> U64_MAX"
  shows "0 \<le> a XOR key" "a XOR key \<le> U64_MAX"
proof -
  have "a < 2 ^ 64" "key < 2 ^ 64" using assms by (simp_all add: U64_MAX_def)
  with XOR_upper [of a 64 key] assms(1,3) show "0 \<le> a XOR key" "a XOR key \<le> U64_MAX"
    by (simp_all add: U64_MAX_def)
qed

lemma keyed_injective:
  assumes "0 \<le> a" "a \<le> U64_MAX" "0 \<le> b" "b \<le> U64_MAX" "0 \<le> key" "key \<le> U64_MAX"
    and "mix (a XOR key) = mix (b XOR key)"
  shows "a = b"
proof -
  have "a XOR key = b XOR key"
    using mix_injective [OF xor_key_range [OF assms(1,2,5,6)] xor_key_range [OF assms(3-6)]] assms(7)
    by blast
  then show ?thesis by (metis xor.assoc xor.right_neutral xor_self_eq)
qed

end

interpretation splitmix: u64_permutation mix_u64
  by unfold_locales (use mix_u64_range mix_u64_inj in blast)+

lemma slot_injective:
  fixes r w r' w' :: int
  assumes "0 \<le> w" "w < 2 ^ 32" "0 \<le> w'" "w' < 2 ^ 32"
    and eq: "push_bit 32 r OR w = push_bit 32 r' OR w'"
  shows "r = r' \<and> w = w'"
proof -
  have hi: "drop_bit 32 (push_bit 32 a OR b) = a" and lo: "take_bit 32 (push_bit 32 a OR b) = b"
    if "0 \<le> b" "b < 2 ^ 32" for a b :: int
  proof -
    have "drop_bit 32 b = 0" using that by (simp add: drop_bit_eq_div)
    then show "drop_bit 32 (push_bit 32 a OR b) = a"
      by (simp add: drop_bit_push_bit)
    have "take_bit 32 b = b" using that by (simp add: take_bit_int_eq_self)
    then show "take_bit 32 (push_bit 32 a OR b) = b" by (simp add: take_bit_push_bit)
  qed
  from eq have "drop_bit 32 (push_bit 32 r OR w) = drop_bit 32 (push_bit 32 r' OR w')"
    and "take_bit 32 (push_bit 32 r OR w) = take_bit 32 (push_bit 32 r' OR w')" by simp_all
  with hi lo assms(1-4) show ?thesis by metis
qed

lemma slot_range:
  fixes r w :: int
  assumes "0 \<le> r" "r < 2 ^ 32" "0 \<le> w" "w < 2 ^ 32"
  shows "0 \<le> push_bit 32 r OR w" "push_bit 32 r OR w \<le> U64_MAX"
proof -
  have "push_bit 32 r < 2 ^ 64" "w < 2 ^ 64" "0 \<le> push_bit 32 r"
    using assms by (simp_all add: push_bit_eq_mult)
  with OR_upper [of "push_bit 32 r" 64 w] assms(3)
  show "0 \<le> push_bit 32 r OR w" "push_bit 32 r OR w \<le> U64_MAX" by (simp_all add: U64_MAX_def)
qed

lemma derive_seed_Return [exn_simps]:
  "derive_seed base r w = Return s \<longleftrightarrow>
     0 \<le> base \<and> base \<le> U64_MAX \<and> 0 \<le> r \<and> r < 2 ^ 32 \<and> 0 \<le> w \<and> w < 2 ^ 32 \<and>
     s = mix_u64 ((push_bit 32 r OR w) XOR mix_u64 (base XOR 0x4453545253454544))"
  by (auto simp: derive_seed_def exn_simps Let_def U64_MAX_def)

lemma derive_seed_range: "derive_seed base r w = Return s \<Longrightarrow> 0 \<le> s \<and> s \<le> U64_MAX"
  by (auto simp: derive_seed_Return mix_u64_range)

lemma derive_seed_eqD:
  assumes "derive_seed base r w = Return s" and "derive_seed base r' w' = Return s"
  shows "r = r' \<and> w = w'"
proof -
  define key where "key = mix_u64 (base XOR 0x4453545253454544)"
  have "s = mix_u64 ((push_bit 32 r OR w) XOR key)" "s = mix_u64 ((push_bit 32 r' OR w') XOR key)"
    and bounds: "0 \<le> r" "r < 2 ^ 32" "0 \<le> w" "w < 2 ^ 32" "0 \<le> r'" "r' < 2 ^ 32" "0 \<le> w'" "w' < 2 ^ 32"
    using assms unfolding derive_seed_Return key_def by blast+
  then have "mix_u64 ((push_bit 32 r OR w) XOR key) = mix_u64 ((push_bit 32 r' OR w') XOR key)" by blast
  then have "push_bit 32 r OR w = push_bit 32 r' OR w'"
    using splitmix.keyed_injective slot_range [OF bounds(1-4)] slot_range [OF bounds(5-8)]
      mix_u64_range unfolding key_def by blast
  then show ?thesis using slot_injective bounds by blast
qed

section \<open>Contiguous partitions\<close>

definition shift_span :: "int \<Rightarrow> RowSpan \<Rightarrow> RowSpan" where
  "shift_span base s = mk_RowSpan (base + span_offset s) (span_length s)"

lemma span_rows_shift: "x \<in> span_rows (shift_span base s) \<longleftrightarrow> x - base \<in> span_rows s"
  by (auto simp: span_rows_def shift_span_def)

text \<open>
  The contract of a division of \<open>count\<close> rows into \<open>parts\<close> spans: the first starts at zero, each
  begins where its predecessor ends, the last ends at \<open>count\<close>. Exact coverage, disjointness, the
  total length and the same facts for a partition of each part follow from it.
\<close>

locale span_split =
  fixes part :: "int \<Rightarrow> int \<Rightarrow> int \<Rightarrow> RowSpan"
  assumes part_start: "0 < parts \<Longrightarrow> span_offset (part count parts 0) = 0"
    and part_next: "0 \<le> count \<Longrightarrow> 0 \<le> i \<Longrightarrow> i + 1 < parts \<Longrightarrow>
      span_offset (part count parts (i + 1)) = span_offset (part count parts i) + span_length (part count parts i)"
    and part_end: "0 \<le> count \<Longrightarrow> 0 < parts \<Longrightarrow>
      span_offset (part count parts (parts - 1)) + span_length (part count parts (parts - 1)) = count"
    and part_length: "0 \<le> count \<Longrightarrow> 0 \<le> i \<Longrightarrow> i < parts \<Longrightarrow> 0 \<le> span_length (part count parts i)"
begin

definition edge :: "int \<Rightarrow> int \<Rightarrow> nat \<Rightarrow> int" where
  "edge count parts k = (if int k < parts then span_offset (part count parts (int k)) else count)"

lemma edge_0: "0 < parts \<Longrightarrow> edge count parts 0 = 0"
  using part_start by (simp add: edge_def)

lemma edge_Suc:
  assumes "0 \<le> count" "int k < parts"
  shows "edge count parts (Suc k) = edge count parts k + span_length (part count parts (int k))"
proof (cases "int k + 1 < parts")
  case True
  then show ?thesis using part_next [of count "int k" parts] assms by (simp add: edge_def add.commute)
next
  case False
  with assms have "int k = parts - 1" by simp
  then show ?thesis using part_end [of count parts] assms by (simp add: edge_def)
qed

lemma edge_mono: "0 \<le> count \<Longrightarrow> i \<le> j \<Longrightarrow> edge count parts i \<le> edge count parts j"
proof (rule mono_bound)
  fix k assume "0 \<le> count"
  then show "edge count parts k \<le> edge count parts (Suc k)"
    using edge_Suc [of count k parts] part_length [of count "int k" parts]
    by (cases "int k < parts") (auto simp: edge_def)
qed

lemma span_rows_edge:
  assumes "0 \<le> count" "0 \<le> i" "i < parts"
  shows "span_rows (part count parts i) = {edge count parts (nat i) ..< edge count parts (Suc (nat i))}"
  using edge_Suc [of count "nat i" parts] assms by (simp add: span_rows_def edge_def)

lemma cover:
  assumes "0 \<le> x" "x < count" "0 < parts"
  shows "\<exists>i. 0 \<le> i \<and> i < parts \<and> x \<in> span_rows (part count parts i)"
proof -
  have "edge count parts 0 \<le> x" "x < edge count parts (nat parts)"
    using assms by (simp_all add: edge_0) (simp add: edge_def)
  then obtain k where "k < nat parts" "edge count parts k \<le> x" "x < edge count parts (Suc k)"
    using ex_next_bound by blast
  then show ?thesis
    using span_rows_edge [of count "int k" parts] assms by (intro exI [where x = "int k"]) auto
qed

lemma separate:
  assumes "0 \<le> count" "0 \<le> i" "i < parts" "0 \<le> j" "j < parts"
    and "x \<in> span_rows (part count parts i)" "x \<in> span_rows (part count parts j)"
  shows "i = j"
proof -
  have less: False if "a < b" "0 \<le> a" "b < parts" "x \<in> span_rows (part count parts a)"
    "x \<in> span_rows (part count parts b)" for a b
    using that assms(1) edge_mono [of count "Suc (nat a)" "nat b" parts]
    by (auto simp: span_rows_edge Suc_le_eq)
  show ?thesis using less [of i j] less [of j i] assms by (cases i j rule: linorder_cases) auto
qed

lemma inside:
  assumes "0 \<le> count" "0 \<le> i" "i < parts" "x \<in> span_rows (part count parts i)"
  shows "0 \<le> x" "x < count"
proof -
  have "edge count parts 0 \<le> edge count parts (nat i)"
    and "edge count parts (Suc (nat i)) \<le> edge count parts (nat parts)"
    using edge_mono [OF assms(1)] assms(2,3) by simp_all
  moreover have "edge count parts (nat parts) = count" by (simp add: edge_def)
  ultimately show "0 \<le> x" "x < count" using assms by (auto simp: span_rows_edge edge_0)
qed

lemma bounds:
  assumes "0 \<le> count" "0 \<le> i" "i < parts"
  shows "0 \<le> span_offset (part count parts i)"
    and "span_offset (part count parts i) + span_length (part count parts i) \<le> count"
proof -
  have "edge count parts 0 \<le> edge count parts (nat i)"
    and "edge count parts (Suc (nat i)) \<le> edge count parts (nat parts)"
    using edge_mono [OF assms(1)] assms(2,3) by simp_all
  with edge_Suc [of count "nat i" parts] edge_0 [of parts count] assms
  show "0 \<le> span_offset (part count parts i)"
    and "span_offset (part count parts i) + span_length (part count parts i) \<le> count"
    by (simp_all add: edge_def)
qed

lemma prefix_lengths:
  assumes "0 \<le> count" "0 < parts" "int n \<le> parts"
  shows "(\<Sum>i<n. span_length (part count parts (int i))) = edge count parts n"
  using assms(3)
proof (induction n)
  case 0
  then show ?case using assms by (simp add: edge_0)
next
  case (Suc n)
  then show ?case using assms(1) by (simp add: edge_Suc)
qed

lemma total_length:
  assumes "0 \<le> count" "0 < parts"
  shows "sum_list (map (\<lambda>i. span_length (part count parts i)) (range_list parts)) = count"
proof -
  have "range_list parts = range_list (int (nat parts))" using assms by simp
  then have "sum_list (map (\<lambda>i. span_length (part count parts i)) (range_list parts)) =
      (\<Sum>i<nat parts. span_length (part count parts (int i)))"
    by (simp only: sum_list_range_list)
  also have "\<dots> = count"
    using prefix_lengths [OF assms, of "nat parts"] assms(2) by (simp add: edge_def)
  finally show ?thesis .
qed

lemma nested_cover:
  assumes "0 \<le> x" "x < count" "0 < ranks" and workers: "\<And>r. 0 < W r"
  shows "\<exists>r w. 0 \<le> r \<and> r < ranks \<and> 0 \<le> w \<and> w < W r \<and>
    x \<in> span_rows (shift_span (span_offset (part count ranks r))
          (part (span_length (part count ranks r)) (W r) w))"
proof -
  obtain r where r: "0 \<le> r" "r < ranks" "x \<in> span_rows (part count ranks r)"
    using cover [OF assms(1-3)] by blast
  let ?o = "span_offset (part count ranks r)" and ?n = "span_length (part count ranks r)"
  have "0 \<le> x - ?o" "x - ?o < ?n" using r(3) by (auto simp: span_rows_def)
  then obtain w where "0 \<le> w" "w < W r" "x - ?o \<in> span_rows (part ?n (W r) w)"
    using cover workers by blast
  with r show ?thesis by (auto simp: span_rows_shift)
qed

lemma nested_separate:
  assumes "0 \<le> count" and "0 \<le> r" "r < ranks" "0 \<le> w" "w < W r" "0 \<le> r'" "r' < ranks" "0 \<le> w'" "w' < W r'"
    and x: "x \<in> span_rows (shift_span (span_offset (part count ranks r))
              (part (span_length (part count ranks r)) (W r) w))"
    and x': "x \<in> span_rows (shift_span (span_offset (part count ranks r'))
              (part (span_length (part count ranks r')) (W r') w'))"
  shows "r = r' \<and> w = w'"
proof -
  have outer: "x \<in> span_rows (part count ranks q)"
    if "0 \<le> q" "q < ranks" "0 \<le> v" "v < W q"
      "x \<in> span_rows (shift_span (span_offset (part count ranks q)) (part (span_length (part count ranks q)) (W q) v))"
    for q v
  proof -
    have "x - span_offset (part count ranks q) \<in> span_rows (part (span_length (part count ranks q)) (W q) v)"
      using that(5) by (simp add: span_rows_shift)
    from inside [OF part_length [OF assms(1) that(1,2)] that(3,4) this] show ?thesis
      by (auto simp: span_rows_def)
  qed
  have "r = r'"
    using separate [OF assms(1-3,6,7) outer [OF assms(2-5) x] outer [OF assms(6-9) x']] .
  moreover from this have "w = w'"
    using separate [OF part_length [OF assms(1-3)] assms(4,5) assms(8)] assms(9) x x'
    by (simp add: span_rows_shift)
  ultimately show ?thesis by simp
qed

end

lemma partition_span_sel:
  "span_offset (partition_span count parts i) = i * (count div parts) + min i (count mod parts)"
  "span_length (partition_span count parts i) = count div parts + (if i < count mod parts then 1 else 0)"
  by (simp_all add: partition_span_def Let_def)

interpretation rows: span_split partition_span
proof
  fix count parts :: int
  assume "0 < parts"
  then show "span_offset (partition_span count parts 0) = 0"
    by (simp add: partition_span_sel pos_mod_sign)
next
  fix count i parts :: int
  assume "0 \<le> i" "i + 1 < parts"
  then show "span_offset (partition_span count parts (i + 1)) =
      span_offset (partition_span count parts i) + span_length (partition_span count parts i)"
    by (auto simp: partition_span_sel algebra_simps)
next
  fix count parts :: int
  assume "0 < parts"
  then have "count mod parts \<le> parts - 1" by simp
  then have "min (parts - 1) (count mod parts) = count mod parts" "\<not> parts - 1 < count mod parts"
    by simp_all
  moreover have "(parts - 1) * (count div parts) + count div parts + count mod parts = count"
    by (simp add: left_diff_distrib)
  ultimately show "span_offset (partition_span count parts (parts - 1)) +
      span_length (partition_span count parts (parts - 1)) = count"
    unfolding partition_span_sel by simp
next
  fix count i parts :: int
  assume "0 \<le> count" "0 \<le> i" "i < parts"
  then show "0 \<le> span_length (partition_span count parts i)"
    by (simp add: partition_span_sel pos_imp_zdiv_nonneg_iff)
qed

lemma partition_rows_Return [exn_simps]:
  "partition_rows count parts i = Return s \<longleftrightarrow>
     0 \<le> count \<and> count \<le> U64_MAX \<and> 0 < parts \<and> parts \<le> U64_MAX \<and> 0 \<le> i \<and> i < parts \<and>
     s = partition_span count parts i"
  by (auto simp: partition_rows_def exn_simps U64_MAX_def)

lemma partition_rows_ok:
  assumes "0 \<le> count" "count \<le> U64_MAX" "parts \<le> U64_MAX" "0 \<le> i" "i < parts"
  shows "partition_rows count parts i = Return (partition_span count parts i)"
  using assms by (simp add: partition_rows_Return)

section \<open>Worker budgets\<close>

text \<open>The budget of worker \<open>i\<close> when \<open>active\<close> workers share whole batches and the last takes the tail.\<close>

definition active_workers :: "int \<Rightarrow> int \<Rightarrow> int \<Rightarrow> int \<Rightarrow> int" where
  "active_workers samples workers populations batch_size =
     min (min workers populations) (max 1 (samples div batch_size))"

definition budget_of :: "int \<Rightarrow> int \<Rightarrow> int \<Rightarrow> int \<Rightarrow> int" where
  "budget_of samples batch_size active i =
     span_length (partition_span (samples div batch_size) active i) * batch_size +
     (if i = active - 1 then samples mod batch_size else 0)"

lemma bump_last:
  fixes f :: "int \<Rightarrow> int"
  assumes "0 < n"
  shows "(map f (range_list n))[nat n - 1 := f (n - 1) + c] =
         map (\<lambda>i. f i + (if i = n - 1 then c else 0)) (range_list n)"
  by (rule nth_equalityI) (use assms in \<open>auto simp: nth_list_update\<close>)

lemma sum_bump_last:
  fixes h :: "int \<Rightarrow> int"
  assumes "0 < n"
  shows "sum_list (map (\<lambda>i. h i + (if i = n - 1 then c else 0)) (range_list n)) =
         sum_list (map h (range_list n)) + c"
proof -
  have split: "range_list n = range_list (n - 1) @ [n - 1]"
    using range_list_Suc [of "n - 1"] assms by simp
  have "sum_list (map (\<lambda>i. h i + (if i = n - 1 then c else 0)) (range_list (n - 1))) =
      sum_list (map h (range_list (n - 1)))"
    by (rule arg_cong [where f = sum_list], rule map_cong) auto
  then show ?thesis unfolding split by simp
qed

lemma last_range_list: "0 < n \<Longrightarrow> last (map f (range_list n)) = f (n - 1)"
  using range_list_Suc [of "n - 1"] by simp

lemma worker_budgets_eq:
  assumes "0 < samples" "samples \<le> U64_MAX" "0 < workers" "workers \<le> U64_MAX" "0 < populations"
    and "0 < batch_size"
  defines "active \<equiv> active_workers samples workers populations batch_size"
  shows "worker_budgets samples workers populations batch_size =
    Return (map (budget_of samples batch_size active) (range_list active) @
            replicate (nat (workers - active)) 0)"
proof -
  let ?q = "samples div batch_size"
  let ?f = "\<lambda>i. span_length (partition_span ?q active i) * batch_size"
  have active: "0 < active" "active \<le> U64_MAX" using assms by (auto simp: active_workers_def)
  have "0 \<le> ?q" "?q \<le> samples" using assms zdiv_mono2 [of samples 1 batch_size]
    by (simp_all add: pos_imp_zdiv_nonneg_iff)
  then have "mapE (\<lambda>i. bindE (partition_rows ?q active i) (\<lambda>span. Return (span_length span * batch_size)))
      (range_list active) = Return (map ?f (range_list active))"
    using active assms(2) by (intro mapE_Return) (simp add: partition_rows_ok)
  moreover have "map ?f (range_list active) \<noteq> []"
    using active by (metis length_0_conv length_map length_range_list nat_0_iff not_le)
  ultimately show ?thesis
    using assms(1,5,6) active(1) bump_last [OF active(1), of ?f "samples mod batch_size"]
      last_range_list [OF active(1), of ?f]
    by (simp add: worker_budgets_def active_def [unfolded active_workers_def, symmetric]
        budget_of_def [abs_def])
qed

lemma budget_of_pos:
  assumes "0 < samples" "0 < workers" "0 < populations" "0 < batch_size"
  defines "active \<equiv> active_workers samples workers populations batch_size"
  assumes "0 \<le> i" "i < active"
  shows "0 < budget_of samples batch_size active i"
proof (cases "samples div batch_size \<le> 0")
  case True
  then have "active = 1" using assms by (simp add: active_workers_def)
  moreover have "samples div batch_size = 0"
    using True assms by (simp add: pos_imp_zdiv_nonneg_iff order_antisym)
  moreover from this have "samples mod batch_size = samples"
    using div_mult_mod_eq [of samples batch_size] by simp
  ultimately show ?thesis using assms(1,6,7) by (simp add: budget_of_def partition_span_sel)
next
  case False
  then have "active \<le> samples div batch_size" by (simp add: active_def active_workers_def)
  then have "1 \<le> samples div batch_size div active"
    using assms(6,7) by (simp add: int_one_le_iff_zero_less pos_imp_zdiv_pos_iff)
  then have "0 < span_length (partition_span (samples div batch_size) active i)"
    by (simp add: partition_span_sel)
  then show ?thesis using assms by (simp add: budget_of_def add_pos_nonneg)
qed

lemma sum_budgets:
  assumes "0 < samples" "0 < active" "0 < batch_size"
  shows "sum_list (map (budget_of samples batch_size active) (range_list active)) = samples"
proof -
  let ?q = "samples div batch_size"
  have q: "0 \<le> ?q" using assms by (simp add: pos_imp_zdiv_nonneg_iff)
  have "sum_list (map (budget_of samples batch_size active) (range_list active)) =
      sum_list (map (\<lambda>i. span_length (partition_span ?q active i) * batch_size) (range_list active)) +
      samples mod batch_size"
    unfolding budget_of_def by (rule sum_bump_last) (rule assms(2))
  also have "\<dots> = ?q * batch_size + samples mod batch_size"
    using rows.total_length [OF q assms(2)] by (simp add: sum_list_mult_const)
  finally show ?thesis by simp
qed

lemma ceil_div:
  fixes x b :: int
  assumes "0 < b"
  shows "(x + b - 1) div b = x div b + (if x mod b = 0 then 0 else 1)"
proof -
  have "x + b - 1 = (x mod b + b - 1) + x div b * b" by (simp add: algebra_simps)
  then have "(x + b - 1) div b = x div b + (x mod b + b - 1) div b"
    using assms by (metis add.commute div_mult_self1 less_irrefl)
  moreover have "(x mod b + b - 1) div b = (if x mod b = 0 then 0 else 1)"
  proof (cases "x mod b = 0")
    case False
    moreover have "0 \<le> x mod b" "x mod b < b" using assms by simp_all
    ultimately have "(x mod b + b - 1) div b = 1"
      by (intro int_div_pos_eq [where r = "x mod b - 1"]) auto
    with False show ?thesis by simp
  qed (use assms in simp)
  ultimately show ?thesis by simp
qed

lemma budget_of_div_mod:
  assumes "0 < batch_size"
  shows "budget_of samples batch_size active i div batch_size =
      span_length (partition_span (samples div batch_size) active i)"
    and "budget_of samples batch_size active i mod batch_size =
      (if i = active - 1 then samples mod batch_size else 0)"
  using assms by (simp_all add: budget_of_def)

lemma budget_batches:
  assumes "0 < samples" "0 < active" "0 < b"
  shows "sum_list (map (\<lambda>i. budget_of samples b active i div b) (range_list active)) = samples div b"
    and "sum_list (map (\<lambda>i. (budget_of samples b active i + b - 1) div b) (range_list active)) =
      (samples + b - 1) div b"
proof -
  have q: "0 \<le> samples div b" using assms by (simp add: pos_imp_zdiv_nonneg_iff)
  show "sum_list (map (\<lambda>i. budget_of samples b active i div b) (range_list active)) = samples div b"
    using rows.total_length [OF q assms(2)] assms(3) by (simp add: budget_of_div_mod)
  have "(budget_of samples b active i + b - 1) div b =
      span_length (partition_span (samples div b) active i) +
      (if i = active - 1 then (if samples mod b = 0 then 0 else 1) else 0)" for i
    by (simp add: ceil_div [OF assms(3)] budget_of_div_mod [OF assms(3)])
  then show "sum_list (map (\<lambda>i. (budget_of samples b active i + b - 1) div b) (range_list active)) =
      (samples + b - 1) div b"
    using sum_bump_last [OF assms(2), of "\<lambda>i. span_length (partition_span (samples div b) active i)"]
      rows.total_length [OF q assms(2)] by (simp add: ceil_div [OF assms(3)])
qed

section \<open>Resolved worker counts\<close>

lemma local_rank_count_bounds:
  "local_rank_count configured world = Return ranks \<Longrightarrow> 1 \<le> world \<Longrightarrow> 1 \<le> ranks \<and> ranks \<le> world"
  by (auto simp: local_rank_count_def exn_simps split: if_splits option.splits)

lemma loading_worker_count_bounds:
  assumes "loading_worker_count cpus ranks = Return n"
  shows "0 \<le> n \<and> n \<le> 4 \<and> (0 < n \<longrightarrow> (n + 1) * ranks \<le> cpus)"
proof -
  have r: "1 \<le> cpus" "1 \<le> ranks" and n: "n = min 4 (max 0 (cpus div ranks - 1))"
    using assms by (auto simp: loading_worker_count_def split: if_splits)
  have "(n + 1) * ranks \<le> cpus" if "0 < n"
  proof -
    have "n + 1 \<le> cpus div ranks" using n that by auto
    then have "(n + 1) * ranks \<le> cpus div ranks * ranks" using r by (intro mult_right_mono) auto
    also have "\<dots> \<le> cpus" using r minus_mod_eq_div_mult [of cpus ranks] pos_mod_sign [of ranks cpus] by linarith
    finally show ?thesis .
  qed
  then show ?thesis using n by auto
qed

lemma native_worker_count_bounds:
  assumes "native_worker_count cpus procs ranks = Return n"
  shows "1 \<le> n \<and> n \<le> 4 \<and> (1 < n \<longrightarrow> n * (max 1 procs * ranks) \<le> cpus)"
proof -
  let ?m = "max 1 procs * ranks"
  have r: "1 \<le> cpus" "1 \<le> ranks" and n: "n = max 1 (min 4 (cpus div ?m))"
    using assms by (auto simp: native_worker_count_def split: if_splits)
  have m: "0 < ?m" using r by simp
  have "n * ?m \<le> cpus" if "1 < n"
  proof -
    have "n \<le> cpus div ?m" using n that by auto
    then have "n * ?m \<le> cpus div ?m * ?m" using m by (intro mult_right_mono) auto
    also have "\<dots> \<le> cpus" using m minus_mod_eq_div_mult [of cpus ?m] pos_mod_sign [of ?m cpus] by linarith
    finally show ?thesis .
  qed
  then show ?thesis using n by auto
qed

section \<open>Properties\<close>

text \<open>
  The seed mixer is a permutation of the unsigned 64-bit integers, as its docstring claims of the
  SplitMix64 finalizer.
\<close>

theorem mix_u64_permutes: "bij_betw mix_u64 {0..U64_MAX} {0..U64_MAX}"
  by (rule splitmix.mix_bij)

text \<open>
  C25. For one base seed, distinct pairs of 32-bit rank and worker identities derive distinct seeds:
  whenever two derivations give the same seed, rank and worker agree; and every pair derives an
  unsigned 64-bit seed.
\<close>

theorem derive_seed_injective:
  assumes "0 \<le> base" and "base \<le> U64_MAX"
  shows "inj_on (\<lambda>(r, w). derive_seed base r w) ({0..<2 ^ 32} \<times> {0..<2 ^ 32}) \<and>
    (\<forall>r\<in>{0..<2 ^ 32}. \<forall>w\<in>{0..<2 ^ 32}. \<exists>s. derive_seed base r w = Return s \<and> 0 \<le> s \<and> s \<le> U64_MAX)"
proof -
  have ok: "\<exists>s. derive_seed base r w = Return s \<and> 0 \<le> s \<and> s \<le> U64_MAX"
    if "r \<in> {0..<2 ^ 32}" "w \<in> {0..<2 ^ 32}" for r w
    using that assms by (simp add: derive_seed_Return mix_u64_range)
  have "inj_on (\<lambda>(r, w). derive_seed base r w) ({0..<2 ^ 32} \<times> {0..<2 ^ 32})"
  proof (rule inj_onI, clarify)
    fix r w r' w' :: int
    assume r: "r \<in> {0..<2 ^ 32}" and w: "w \<in> {0..<2 ^ 32}" and eq: "derive_seed base r w = derive_seed base r' w'"
    obtain s where "derive_seed base r w = Return s" using ok [OF r w] by blast
    then show "r = r' \<and> w = w'" using derive_seed_eqD eq by metis
  qed
  then show ?thesis using ok by blast
qed

theorem derive_seed_injective_witness:
  "inj_on (\<lambda>(r, w). derive_seed 7 r w) ({0..<2 ^ 32} \<times> {0..<2 ^ 32}) \<and>
   (\<exists>s. derive_seed 7 3 5 = Return s \<and> 0 \<le> s \<and> s \<le> U64_MAX)"
  using derive_seed_injective [of 7] by (simp add: U64_MAX_def)

text \<open>
  Every row below \<open>count\<close> lies in the span of exactly one part, and every span a part returns lies
  below \<open>count\<close>: the parts are an exact, disjoint cover of the rows.
\<close>

theorem partition_rows_exact:
  assumes "count \<le> U64_MAX" and "0 < parts" and "parts \<le> U64_MAX" and "0 \<le> x" and "x < count"
  shows "\<exists>!i. \<exists>s. partition_rows count parts i = Return s \<and> x \<in> span_rows s"
proof -
  obtain i where i: "0 \<le> i" "i < parts" "x \<in> span_rows (partition_span count parts i)"
    using rows.cover assms by blast
  show ?thesis
  proof (rule ex1I [of _ i])
    show "\<exists>s. partition_rows count parts i = Return s \<and> x \<in> span_rows s"
      using i assms by (simp add: partition_rows_Return)
  next
    fix j assume "\<exists>s. partition_rows count parts j = Return s \<and> x \<in> span_rows s"
    then have "0 \<le> j" "j < parts" "x \<in> span_rows (partition_span count parts j)"
      by (auto simp: partition_rows_Return)
    then show "j = i" using rows.separate i assms by (meson order_trans less_imp_le)
  qed
qed

theorem partition_rows_exact_witness:
  "\<exists>!i. \<exists>s. partition_rows 10 3 i = Return s \<and> 7 \<in> span_rows s"
  by (rule partition_rows_exact) (simp_all add: U64_MAX_def)

text \<open>
  Part sizes are balanced: they never increase from one part to a later one and differ by at most
  one row.
\<close>

theorem partition_rows_balanced:
  assumes "partition_rows count parts i = Return s" and "partition_rows count parts j = Return t"
    and "i \<le> j"
  shows "span_length t \<le> span_length s \<and> span_length s \<le> span_length t + 1"
  using assms by (auto simp: partition_rows_Return partition_span_sel)

theorem partition_rows_balanced_witness:
  "partition_rows 10 3 0 = Return (mk_RowSpan 0 4) \<and> partition_rows 10 3 2 = Return (mk_RowSpan 7 3) \<and>
   span_length (mk_RowSpan 7 3) \<le> span_length (mk_RowSpan 0 4)"
proof -
  have a: "partition_rows 10 3 0 = Return (mk_RowSpan 0 4)" and b: "partition_rows 10 3 2 = Return (mk_RowSpan 7 3)"
    by (simp_all add: partition_rows_Return partition_span_def U64_MAX_def)
  show ?thesis using partition_rows_balanced [OF a b] a b by simp
qed

text \<open>
  C6. The rows of a rank, split again among its loading workers, still cover every row exactly once
  over all ranks and workers, even when ranks run different numbers of workers (zero workers meaning
  one consumer in the rank process).
\<close>

theorem worker_rows_exact:
  assumes "count \<le> U64_MAX" and "0 < ranks" and "ranks \<le> 2 ^ 32"
    and workers: "\<And>r. 0 \<le> W r \<and> W r \<le> U64_MAX"
    and "0 \<le> x" and "x < count"
  shows "\<exists>!p. fst p \<in> {0..<ranks} \<and>
    (\<exists>s. worker_rows count \<lparr>rank = fst p, world_size = ranks\<rparr> (W (fst p)) (snd p) = Return s \<and> x \<in> span_rows s)"
proof -
  let ?W = "\<lambda>r. max 1 (W r)"
  let ?nested = "\<lambda>r w. shift_span (span_offset (partition_span count ranks r))
      (partition_span (span_length (partition_span count ranks r)) (?W r) w)"
  have "ranks \<le> U64_MAX" using assms(3) by (simp add: U64_MAX_def)
  moreover have "span_length (partition_span count ranks r) \<le> U64_MAX" if "0 \<le> r" "r < ranks" for r
    using rows.bounds [of count r ranks] that assms by simp
  moreover have "0 \<le> span_length (partition_span count ranks r)" if "0 \<le> r" "r < ranks" for r
    using rows.part_length that assms by simp
  ultimately have sem: "worker_rows count \<lparr>rank = r, world_size = ranks\<rparr> (W r) w = Return s \<longleftrightarrow>
      0 \<le> w \<and> w < ?W r \<and> s = ?nested r w" if "0 \<le> r" "r < ranks" for r w s
    using that assms workers [of r]
    by (auto simp: worker_rows_def exn_simps shift_span_def U64_MAX_def)
  obtain r w where rw: "0 \<le> r" "r < ranks" "0 \<le> w" "w < ?W r" "x \<in> span_rows (?nested r w)"
    using rows.nested_cover [OF assms(5,6,2), of ?W] by (meson less_max_iff_disj zero_less_one)
  show ?thesis
  proof (rule ex1I [of _ "(r, w)"])
    fix p assume "fst p \<in> {0..<ranks} \<and> (\<exists>s. worker_rows count \<lparr>rank = fst p, world_size = ranks\<rparr>
        (W (fst p)) (snd p) = Return s \<and> x \<in> span_rows s)"
    then have "0 \<le> fst p" "fst p < ranks" "0 \<le> snd p" "snd p < ?W (fst p)"
      "x \<in> span_rows (?nested (fst p) (snd p))" by (auto simp: sem)
    then have "fst p = r \<and> snd p = w"
      using rows.nested_separate [of count "fst p" ranks "snd p" ?W r w x] rw assms by simp
    then show "p = (r, w)" by (metis prod.collapse)
  qed (use rw in \<open>simp add: sem\<close>)
qed

theorem worker_rows_exact_witness:
  "\<exists>!p. fst p \<in> {0..<2} \<and> (\<exists>s. worker_rows 10 \<lparr>rank = fst p, world_size = 2\<rparr>
     ((\<lambda>r. if r = 0 then 3 else 0) (fst p)) (snd p) = Return s \<and> 4 \<in> span_rows s)"
  by (rule worker_rows_exact) (simp_all add: U64_MAX_def)

text \<open>
  C24. Worker budgets: one budget per worker, none negative, summing to the samples; no more positive
  budgets than populations; and the batches the workers form separately are exactly the batches of
  one reader, rounding up (keeping incomplete batches) as well as rounding down (dropping them).
\<close>

theorem worker_budgets_batches:
  assumes "0 \<le> samples" and "samples \<le> U64_MAX" and "0 < workers" and "workers \<le> U64_MAX"
    and "0 < populations" and b: "0 < b"
  shows "\<exists>bs. worker_budgets samples workers populations b = Return bs \<and>
    int (length bs) = workers \<and> (\<forall>v\<in>set bs. 0 \<le> v) \<and> sum_list bs = samples \<and>
    int (length (filter (\<lambda>v. 0 < v) bs)) \<le> populations \<and>
    sum_list (map (\<lambda>v. (v + b - 1) div b) bs) = (samples + b - 1) div b \<and>
    sum_list (map (\<lambda>v. v div b) bs) = samples div b"
proof (cases "samples = 0")
  case True
  with assms show ?thesis by (simp add: worker_budgets_def sum_list_replicate)
next
  case False
  let ?a = "active_workers samples workers populations b"
  let ?bs = "map (budget_of samples b ?a) (range_list ?a)" and ?zs = "replicate (nat (workers - ?a)) (0::int)"
  have s: "0 < samples" using False assms(1) by simp
  have a: "0 < ?a" "?a \<le> workers" "?a \<le> populations" using assms by (auto simp: active_workers_def)
  have pos: "\<forall>v\<in>set ?bs. 0 < v" using budget_of_pos [OF s assms(3,5,6)] by auto
  then have "filter (\<lambda>v. 0 < v) (?bs @ ?zs) = ?bs" by (simp add: filter_id_conv)
  moreover have "worker_budgets samples workers populations b = Return (?bs @ ?zs)"
    using worker_budgets_eq [OF s] assms by simp
  moreover have "sum_list (map (\<lambda>v. (v + b - 1) div b) (?bs @ ?zs)) = (samples + b - 1) div b"
    using budget_batches(2) [OF s a(1) b] b by (simp add: o_def sum_list_replicate)
  moreover have "sum_list (map (\<lambda>v. v div b) (?bs @ ?zs)) = samples div b"
    using budget_batches(1) [OF s a(1) b] b by (simp add: o_def sum_list_replicate)
  moreover have "sum_list (?bs @ ?zs) = samples"
    using sum_budgets [OF s a(1) b] by (simp add: sum_list_replicate)
  moreover have "int (length (?bs @ ?zs)) = workers" "int (length ?bs) \<le> populations"
    using a by simp_all
  moreover have "\<forall>v\<in>set (?bs @ ?zs). 0 \<le> v" using pos by (auto intro: less_imp_le)
  ultimately show ?thesis by metis
qed

theorem worker_budgets_batches_witness:
  "\<exists>bs. worker_budgets 10 4 100 3 = Return bs \<and>
    int (length bs) = 4 \<and> (\<forall>v\<in>set bs. 0 \<le> v) \<and> sum_list bs = 10 \<and>
    int (length (filter (\<lambda>v. 0 < v) bs)) \<le> 100 \<and>
    sum_list (map (\<lambda>v. (v + 3 - 1) div 3) bs) = (10 + 3 - 1) div 3 \<and>
    sum_list (map (\<lambda>v. v div 3) bs) = 10 div 3"
  by (rule worker_budgets_batches) (simp_all add: U64_MAX_def)

lemma rank_budget_local:
  assumes "0 < world_size replica" and "0 < b"
  shows "\<exists>ws. rank_budget samples replica b drop_last =
    Return (if drop_last then samples div (world_size replica * b) * b
            else (samples + world_size replica - 1) div world_size replica, ws)"
  using assms by (cases drop_last) (simp_all add: rank_budget_def Let_def)

text \<open>
  Every rank of a group gets the same local budget. Keeping incomplete batches pads the global
  count by fewer than one sample per rank; dropping them discards less than one batch per rank and
  leaves whole batches.
\<close>

theorem rank_budget_equal:
  assumes "0 < ranks" and "0 < b" and "0 \<le> samples"
    and "rank_budget samples \<lparr>rank = r, world_size = ranks\<rparr> b drop_last = Return (budget, ws)"
    and "rank_budget samples \<lparr>rank = r', world_size = ranks\<rparr> b drop_last = Return (budget', ws')"
  shows "budget = budget' \<and>
    (if drop_last then b dvd budget \<and> budget * ranks \<le> samples \<and> samples < (budget + b) * ranks
     else samples \<le> budget * ranks \<and> budget * ranks < samples + ranks)"
proof -
  have vals: "budget = (if drop_last then samples div (ranks * b) * b else (samples + ranks - 1) div ranks)"
    "budget' = budget"
    using assms(1,2,4,5) rank_budget_local [of "\<lparr>rank = r, world_size = ranks\<rparr>" b samples drop_last]
      rank_budget_local [of "\<lparr>rank = r', world_size = ranks\<rparr>" b samples drop_last] by auto
  have "samples div (ranks * b) * b * ranks \<le> samples \<and> samples < (samples div (ranks * b) * b + b) * ranks"
  proof -
    let ?m = "ranks * b"
    have "0 < ?m" using assms(1,2) by simp
    then have "samples mod ?m < ?m" "0 \<le> samples mod ?m" by simp_all
    moreover have "samples div ?m * ?m + samples mod ?m = samples" by (rule div_mult_mod_eq)
    ultimately have "samples div ?m * ?m \<le> samples" "samples < samples div ?m * ?m + ?m" by linarith+
    then show ?thesis by (simp add: algebra_simps)
  qed
  moreover have "samples \<le> (samples + ranks - 1) div ranks * ranks \<and>
      (samples + ranks - 1) div ranks * ranks < samples + ranks"
  proof -
    have "(samples + ranks - 1) mod ranks < ranks" "0 \<le> (samples + ranks - 1) mod ranks"
      using assms(1) by simp_all
    moreover have "(samples + ranks - 1) div ranks * ranks + (samples + ranks - 1) mod ranks = samples + ranks - 1"
      by simp
    ultimately show ?thesis by linarith
  qed
  ultimately show ?thesis using vals by simp
qed

theorem rank_budget_equal_witness:
  "\<exists>ws. rank_budget 1000 \<lparr>rank = 0, world_size = 3\<rparr> 32 False = Return (334, ws) \<and>
     (334 :: int) = 334 \<and> (1000 :: int) \<le> 334 * 3"
proof -
  obtain ws ws' where a: "rank_budget 1000 \<lparr>rank = 0, world_size = 3\<rparr> 32 False = Return (334, ws)"
    and b: "rank_budget 1000 \<lparr>rank = 1, world_size = 3\<rparr> 32 False = Return (334, ws')"
    by (simp add: rank_budget_def Let_def)
  show ?thesis using rank_budget_equal [OF _ _ _ a b] a by simp
qed

text \<open>
  The ranks of a group agree on one partition seed. Rank zero draws 64 random bits; the collective
  broadcast from rank zero (documented by torch.distributed) leaves its value in every rank.
\<close>

theorem common_seed_agreement:
  assumes "0 \<le> entropy 0" and "entropy 0 \<le> U64_MAX" and "1 < ranks"
    and broadcast: "\<And>r v. broadcast r v = (if r = 0 then v else broadcast 0 (entropy 0))"
    and "0 \<le> r" and "r < ranks"
  shows "common_seed (entropy r) (broadcast r) \<lparr>rank = r, world_size = ranks\<rparr> True None =
    Return (Some (entropy 0))"
proof -
  have "broadcast r (if r = 0 then entropy r else 0) = entropy 0"
    using broadcast [of r] broadcast [of 0 "entropy 0"] by (cases "r = 0") auto
  then show ?thesis using assms(1-3) by (auto simp: common_seed_def Let_def)
qed

theorem common_seed_agreement_witness:
  "common_seed ((\<lambda>r. 40 + r) 2) ((\<lambda>r v. if r = 0 then v else 40) (2 :: int)) \<lparr>rank = 2, world_size = 4\<rparr> True None =
   Return (Some 40)"
  using common_seed_agreement [of "\<lambda>r. 40 + r" 4 "\<lambda>r v. if r = 0 then v else 40" 2]
  by (simp add: U64_MAX_def)

text \<open>
  Automatic worker counts respect the CPU budget: at most four loading processes and one to four
  native threads; the loading processes of all local ranks and one training process each fit the
  budget, and so do the native threads of all consumers unless they are at the one-thread minimum.
\<close>

theorem automatic_counts_budget:
  assumes "1 \<le> world" and "resolve_worker_counts cpus configured Auto Auto world = Return c"
  shows "\<exists>ranks. local_rank_count configured world = Return ranks \<and> 1 \<le> ranks \<and> ranks \<le> world \<and>
    0 \<le> processes c \<and> processes c \<le> 4 \<and> 1 \<le> native_threads c \<and> native_threads c \<le> 4 \<and>
    (0 < processes c \<longrightarrow> (processes c + 1) * ranks \<le> cpus) \<and>
    (1 < native_threads c \<longrightarrow> native_threads c * (max 1 (processes c) * ranks) \<le> cpus)"
proof -
  obtain ranks where ranks: "local_rank_count configured world = Return ranks"
      "loading_worker_count cpus ranks = Return (processes c)"
      "native_worker_count cpus (processes c) ranks = Return (native_threads c)"
    using assms(2) by (auto simp: resolve_worker_counts_def exn_simps)
  then show ?thesis
    using local_rank_count_bounds [OF ranks(1) assms(1)] loading_worker_count_bounds [OF ranks(2)]
      native_worker_count_bounds [OF ranks(3)] by blast
qed

theorem automatic_counts_budget_witness:
  "\<exists>c ranks. resolve_worker_counts 16 (Some ''2'') Auto Auto 4 = Return c \<and>
    local_rank_count (Some ''2'') 4 = Return ranks \<and> (0 < processes c \<longrightarrow> (processes c + 1) * ranks \<le> 16)"
proof -
  have "str_int 2 = ''2''" by code_simp
  then have "py_int ''2'' = Return 2" using py_int_str_int [of 2] by simp
  then obtain c where c: "resolve_worker_counts 16 (Some ''2'') Auto Auto 4 = Return c"
    by (simp add: resolve_worker_counts_def local_rank_count_def loading_worker_count_def native_worker_count_def)
  show ?thesis using c automatic_counts_budget [OF _ c] by auto
qed

end
