(* ===== verification/Loader_Options.thy ===== *)
theory Loader_Options
  imports Loading Config
begin

text \<open>
  \<open>src/dataset_rt/integrations/loader_options.py\<close>: validation of the loader's settings and resolution
  of the automatic modes. The code checks the dynamic types of its arguments, so they are values of
  \<open>pyval\<close>: a Boolean is an instance of \<open>int\<close> but its type is not \<open>int\<close>, which the checks tell apart.
  The available process start methods and the CPU observation are arguments. \<open>sys.maxsize\<close> is that of
  a 64-bit build.
\<close>

section \<open>Values and settings\<close>

datatype pyfloat = Finite rat | PosInf | NegInf | NaN

datatype pyval =
    VNone
  | VBool bool
  | VInt int
  | VFloat pyfloat
  | VStr string
  | VContext nat
  | VOther

definition sys_maxsize :: int where "sys_maxsize = 2 ^ 63 - 1"

definition MAX_SAMPLE_BUDGET :: int where "MAX_SAMPLE_BUDGET = min sys_maxsize (2 ^ 53)"

definition validate_count :: "pyval \<Rightarrow> string \<Rightarrow> int \<Rightarrow> int \<Rightarrow> unit exn" where
  "validate_count v name minimum maximum =
     (let bad = Raise (ValueError (name @ '' must be 'auto' or an integer between '' @
                 str_int minimum @ '' and '' @ str_int maximum)) in
      case v of
        VStr s \<Rightarrow> if s = ''auto'' then Return () else bad
      | VInt i \<Rightarrow> if minimum \<le> i \<and> i \<le> maximum then Return () else bad
      | _ \<Rightarrow> bad)"

text \<open>Contexts: the platform default, a named start method, or an object the caller supplied.\<close>

datatype mp_context = DefaultContext | MethodContext string | GivenContext nat

record ResolvedWorkers =
  counts :: WorkerCounts
  persistent :: bool
  prefetch :: "int option"
  mp_ctx :: "mp_context option"

record LoaderOptions =
  opt_shuffle :: pyval
  opt_seed :: pyval
  opt_samples_per_epoch :: pyval
  opt_partition :: pyval
  opt_batch_size :: pyval
  opt_num_workers :: pyval
  opt_native_num_workers :: pyval
  opt_drop_last :: pyval
  opt_pin_memory :: pyval
  opt_persistent_workers :: pyval
  opt_timeout :: pyval
  opt_context :: pyval
  opt_prefetch :: pyval
  opt_verbose :: pyval

section \<open>Validation\<close>

abbreviation persistent_message :: string where
  "persistent_message \<equiv> ''persistent_workers must be a boolean or 'auto'' @ [CHR 0x27]"

abbreviation prefetch_message :: string where
  "prefetch_message \<equiv> ''prefetch_factor must be a positive integer or 'auto'' @ [CHR 0x27]"

definition require :: "bool \<Rightarrow> string \<Rightarrow> unit exn" where
  "require b msg = (if b then Return () else Raise (ValueError msg))"

text \<open>Truth value of a validated Boolean setting.\<close>

fun is_true :: "pyval \<Rightarrow> bool" where
  "is_true (VBool b) = b"
| "is_true _ = False"

fun is_bool :: "pyval \<Rightarrow> bool" where
  "is_bool (VBool b) = True"
| "is_bool _ = False"

text \<open>
  \<open>not isfinite(timeout) or timeout < 0\<close>: \<open>math.isfinite\<close> raises \<open>TypeError\<close> on a value that is not a
  number and \<open>OverflowError\<close> on an integer beyond the range of a double.
\<close>

fun timeout_ok :: "pyval \<Rightarrow> bool exn" where
  "timeout_ok (VFloat (Finite r)) = Return (0 \<le> r)"
| "timeout_ok (VFloat f) = Return False"
| "timeout_ok (VInt i) = (if \<bar>i\<bar> \<ge> 2 ^ 1024 - 2 ^ 970
     then Raise (OverflowError ''int too large to convert to float'') else Return (0 \<le> i))"
| "timeout_ok (VBool b) = Return True"
| "timeout_ok _ = Raise (TypeError ''must be real number'')"

definition validate_seed :: "LoaderOptions \<Rightarrow> unit exn" where
  "validate_seed opts =
     (case opt_seed opts of
        VStr s \<Rightarrow> require (s = ''random'') ''seed must be 'random' or an unsigned 64-bit integer''
      | VInt i \<Rightarrow>
          bindE (require (is_true (opt_shuffle opts))
                  ''seed requires shuffle=True; use 'random' for sequential reading'') (\<lambda>_.
          require (0 \<le> i \<and> i < 2 ^ 64) ''seed must be 'random' or an unsigned 64-bit integer'')
      | _ \<Rightarrow> Raise (ValueError ''seed must be 'random' or an unsigned 64-bit integer''))"

definition validate_context :: "string list \<Rightarrow> LoaderOptions \<Rightarrow> unit exn" where
  "validate_context start_methods opts =
     require (case opt_context opts of
                VStr s \<Rightarrow> s = ''inherit'' \<or> s \<in> set start_methods
              | VContext c \<Rightarrow> True
              | _ \<Rightarrow> False)
       ''multiprocessing_context must be 'inherit', an available start method, or BaseContext''"

definition post_init :: "string list \<Rightarrow> LoaderOptions \<Rightarrow> unit exn" where
  "post_init start_methods opts =
     bindE (validate_count (opt_num_workers opts) ''num_workers'' 0 (2 ^ 32 - 1)) (\<lambda>_.
     bindE (validate_count (opt_native_num_workers opts) ''native_num_workers'' 1 sys_maxsize) (\<lambda>_.
     bindE (mapE (\<lambda>(name, v). require (is_bool v) (name @ '' must be a boolean''))
              [(''shuffle'', opt_shuffle opts), (''drop_last'', opt_drop_last opts),
               (''pin_memory'', opt_pin_memory opts), (''verbose'', opt_verbose opts)]) (\<lambda>_.
     bindE (require (case opt_batch_size opts of VInt i \<Rightarrow> 1 \<le> i \<and> i \<le> sys_maxsize | _ \<Rightarrow> False)
              ''batch_size must be a positive integer fitting sys.maxsize'') (\<lambda>_.
     bindE (require (case opt_samples_per_epoch opts of
                       VNone \<Rightarrow> True | VInt i \<Rightarrow> 1 \<le> i \<and> i \<le> MAX_SAMPLE_BUDGET | _ \<Rightarrow> False)
              (''samples_per_epoch must be a positive integer <= '' @ str_int MAX_SAMPLE_BUDGET @ '' or None'')) (\<lambda>_.
     bindE (timeout_ok (opt_timeout opts)) (\<lambda>ok.
     bindE (require ok ''timeout must be finite and nonnegative'') (\<lambda>_.
     bindE (validate_count (opt_prefetch opts) ''prefetch_factor'' 1 sys_maxsize) (\<lambda>_.
     bindE (require (case opt_persistent_workers opts of
                       VStr s \<Rightarrow> s = ''auto'' | VBool b \<Rightarrow> True | _ \<Rightarrow> False)
              persistent_message) (\<lambda>_.
     bindE (validate_seed opts) (\<lambda>_.
     bindE (validate_context start_methods opts) (\<lambda>_.
     require (case opt_partition opts of
                VNone \<Rightarrow> True | VStr s \<Rightarrow> s = ''split'' \<or> s = ''replicate'' | _ \<Rightarrow> False)
       ''worker_partition must be 'split', 'replicate', or None'')))))))))))"

section \<open>Resolution\<close>

fun mode_of :: "pyval \<Rightarrow> count_mode" where
  "mode_of (VInt i) = Count i"
| "mode_of _ = Auto"

fun timeout_nonzero :: "pyval \<Rightarrow> bool" where
  "timeout_nonzero (VInt i) = (i \<noteq> 0)"
| "timeout_nonzero (VBool b) = b"
| "timeout_nonzero (VFloat (Finite r)) = (r \<noteq> 0)"
| "timeout_nonzero _ = True"

definition resolve_context :: "LoaderOptions \<Rightarrow> int \<Rightarrow> mp_context option" where
  "resolve_context opts procs =
     (if procs = 0 then None
      else case opt_context opts of
        VStr s \<Rightarrow> Some (if s = ''inherit'' then DefaultContext else MethodContext s)
      | VContext c \<Rightarrow> Some (GivenContext c)
      | _ \<Rightarrow> None)"

definition resolve_persistence :: "LoaderOptions \<Rightarrow> int \<Rightarrow> bool exn" where
  "resolve_persistence opts procs =
     (case opt_persistent_workers opts of
        VStr s \<Rightarrow> if s = ''auto'' then Return (procs > 0)
                  else Raise (ValueError (persistent_message))
      | VBool b \<Rightarrow> if b \<and> procs = 0 then Raise (ValueError ''persistent_workers=True requires num_workers > 0'')
                   else Return b
      | _ \<Rightarrow> Raise (ValueError (persistent_message)))"

definition resolve_prefetch :: "LoaderOptions \<Rightarrow> int \<Rightarrow> int option exn" where
  "resolve_prefetch opts procs =
     (case opt_prefetch opts of
        VStr s \<Rightarrow> if s = ''auto'' then Return (if procs > 0 then Some 2 else None)
                  else Raise (ValueError prefetch_message)
      | VInt i \<Rightarrow> if procs = 0 then Raise (ValueError ''prefetch_factor requires num_workers > 0'')
                  else Return (Some i)
      | _ \<Rightarrow> Raise (ValueError prefetch_message))"

definition resolve_workers :: "int \<Rightarrow> string option \<Rightarrow> LoaderOptions \<Rightarrow> int \<Rightarrow> ResolvedWorkers exn" where
  "resolve_workers cpus configured opts world =
     bindE (resolve_worker_counts cpus configured (mode_of (opt_num_workers opts))
              (mode_of (opt_native_num_workers opts)) world) (\<lambda>cs.
     if processes cs = 0 \<and> timeout_nonzero (opt_timeout opts)
     then Raise (ValueError ''timeout must be zero with num_workers=0'')
     else bindE (resolve_persistence opts (processes cs)) (\<lambda>pers.
          bindE (resolve_prefetch opts (processes cs)) (\<lambda>pre.
          Return \<lparr>counts = cs, persistent = pers, prefetch = pre,
                  mp_ctx = resolve_context opts (processes cs)\<rparr>)))"

definition resolved_seed :: "LoaderOptions \<Rightarrow> int option" where
  "resolved_seed opts = (case opt_seed opts of VInt i \<Rightarrow> Some i | _ \<Rightarrow> None)"

datatype partition_mode = Split | Replicate

definition resolved_partition :: "LoaderOptions \<Rightarrow> partition_mode" where
  "resolved_partition opts =
     (case opt_partition opts of
        VStr s \<Rightarrow> if s = ''replicate'' then Replicate else Split
      | _ \<Rightarrow> if is_true (opt_shuffle opts) then Replicate else Split)"

section \<open>Facts about accepted settings\<close>

lemma require_Return [exn_simps]: "require b msg = Return u \<longleftrightarrow> b"
  by (simp add: require_def)

lemma validate_count_Return [exn_simps]:
  "validate_count v name lo hi = Return u \<longleftrightarrow> v = VStr ''auto'' \<or> (\<exists>i. v = VInt i \<and> lo \<le> i \<and> i \<le> hi)"
  by (auto simp: validate_count_def Let_def split: pyval.splits)

lemma is_bool_iff: "is_bool v \<longleftrightarrow> (\<exists>b. v = VBool b)"
  by (cases v) simp_all

text \<open>What acceptance by \<open>post_init\<close> means, setting by setting.\<close>

lemma post_init_accepts:
  assumes "post_init start_methods opts = Return u"
  shows "opt_num_workers opts = VStr ''auto'' \<or> (\<exists>i. opt_num_workers opts = VInt i \<and> 0 \<le> i \<and> i \<le> 2 ^ 32 - 1)"
    and "opt_native_num_workers opts = VStr ''auto'' \<or> (\<exists>i. opt_native_num_workers opts = VInt i \<and> 1 \<le> i \<and> i \<le> sys_maxsize)"
    and "\<exists>b. opt_shuffle opts = VBool b" and "\<exists>b. opt_drop_last opts = VBool b"
    and "\<exists>i. opt_batch_size opts = VInt i \<and> 1 \<le> i \<and> i \<le> sys_maxsize"
    and "opt_samples_per_epoch opts = VNone \<or> (\<exists>i. opt_samples_per_epoch opts = VInt i \<and> 1 \<le> i \<and> i \<le> MAX_SAMPLE_BUDGET)"
    and "opt_prefetch opts = VStr ''auto'' \<or> (\<exists>i. opt_prefetch opts = VInt i \<and> 1 \<le> i \<and> i \<le> sys_maxsize)"
    and "opt_seed opts = VStr ''random'' \<or> (\<exists>i. opt_seed opts = VInt i \<and> opt_shuffle opts = VBool True \<and> 0 \<le> i \<and> i < 2 ^ 64)"
    and "validate_context start_methods opts = Return ()"
proof -
  note facts = assms [unfolded post_init_def, simplified exn_simps]
  from facts show "opt_num_workers opts = VStr ''auto'' \<or> (\<exists>i. opt_num_workers opts = VInt i \<and> 0 \<le> i \<and> i \<le> 2 ^ 32 - 1)"
    by auto
  from facts show "opt_native_num_workers opts = VStr ''auto'' \<or> (\<exists>i. opt_native_num_workers opts = VInt i \<and> 1 \<le> i \<and> i \<le> sys_maxsize)"
    by auto
  from facts show bools: "\<exists>b. opt_shuffle opts = VBool b" "\<exists>b. opt_drop_last opts = VBool b"
    by (auto simp: exn_simps is_bool_iff)
  from facts show "\<exists>i. opt_batch_size opts = VInt i \<and> 1 \<le> i \<and> i \<le> sys_maxsize"
    by (auto split: pyval.splits)
  from facts show "opt_samples_per_epoch opts = VNone \<or> (\<exists>i. opt_samples_per_epoch opts = VInt i \<and> 1 \<le> i \<and> i \<le> MAX_SAMPLE_BUDGET)"
    by (auto split: pyval.splits)
  from facts show "opt_prefetch opts = VStr ''auto'' \<or> (\<exists>i. opt_prefetch opts = VInt i \<and> 1 \<le> i \<and> i \<le> sys_maxsize)"
    by auto
  from facts have "validate_seed opts = Return ()" by auto
  then show "opt_seed opts = VStr ''random'' \<or> (\<exists>i. opt_seed opts = VInt i \<and> opt_shuffle opts = VBool True \<and> 0 \<le> i \<and> i < 2 ^ 64)"
    using bools(1) by (auto simp: validate_seed_def exn_simps split: pyval.splits)
  from facts show "validate_context start_methods opts = Return ()" by auto
qed

lemma resolve_counts_nonneg:
  assumes "post_init start_methods opts = Return u" and "1 \<le> world"
    and "resolve_worker_counts cpus configured (mode_of (opt_num_workers opts)) (mode_of (opt_native_num_workers opts)) world = Return cs"
  shows "0 \<le> processes cs \<and> processes cs \<le> 2 ^ 32 - 1 \<and> 1 \<le> native_threads cs"
proof -
  have procs: "mode_of (opt_num_workers opts) = Auto \<or> (\<exists>i. mode_of (opt_num_workers opts) = Count i \<and> 0 \<le> i \<and> i \<le> 2 ^ 32 - 1)"
    using post_init_accepts(1) [OF assms(1)] by auto
  have threads: "mode_of (opt_native_num_workers opts) = Auto \<or> (\<exists>i. mode_of (opt_native_num_workers opts) = Count i \<and> 1 \<le> i)"
    using post_init_accepts(2) [OF assms(1)] by auto
  show ?thesis using procs threads assms(3)
    by (auto simp: resolve_worker_counts_def exn_simps split: count_mode.splits
        dest!: loading_worker_count_bounds native_worker_count_bounds)
qed

section \<open>Properties\<close>

text \<open>
  C40. For accepted settings, worker lifetime settings agree with the resolved process count: no process
  means no persistence, no prefetching, no multiprocessing context and a zero timeout; with processes
  there is a prefetch factor and a context. Counts are within their ranges.
\<close>

theorem resolve_workers_consistent:
  assumes ok: "post_init start_methods opts = Return u" and "1 \<le> world"
    and res: "resolve_workers cpus configured opts world = Return w"
  shows "0 \<le> processes (counts w) \<and> processes (counts w) \<le> 2 ^ 32 - 1 \<and> 1 \<le> native_threads (counts w) \<and>
    (prefetch w = None \<longleftrightarrow> processes (counts w) = 0) \<and> (mp_ctx w = None \<longleftrightarrow> processes (counts w) = 0) \<and>
    (persistent w \<longrightarrow> 0 < processes (counts w)) \<and>
    (processes (counts w) = 0 \<longrightarrow> \<not> timeout_nonzero (opt_timeout opts))"
proof -
  obtain cs pers pre where w: "resolve_worker_counts cpus configured (mode_of (opt_num_workers opts))
        (mode_of (opt_native_num_workers opts)) world = Return cs"
      "\<not> (processes cs = 0 \<and> timeout_nonzero (opt_timeout opts))"
      "resolve_persistence opts (processes cs) = Return pers" "resolve_prefetch opts (processes cs) = Return pre"
      "w = \<lparr>counts = cs, persistent = pers, prefetch = pre, mp_ctx = resolve_context opts (processes cs)\<rparr>"
    using res by (auto simp: resolve_workers_def exn_simps split: if_splits)
  have bounds: "0 \<le> processes cs \<and> processes cs \<le> 2 ^ 32 - 1 \<and> 1 \<le> native_threads cs"
    using resolve_counts_nonneg [OF ok assms(2) w(1)] .
  have "pers \<Longrightarrow> 0 < processes cs"
    using w(3) bounds by (auto simp: resolve_persistence_def split: pyval.splits if_splits)
  moreover have "pre = None \<longleftrightarrow> processes cs = 0"
    using w(4) bounds by (auto simp: resolve_prefetch_def split: pyval.splits if_splits)
  moreover have "resolve_context opts (processes cs) = None \<longleftrightarrow> processes cs = 0"
    using post_init_accepts(9) [OF ok]
    by (auto simp: resolve_context_def validate_context_def exn_simps split: pyval.splits)
  ultimately show ?thesis using w(2,5) bounds by auto
qed

definition demo_options :: LoaderOptions where
  "demo_options = \<lparr>opt_shuffle = VBool True, opt_seed = VInt 7, opt_samples_per_epoch = VNone,
     opt_partition = VStr ''split'', opt_batch_size = VInt 32, opt_num_workers = VInt 2,
     opt_native_num_workers = VInt 1, opt_drop_last = VBool False, opt_pin_memory = VBool False,
     opt_persistent_workers = VStr ''auto'', opt_timeout = VInt 0, opt_context = VStr ''spawn'',
     opt_prefetch = VStr ''auto'', opt_verbose = VBool True\<rparr>"

lemma demo_options_ok: "post_init [''spawn''] demo_options = Return ()"
  by (simp add: post_init_def demo_options_def validate_count_def require_def Let_def sys_maxsize_def
      validate_seed_def validate_context_def)

theorem resolve_workers_consistent_witness:
  "\<exists>w. resolve_workers 8 None demo_options 1 = Return w \<and> (prefetch w = None \<longleftrightarrow> processes (counts w) = 0)"
proof -
  obtain w where w: "resolve_workers 8 None demo_options 1 = Return w"
    by (simp add: resolve_workers_def resolve_worker_counts_def demo_options_def resolve_persistence_def
        resolve_prefetch_def)
  show ?thesis using resolve_workers_consistent [OF demo_options_ok _ w] w by auto
qed

end
