(* ===== verification/Dataset.thy ===== *)
theory Dataset
  imports Native_Dataset Reconstruction Loader_Options
begin

text \<open>
  \<open>src/dataset_rt/dataset.py\<close>, \<open>metadata.py\<close> and \<open>integrations/torch.py\<close>: the Python view of a native
  dataset. A \<open>CachedDataset\<close> holds the native state and the recipe from which a worker can rebuild it.

  Loading cache directories (\<open>load_caches\<close>) and path resolution are arguments. A Python integer passed
  to a \<open>u64\<close> or \<open>usize\<close> parameter is converted by \<open>to_native\<close>, which raises \<open>OverflowError\<close> outside the
  range. An operation that raises leaves the dataset as it was: the model returns no new state then.
\<close>

section \<open>State\<close>

datatype 'x metadata_source = OriginalMetadata | MetadataSnapshot "'x metadata_row list" "int list option"

record 'x ReaderRecipe =
  recipe_cache_paths :: "path list"
  recipe_reader_config :: ReaderConfig
  recipe_sample_count :: nat
  recipe_metadata :: "'x metadata_source"

record ('a, 'x) CachedDataset =
  ds_cache_paths :: "path list"
  ds_reader_config :: ReaderConfig
  ds_inner :: "('a, 'x) native_dataset"
  ds_recipe :: "'x ReaderRecipe"
  ds_runtime_num_workers :: int

type_synonym ('a, 'x) load_caches = "path list \<Rightarrow> bool \<Rightarrow> nat \<Rightarrow> ('a, 'x) loaded_cache list exn"

definition to_native :: "int \<Rightarrow> nat exn" where
  "to_native i =
     (if 0 \<le> i \<and> i < 2 ^ 64 then Return (nat i) else Raise (OverflowError ''int out of range for an unsigned 64-bit value''))"

text \<open>The native pool, named by its worker count.\<close>

definition native_runtime :: "int \<Rightarrow> nat exn" where
  "native_runtime num_workers =
     bindE (to_native num_workers) (\<lambda>n.
     if n = 0 then Raise (ValueError ''num_workers must be greater than zero'') else Return n)"

section \<open>Construction\<close>

definition ds_load ::
  "('a, 'x) load_caches \<Rightarrow> (path \<Rightarrow> path) \<Rightarrow> nat \<Rightarrow> path list \<Rightarrow> ReaderConfig \<Rightarrow> int \<Rightarrow> ('a, 'x) CachedDataset exn" where
  "ds_load load_caches resolve runtime paths config num_workers =
     bindE (to_native (reader_seed_value config)) (\<lambda>seed.
     bindE (to_native (prefetch_size config)) (\<lambda>prefetch.
     bindE (native_load (load_caches paths (validate_cache config) runtime) runtime seed prefetch
              (reader_shuffle config) (paths = [])) (\<lambda>inner.
     Return \<lparr>ds_cache_paths = paths, ds_reader_config = config, ds_inner = inner,
             ds_recipe = \<lparr>recipe_cache_paths = map resolve paths, recipe_reader_config = config,
                          recipe_sample_count = nd_epoch_len inner, recipe_metadata = OriginalMetadata\<rparr>,
             ds_runtime_num_workers = num_workers\<rparr>)))"

definition ds_len :: "('a, 'x) CachedDataset \<Rightarrow> nat" where
  "ds_len ds = nd_epoch_len (ds_inner ds)"

definition reader_recipe :: "('a, 'x) CachedDataset \<Rightarrow> 'x ReaderRecipe" where
  "reader_recipe ds = ds_recipe ds"

section \<open>Operations\<close>

definition restore_metadata ::
  "rng \<Rightarrow> ('a, 'x) CachedDataset \<Rightarrow> 'x metadata_row list \<Rightarrow> int list option \<Rightarrow> ('a, 'x) CachedDataset exn" where
  "restore_metadata g ds rows selection =
     bindE (native_update_metadata g (ds_inner ds) rows selection) (\<lambda>inner.
     Return (ds\<lparr>ds_inner := inner,
       ds_recipe := (ds_recipe ds)\<lparr>recipe_sample_count := nd_epoch_len inner,
                                    recipe_metadata := MetadataSnapshot rows selection\<rparr>\<rparr>))"

definition update_metadata :: "rng \<Rightarrow> ('a, 'x) CachedDataset \<Rightarrow> 'x metadata_row list \<Rightarrow> ('a, 'x) CachedDataset exn" where
  "update_metadata g ds rows = restore_metadata g ds rows None"

definition set_samples_metadata :: "rng \<Rightarrow> ('a, 'x) CachedDataset \<Rightarrow> 'x metadata_row list \<Rightarrow> ('a, 'x) CachedDataset exn" where
  "set_samples_metadata g ds rows = update_metadata g ds rows"

definition get_metadata :: "('a, 'x) CachedDataset \<Rightarrow> 'x metadata_row list" where
  "get_metadata ds = metadata_rows (ds_inner ds)"

definition samples_metadata :: "('a, 'x) CachedDataset \<Rightarrow> 'x metadata_row list" where
  "samples_metadata ds = get_metadata ds"

definition set_epoch_len :: "('a, 'x) CachedDataset \<Rightarrow> int \<Rightarrow> ('a, 'x) CachedDataset exn" where
  "set_epoch_len ds n =
     (if n < 1 then Raise (ValueError ''epoch_len must be at least 1'')
      else bindE (to_native n) (\<lambda>len.
        bindE (native_set_epoch_len (ds_inner ds) len) (\<lambda>inner.
        Return (ds\<lparr>ds_inner := inner,
          ds_recipe := (ds_recipe ds)\<lparr>recipe_sample_count := nd_epoch_len inner\<rparr>\<rparr>))))"

text \<open>Opening an iterator: the window it yields, and the dataset with advanced cursors.\<close>

definition ds_iter ::
  "rng \<Rightarrow> ('a, 'x) CachedDataset \<Rightarrow> ('a CachedSample exn list \<times> ('a, 'x) CachedDataset) exn" where
  "ds_iter g ds = bindE (open_window g (ds_inner ds)) (\<lambda>(w, inner). Return (w, ds\<lparr>ds_inner := inner\<rparr>))"

definition get_item :: "('a, 'x) CachedDataset \<Rightarrow> pyval \<Rightarrow> pyval \<Rightarrow> 'a CachedSample exn" where
  "get_item ds cid sid =
     (case (cid, sid) of
        (VInt c, VInt s) \<Rightarrow>
          if \<not> (0 \<le> c \<and> c \<le> 2 ^ 64 - 1) then Raise (IndexError (''cache_id '' @ str_int c @ '' is out of range''))
          else if \<not> (0 \<le> s \<and> s \<le> 2 ^ 64 - 1) then Raise (IndexError (''sample_id '' @ str_int s @ '' is out of range''))
          else native_get_item (ds_inner ds) (nat c) (nat s)
      | _ \<Rightarrow> Raise (TypeError ''cache_id and sample_id must be integers''))"

definition from_configuration ::
  "('a, 'x) load_caches \<Rightarrow> (path \<Rightarrow> path) \<Rightarrow> rng \<Rightarrow> DatasetConfiguration \<Rightarrow> 'x metadata_row list \<Rightarrow> int list option \<Rightarrow>
   ('a, 'x) CachedDataset exn" where
  "from_configuration load_caches resolve g config metadata selection =
     bindE (native_runtime (cfg_num_workers config)) (\<lambda>runtime.
     bindE (ds_load load_caches resolve runtime (cfg_cache_paths config) (cfg_reader_config config) (cfg_num_workers config)) (\<lambda>ds.
     bindE (restore_metadata g ds metadata selection) (\<lambda>ds'.
     set_epoch_len ds' (cfg_epoch_len config))))"

definition export_of :: "('a, 'x) CachedDataset \<Rightarrow> 'x metadata_row export_source" where
  "export_of ds = \<lparr>exp_rows = metadata_rows (ds_inner ds), exp_cache_paths = recipe_cache_paths (ds_recipe ds),
     exp_reader_config = recipe_reader_config (ds_recipe ds), exp_num_workers = ds_runtime_num_workers ds,
     exp_epoch_len = int (ds_len ds)\<rparr>"

definition dump_config ::
  "(DatasetConfiguration \<Rightarrow> string) \<Rightarrow> (path \<Rightarrow> path) \<Rightarrow> (nat \<Rightarrow> 'x metadata_row fault) \<Rightarrow> 'x metadata_row fs \<Rightarrow>
   ('a, 'x) CachedDataset \<Rightarrow> path \<Rightarrow> 'x metadata_row fs list \<times> path exn" where
  "dump_config dump_json resolve faults fs ds p = dump_configuration dump_json resolve faults fs (export_of ds) p"

definition from_config ::
  "(string \<Rightarrow> DatasetConfiguration exn) \<Rightarrow> ('a, 'x) load_caches \<Rightarrow> (path \<Rightarrow> path) \<Rightarrow> rng \<Rightarrow> 'x metadata_row fs \<Rightarrow> path \<Rightarrow>
   ('a, 'x) CachedDataset exn" where
  "from_config parse_json load_caches resolve g fs p =
     bindE (load_configuration parse_json fs p) (\<lambda>config.
     bindE (load_metadata fs p config) (\<lambda>rows.
     from_configuration load_caches resolve g config rows None))"

section \<open>Manifest migration\<close>

datatype update_status = Updated | Unchanged | DurabilityUnknown

record ManifestUpdateEntry =
  entry_path :: path
  entry_cache_id :: nat
  entry_status :: update_status

datatype manifest_target = ManifestPath path | AbsentManifestTarget string

record ManifestUpdateError =
  error_path :: manifest_target
  error_message :: string
  error_entries :: "ManifestUpdateEntry list"

type_synonym native_migration = "bool \<times> (string \<times> nat \<times> string) list \<times> string option \<times> string"

fun update_entry :: "string \<times> nat \<times> string \<Rightarrow> ManifestUpdateEntry exn" where
  "update_entry (p, cid, status) =
     (if status = ''updated'' then Return \<lparr>entry_path = path_of p, entry_cache_id = cid, entry_status = Updated\<rparr>
      else if status = ''unchanged'' then Return \<lparr>entry_path = path_of p, entry_cache_id = cid, entry_status = Unchanged\<rparr>
      else if status = ''durability_unknown''
      then Return \<lparr>entry_path = path_of p, entry_cache_id = cid, entry_status = DurabilityUnknown\<rparr>
      else Raise (ValueError (''invalid native manifest update status: '' @ status)))"

text \<open>\<open>native v\<close> is the outcome of the native migration to version \<open>v\<close>, which may raise (an interrupt).\<close>

definition update_manifests ::
  "(int \<Rightarrow> native_migration exn) \<Rightarrow> pyval \<Rightarrow> (ManifestUpdateEntry list, ManifestUpdateError) Result exn" where
  "update_manifests native version =
     (if version \<noteq> VInt 3
      then Return (Err \<lparr>error_path = AbsentManifestTarget ''unsupported migration request'',
             error_message = ''unsupported manifest migration target; expected integer 3'', error_entries = []\<rparr>)
      else bindE (native 3) (\<lambda>(success, records, failed_path, message).
        bindE (mapE update_entry records) (\<lambda>entries.
        if success then Return (Ok entries)
        else Return (Err \<lparr>error_path = (case failed_path of Some p \<Rightarrow> ManifestPath (path_of p)
                                   | None \<Rightarrow> AbsentManifestTarget ''request has no filesystem target''),
               error_message = message, error_entries = entries\<rparr>))))"

section \<open>Slicing metadata snapshots\<close>

definition slice :: "'b list \<Rightarrow> int \<Rightarrow> int \<Rightarrow> 'b list" where
  "slice xs offset len = take (nat len) (drop (nat offset) xs)"

definition slice_metadata ::
  "'x metadata_row list \<times> int list option \<Rightarrow> RowSpan \<Rightarrow> ('x metadata_row list \<times> int list option) exn" where
  "slice_metadata snapshot sp =
     (case snapshot of (table, selection) \<Rightarrow>
       let rows = (case selection of None \<Rightarrow> int (length table) | Some sel \<Rightarrow> int (length sel)) in
       if span_offset sp < 0 \<or> span_length sp < 0 \<or> span_offset sp + span_length sp > rows
       then Raise (ValueError ''metadata span is outside the active table'')
       else case selection of
         Some sel \<Rightarrow> Return (table, Some (slice sel (span_offset sp) (span_length sp)))
       | None \<Rightarrow> Return (slice table (span_offset sp) (span_length sp), None))"

section \<open>The single-process PyTorch view\<close>

definition to_torch_iterable_dataset :: "bool \<Rightarrow> unit exn" where
  "to_torch_iterable_dataset torch_installed =
     (if torch_installed then Return ()
      else Raise (ImportError ''CachedDataset.to_torch_iterable_dataset requires PyTorch to be installed''))"

definition torch_iter ::
  "rng \<Rightarrow> bool \<Rightarrow> ('a, 'x) CachedDataset \<Rightarrow> ('a CachedSample exn list \<times> ('a, 'x) CachedDataset) exn" where
  "torch_iter g in_worker ds =
     (if in_worker then Raise (RuntimeError (''Use Dataloader with num workers = 0. '' @
        ''Use DatasetRuntime(num_workers=N) for parallel cache reads.''))
      else ds_iter g ds)"

section \<open>The recipe follows the native state\<close>

text \<open>The native state is the one its recipe builds: reader settings, caches and accepted rows agree.\<close>

definition built_from_recipe :: "rng \<Rightarrow> ('a, 'x) CachedDataset \<Rightarrow> bool" where
  "built_from_recipe g ds \<longleftrightarrow>
     (let inner = ds_inner ds; cfg = recipe_reader_config (ds_recipe ds) in
      to_native (reader_seed_value cfg) = Return (nd_seed inner) \<and>
      to_native (prefetch_size cfg) = Return (nd_prefetch inner) \<and> 0 < nd_prefetch inner \<and>
      nd_shuffle inner = reader_shuffle cfg \<and> recipe_cache_paths (ds_recipe ds) \<noteq> [] \<and>
      (\<exists>lookup. cache_lookup (nd_caches inner) = Return lookup) \<and>
      (\<exists>sch. common_schema (nd_caches inner) = Return sch) \<and>
      (\<exists>offs. collect_cache_offsets (nd_caches inner) = Return (offs, nd_total inner)) \<and>
      0 < nd_total inner \<and> nd_total inner < 2 ^ 64 \<and>
      (case nd_active inner of Full \<Rightarrow> True | Table t \<Rightarrow> extract_metadata g inner (table_rows t) = Return t))"

definition coherent :: "rng \<Rightarrow> ('a, 'x) CachedDataset \<Rightarrow> bool" where
  "coherent g ds \<longleftrightarrow>
     built_from_recipe g ds \<and>
     recipe_sample_count (ds_recipe ds) = nd_epoch_len (ds_inner ds) \<and> ready g (ds_inner ds) \<and>
     nd_sequential_offset (ds_inner ds) < active_len (ds_inner ds) \<and>
     (case recipe_metadata (ds_recipe ds) of
        OriginalMetadata \<Rightarrow> nd_active (ds_inner ds) = Full
      | MetadataSnapshot rows selection \<Rightarrow>
          nd_active (ds_inner ds) \<noteq> Full \<and> select_rows rows selection = Return (metadata_rows (ds_inner ds)))"

text \<open>What a caller can do with a dataset. Reading a sample by identity changes nothing.\<close>

inductive ds_step :: "rng \<Rightarrow> ('a, 'x) CachedDataset \<Rightarrow> ('a, 'x) CachedDataset \<Rightarrow> bool" for g where
  resize: "set_epoch_len ds n = Return ds' \<Longrightarrow> ds_step g ds ds'"
| restore: "restore_metadata g ds rows selection = Return ds' \<Longrightarrow> ds_step g ds ds'"
| iterate: "ds_iter g ds = Return (w, ds') \<Longrightarrow> ds_step g ds ds'"

inductive_cases ds_stepE: "ds_step g ds ds'"

lemma set_epoch_len_Return [exn_simps]:
  "set_epoch_len ds n = Return ds' \<longleftrightarrow> 1 \<le> n \<and> n < 2 ^ 64 \<and>
     ds' = ds\<lparr>ds_inner := (ds_inner ds)\<lparr>nd_epoch_len := nat n\<rparr>,
              ds_recipe := (ds_recipe ds)\<lparr>recipe_sample_count := nat n\<rparr>\<rparr>"
  by (auto simp: set_epoch_len_def to_native_def native_set_epoch_len_def new_epoch_len_def exn_simps)

lemma extract_metadata_facts:
  assumes "extract_metadata g nd rows = Return t"
  shows "length (physical_indices t) = length rows" "weights t = map row_weight rows" "table_rows t = rows" "rows \<noteq> []"
    "accept_weights g (weights t)"
  using assms by (auto simp: extract_metadata_def exn_simps dest: mapE_length split: if_splits)

lemma native_update_Return:
  assumes "native_update_metadata g nd rows selection = Return nd'"
  obtains active t where "select_rows rows selection = Return active" "extract_metadata g nd active = Return t"
    "nd' = nd\<lparr>nd_active := Table t, nd_epoch_len := length active, nd_sequential_offset := 0, nd_draw_offset := 0\<rparr>"
    "length (physical_indices t) = length active" "weights t = map row_weight active" "table_rows t = active"
    "0 < length active" "accept_weights g (weights t)"
proof -
  obtain active t where a: "select_rows rows selection = Return active" "extract_metadata g nd active = Return t"
      "replace_active nd t = Return nd'"
    using assms by (auto simp: native_update_metadata_def exn_simps)
  then have t: "length (physical_indices t) = length active" "weights t = map row_weight active" "table_rows t = active"
      "0 < length active" "accept_weights g (weights t)"
    using extract_metadata_facts [OF a(2)] by simp_all
  moreover have "nd' = nd\<lparr>nd_active := Table t, nd_epoch_len := length active, nd_sequential_offset := 0, nd_draw_offset := 0\<rparr>"
    using a(3) t by (auto simp: replace_active_def new_epoch_len_def exn_simps split: if_splits)
  ultimately show ?thesis using that a by blast
qed

lemma restore_metadata_Return:
  assumes "restore_metadata g ds rows selection = Return ds'"
  obtains active t where "select_rows rows selection = Return active" "extract_metadata g (ds_inner ds) active = Return t"
    "length (physical_indices t) = length active" "weights t = map row_weight active" "table_rows t = active"
    "0 < length active"
    "ds_inner ds' = (ds_inner ds)\<lparr>nd_active := Table t, nd_epoch_len := length active, nd_sequential_offset := 0, nd_draw_offset := 0\<rparr>"
proof -
  obtain inner where inner: "native_update_metadata g (ds_inner ds) rows selection = Return inner" "ds_inner ds' = inner"
    using assms by (auto simp: restore_metadata_def exn_simps)
  from inner(1) show ?thesis
    by (rule native_update_Return) (rule that, simp_all add: inner(2))
qed

lemma open_window_frame:
  assumes "open_window g nd = Return (w, nd')"
  shows "same_source nd nd'" and "nd_sequential_offset nd < active_len nd \<Longrightarrow> nd_sequential_offset nd' < active_len nd"
proof -
  obtain plan where e: "epoch_plan g nd = Return (plan, nd')"
    using assms by (auto simp: open_window_def exn_simps)
  then show "same_source nd nd'"
    by (auto simp: epoch_plan_def exn_simps same_source_def split: if_splits)
  assume off: "nd_sequential_offset nd < active_len nd"
  then show "nd_sequential_offset nd' < active_len nd"
    using e by (auto simp: epoch_plan_def exn_simps advance_cyclic_offset_mod split: if_splits)
qed

lemma extract_metadata_cong: "nd_caches nd' = nd_caches nd \<Longrightarrow> extract_metadata g nd' = extract_metadata g nd"
  by (simp add: extract_metadata_def fun_eq_iff)

lemma built_from_recipe_cong:
  assumes "built_from_recipe g ds" and "nd_caches nd = nd_caches (ds_inner ds)" "nd_total nd = nd_total (ds_inner ds)"
    "nd_seed nd = nd_seed (ds_inner ds)" "nd_prefetch nd = nd_prefetch (ds_inner ds)" "nd_shuffle nd = nd_shuffle (ds_inner ds)"
    and "nd_active nd = nd_active (ds_inner ds) \<or> (\<exists>t. nd_active nd = Table t \<and> extract_metadata g nd (table_rows t) = Return t)"
    and "recipe_reader_config r = recipe_reader_config (ds_recipe ds)" "recipe_cache_paths r = recipe_cache_paths (ds_recipe ds)"
  shows "built_from_recipe g (ds\<lparr>ds_inner := nd, ds_recipe := r\<rparr>)"
  using assms extract_metadata_cong [OF assms(2), of g]
  by (auto simp: built_from_recipe_def Let_def split: ActiveMetadata.splits)

lemma coherent_resize:
  assumes "coherent g ds" and "set_epoch_len ds n = Return ds'"
  shows "coherent g ds'"
proof -
  have "built_from_recipe g ds'"
    using assms built_from_recipe_cong [of g ds] by (auto simp: coherent_def set_epoch_len_Return)
  then show ?thesis
    using assms by (auto simp: coherent_def set_epoch_len_Return ready_def active_len_def metadata_rows_def original_rows_def
      split: metadata_source.splits ActiveMetadata.splits)
qed

lemma coherent_restore:
  assumes "coherent g ds" and "restore_metadata g ds rows selection = Return ds'"
  shows "coherent g ds'"
proof -
  obtain inner where inner: "native_update_metadata g (ds_inner ds) rows selection = Return inner"
      "ds' = ds\<lparr>ds_inner := inner, ds_recipe := (ds_recipe ds)\<lparr>recipe_sample_count := nd_epoch_len inner,
        recipe_metadata := MetadataSnapshot rows selection\<rparr>\<rparr>"
    using assms(2) by (auto simp: restore_metadata_def exn_simps)
  from inner(1) show ?thesis
  proof (rule native_update_Return)
    fix active t
    assume t: "select_rows rows selection = Return active" "extract_metadata g (ds_inner ds) active = Return t"
      "inner = (ds_inner ds)\<lparr>nd_active := Table t, nd_epoch_len := length active, nd_sequential_offset := 0, nd_draw_offset := 0\<rparr>"
      "length (physical_indices t) = length active" "weights t = map row_weight active" "table_rows t = active"
      "0 < length active" "accept_weights g (weights t)"
    have "extract_metadata g inner active = Return t"
      using t(2) extract_metadata_cong [of inner "ds_inner ds" g] t(3) by simp
    then have "built_from_recipe g ds'"
      unfolding inner(2) using assms(1) t by (intro built_from_recipe_cong) (auto simp: coherent_def)
    then show "coherent g ds'" using t by (auto simp: inner(2) coherent_def ready_def active_len_def metadata_rows_def)
  qed
qed

lemma coherent_iterate:
  assumes "coherent g ds" "ds_iter g ds = Return (w, ds')"
  shows "coherent g ds'"
proof -
  obtain inner where inner: "open_window g (ds_inner ds) = Return (w, inner)" "ds' = ds\<lparr>ds_inner := inner\<rparr>"
    using assms(2) by (auto simp: ds_iter_def exn_simps)
  note frame = open_window_frame [OF inner(1)]
  note fields = same_source_fields [OF frame(1)]
  have "nd_prefetch inner = nd_prefetch (ds_inner ds)" using frame(1) by (metis (no_types, lifting) same_source_def
        native_dataset.select_convs(4) native_dataset.surjective native_dataset.update_convs(9,10))
  then have "built_from_recipe g ds'"
    using assms(1) fields inner(2) built_from_recipe_cong [of g ds inner "ds_recipe ds"] by (simp add: coherent_def)
  moreover have "metadata_rows inner = metadata_rows (ds_inner ds)" "ready g inner = ready g (ds_inner ds)"
    using fields by (simp_all add: metadata_rows_def original_rows_def ready_def split: ActiveMetadata.split)
  ultimately show ?thesis using assms(1) frame fields inner(2)
    by (simp add: coherent_def split: metadata_source.splits)
qed

lemma offsets_from_bound: "offsets_from base caches = Return (offs, n) \<Longrightarrow> base < 2 ^ 64 \<Longrightarrow> n < 2 ^ 64"
  by (induction caches arbitrary: base offs) (auto simp: exn_simps split: if_splits)

lemma coherent_load:
  assumes "ds_load load_caches resolve runtime paths config n = Return ds"
  shows "coherent g ds"
  using assms offsets_from_bound [of 0]
  by (auto simp: ds_load_def native_load_def exn_simps coherent_def ready_def active_len_def built_from_recipe_def
      collect_cache_offsets_def split: if_splits)

section \<open>Rows and the samples they name\<close>

lemma physical_index_reads:
  assumes "collect_cache_offsets caches = Return (offs, n)" and "physical_index caches offs lookup cid sid = Return p"
  shows "load_planned_sample caches offs p = load_sample_by_identity caches lookup cid sid"
proof -
  obtain c where c: "lookup cid = Some c" "c < length caches" "sid < cache_count (caches ! c)" "p = offs ! c + sid"
    using assms(2) by (auto simp: physical_index_def split: option.splits if_splits)
  have "offs ! c = first_index caches c"
    using offsets_from_values(1) [of 0 caches offs n] assms(1) c(2) by (simp add: collect_cache_offsets_def)
  then have "locate_physical_sample caches offs p = Return (c, sid)" using locate_eq [OF assms(1) c(2,3)] c(4) by simp
  then show ?thesis using c by (simp add: load_planned_sample_def load_sample_by_identity_def)
qed

lemma extracted_row_reads:
  assumes "extract_metadata g nd rows = Return t" and "k < length rows" and "nd_caches nd' = nd_caches nd"
  shows "load_index nd' (Some (physical_indices t ! k)) = native_get_item nd' (row_cache_id (rows ! k)) (row_sample_id (rows ! k))"
proof -
  obtain lookup offs n where l: "cache_lookup (nd_caches nd) = Return lookup"
      "collect_cache_offsets (nd_caches nd) = Return (offs, n)"
      "mapE (\<lambda>r. physical_index (nd_caches nd) offs lookup (row_cache_id r) (row_sample_id r)) rows = Return (physical_indices t)"
    using assms(1) by (auto simp: extract_metadata_def exn_simps split: if_splits)
  then show ?thesis
    using physical_index_reads [OF l(2)] mapE_nth [OF l(3) assms(2)] assms(3)
    by (simp add: load_index_def native_get_item_def)
qed

text \<open>The rows of the unmodified table name the physical samples in their order.\<close>

lemma concat_first_index:
  "m \<le> length caches \<Longrightarrow>
   concat (map (\<lambda>c. map (\<lambda>i. first_index caches c + i) [0..<cache_count (caches ! c)]) [0..<m]) = [0..<first_index caches m]"
proof (induction m)
  case (Suc m)
  have "map (\<lambda>i. first_index caches m + i) [0..<cache_count (caches ! m)] =
      [first_index caches m..<first_index caches m + cache_count (caches ! m)]"
    using map_add_upt [of "first_index caches m" "cache_count (caches ! m)"] by (simp add: add.commute)
  with Suc show ?case by (simp add: first_index_Suc upt_join)
qed simp

lemma map_by_index: "map F xs = map (\<lambda>c. F (xs ! c)) [0..<length xs]"
  by (rule nth_equalityI) simp_all

lemma original_rows_positions:
  "original_rows nd = concat (map (\<lambda>c. map (\<lambda>i. \<lparr>row_cache_id = cache_id (nd_caches nd ! c), row_sample_id = i,
     row_weight = 1, row_columns = cache_columns (nd_caches nd ! c) i\<rparr>) [0..<cache_count (nd_caches nd ! c)])
     [0..<length (nd_caches nd)])"
  unfolding original_rows_def by (subst map_by_index) (rule refl)

lemma original_physical_indices:
  assumes "cache_lookup (nd_caches nd) = Return lookup" and "collect_cache_offsets (nd_caches nd) = Return (offs, n)"
    and "n < 2 ^ 64"
  shows "mapE (\<lambda>r. physical_index (nd_caches nd) offs lookup (row_cache_id r) (row_sample_id r)) (original_rows nd) = Return [0..<n]"
proof -
  let ?cs = "nd_caches nd"
  have offs: "offs = map (first_index ?cs) [0..<length ?cs]" and n: "n = first_index ?cs (length ?cs)"
    using offsets_from_values [of 0 ?cs offs n] assms(2) by (simp_all add: collect_cache_offsets_def)
  have lookup: "lookup (cache_id (?cs ! c)) = Some c" if "c < length ?cs" for c
    using lookup_from_position [of 0 "\<lambda>k. None" ?cs lookup] assms(1) that by (simp add: cache_lookup_def)
  let ?h = "\<lambda>r. first_index ?cs (the (lookup (row_cache_id r))) + row_sample_id r"
  have "mapE (\<lambda>r. physical_index ?cs offs lookup (row_cache_id r) (row_sample_id r)) (original_rows nd) =
      Return (map ?h (original_rows nd))"
  proof (rule mapE_Return)
    fix r assume "r \<in> set (original_rows nd)"
    then obtain c i where c: "c < length ?cs" "i < cache_count (?cs ! c)" "row_cache_id r = cache_id (?cs ! c)" "row_sample_id r = i"
      by (auto simp: original_rows_positions)
    have "first_index ?cs c + i < n"
      using first_index_mono [of "Suc c" "length ?cs" ?cs] first_index_Suc [OF c(1)] c(1,2) n by simp
    then show "physical_index ?cs offs lookup (row_cache_id r) (row_sample_id r) = Return (?h r)"
      using c lookup offs assms(3) by (simp add: physical_index_def)
  qed
  moreover have "map ?h (original_rows nd) = [0..<n]"
  proof -
    have "map ?h (original_rows nd) = concat (map (\<lambda>c. map (\<lambda>i. first_index ?cs c + i) [0..<cache_count (?cs ! c)]) [0..<length ?cs])"
      unfolding original_rows_positions map_concat map_map
      by (rule arg_cong [where f = concat], rule map_cong [OF refl]) (simp add: lookup)
    then show ?thesis using concat_first_index [of "length ?cs" ?cs] n by simp
  qed
  ultimately show ?thesis by simp
qed

section \<open>Epochs\<close>

text \<open>The stream position at which the next iterator begins.\<close>

definition stream_position :: "('a, 'x) native_dataset \<Rightarrow> nat" where
  "stream_position nd = (if nd_shuffle nd then nd_draw_offset nd else nd_sequential_offset nd)"

fun read_epochs ::
  "rng \<Rightarrow> ('a, 'x) CachedDataset \<Rightarrow> int list \<Rightarrow> ('a CachedSample exn list \<times> ('a, 'x) CachedDataset) exn" where
  "read_epochs g ds [] = Return ([], ds)"
| "read_epochs g ds (n # ns) =
     bindE (set_epoch_len ds n) (\<lambda>ds1.
     bindE (ds_iter g ds1) (\<lambda>(w, ds2).
     bindE (read_epochs g ds2 ns) (\<lambda>(ws, ds3). Return (w @ ws, ds3))))"

lemma sample_stream_cong:
  assumes "nd_caches nd = nd_caches nd0" "nd_total nd = nd_total nd0" "nd_seed nd = nd_seed nd0"
    "nd_shuffle nd = nd_shuffle nd0" "nd_active nd = nd_active nd0"
  shows "sample_stream g nd = sample_stream g nd0"
  using assms by (auto simp: sample_stream_def active_pick_def active_len_def active_physical_indices_def load_index_def
      fun_eq_iff split: ActiveMetadata.splits option.splits)

lemma positioned_resize:
  assumes "positioned g nd0 nd p" and "0 < n"
  shows "positioned g (nd0\<lparr>nd_epoch_len := n\<rparr>) (nd\<lparr>nd_epoch_len := n\<rparr>) p"
proof -
  obtain a b where nd: "nd = nd0\<lparr>nd_sequential_offset := a, nd_draw_offset := b\<rparr>"
    using assms(1) unfolding positioned_def same_source_def by blast
  show ?thesis using assms(1,2) unfolding nd
    by (auto simp: positioned_def same_source_def ready_def active_len_def split: ActiveMetadata.splits)
qed

lemma read_epochs_positioned:
  assumes "positioned g nd0 (ds_inner ds) p" and "\<forall>n\<in>set ns. 1 \<le> n \<and> n < 2 ^ 64"
    and "nd_shuffle nd0 \<longrightarrow> p + nat (sum_list ns) < 2 ^ 64"
  shows "\<exists>ds'. read_epochs g ds ns = Return (map (sample_stream g nd0) [p..<p + nat (sum_list ns)], ds')"
  using assms
proof (induction ns arbitrary: nd0 ds p)
  case (Cons n ns)
  let ?nd1 = "nd0\<lparr>nd_epoch_len := nat n\<rparr>"
  have n: "1 \<le> n" "n < 2 ^ 64" using Cons.prems(2) by simp_all
  have "\<forall>m\<in>set ns. 0 \<le> m" using Cons.prems(2) by auto
  then have sum: "0 \<le> sum_list ns" by (simp add: sum_list_nonneg)
  then have total: "nat (sum_list (n # ns)) = nat n + nat (sum_list ns)" using n by (simp add: nat_add_distrib)
  obtain ds1 where ds1: "set_epoch_len ds n = Return ds1" "ds_inner ds1 = (ds_inner ds)\<lparr>nd_epoch_len := nat n\<rparr>"
    using n by (auto simp: set_epoch_len_Return)
  have "positioned g ?nd1 (ds_inner ds1) p"
    unfolding ds1(2) using positioned_resize [OF Cons.prems(1)] n by simp
  moreover have "draw_limit ?nd1 (p + nd_epoch_len ?nd1)" using Cons.prems(3) total by (auto simp: draw_limit_def)
  ultimately obtain nd' where w: "open_window g (ds_inner ds1) = Return (map (sample_stream g ?nd1) [p..<p + nat n], nd')"
      "positioned g ?nd1 nd' (p + nat n)" using native.open_at [of g ?nd1] by fastforce
  have stream: "sample_stream g ?nd1 = sample_stream g nd0" by (rule sample_stream_cong) simp_all
  define ds2 where "ds2 = ds1\<lparr>ds_inner := nd'\<rparr>"
  have iter: "ds_iter g ds1 = Return (map (sample_stream g nd0) [p..<p + nat n], ds2)"
    using w(1) stream by (simp add: ds_iter_def ds2_def)
  have "\<exists>ds'. read_epochs g ds2 ns = Return (map (sample_stream g ?nd1) [p + nat n..<p + nat n + nat (sum_list ns)], ds')"
    using Cons.IH [of ?nd1 ds2 "p + nat n"] Cons.prems(2,3) w(2) total by (simp add: ds2_def add.assoc)
  then show ?case using ds1(1) iter total upt_join [of p "p + nat n" "p + nat n + nat (sum_list ns)"]
    by (auto simp: stream add.assoc simp flip: map_append)
qed simp

text \<open>The Python dataset is a window source as well, through its native state.\<close>

interpretation dataset: window_source "ds_iter g" "\<lambda>ds p. positioned g nd0 (ds_inner ds) p" "sample_stream g nd0"
    "nd_epoch_len nd0" "draw_limit nd0" for g nd0
proof
  show "positioned g nd0 (ds_inner ds) p \<Longrightarrow> 0 < nd_epoch_len nd0" for ds p by (rule native.len_pos)
  show "\<exists>ds'. ds_iter g ds = Return (map (sample_stream g nd0) [p..<p + nd_epoch_len nd0], ds') \<and>
      positioned g nd0 (ds_inner ds') (p + nd_epoch_len nd0)"
    if at: "positioned g nd0 (ds_inner ds) p" "draw_limit nd0 (p + nd_epoch_len nd0)" for ds p
  proof -
    obtain nd' where "open_window g (ds_inner ds) = Return (map (sample_stream g nd0) [p..<p + nd_epoch_len nd0], nd')"
        "positioned g nd0 nd' (p + nd_epoch_len nd0)" using native.open_at [OF at] by blast
    then show ?thesis by (intro exI [of _ "ds\<lparr>ds_inner := nd'\<rparr>"]) (simp add: ds_iter_def)
  qed
  show "draw_limit nd0 q \<Longrightarrow> p \<le> q \<Longrightarrow> draw_limit nd0 p" for p q by (rule native.within_mono)
qed

section \<open>Rebuilding a dataset\<close>

text \<open>The table that replaces the unmodified rows selects the same physical samples.\<close>

lemma extract_original:
  assumes "built_from_recipe g ds" and "nd_active (ds_inner ds) = Full" and "nd_caches nd = nd_caches (ds_inner ds)"
    and "accept_weights g (map row_weight (metadata_rows (ds_inner ds)))"
  shows "extract_metadata g nd (metadata_rows (ds_inner ds)) = Return \<lparr>physical_indices = [0..<nd_total (ds_inner ds)],
    weights = map row_weight (metadata_rows (ds_inner ds)), table_rows = metadata_rows (ds_inner ds)\<rparr>"
proof -
  let ?nd = "ds_inner ds"
  obtain lookup offs where l: "cache_lookup (nd_caches ?nd) = Return lookup"
      "collect_cache_offsets (nd_caches ?nd) = Return (offs, nd_total ?nd)" "0 < nd_total ?nd" "nd_total ?nd < 2 ^ 64"
    using assms(1) by (auto simp: built_from_recipe_def Let_def)
  have rows: "metadata_rows ?nd = original_rows ?nd" using assms(2) by (simp add: metadata_rows_def)
  note idx = original_physical_indices [OF l(1,2,4)]
  then have "original_rows ?nd \<noteq> []" using mapE_length [OF idx] l(3) by auto
  then show ?thesis using l idx assms(3,4) by (simp add: extract_metadata_def rows)
qed

lemma rebuilt_stream:
  assumes "built_from_recipe g ds" and "nd_caches nd = nd_caches (ds_inner ds)" "nd_total nd = nd_total (ds_inner ds)"
    "nd_seed nd = nd_seed (ds_inner ds)" "nd_shuffle nd = nd_shuffle (ds_inner ds)" and t: "nd_active nd = Table t"
    "extract_metadata g nd (metadata_rows (ds_inner ds)) = Return t"
    and mode: "\<not> nd_shuffle (ds_inner ds) \<or> nd_active (ds_inner ds) \<noteq> Full"
  shows "sample_stream g nd = sample_stream g (ds_inner ds)"
proof (cases "nd_active (ds_inner ds)")
  case Full
  have "accept_weights g (map row_weight (metadata_rows (ds_inner ds)))"
    using t(2) by (auto simp: extract_metadata_def exn_simps split: if_splits)
  from extract_original [OF assms(1) Full assms(2) this] have idx: "physical_indices t = [0..<nd_total (ds_inner ds)]"
    using t(2) by auto
  have "load_index nd = load_index (ds_inner ds)" using assms(2) by (simp add: load_index_def fun_eq_iff split: option.split)
  moreover have "0 < nd_total (ds_inner ds)" using assms(1) by (simp add: built_from_recipe_def Let_def)
  ultimately show ?thesis using Full mode assms t(1) idx
    by (simp add: sample_stream_def active_pick_def active_len_def active_physical_indices_def index_get_def fun_eq_iff)
next
  case (Table t')
  then have "extract_metadata g (ds_inner ds) (table_rows t') = Return t'"
    using assms(1) by (simp add: built_from_recipe_def Let_def)
  then have "t = t'" using t(2) extract_metadata_cong [OF assms(2), of g] Table by (simp add: metadata_rows_def)
  then show ?thesis using assms t(1) Table by (intro sample_stream_cong) simp_all
qed

text \<open>Constructing from the settings a coherent dataset exports.\<close>

lemma from_configuration_rebuilds:
  assumes ok: "coherent g ds" and runtime: "native_runtime (ds_runtime_num_workers ds) = Return w"
    and reload: "load_caches (map resolve (recipe_cache_paths (ds_recipe ds))) (validate_cache (recipe_reader_config (ds_recipe ds))) w =
      Return (nd_caches (ds_inner ds))"
    and weights: "accept_weights g (map row_weight (get_metadata ds))" and len: "ds_len ds < 2 ^ 64"
  shows "\<exists>ds'. from_configuration load_caches resolve g (export_config resolve (export_of ds)) (get_metadata ds) None = Return ds' \<and>
    get_metadata ds' = get_metadata ds \<and> ds_len ds' = ds_len ds \<and> stream_position (ds_inner ds') = 0 \<and>
    (\<not> nd_shuffle (ds_inner ds) \<or> nd_active (ds_inner ds) \<noteq> Full \<longrightarrow> sample_stream g (ds_inner ds') = sample_stream g (ds_inner ds))"
proof -
  let ?nd = "ds_inner ds" and ?cfg = "recipe_reader_config (ds_recipe ds)" and ?rows = "metadata_rows (ds_inner ds)"
  have b: "built_from_recipe g ds" and epoch: "0 < nd_epoch_len ?nd" using ok by (simp_all add: coherent_def ready_def)
  obtain t where t: "extract_metadata g ?nd ?rows = Return t"
    using b weights extract_original [OF b _ refl]
    by (cases "nd_active ?nd") (auto simp: built_from_recipe_def Let_def get_metadata_def metadata_rows_def)
  have rows: "?rows \<noteq> []" "table_rows t = ?rows" "length (physical_indices t) = length ?rows"
    using t by (auto simp: extract_metadata_def exn_simps dest: mapE_length split: if_splits)
  define nd1 where "nd1 = \<lparr>nd_caches = nd_caches ?nd, nd_total = nd_total ?nd, nd_seed = nd_seed ?nd,
    nd_prefetch = nd_prefetch ?nd, nd_num_workers = w, nd_shuffle = reader_shuffle ?cfg, nd_active = Full,
    nd_epoch_len = nd_total ?nd, nd_sequential_offset = 0, nd_draw_offset = 0\<rparr>"
  obtain ds1 where ds1: "ds_load load_caches resolve w (map resolve (recipe_cache_paths (ds_recipe ds))) ?cfg (ds_runtime_num_workers ds) =
      Return ds1" "ds_inner ds1 = nd1"
    using b reload by (auto simp: ds_load_def native_load_def built_from_recipe_def Let_def nd1_def)
  have caches: "nd_caches nd1 = nd_caches ?nd" by (simp add: nd1_def)
  define nd2 where "nd2 = nd1\<lparr>nd_active := Table t, nd_epoch_len := length ?rows, nd_sequential_offset := 0, nd_draw_offset := 0\<rparr>"
  obtain ds2 where ds2: "restore_metadata g ds1 ?rows None = Return ds2" "ds_inner ds2 = nd2"
  proof -
    have "physical_indices t \<noteq> []" using rows by auto
    then have "native_update_metadata g nd1 ?rows None = Return nd2"
      using t rows(3) extract_metadata_cong [OF caches, of g]
      by (simp add: native_update_metadata_def select_rows_def replace_active_def new_epoch_len_def nd2_def)
    then show ?thesis using that ds1(2) by (simp add: restore_metadata_def)
  qed
  obtain ds3 where ds3: "set_epoch_len ds2 (int (nd_epoch_len ?nd)) = Return ds3" "ds_inner ds3 = nd2\<lparr>nd_epoch_len := nd_epoch_len ?nd\<rparr>"
    using epoch len ds2(2) by (auto simp: set_epoch_len_Return ds_len_def)
  have "from_configuration load_caches resolve g (export_config resolve (export_of ds)) (get_metadata ds) None = Return ds3"
    using runtime ds1(1) ds2(1) ds3(1) by (simp add: from_configuration_def export_config_def export_of_def get_metadata_def ds_len_def)
  moreover have "sample_stream g (ds_inner ds3) = sample_stream g ?nd" if "\<not> nd_shuffle ?nd \<or> nd_active ?nd \<noteq> Full"
    using that b t extract_metadata_cong [of "ds_inner ds3" ?nd g] ds3(2)
    by (intro rebuilt_stream) (auto simp: nd2_def nd1_def built_from_recipe_def Let_def)
  ultimately show ?thesis using ds3(2) rows
    by (auto simp: nd2_def get_metadata_def metadata_rows_def ds_len_def stream_position_def)
qed

section \<open>Slices\<close>

lemma slice_select:
  assumes sel: "select_rows table selection = Return rows"
    and "0 \<le> span_offset sp" "0 \<le> span_length sp" "span_offset sp + span_length sp \<le> int (length rows)"
  shows "bindE (slice_metadata (table, selection) sp) (\<lambda>(t, s). select_rows t s) =
    Return (slice rows (span_offset sp) (span_length sp))"
proof (cases selection)
  case None
  then show ?thesis using assms by (simp add: slice_metadata_def select_rows_def)
next
  case (Some idx)
  then have idx: "list_all (\<lambda>j. 0 \<le> j \<and> j < int (length table)) idx" "rows = map (\<lambda>j. table ! nat j) idx"
    using sel by (auto simp: select_rows_def split: if_splits)
  then have "list_all (\<lambda>j. 0 \<le> j \<and> j < int (length table)) (slice idx (span_offset sp) (span_length sp))"
    by (auto simp: list_all_iff slice_def dest: in_set_takeD in_set_dropD)
  then show ?thesis using Some assms(2-4) idx(2)
    by (simp add: slice_metadata_def select_rows_def slice_def take_map drop_map)
qed

lemma slices_prefix:
  assumes "0 < parts" "int m \<le> parts"
  shows "concat (map (\<lambda>i. slice rows (span_offset (partition_span (int (length rows)) parts i))
      (span_length (partition_span (int (length rows)) parts i))) (range_list (int m))) =
    take (nat (rows.edge (int (length rows)) parts m)) rows"
  using assms(2)
proof (induction m)
  case 0
  then show ?case using assms(1) by (simp add: rows.edge_0)
next
  case (Suc m)
  let ?n = "int (length rows)" and ?e = "\<lambda>k. rows.edge (int (length rows)) parts k"
  have m: "int m < parts" using Suc.prems by simp
  have off: "span_offset (partition_span ?n parts (int m)) = ?e m" using m by (simp add: rows.edge_def)
  have step: "?e (Suc m) = ?e m + span_length (partition_span ?n parts (int m))" using rows.edge_Suc [of ?n m parts] m by simp
  have nonneg: "0 \<le> ?e m" "0 \<le> span_length (partition_span ?n parts (int m))"
    using rows.edge_mono [of ?n 0 m parts] rows.edge_0 [OF assms(1), of ?n] rows.part_length [of ?n "int m" parts] m by simp_all
  have "range_list (int (Suc m)) = range_list (int m) @ [int m]" using range_list_Suc [of "int m"] by (simp add: add.commute)
  then show ?case
    using Suc step off nonneg by (simp add: slice_def nat_add_distrib take_add)
qed

lemma slices_concat:
  assumes "0 < parts"
  shows "concat (map (\<lambda>i. slice rows (span_offset (partition_span (int (length rows)) parts i))
      (span_length (partition_span (int (length rows)) parts i))) (range_list parts)) = rows"
  using slices_prefix [OF assms, of "nat parts" rows] assms by (simp add: rows.edge_def)

section \<open>Properties\<close>

text \<open>
  C23. Whatever sequence of epoch-length changes, metadata updates and iterations a caller performs on a
  loaded dataset, its recipe stays true: the recorded sample count is the native epoch length, the
  recorded metadata are the active rows, the native settings are those of the recipe, the population is
  never empty and the cursor stays inside it.
\<close>

theorem dataset_stays_coherent:
  assumes "ds_load load_caches resolve runtime paths config n = Return ds0" and "(ds_step g)\<^sup>*\<^sup>* ds0 ds"
  shows "coherent g ds \<and> recipe_sample_count (reader_recipe ds) = ds_len ds \<and> 0 < ds_len ds"
proof -
  have "coherent g ds" using assms(2)
  proof (induction rule: rtranclp_induct)
    case base
    show ?case using coherent_load [OF assms(1)] .
  next
    case (step ds1 ds2)
    from step(2) step(3) show ?case
      by (cases rule: ds_step.cases) (auto intro: coherent_resize coherent_restore coherent_iterate)
  qed
  then show ?thesis by (simp add: coherent_def reader_recipe_def ds_len_def ready_def)
qed

definition demo_reader :: "bool \<Rightarrow> ReaderConfig" where
  "demo_reader sh = \<lparr>reader_seed_value = 7, prefetch_size = 64, reader_shuffle = sh, validate_cache = False\<rparr>"

lemma demo_lookup: "cache_lookup demo_caches = Return ((\<lambda>k. None)(40 \<mapsto> 0, 7 \<mapsto> 1, 9 \<mapsto> 2))"
  by (simp add: cache_lookup_def demo_caches_def numeral_2_eq_2)

lemma demo_schema: "common_schema demo_caches = Return []"
  by (simp add: common_schema_def demo_caches_def)

lemma demo_loads_config:
  assumes "0 \<le> reader_seed_value c" "reader_seed_value c < 2 ^ 64" "0 < prefetch_size c" "prefetch_size c < 2 ^ 64"
  shows "\<exists>ds. ds_load (\<lambda>ps v w. Return demo_caches) (\<lambda>p. p) 2 [Path ''/'' [''cache'']] c 2 = Return ds \<and>
     nd_caches (ds_inner ds) = demo_caches \<and> nd_shuffle (ds_inner ds) = reader_shuffle c \<and>
     nd_sequential_offset (ds_inner ds) = 0 \<and> nd_draw_offset (ds_inner ds) = 0"
  using assms by (simp add: ds_load_def to_native_def native_load_def demo_lookup demo_schema demo_offsets)

lemma demo_loads:
  "\<exists>ds. ds_load (\<lambda>ps v w. Return demo_caches) (\<lambda>p. p) 2 [Path ''/'' [''cache'']] (demo_reader sh) 2 = Return ds \<and>
     nd_shuffle (ds_inner ds) = sh \<and> nd_sequential_offset (ds_inner ds) = 0 \<and> nd_draw_offset (ds_inner ds) = 0"
  using demo_loads_config [of "demo_reader sh"] by (auto simp: demo_reader_def)

definition demo_rng :: rng where
  "demo_rng = \<lparr>uniform_draw = (\<lambda>k n. unat k mod n), weighted_draw = (\<lambda>k ws. unat k mod length ws),
     accept_weights = (\<lambda>ws. list_all (\<lambda>w. 0 < w) ws)\<rparr>"

theorem dataset_stays_coherent_witness:
  "\<exists>ds0 ds. ds_load (\<lambda>ps v w. Return demo_caches) (\<lambda>p. p) 2 [Path ''/'' [''cache'']] (demo_reader True) 2 = Return ds0 \<and>
     ds_step demo_rng ds0 ds \<and> recipe_sample_count (reader_recipe ds) = ds_len ds"
proof -
  obtain ds0 where ds0: "ds_load (\<lambda>ps v w. Return demo_caches) (\<lambda>p. p) 2 [Path ''/'' [''cache'']] (demo_reader True) 2 = Return ds0"
    using demo_loads [of True] by blast
  obtain ds where "set_epoch_len ds0 3 = Return ds" by (auto simp: set_epoch_len_Return)
  then have step: "ds_step demo_rng ds0 ds" by (rule ds_step.resize)
  show ?thesis using dataset_stays_coherent [OF ds0 r_into_rtranclp [of "ds_step demo_rng" ds0 ds, OF step]] ds0 step by blast
qed

text \<open>
  C8. Iterators continue where their predecessors stopped, also across changes of the epoch length: the
  epochs of any lengths, read one after the other, are one contiguous piece of the dataset's stream
  starting at its cursor, with no sample skipped or repeated. The only bound is that of the unsigned
  64-bit draw counter in shuffled mode.
\<close>

theorem epochs_are_contiguous:
  assumes ok: "coherent g ds" and "\<forall>n\<in>set ns. 1 \<le> n \<and> n < 2 ^ 64"
    and "nd_shuffle (ds_inner ds) \<longrightarrow> nd_draw_offset (ds_inner ds) + nat (sum_list ns) < 2 ^ 64"
  shows "\<exists>ds'. read_epochs g ds ns = Return (map (sample_stream g (ds_inner ds))
    [stream_position (ds_inner ds)..<stream_position (ds_inner ds) + nat (sum_list ns)], ds')"
proof (rule read_epochs_positioned)
  show "positioned g (ds_inner ds) (ds_inner ds) (stream_position (ds_inner ds))"
    using ok by (simp add: coherent_def positioned_def same_source_def stream_position_def)
qed (use assms in \<open>simp_all add: stream_position_def\<close>)

theorem epochs_are_contiguous_witness:
  "\<exists>ds ds'. ds_load (\<lambda>ps v w. Return demo_caches) (\<lambda>p. p) 2 [Path ''/'' [''cache'']] (demo_reader True) 2 = Return ds \<and>
     read_epochs demo_rng ds [2, 7, 1] = Return (map (sample_stream demo_rng (ds_inner ds)) [0..<10], ds')"
proof -
  obtain ds where ds: "ds_load (\<lambda>ps v w. Return demo_caches) (\<lambda>p. p) 2 [Path ''/'' [''cache'']] (demo_reader True) 2 = Return ds"
      "nd_shuffle (ds_inner ds)" "nd_draw_offset (ds_inner ds) = 0"
    using demo_loads [of True] by blast
  then show ?thesis
    using epochs_are_contiguous [OF coherent_load [OF ds(1)], of "[2, 7, 1]" demo_rng] by (auto simp: stream_position_def)
qed

text \<open>
  After a metadata update, a sequential reader emits the rows of the table exactly in table order,
  duplicates included: the first window has one entry per row, namely the sample the row names, and the
  table can be read back unchanged.
\<close>

theorem updated_rows_in_order:
  assumes ok: "coherent g ds" and "\<not> nd_shuffle (ds_inner ds)" and upd: "update_metadata g ds rows = Return ds'"
  shows "get_metadata ds' = rows \<and> (\<exists>ds''. ds_iter g ds' =
    Return (map (\<lambda>r. native_get_item (ds_inner ds) (row_cache_id r) (row_sample_id r)) rows, ds''))"
proof -
  from upd [unfolded update_metadata_def] obtain active t where sel: "select_rows rows None = Return active"
      and a: "extract_metadata g (ds_inner ds) active = Return t" "length (physical_indices t) = length active" "table_rows t = active"
      "0 < length active"
      "ds_inner ds' = (ds_inner ds)\<lparr>nd_active := Table t, nd_epoch_len := length active, nd_sequential_offset := 0, nd_draw_offset := 0\<rparr>"
    by (rule restore_metadata_Return)
  have "active = rows" using sel by (simp add: select_rows_def)
  note t = a [unfolded this]
  have "coherent g ds'" using coherent_restore [OF ok] upd by (simp add: update_metadata_def)
  then have pos: "positioned g (ds_inner ds') (ds_inner ds') 0"
    using t(5) assms(2) by (simp add: coherent_def positioned_def same_source_def)
  have "draw_limit (ds_inner ds') q" for q using t(5) assms(2) by (simp add: draw_limit_def)
  from native.open_at [OF pos this] obtain nd' where
    "open_window g (ds_inner ds') = Return (map (sample_stream g (ds_inner ds')) [0..<0 + nd_epoch_len (ds_inner ds')], nd')" by blast
  then have w: "open_window g (ds_inner ds') = Return (map (sample_stream g (ds_inner ds')) [0..<length rows], nd')"
    using t(5) by simp
  have "sample_stream g (ds_inner ds') k = native_get_item (ds_inner ds) (row_cache_id (rows ! k)) (row_sample_id (rows ! k))"
    if "k < length rows" for k
    using extracted_row_reads [OF t(1) that, of "ds_inner ds'"] t(2,5) assms(2) that
    by (simp add: sample_stream_def active_pick_def active_len_def active_physical_indices_def index_get_def native_get_item_def)
  then have "map (sample_stream g (ds_inner ds')) [0..<length rows] =
      map (\<lambda>r. native_get_item (ds_inner ds) (row_cache_id r) (row_sample_id r)) rows"
    by (intro nth_equalityI) simp_all
  then show ?thesis using w t(3,5) by (simp add: ds_iter_def get_metadata_def metadata_rows_def)
qed

definition demo_rows :: "string metadata_row list" where
  "demo_rows = [\<lparr>row_cache_id = 9, row_sample_id = 2, row_weight = 1, row_columns = []\<rparr>,
     \<lparr>row_cache_id = 40, row_sample_id = 0, row_weight = 2, row_columns = []\<rparr>,
     \<lparr>row_cache_id = 9, row_sample_id = 2, row_weight = 1, row_columns = []\<rparr>]"

theorem updated_rows_in_order_witness:
  "\<exists>(ds :: (string, string) CachedDataset) ds' ds''. update_metadata demo_rng ds demo_rows = Return ds' \<and> get_metadata ds' = demo_rows \<and>
     ds_iter demo_rng ds' = Return (map (\<lambda>r. native_get_item (ds_inner ds) (row_cache_id r) (row_sample_id r)) demo_rows, ds'')"
proof -
  obtain ds where ds: "ds_load (\<lambda>ps v w. Return demo_caches) (\<lambda>p. p) 2 [Path ''/'' [''cache'']] (demo_reader False) 2 = Return ds"
      "\<not> nd_shuffle (ds_inner ds)" using demo_loads [of False] by blast
  have caches: "nd_caches (ds_inner ds) = demo_caches"
    using ds(1) by (auto simp: ds_load_def native_load_def exn_simps split: if_splits)
  have idx: "physical_index demo_caches [0, 2, 2] ((\<lambda>k. None)(40 \<mapsto> 0, 7 \<mapsto> 1, 9 \<mapsto> 2)) 9 2 = Return 4"
    "physical_index demo_caches [0, 2, 2] ((\<lambda>k. None)(40 \<mapsto> 0, 7 \<mapsto> 1, 9 \<mapsto> 2)) 40 0 = Return 0"
    by (simp_all add: physical_index_def demo_caches_def)
  have "extract_metadata demo_rng (ds_inner ds) demo_rows = Return \<lparr>physical_indices = [4, 0, 4],
      weights = map row_weight demo_rows, table_rows = demo_rows\<rparr>"
    using caches demo_lookup demo_offsets idx by (simp add: extract_metadata_def demo_rows_def demo_rng_def)
  then obtain ds' where upd: "update_metadata demo_rng ds demo_rows = Return ds'"
    by (simp add: update_metadata_def restore_metadata_def native_update_metadata_def select_rows_def replace_active_def
        new_epoch_len_def)
  show ?thesis using updated_rows_in_order [OF coherent_load [OF ds(1)] ds(2) upd] upd by blast
qed


definition demo_rows_fs :: "string metadata_row fs" where
  "demo_rows_fs = (\<lambda>q. if q = Path ''/'' [''cache''] \<or> q = Path ''/'' [''export''] then Some Directory else None)"

lemma demo_rows_ready:
  "is_directory demo_rows_fs (Path ''/'' [''export''])"
  "\<forall>t\<in>set (export_targets (Path ''/'' [''export''])). demo_rows_fs t = None"
  using export_paths_plain
  by (simp_all add: is_directory_def demo_rows_fs_def export_targets_def export_path_defs path_child_plain)

lemma demo_export:
  "\<exists>ds states. ds_load (\<lambda>ps v w. Return demo_caches) (\<lambda>p. p) 2 [Path ''/'' [''cache'']] (demo_reader False) 2 = Return ds \<and>
     nd_caches (ds_inner ds) = demo_caches \<and> \<not> nd_shuffle (ds_inner ds) \<and> ds_len ds = 5 \<and>
     recipe_sample_count (ds_recipe ds) = 5 \<and> ds_runtime_num_workers ds = 2 \<and> length (get_metadata ds) = 5 \<and>
     list_all (\<lambda>r. 0 < row_weight r) (get_metadata ds) \<and>
     dump_config (\<lambda>c. ''json'') (\<lambda>q. q) (\<lambda>i. None) demo_rows_fs ds (Path ''/'' [''export'']) =
       (states, Return (config_target (Path ''/'' [''export''])))"
proof -
  obtain ds where ds: "ds_load (\<lambda>ps v w. Return demo_caches) (\<lambda>p. p) 2 [Path ''/'' [''cache'']] (demo_reader False) 2 = Return ds"
      "\<not> nd_shuffle (ds_inner ds)" using demo_loads [of False] by blast
  have inner: "nd_caches (ds_inner ds) = demo_caches" "nd_active (ds_inner ds) = Full" "nd_epoch_len (ds_inner ds) = 5"
      "ds_recipe ds = \<lparr>recipe_cache_paths = [Path ''/'' [''cache'']], recipe_reader_config = demo_reader False,
         recipe_sample_count = 5, recipe_metadata = OriginalMetadata\<rparr>" "ds_runtime_num_workers ds = 2"
    using ds(1) demo_offsets by (auto simp: ds_load_def native_load_def exn_simps split: if_splits)
  have rows: "length (metadata_rows (ds_inner ds)) = 5" "list_all (\<lambda>r. 0 < row_weight r) (metadata_rows (ds_inner ds))"
    using inner by (auto simp: metadata_rows_def original_rows_def demo_caches_def list_all_iff)
  have cfg: "check_DatasetConfiguration demo_rows_fs (export_config (\<lambda>q. q) (export_of ds)) =
      Return (export_config (\<lambda>q. q) (export_of ds))"
    using inner rows by (simp add: check_DatasetConfiguration_def export_config_def export_of_def ds_len_def is_directory_def
        demo_rows_fs_def check_ReaderConfig_def demo_reader_def)
  obtain states where dump: "dump_config (\<lambda>c. ''json'') (\<lambda>q. q) (\<lambda>i. None) demo_rows_fs ds (Path ''/'' [''export'']) =
      (states, Return (config_target (Path ''/'' [''export''])))"
    using dump_without_faults [OF demo_rows_ready(1) _ cfg, of "\<lambda>i. None" "\<lambda>c. ''json''"] demo_rows_ready(2)
    unfolding dump_config_def by auto
  show ?thesis using ds inner rows dump by (intro exI [of _ ds] exI [of _ states]) (simp add: ds_len_def get_metadata_def)
qed


text \<open>
  Slicing a snapshot by the parts of \<open>partition_rows\<close> loses and repeats nothing: every part can be
  sliced, and the sliced rows, joined in part order, are the rows of the snapshot, whether it is a plain
  table or a selection of one.
\<close>

theorem slices_join:
  assumes sel: "select_rows table selection = Return rows" and "int (length rows) \<le> U64_MAX" and "0 < parts" and "parts \<le> U64_MAX"
  shows "\<exists>slices. mapE (\<lambda>i. bindE (partition_rows (int (length rows)) parts i) (\<lambda>sp.
      bindE (slice_metadata (table, selection) sp) (\<lambda>(t, s). select_rows t s))) (range_list parts) = Return slices \<and>
    concat slices = rows"
proof -
  let ?part = "\<lambda>i. partition_span (int (length rows)) parts i"
  have one: "bindE (partition_rows (int (length rows)) parts i) (\<lambda>sp. bindE (slice_metadata (table, selection) sp)
      (\<lambda>(t, s). select_rows t s)) = Return (slice rows (span_offset (?part i)) (span_length (?part i)))"
    if "0 \<le> i" "i < parts" for i
    using slice_select [OF sel] rows.bounds [of "int (length rows)" i parts] rows.part_length [of "int (length rows)" i parts]
      partition_rows_ok [of "int (length rows)" parts i] that assms(2,4) by simp
  have "mapE (\<lambda>i. bindE (partition_rows (int (length rows)) parts i) (\<lambda>sp. bindE (slice_metadata (table, selection) sp)
      (\<lambda>(t, s). select_rows t s))) (range_list parts) =
      Return (map (\<lambda>i. slice rows (span_offset (?part i)) (span_length (?part i))) (range_list parts))"
    using one by (intro mapE_Return) auto
  moreover have "concat (map (\<lambda>i. slice rows (span_offset (?part i)) (span_length (?part i))) (range_list parts)) = rows"
    by (rule slices_concat [OF assms(3)])
  ultimately show ?thesis by blast
qed

theorem slices_join_witness:
  "\<exists>slices. mapE (\<lambda>i. bindE (partition_rows (int (length [demo_rows ! 2, demo_rows ! 0])) 2 i) (\<lambda>sp.
      bindE (slice_metadata (demo_rows, Some [2, 0]) sp) (\<lambda>(t, s). select_rows t s))) (range_list 2) = Return slices \<and>
    concat slices = [demo_rows ! 2, demo_rows ! 0]"
  by (rule slices_join) (simp_all add: select_rows_def demo_rows_def U64_MAX_def)

end
