(* ===== verification/Runtime.thy ===== *)
theory Runtime
  imports Writing Dataset
begin

text \<open>
  \<open>src/dataset_rt/runtime.py\<close>: the owner of the native worker pool, which writes caches serially or with
  supervised processes and loads what was written.

  The native writer is a parameter: \<open>serial\<close> for the call in this process and \<open>single\<close> for the call a
  child makes for one source. A parallel write that never returned would be \<open>None\<close>.
\<close>

section \<open>Outcome records\<close>

definition cache_write_result :: "string \<times> string \<times> string \<Rightarrow> CacheWriteResult exn" where
  "cache_write_result result =
     (case result of (status, name, detail) \<Rightarrow>
        if status = ''success'' then Return (CacheWriteSuccess name (path_of detail))
        else if status = ''error'' then Return (CacheWriteError name detail)
        else Raise (ValueError (''unknown cache write result status: '' @ status)))"

fun successful_cache_paths :: "CacheWriteResult list \<Rightarrow> path list" where
  "successful_cache_paths [] = []"
| "successful_cache_paths (CacheWriteSuccess name p # rs) = p # successful_cache_paths rs"
| "successful_cache_paths (CacheWriteError name msg # rs) = successful_cache_paths rs"

fun failure_messages :: "CacheWriteResult list \<Rightarrow> string list" where
  "failure_messages [] = []"
| "failure_messages (CacheWriteError name msg # rs) = (name @ '': '' @ msg) # failure_messages rs"
| "failure_messages (CacheWriteSuccess name p # rs) = failure_messages rs"

definition format_cache_sources_dataset_error :: "CacheWriteResult list \<Rightarrow> string" where
  "format_cache_sources_dataset_error results =
     (let messages = failure_messages results in
      if messages = [] then ''no cache sources were provided''
      else ''no caches were written: '' @ join ''; '' messages)"

datatype ('a, 'x) CacheSourcesDatasetResult =
    CacheSourcesDatasetSuccess "('a, 'x) CachedDataset" "CacheWriteResult list"
  | CacheSourcesDatasetError "CacheWriteResult list" string

definition cache_sources_dataset_error :: "CacheWriteResult list \<Rightarrow> ('a, 'x) CacheSourcesDatasetResult" where
  "cache_sources_dataset_error results = CacheSourcesDatasetError results (format_cache_sources_dataset_error results)"

section \<open>The runtime\<close>

record DatasetRuntime =
  rt_num_workers :: int
  rt_inner :: nat

definition new_runtime :: "int \<Rightarrow> DatasetRuntime exn" where
  "new_runtime num_workers = bindE (native_runtime num_workers) (\<lambda>inner. Return \<lparr>rt_num_workers = num_workers, rt_inner = inner\<rparr>)"

text \<open>The exceptions of the serial layers, as the classes the writer distinguishes.\<close>

fun raised_of :: "py_error \<Rightarrow> raised" where
  "raised_of (ValueError m) = \<lparr>exc_class = ValueErrorClass, exc_type = ''ValueError'', exc_text = Some m\<rparr>"
| "raised_of (RuntimeError m) = \<lparr>exc_class = RuntimeErrorClass, exc_type = ''RuntimeError'', exc_text = Some m\<rparr>"
| "raised_of (OSError m) = \<lparr>exc_class = OSErrorClass, exc_type = ''OSError'', exc_text = Some m\<rparr>"
| "raised_of (FileNotFoundError m) = \<lparr>exc_class = OSErrorClass, exc_type = ''FileNotFoundError'', exc_text = Some m\<rparr>"
| "raised_of (FileExistsError m) = \<lparr>exc_class = OSErrorClass, exc_type = ''FileExistsError'', exc_text = Some m\<rparr>"
| "raised_of e = \<lparr>exc_class = OtherException, exc_type = ''Exception'', exc_text = None\<rparr>"

definition raised_exn :: "'b exn \<Rightarrow> raised + 'b" where
  "raised_exn r = (case r of Inl e \<Rightarrow> Inl (raised_of e) | Inr v \<Rightarrow> Inr v)"

record 's native_writer =
  serial :: "nat \<Rightarrow> 's source list \<Rightarrow> path \<Rightarrow> WriterConfig \<Rightarrow> bool \<Rightarrow> raised + (string \<times> string \<times> string) list"
  single :: "int \<Rightarrow> bool \<Rightarrow> path \<Rightarrow> WriterConfig \<Rightarrow> 's native_write"

definition write_sources ::
  "unicode \<Rightarrow> 's native_writer \<Rightarrow> write_env \<Rightarrow> DatasetRuntime \<Rightarrow> 's source list \<Rightarrow> path \<Rightarrow> WriterConfig \<Rightarrow> bool \<Rightarrow>
   (raised + CacheWriteResult list) option" where
  "write_sources u native env rt sources p config reuse =
     (if num_processes config > 0 \<and> \<not> profiler_enabled (profiler config)
      then map_option fst (write_parallel u (single native (rt_num_workers rt) reuse) env sources p config)
      else Some (case serial native (rt_inner rt) sources p config reuse of
          Inl e \<Rightarrow> Inl e
        | Inr records \<Rightarrow> raised_exn (mapE cache_write_result records)))"

definition write_cache ::
  "unicode \<Rightarrow> 's native_writer \<Rightarrow> write_env \<Rightarrow> DatasetRuntime \<Rightarrow> 's source list \<Rightarrow> path \<Rightarrow> WriterConfig \<Rightarrow>
   (raised + CacheWriteResult list) option" where
  "write_cache u native env rt sources p config = write_sources u native env rt sources p config False"

definition cached_dataset ::
  "('a, 'x) load_caches \<Rightarrow> (path \<Rightarrow> path) \<Rightarrow> DatasetRuntime \<Rightarrow> path list \<Rightarrow> ReaderConfig \<Rightarrow> ('a, 'x) CachedDataset exn" where
  "cached_dataset load_caches resolve rt paths reader_config =
     ds_load load_caches resolve (rt_inner rt) paths reader_config (rt_num_workers rt)"

definition from_cache_sources ::
  "('a, 'x) load_caches \<Rightarrow> (path \<Rightarrow> path) \<Rightarrow> unicode \<Rightarrow> 's native_writer \<Rightarrow> write_env \<Rightarrow> DatasetRuntime \<Rightarrow> 's source list \<Rightarrow> path \<Rightarrow>
   ReaderConfig \<Rightarrow> WriterConfig \<Rightarrow> (raised + ('a, 'x) CacheSourcesDatasetResult) option" where
  "from_cache_sources load_caches resolve u native env rt sources p reader_config config =
     (case write_sources u native env rt sources p config True of
        None \<Rightarrow> None
      | Some (Inl e) \<Rightarrow> Some (Inl e)
      | Some (Inr results) \<Rightarrow>
          let cache_paths = successful_cache_paths results in
          if cache_paths = [] then Some (Inr (cache_sources_dataset_error results))
          else Some (case cached_dataset load_caches resolve rt cache_paths reader_config of
              Inl e \<Rightarrow> Inl (raised_of e)
            | Inr ds \<Rightarrow> Inr (CacheSourcesDatasetSuccess ds results)))"

section \<open>Facts\<close>

lemma no_successful_paths: "successful_cache_paths rs = [] \<longleftrightarrow> list_all (\<lambda>r. \<not> is_write_success r) rs"
  by (induction rs rule: successful_cache_paths.induct) auto

lemma failure_messages_all:
  "list_all (\<lambda>r. \<not> is_write_success r) rs \<Longrightarrow> length (failure_messages rs) = length rs"
  by (induction rs rule: failure_messages.induct) auto

lemma successful_cache_paths_set: "q \<in> set (successful_cache_paths rs) \<longleftrightarrow> (\<exists>name. CacheWriteSuccess name q \<in> set rs)"
  by (induction rs rule: successful_cache_paths.induct) auto

lemma successful_path_at:
  "q \<in> set (successful_cache_paths rs) \<Longrightarrow> \<exists>i name. i < length rs \<and> rs ! i = CacheWriteSuccess name q"
  unfolding successful_cache_paths_set by (metis in_set_conv_nth)

lemma accepted_names_set: "name \<in> set (accepted_names jobs) \<longleftrightarrow> (\<exists>source. SourceJob name source \<in> set jobs)"
  by (induction jobs rule: accepted_names.induct) auto

lemma accepted_names_distinct:
  assumes "distinct (map f (accepted_names jobs))" and "i < j" and "j < length jobs"
    and "jobs ! i = SourceJob a s" and "jobs ! j = SourceJob b t"
  shows "a \<noteq> b"
  using assms
proof (induction jobs arbitrary: i j)
  case (Cons job jobs)
  obtain j' where j: "j = Suc j'" using Cons.prems(2) by (cases j) auto
  show ?case
  proof (cases i)
    case 0
    have "SourceJob b t \<in> set jobs" using Cons.prems(3,5) j nth_mem [of j' jobs] by simp
    then have "b \<in> set (accepted_names jobs)" using accepted_names_set by blast
    then show ?thesis using Cons.prems(1,4) 0 by auto
  next
    case (Suc i')
    then show ?thesis using Cons.IH [of i' j'] Cons.prems j by (cases job) auto
  qed
qed simp

lemma distinct_successful_paths:
  assumes "\<And>i j name q name' q'. i < j \<Longrightarrow> j < length rs \<Longrightarrow> rs ! i = CacheWriteSuccess name q \<Longrightarrow> rs ! j = CacheWriteSuccess name' q' \<Longrightarrow> q \<noteq> q'"
  shows "distinct (successful_cache_paths rs)"
  using assms
proof (induction rs)
  case (Cons r rs)
  have IH: "distinct (successful_cache_paths rs)"
  proof (rule Cons.IH)
    fix i j name q name' q'
    assume "i < j" "j < length rs" "rs ! i = CacheWriteSuccess name q" "rs ! j = CacheWriteSuccess name' q'"
    then show "q \<noteq> q'" using Cons.prems [of "Suc i" "Suc j" name q name' q'] by simp
  qed
  show ?case
  proof (cases r)
    case (CacheWriteSuccess name q)
    have "q \<notin> set (successful_cache_paths rs)"
    proof
      assume "q \<in> set (successful_cache_paths rs)"
      then obtain j name' where "j < length rs" "rs ! j = CacheWriteSuccess name' q"
        using successful_path_at by blast
      then show False using Cons.prems [of 0 "Suc j" name q name' q] CacheWriteSuccess by simp
    qed
    then show ?thesis using IH CacheWriteSuccess by simp
  qed (use IH in simp)
qed simp

section \<open>Properties\<close>


text \<open>
  A parallel write never hands the same directory to the reader twice: the successful paths are
  distinct children of the target directory, named after their sources and in the order of the sources.
\<close>

theorem parallel_paths_distinct:
  assumes config: "0 < num_processes config" "\<not> profiler_enabled (profiler config)"
    and run: "write_sources u native env rt sources p config reuse = Some (Inr results)"
    and names: "\<And>n b q c. native_names (single native n b q c)"
    and fold: "casefold u ''.'' = ''.''"
  shows "distinct (successful_cache_paths results) \<and>
    (\<forall>q\<in>set (successful_cache_paths results). \<exists>s\<in>set sources. \<exists>name. src_name s = Inr name \<and> q = path_child p name \<and> plain_segment name)"
proof -
  obtain pool where call: "write_parallel u (single native (rt_num_workers rt) reuse) env sources p config = Some (Inr results, pool)"
    using run config by (auto simp: write_sources_def)
  note facts = ordered_results [OF call names]
  have len: "length results = length sources" using facts by simp
  have job: "preflight_job u i (sources ! i) = SourceJob name (src_body (sources ! i)) \<and> q = path_child p name"
    if "i < length sources" "results ! i = CacheWriteSuccess name q" for i name q using facts that by blast
  have plain: "src_name (sources ! i) = Inr name \<and> plain_segment name"
    if "i < length sources" "results ! i = CacheWriteSuccess name q" for i name q
    using job [OF that] validated_plain(1,2) [OF _ fold] by (auto simp: preflight_job_def split: sum.splits Result.splits)
  have "distinct (successful_cache_paths results)"
  proof (rule distinct_successful_paths)
    fix i j name q name' q'
    assume ij: "i < j" "j < length results" "results ! i = CacheWriteSuccess name q" "results ! j = CacheWriteSuccess name' q'"
    show "q \<noteq> q'"
    proof (cases "preflight u sources")
      case (Err errors)
      then have "results = errors" using call by (simp add: write_parallel_def)
      then show ?thesis using Err preflight_Err [OF Err] ij by auto
    next
      case (Ok jobs)
      then have "first_duplicate u [] (preflight_jobs u sources) = None" by (auto simp: preflight_def Let_def split: option.splits)
      then have "distinct (map (destination_identity u) (accepted_names (preflight_jobs u sources)))" by (simp add: first_duplicate_None)
      from accepted_names_distinct [OF this ij(1)] have "name \<noteq> name'"
        using job [of i name q] job [of j name' q'] ij len by (simp add: nth_preflight_jobs)
      then show ?thesis using job [of i name q] job [of j name' q'] plain [of i name q] plain [of j name' q'] ij len
        by (auto simp: path_child_inject)
    qed
  qed
  moreover have "\<exists>s\<in>set sources. \<exists>name. src_name s = Inr name \<and> q = path_child p name \<and> plain_segment name"
    if member: "q \<in> set (successful_cache_paths results)" for q
  proof -
    obtain i name where i: "i < length sources" "results ! i = CacheWriteSuccess name q"
      using successful_path_at [OF member] len by auto
    then show ?thesis using job [OF i] plain [OF i] nth_mem [OF i(1)] by blast
  qed
  ultimately show ?thesis by blast
qed

section \<open>Witnesses\<close>

definition demo_native_writer :: "unit native_writer" where
  "demo_native_writer = \<lparr>serial = (\<lambda>n sources p config reuse. Inr [(''success'', ''a'', ''/cache''), (''error'', ''b'', ''disk full'')]),
     single = (\<lambda>n reuse. demo_write_cache)\<rparr>"

abbreviation demo_runtime :: DatasetRuntime where
  "demo_runtime \<equiv> \<lparr>rt_num_workers = 2, rt_inner = 2\<rparr>"


theorem parallel_paths_distinct_witness:
  "\<exists>results. write_sources demo_unicode demo_native_writer demo_env demo_runtime demo_sources (Path [] [''out'']) demo_writer_config False =
      Some (Inr results) \<and> length (successful_cache_paths results) = 2 \<and> distinct (successful_cache_paths results)"
proof -
  obtain pool where pool: "write_parallel demo_unicode demo_write_cache demo_env demo_sources (Path [] [''out'']) demo_writer_config =
     Some (Inr [CacheWriteSuccess ''a'' (Path [] [''out'', ''a'']),
                CacheWriteError ''source[1]'' ''CacheSource.name must be a plain path segment'',
                CacheWriteSuccess ''b'' (Path [] [''out'', ''b''])], pool)" using demo_write_parallel by blast
  have config: "0 < num_processes demo_writer_config" "\<not> profiler_enabled (profiler demo_writer_config)"
    by (simp_all add: demo_writer_config_def DEFAULT_WRITER_CONFIG_def DEFAULT_WRITER_PROFILER_CONFIG_def)
  have names: "native_names (single demo_native_writer n b q c)" for n b q c
    by (simp add: native_names_def demo_native_writer_def demo_write_cache_def)
  have fold: "casefold demo_unicode ''.'' = ''.''" by (simp add: demo_unicode_def)
  obtain results where run: "write_sources demo_unicode demo_native_writer demo_env demo_runtime demo_sources (Path [] [''out'']) demo_writer_config False =
      Some (Inr results)" "length (successful_cache_paths results) = 2"
    using pool config by (simp add: write_sources_def demo_native_writer_def)
  from parallel_paths_distinct [OF config run(1) names fold] run show ?thesis by blast
qed

end
