(* ===== verification/Native_Iterator.thy ===== *)
theory Native_Iterator
  imports Native_Dataset "HOL-Library.Multiset"
begin

text \<open>
  The prefetching iterator of \<open>src/src/dataset_rt/runtime.rs\<close> with the bounded channel (\<open>channel.rs\<close>) and the
  worker pool (\<open>worker_pool.rs\<close>) it uses: the window a dataset opens is not read in one piece, reads run ahead
  on pool threads, finish in any order and are put back in the planned order.

  A submitted job is an element of \<open>it_running\<close> until its thread finishes it, at a time and in an order that
  the arguments \<open>pick\<close> and \<open>between\<close> choose; its result is appended to the output channel. \<open>read\<close> is
  \<open>load_planned_sample\<close> on the dataset's caches; a panicking read is an exception of \<open>read\<close>. Waiting forever on
  an empty channel is the value \<open>None\<close> of \<open>await\<close>.
\<close>

section \<open>The iterator\<close>

record 'v RuntimeIterator =
  it_plan :: EpochPlan
  it_running :: "(nat \<times> nat) list"
  it_output :: "(nat \<times> 'v) exn list"
  it_cancelled :: bool
  it_pending :: "nat \<Rightarrow> 'v option"
  it_parallelism :: nat
  it_scheduled :: nat
  it_emitted :: nat
  it_total :: nat

abbreviation worker_failed :: py_error where
  "worker_failed \<equiv> RuntimeError ''native worker failed''"

text \<open>
  \<open>schedule_next\<close>. \<open>submit\<close> says whether the pool accepts the job with this sequence number: its channel is
  closed when the worker threads are gone.
\<close>

definition schedule_next :: "rng \<Rightarrow> (nat \<Rightarrow> bool) \<Rightarrow> 'v RuntimeIterator \<Rightarrow> py_error option \<times> 'v RuntimeIterator" where
  "schedule_next g submit st =
     (case next_physical_index g (it_plan st) (it_scheduled st) of
        (None, plan) \<Rightarrow> (Some worker_failed, st\<lparr>it_plan := plan\<rparr>)
      | (Some i, plan) \<Rightarrow>
          if submit (it_scheduled st)
          then (None, st\<lparr>it_plan := plan, it_running := it_running st @ [(it_scheduled st, i)], it_scheduled := it_scheduled st + 1\<rparr>)
          else (Some worker_failed, st\<lparr>it_plan := plan\<rparr>))"

lemma schedule_next_continues:
  "schedule_next g submit st = (None, st') \<Longrightarrow> it_total st' = it_total st \<and> it_scheduled st' = Suc (it_scheduled st)"
  by (auto simp: schedule_next_def split: prod.splits option.splits if_splits)

function schedule_available :: "rng \<Rightarrow> (nat \<Rightarrow> bool) \<Rightarrow> 'v RuntimeIterator \<Rightarrow> py_error option \<times> 'v RuntimeIterator" where
  "schedule_available g submit st =
     (if it_scheduled st - it_emitted st < it_parallelism st \<and> it_scheduled st < it_total st
      then case schedule_next g submit st of
          (Some e, st') \<Rightarrow> (Some e, st')
        | (None, st') \<Rightarrow> schedule_available g submit st'
      else (None, st))"
  by pat_completeness auto

termination
  by (relation "measure (\<lambda>(g, submit, st). it_total st - it_scheduled st)") (auto dest!: schedule_next_continues [OF sym])

declare schedule_available.simps [simp del]

definition iterator_start :: "rng \<Rightarrow> (nat \<Rightarrow> bool) \<Rightarrow> EpochPlan \<Rightarrow> nat \<Rightarrow> nat \<Rightarrow> 'v RuntimeIterator exn" where
  "iterator_start g submit plan prefetch_size num_workers =
     (let parallelism = min (min num_workers prefetch_size) (plan_len plan) in
      if parallelism = 0 then Raise (ValueError ''channel capacity must be positive'')
      else case schedule_available g submit
          \<lparr>it_plan = plan, it_running = [], it_output = [], it_cancelled = False, it_pending = (\<lambda>k. None),
           it_parallelism = parallelism, it_scheduled = 0, it_emitted = 0, it_total = plan_len plan\<rparr> of
        (Some e, st) \<Rightarrow> Raise e
      | (None, st) \<Rightarrow> Return st)"

text \<open>A pool thread finishes the job at position \<open>k\<close>; a cancelled job reports failure.\<close>

definition complete :: "(nat \<Rightarrow> 'v exn) \<Rightarrow> nat \<Rightarrow> 'v RuntimeIterator \<Rightarrow> 'v RuntimeIterator" where
  "complete read k st =
     (let (sequence, i) = it_running st ! k;
          result = (if it_cancelled st then Raise worker_failed else bindE (read i) (\<lambda>v. Return (sequence, v))) in
      st\<lparr>it_running := take k (it_running st) @ drop (Suc k) (it_running st), it_output := it_output st @ [result]\<rparr>)"

lemma complete_lengths:
  assumes "k < length (it_running st)"
  shows "length (it_running (complete read k st)) = length (it_running st) - 1"
    "length (it_output (complete read k st)) = Suc (length (it_output st))"
  using assms by (auto simp: complete_def Let_def split: prod.splits)

lemma complete_shrinks:
  "it_running st \<noteq> [] \<Longrightarrow> 2 * length (it_running (complete read (k mod length (it_running st)) st)) +
     length (it_output (complete read (k mod length (it_running st)) st)) < 2 * length (it_running st) + length (it_output st)"
  by (cases "it_running st") (simp_all add: complete_lengths)

definition stop :: "'v RuntimeIterator \<Rightarrow> 'v RuntimeIterator" where
  "stop st = st\<lparr>it_emitted := it_total st, it_cancelled := True\<rparr>"

text \<open>The loop of \<open>next\<close>: take what is due, receive, keep what is early.\<close>

function await :: "(nat \<Rightarrow> 'v exn) \<Rightarrow> ((nat \<times> nat) list \<Rightarrow> nat) \<Rightarrow> 'v RuntimeIterator \<Rightarrow> ('v exn \<times> 'v RuntimeIterator) option" where
  "await read pick st =
     (case it_pending st (it_emitted st) of
        Some v \<Rightarrow> Some (Return v, st\<lparr>it_pending := (it_pending st)(it_emitted st := None), it_emitted := it_emitted st + 1\<rparr>)
      | None \<Rightarrow>
          (case it_output st of
             [] \<Rightarrow> if it_running st = [] then None
                   else await read pick (complete read (pick (it_running st) mod length (it_running st)) st)
           | Inl e # rest \<Rightarrow> Some (Raise e, stop (st\<lparr>it_output := rest\<rparr>))
           | Inr (sequence, v) # rest \<Rightarrow>
               let st1 = st\<lparr>it_output := rest\<rparr> in
               if sequence = it_emitted st then Some (Return v, st1\<lparr>it_emitted := it_emitted st + 1\<rparr>)
               else let st2 = st1\<lparr>it_pending := (it_pending st)(sequence \<mapsto> v)\<rparr> in
                 if it_pending st sequence \<noteq> None then Some (Raise worker_failed, stop st2)
                 else await read pick st2))"
  by pat_completeness auto

termination
  by (relation "measure (\<lambda>(read, pick, st). 2 * length (it_running st) + length (it_output st))")
    (use complete_shrinks in fastforce)+

declare await.simps [simp del]

definition next_item ::
  "rng \<Rightarrow> (nat \<Rightarrow> bool) \<Rightarrow> (nat \<Rightarrow> 'v exn) \<Rightarrow> ((nat \<times> nat) list \<Rightarrow> nat) \<Rightarrow> 'v RuntimeIterator \<Rightarrow>
   ('v exn option \<times> 'v RuntimeIterator) option" where
  "next_item g submit read pick st =
     (if it_emitted st \<ge> it_total st then Some (None, st)
      else case schedule_available g submit st of
          (Some e, st') \<Rightarrow> Some (Some (Raise e), stop st')
        | (None, st') \<Rightarrow> map_option (\<lambda>(r, st''). (Some r, st'')) (await read pick st'))"

text \<open>What happens between two calls: threads finish jobs, in the order of \<open>ks\<close>.\<close>

fun progress :: "(nat \<Rightarrow> 'v exn) \<Rightarrow> nat list \<Rightarrow> 'v RuntimeIterator \<Rightarrow> 'v RuntimeIterator" where
  "progress read [] st = st"
| "progress read (k # ks) st =
     (if it_running st = [] then st else progress read ks (complete read (k mod length (it_running st)) st))"

text \<open>\<open>n\<close> calls of \<open>next\<close>; before call \<open>c\<close> the jobs of \<open>between c\<close> finish, during it those that \<open>pick c\<close> chooses.\<close>

fun consume ::
  "rng \<Rightarrow> (nat \<Rightarrow> bool) \<Rightarrow> (nat \<Rightarrow> 'v exn) \<Rightarrow> (nat \<Rightarrow> (nat \<times> nat) list \<Rightarrow> nat) \<Rightarrow> (nat \<Rightarrow> nat list) \<Rightarrow> nat \<Rightarrow> nat \<Rightarrow>
   'v RuntimeIterator \<Rightarrow> ('v exn option list \<times> 'v RuntimeIterator) option" where
  "consume g submit read pick between c 0 st = Some ([], st)"
| "consume g submit read pick between c (Suc n) st =
     (case next_item g submit read (pick c) (progress read (between c) st) of
        None \<Rightarrow> None
      | Some (r, st') \<Rightarrow>
          map_option (\<lambda>(rs, st''). (r # rs, st'')) (consume g submit read pick between (c + 1) n st'))"

text \<open>\<open>DatasetState::start_iterator\<close>: the plan advances the cursors before the reads start.\<close>

definition start_iterator ::
  "rng \<Rightarrow> (nat \<Rightarrow> bool) \<Rightarrow> ('a, 'x) native_dataset \<Rightarrow> 'a CachedSample RuntimeIterator exn \<times> ('a, 'x) native_dataset" where
  "start_iterator g submit nd =
     (case epoch_plan g nd of
        Inl e \<Rightarrow> (Raise e, nd)
      | Inr (plan, nd') \<Rightarrow> (iterator_start g submit plan (nd_prefetch nd) (nd_num_workers nd), nd'))"

definition drop_iterator :: "'v RuntimeIterator \<Rightarrow> 'v RuntimeIterator" where
  "drop_iterator st = st\<lparr>it_cancelled := True\<rparr>"

text \<open>The states of an iterator: calls of \<open>next\<close> and finished reads in any order, and its end.\<close>

inductive iter_reach :: "rng \<Rightarrow> (nat \<Rightarrow> bool) \<Rightarrow> (nat \<Rightarrow> 'v exn) \<Rightarrow> 'v RuntimeIterator \<Rightarrow> bool"
  for g :: rng and submit :: "nat \<Rightarrow> bool" and read :: "nat \<Rightarrow> 'v exn" where
  started: "iterator_start g submit plan prefetch_size num_workers = Return st \<Longrightarrow> iter_reach g submit read st"
| finished: "iter_reach g submit read st \<Longrightarrow> k < length (it_running st) \<Longrightarrow> iter_reach g submit read (complete read k st)"
| called: "iter_reach g submit read st \<Longrightarrow> next_item g submit read pick st = Some (r, st') \<Longrightarrow> iter_reach g submit read st'"
| dropped: "iter_reach g submit read st \<Longrightarrow> iter_reach g submit read (drop_iterator st)"

section \<open>The invariant\<close>

text \<open>
  Every sequence number between what was emitted and what was scheduled is in exactly one place: running,
  in the channel or waiting. \<open>items\<close> are the results of the planned reads, \<open>idx\<close> the planned physical indices.
\<close>

definition tagged :: "(nat \<Rightarrow> 'v exn) \<Rightarrow> nat \<Rightarrow> (nat \<times> 'v) exn" where
  "tagged items j = bindE (items j) (\<lambda>v. Return (j, v))"

definition iter_ok :: "rng \<Rightarrow> (nat \<Rightarrow> nat) \<Rightarrow> (nat \<Rightarrow> 'v exn) \<Rightarrow> nat \<Rightarrow> nat \<Rightarrow> 'v RuntimeIterator \<Rightarrow> bool" where
  "iter_ok g idx items w n st \<longleftrightarrow>
     it_total st = n \<and> it_parallelism st = w \<and> \<not> it_cancelled st \<and>
     it_emitted st \<le> it_scheduled st \<and> it_scheduled st \<le> n \<and> it_scheduled st - it_emitted st \<le> w \<and>
     plan_indices g (it_plan st) (it_scheduled st) (n - it_scheduled st) = map (\<lambda>j. Some (idx j)) [it_scheduled st..<n] \<and>
     (\<forall>p\<in>set (it_running st). snd p = idx (fst p)) \<and>
     finite (dom (it_pending st)) \<and> (\<forall>j v. it_pending st j = Some v \<longrightarrow> items j = Return v) \<and>
     (\<exists>tags. it_output st = map (tagged items) tags \<and>
       mset (map fst (it_running st)) + mset tags + mset_set (dom (it_pending st)) = mset [it_emitted st..<it_scheduled st])"

text \<open>The places hold as many results as were scheduled and not yet emitted, so no sender ever waits.\<close>

lemma iter_ok_sizes:
  assumes "iter_ok g idx items w n st"
  shows "length (it_running st) + length (it_output st) + card (dom (it_pending st)) = it_scheduled st - it_emitted st"
proof -
  obtain tags where tags: "it_output st = map (tagged items) tags"
      "mset (map fst (it_running st)) + mset tags + mset_set (dom (it_pending st)) = mset [it_emitted st..<it_scheduled st]"
    using assms by (auto simp: iter_ok_def)
  from arg_cong [OF tags(2), of size] show ?thesis by (simp add: tags(1) size_mset_set)
qed

lemma mset_remove_nth: "k < length xs \<Longrightarrow> mset xs = add_mset (xs ! k) (mset (take k xs @ drop (Suc k) xs))"
  by (metis id_take_nth_drop mset_append mset.simps(2) union_mset_add_mset_right)

lemma complete_ok:
  assumes ok: "iter_ok g idx items w n st" and k: "k < length (it_running st)"
    and read: "\<And>j. j < n \<Longrightarrow> read (idx j) = items j"
  shows "iter_ok g idx items w n (complete read k st)"
proof -
  let ?rest = "take k (it_running st) @ drop (Suc k) (it_running st)"
  obtain j i where job: "it_running st ! k = (j, i)" by fastforce
  obtain tags where tags: "it_output st = map (tagged items) tags"
      "mset (map fst (it_running st)) + mset tags + mset_set (dom (it_pending st)) = mset [it_emitted st..<it_scheduled st]"
    using ok by (auto simp: iter_ok_def)
  have split: "mset (map fst (it_running st)) = add_mset j (mset (map fst ?rest))"
    using arg_cong [OF mset_remove_nth [OF k], of "image_mset fst"] job by simp
  have "j \<in># mset [it_emitted st..<it_scheduled st]" unfolding tags(2) [symmetric] split by simp
  then have "j < n" using ok by (auto simp: iter_ok_def)
  moreover have "i = idx j" using ok k job nth_mem [OF k] by (auto simp: iter_ok_def)
  ultimately have "it_output (complete read k st) = map (tagged items) (tags @ [j])"
    using ok job tags(1) read by (simp add: complete_def tagged_def iter_ok_def)
  moreover have "mset (map fst ?rest) + mset (tags @ [j]) + mset_set (dom (it_pending st)) = mset [it_emitted st..<it_scheduled st]"
    using tags(2) unfolding split by simp
  moreover have "set ?rest \<subseteq> set (it_running st)" using set_take_subset set_drop_subset by fastforce
  ultimately show ?thesis using ok job unfolding iter_ok_def
    by (intro conjI exI [of _ "tags @ [j]"]) (auto simp: complete_def Let_def)
qed

lemma progress_ok:
  assumes "iter_ok g idx items w n st" and "\<And>j. j < n \<Longrightarrow> read (idx j) = items j"
  shows "iter_ok g idx items w n (progress read ks st)" "it_emitted (progress read ks st) = it_emitted st"
    "it_scheduled (progress read ks st) = it_scheduled st"
proof -
  have "iter_ok g idx items w n (progress read ks st) \<and> it_emitted (progress read ks st) = it_emitted st \<and>
      it_scheduled (progress read ks st) = it_scheduled st"
    using assms(1)
  proof (induction ks arbitrary: st)
    case (Cons k ks)
    show ?case
    proof (cases "it_running st = []")
      case False
      then have "iter_ok g idx items w n (complete read (k mod length (it_running st)) st)"
        using Cons.prems assms(2) by (intro complete_ok) auto
      then show ?thesis using Cons.IH False by (simp add: complete_def Let_def split: prod.splits)
    qed (use Cons.prems in simp)
  qed simp
  then show "iter_ok g idx items w n (progress read ks st)" "it_emitted (progress read ks st) = it_emitted st"
    "it_scheduled (progress read ks st) = it_scheduled st" by auto
qed

lemma schedule_next_ok:
  assumes ok: "iter_ok g idx items w n st" and room: "it_scheduled st - it_emitted st < w" "it_scheduled st < n" and "submit (it_scheduled st)"
  shows "\<exists>st'. schedule_next g submit st = (None, st') \<and> iter_ok g idx items w n st' \<and> it_emitted st' = it_emitted st"
proof -
  let ?s = "it_scheduled st"
  obtain i plan where step: "next_physical_index g (it_plan st) ?s = (i, plan)" by fastforce
  obtain m where m: "n - ?s = Suc m" using room(2) by (cases "n - ?s") auto
  have "plan_indices g (it_plan st) ?s (Suc m) = map (\<lambda>j. Some (idx j)) [?s..<n]" using ok m by (simp add: iter_ok_def)
  then have i: "i = Some (idx ?s)" "plan_indices g plan (Suc ?s) m = map (\<lambda>j. Some (idx j)) [Suc ?s..<n]"
    using step room(2) by (auto simp: upt_conv_Cons simp del: upt_Suc)
  obtain tags where tags: "it_output st = map (tagged items) tags"
      "mset (map fst (it_running st)) + mset tags + mset_set (dom (it_pending st)) = mset [it_emitted st..<?s]"
    using ok by (auto simp: iter_ok_def)
  have m': "m = n - Suc ?s" using m by simp
  have "[it_emitted st..<Suc ?s] = [it_emitted st..<?s] @ [?s]" using ok by (simp add: iter_ok_def)
  then have placed: "mset (map fst (it_running st @ [(?s, idx ?s)])) + mset tags + mset_set (dom (it_pending st)) =
      mset [it_emitted st..<Suc ?s]"
    unfolding mset_append using tags(2) by (simp del: upt_Suc mset_upt)
  let ?st = "st\<lparr>it_plan := plan, it_running := it_running st @ [(?s, idx ?s)], it_scheduled := ?s + 1\<rparr>"
  have "schedule_next g submit st = (None, ?st)" using step i assms(4) by (simp add: schedule_next_def)
  moreover have "iter_ok g idx items w n ?st"
    using ok room i(2) tags(1) placed [unfolded map_append] unfolding iter_ok_def m'
    by (auto simp del: upt_Suc mset_upt intro!: exI [of _ tags])
  ultimately show ?thesis by simp
qed

lemma schedule_available_ok:
  assumes "iter_ok g idx items w n st" and "\<And>k. submit k"
  shows "\<exists>st'. schedule_available g submit st = (None, st') \<and> iter_ok g idx items w n st' \<and> it_emitted st' = it_emitted st \<and>
    (it_scheduled st' - it_emitted st' = w \<or> it_scheduled st' = n)"
  using assms(1)
proof (induction "n - it_scheduled st" arbitrary: st rule: less_induct)
  case less
  show ?case
  proof (cases "it_scheduled st - it_emitted st < w \<and> it_scheduled st < n")
    case True
    obtain st1 where st1: "schedule_next g submit st = (None, st1)" "iter_ok g idx items w n st1" "it_emitted st1 = it_emitted st"
      using schedule_next_ok [OF less.prems] True assms(2) by blast
    have "it_scheduled st1 = Suc (it_scheduled st)" using schedule_next_continues [OF st1(1)] by simp
    with True have "n - it_scheduled st1 < n - it_scheduled st" by linarith
    from less.hyps [OF this st1(2)] show ?thesis
      using st1 True less.prems by (subst schedule_available.simps) (auto simp: iter_ok_def)
  next
    case False
    then have "schedule_available g submit st = (None, st)"
      using less.prems by (subst schedule_available.simps) (auto simp: iter_ok_def)
    then show ?thesis using False less.prems by (auto simp: iter_ok_def)
  qed
qed

section \<open>One call of next\<close>

lemma iter_ok_places:
  assumes "iter_ok g idx items w n st"
  obtains tags where "it_output st = map (tagged items) tags"
    "mset (map fst (it_running st)) + mset tags + mset_set (dom (it_pending st)) = mset [it_emitted st..<it_scheduled st]"
    "set tags \<subseteq> {it_emitted st..<it_scheduled st}"
proof -
  obtain tags where tags: "it_output st = map (tagged items) tags"
      "mset (map fst (it_running st)) + mset tags + mset_set (dom (it_pending st)) = mset [it_emitted st..<it_scheduled st]"
    using assms by (auto simp: iter_ok_def)
  have "set tags \<subseteq> set_mset (mset [it_emitted st..<it_scheduled st])" unfolding tags(2) [symmetric] by auto
  with tags show thesis using that by simp
qed

lemma tagged_cases:
  "tagged items j = Inl e \<Longrightarrow> items j = Raise e" "tagged items j = Inr (k, v) \<Longrightarrow> k = j \<and> items j = Return v"
  by (cases "items j"; simp add: tagged_def)+

text \<open>What is due is waiting: hand it out.\<close>

lemma emit_pending_ok:
  assumes ok: "iter_ok g idx items w n st" and due: "it_emitted st < it_scheduled st" "it_pending st (it_emitted st) = Some v"
  shows "items (it_emitted st) = Return v"
    "iter_ok g idx items w n (st\<lparr>it_pending := (it_pending st)(it_emitted st := None), it_emitted := it_emitted st + 1\<rparr>)"
proof -
  let ?e = "it_emitted st"
  show "items ?e = Return v" using ok due(2) by (simp add: iter_ok_def)
  obtain tags where tags: "it_output st = map (tagged items) tags"
      "mset (map fst (it_running st)) + mset tags + mset_set (dom (it_pending st)) = mset [?e..<it_scheduled st]"
    using iter_ok_places [OF ok] by blast
  have "mset_set (dom (it_pending st)) = add_mset ?e (mset_set (dom (it_pending st) - {?e}))"
    using ok due(2) by (intro mset_set.remove) (auto simp: iter_ok_def)
  then have "mset (map fst (it_running st)) + mset tags + mset_set (dom (it_pending st) - {?e}) = mset [Suc ?e..<it_scheduled st]"
    using tags(2) due(1) by (simp add: upt_conv_Cons del: mset_upt upt_Suc)
  then show "iter_ok g idx items w n (st\<lparr>it_pending := (it_pending st)(?e := None), it_emitted := ?e + 1\<rparr>)"
    using ok due(1) tags(1) unfolding iter_ok_def
    by (auto simp del: upt_Suc mset_upt intro!: exI [of _ tags])
qed

text \<open>What arrives is due: hand it out.\<close>

lemma emit_received_ok:
  assumes ok: "iter_ok g idx items w n st" and due: "it_emitted st < it_scheduled st"
    and out: "it_output st = Inr (it_emitted st, v) # rest"
  shows "items (it_emitted st) = Return v" "iter_ok g idx items w n (st\<lparr>it_output := rest, it_emitted := it_emitted st + 1\<rparr>)"
proof -
  let ?e = "it_emitted st"
  obtain tags where tags: "it_output st = map (tagged items) tags"
      "mset (map fst (it_running st)) + mset tags + mset_set (dom (it_pending st)) = mset [?e..<it_scheduled st]"
    using iter_ok_places [OF ok] by blast
  then obtain tags' where tags': "tags = ?e # tags'" "rest = map (tagged items) tags'" and "items ?e = Return v"
    using out tagged_cases(2) [of items _ ?e v] by (cases tags) fastforce+
  then show "items ?e = Return v" by simp
  have "mset (map fst (it_running st)) + mset tags' + mset_set (dom (it_pending st)) = mset [Suc ?e..<it_scheduled st]"
    using tags(2) tags'(1) due by (simp add: upt_conv_Cons del: mset_upt upt_Suc)
  then show "iter_ok g idx items w n (st\<lparr>it_output := rest, it_emitted := ?e + 1\<rparr>)"
    using ok due tags'(2) unfolding iter_ok_def
    by (auto simp del: upt_Suc mset_upt intro!: exI [of _ tags'])
qed

text \<open>What arrives is early: keep it, its place is free.\<close>

lemma keep_received_ok:
  assumes ok: "iter_ok g idx items w n st" and out: "it_output st = Inr (k, v) # rest"
  shows "it_pending st k = None" "iter_ok g idx items w n (st\<lparr>it_output := rest, it_pending := (it_pending st)(k \<mapsto> v)\<rparr>)"
proof -
  obtain tags where tags: "it_output st = map (tagged items) tags"
      "mset (map fst (it_running st)) + mset tags + mset_set (dom (it_pending st)) = mset [it_emitted st..<it_scheduled st]"
    using iter_ok_places [OF ok] by blast
  then obtain tags' where tags': "tags = k # tags'" "rest = map (tagged items) tags'" and v: "items k = Return v"
    using out tagged_cases(2) [of items _ k v] by (cases tags) fastforce+
  have fin: "finite (dom (it_pending st))" using ok by (simp add: iter_ok_def)
  have "Multiset.count (mset [it_emitted st..<it_scheduled st]) k \<le> 1" by (simp add: count_mset_set')
  then have "Multiset.count (mset_set (dom (it_pending st))) k = 0"
    unfolding tags(2) [symmetric] tags'(1) by simp
  then have "k \<notin> dom (it_pending st)" using fin by (metis count_mset_set(1) zero_neq_one)
  then show free: "it_pending st k = None" by (simp add: domIff)
  have "mset (map fst (it_running st)) + mset tags' + mset_set (insert k (dom (it_pending st))) =
      mset [it_emitted st..<it_scheduled st]"
    using tags(2) tags'(1) fin free by (simp add: domIff del: mset_upt)
  then show "iter_ok g idx items w n (st\<lparr>it_output := rest, it_pending := (it_pending st)(k \<mapsto> v)\<rparr>)"
    using ok tags'(2) v unfolding iter_ok_def
    by (auto simp del: upt_Suc mset_upt intro!: exI [of _ tags'])
qed

lemma something_due:
  assumes ok: "iter_ok g idx items w n st" and "it_emitted st < it_scheduled st"
    and "it_pending st (it_emitted st) = None" and "it_output st = []"
  shows "it_running st \<noteq> []"
proof
  assume "it_running st = []"
  then have "mset_set (dom (it_pending st)) = mset [it_emitted st..<it_scheduled st]"
    using iter_ok_places [OF ok] assms(4) by fastforce
  then have "it_emitted st \<in># mset_set (dom (it_pending st))" using assms(2) by simp
  then show False using ok assms(3) by (auto simp: iter_ok_def)
qed

text \<open>
  What a call returns when something was scheduled: the value that is due, or the error of a read that is in
  flight, after which the iterator is over.
\<close>

definition served :: "rng \<Rightarrow> (nat \<Rightarrow> nat) \<Rightarrow> (nat \<Rightarrow> 'v exn) \<Rightarrow> nat \<Rightarrow> nat \<Rightarrow> nat \<Rightarrow> 'v exn \<Rightarrow> 'v RuntimeIterator \<Rightarrow> bool" where
  "served g idx items w n e r st' \<longleftrightarrow>
     (case r of
        Inr v \<Rightarrow> items e = Return v \<and> iter_ok g idx items w n st' \<and> it_emitted st' = Suc e
      | Inl x \<Rightarrow> (\<exists>j\<ge>e. j < n \<and> j < e + w \<and> items j = Raise x) \<and> it_total st' = n \<and> it_emitted st' = n)"

lemma await_ok:
  assumes ok: "iter_ok g idx items w n st" and due: "it_emitted st < it_scheduled st"
    and read: "\<And>j. j < n \<Longrightarrow> read (idx j) = items j"
  shows "\<exists>r st'. await read pick st = Some (r, st') \<and> served g idx items w n (it_emitted st) r st'"
  using ok due
proof (induction "2 * length (it_running st) + length (it_output st)" arbitrary: st rule: less_induct)
  case less
  note ok = less.prems(1) and due = less.prems(2) and unfolded = await.simps [of read pick st]
  show ?case
  proof (cases "it_pending st (it_emitted st)")
    case (Some v)
    then show ?thesis using emit_pending_ok [OF ok due Some] by (simp add: unfolded served_def)
  next
    case None
    show ?thesis
    proof (cases "it_output st")
      case Nil
      let ?st = "complete read (pick (it_running st) mod length (it_running st)) st"
      have running: "it_running st \<noteq> []" by (rule something_due [OF ok due None Nil])
      then have "iter_ok g idx items w n ?st" using ok read by (intro complete_ok) auto
      moreover have "it_emitted ?st = it_emitted st" "it_scheduled ?st = it_scheduled st"
        by (simp_all add: complete_def Let_def split: prod.splits)
      ultimately have "\<exists>r st'. await read pick ?st = Some (r, st') \<and> served g idx items w n (it_emitted st) r st'"
        using less.hyps [OF complete_shrinks [OF running, of read "pick (it_running st)"]] due by simp
      moreover have "await read pick st = await read pick ?st" using running None Nil unfolding unfolded by simp
      ultimately show ?thesis by simp
    next
      case (Cons res rest)
      obtain tags where tags: "it_output st = map (tagged items) tags" "set tags \<subseteq> {it_emitted st..<it_scheduled st}"
        using iter_ok_places [OF ok] by metis
      show ?thesis
      proof (cases res)
        case (Inl x)
        obtain j where j: "tagged items j = Inl x" "j \<in> set tags" using tags(1) Cons Inl by (cases tags) auto
        moreover have "it_emitted st \<le> j" "j < it_scheduled st" using j(2) tags(2) by auto
        moreover have "it_scheduled st \<le> n" "it_scheduled st \<le> it_emitted st + w" using ok by (auto simp: iter_ok_def)
        ultimately have "\<exists>j\<ge>it_emitted st. j < n \<and> j < it_emitted st + w \<and> items j = Raise x" using tagged_cases(1) order.strict_trans2 by metis
        then show ?thesis using None Cons Inl ok by (simp add: unfolded served_def stop_def iter_ok_def)
      next
        case (Inr p)
        obtain k v where p: "p = (k, v)" by fastforce
        have out: "it_output st = Inr (k, v) # rest" using Cons Inr p by simp
        show ?thesis
        proof (cases "k = it_emitted st")
          case True
          then show ?thesis using emit_received_ok [OF ok due, of v rest] out None by (simp add: unfolded served_def)
        next
          case False
          let ?st = "st\<lparr>it_output := rest, it_pending := (it_pending st)(k \<mapsto> v)\<rparr>"
          have "\<exists>r st'. await read pick ?st = Some (r, st') \<and> served g idx items w n (it_emitted ?st) r st'"
            using keep_received_ok(2) [OF ok out] due out by (intro less.hyps) auto
          then show ?thesis using keep_received_ok(1) [OF ok out] None False out by (simp add: unfolded)
        qed
      qed
    qed
  qed
qed

lemma next_item_ok:
  assumes ok: "iter_ok g idx items w n st" and "0 < w" "it_emitted st < n" and "\<And>k. submit k"
    and read: "\<And>j. j < n \<Longrightarrow> read (idx j) = items j"
  shows "\<exists>r st'. next_item g submit read pick st = Some (Some r, st') \<and> served g idx items w n (it_emitted st) r st'"
proof -
  obtain st1 where st1: "schedule_available g submit st = (None, st1)" "iter_ok g idx items w n st1" "it_emitted st1 = it_emitted st"
      "it_scheduled st1 - it_emitted st1 = w \<or> it_scheduled st1 = n"
    using schedule_available_ok [OF ok, of submit] assms(4) by blast
  then have "it_emitted st1 < it_scheduled st1" using assms(2,3) by auto
  from await_ok [OF st1(2) this read, of pick] obtain r st' where
    "await read pick st1 = Some (r, st')" "served g idx items w n (it_emitted st1) r st'" by blast
  then show ?thesis using st1(1,3) assms(3) ok by (auto simp: next_item_def iter_ok_def)
qed

section \<open>A whole window\<close>

text \<open>
  The reference: an iterator over the window \<open>ws\<close> that looks \<open>w\<close> samples ahead. A call returns the next sample
  of the window, or the error of one of the next \<open>w\<close> samples and then nothing more; after the window, nothing.
\<close>

fun observation :: "nat \<Rightarrow> 'v exn list \<Rightarrow> 'v exn option list \<Rightarrow> bool" where
  "observation w ws [] \<longleftrightarrow> True"
| "observation w [] (r # rs) \<longleftrightarrow> r = None \<and> observation w [] rs"
| "observation w (x # ws) (r # rs) \<longleftrightarrow>
     (case r of
        None \<Rightarrow> False
      | Some (Inr v) \<Rightarrow> x = Return v \<and> observation w ws rs
      | Some (Inl e) \<Rightarrow> Raise e \<in> set (take w (x # ws)) \<and> rs = replicate (length rs) None)"

lemma observation_nothing: "observation w [] (replicate m None)"
  by (induction m) auto

lemma observation_all_good:
  assumes "observation w ws rs" "\<forall>x\<in>set ws. \<not> isl x" "length ws \<le> length rs"
  shows "rs = map Some ws @ replicate (length rs - length ws) None"
  using assms
proof (induction w ws rs rule: observation.induct)
  case (3 w x ws r rs)
  then have "Raise e \<notin> set (take w (x # ws))" for e using in_set_takeD [of "Raise e" w "x # ws"] by force
  with 3 show ?case by (auto split: option.splits sum.splits)
qed auto

lemma progress_keeps: "it_emitted (progress read ks st) = it_emitted st" "it_total (progress read ks st) = it_total st"
  by (induction read ks st rule: progress.induct) (simp_all add: complete_def Let_def split: prod.splits)

lemma consume_over:
  "it_total st \<le> it_emitted st \<Longrightarrow> \<exists>st'. consume g submit read pick between c m st = Some (replicate m None, st')"
proof (induction m arbitrary: c st)
  case (Suc m)
  from Suc.prems have "next_item g submit read (pick c) (progress read (between c) st) = Some (None, progress read (between c) st)"
    by (simp add: next_item_def progress_keeps)
  moreover obtain st' where
    "consume g submit read pick between (c + 1) m (progress read (between c) st) = Some (replicate m None, st')"
    using Suc.IH [of "progress read (between c) st" "c + 1"] Suc.prems by (auto simp: progress_keeps)
  ultimately show ?case by simp
qed simp

lemma consume_ok:
  assumes ok: "iter_ok g idx items w n st" and "0 < w" and "\<And>k. submit k"
    and read: "\<And>j. j < n \<Longrightarrow> read (idx j) = items j"
  shows "\<exists>rs st'. consume g submit read pick between c m st = Some (rs, st') \<and> length rs = m \<and>
    observation w (map items [it_emitted st..<n]) rs"
  using ok
proof (induction m arbitrary: c st)
  case (Suc m)
  let ?e = "it_emitted st" and ?st = "progress read (between c) st"
  note ok' = progress_ok(1) [OF Suc.prems read, of "between c"]
  have e: "it_emitted ?st = ?e" by (rule progress_keeps)
  show ?case
  proof (cases "?e < n")
    case False
    then have "it_total st \<le> ?e" using Suc.prems by (simp add: iter_ok_def)
    with consume_over [of st g submit read pick between c "Suc m"] False show ?thesis
      using observation_nothing [of w "Suc m"] by (auto simp del: consume.simps replicate_Suc)
  next
    case True
    then have "\<exists>r st1. next_item g submit read (pick c) ?st = Some (Some r, st1) \<and> served g idx items w n (it_emitted ?st) r st1"
      using ok' assms(2,3) read by (intro next_item_ok) (simp_all add: e)
    then obtain r st1 where
      step: "next_item g submit read (pick c) ?st = Some (Some r, st1)" and r: "served g idx items w n ?e r st1"
      by (auto simp: e)
    have ws: "map items [?e..<n] = items ?e # map items [Suc ?e..<n]" using True by (simp add: upt_conv_Cons)
    show ?thesis
    proof (cases r)
      case (Inl x)
      then obtain j where j: "?e \<le> j" "j < n" "j < ?e + w" "items j = Raise x" and over: "it_total st1 = n" "it_emitted st1 = n"
        using r by (auto simp: served_def)
      from over consume_over [of st1 g submit read pick between "c + 1" m] obtain st2 where
        rest: "consume g submit read pick between (c + 1) m st1 = Some (replicate m None, st2)" by auto
      have "Raise x \<in> set (take w (map items [?e..<n]))"
        using j unfolding in_set_conv_nth by (intro exI [of _ "j - ?e"]) auto
      then show ?thesis using step rest Inl by (simp add: ws)
    next
      case (Inr v)
      then have v: "items ?e = Return v" "iter_ok g idx items w n st1" "it_emitted st1 = Suc ?e"
        using r by (auto simp: served_def)
      from Suc.IH [OF v(2), of "c + 1"] obtain rs st2 where
        "consume g submit read pick between (c + 1) m st1 = Some (rs, st2)" "length rs = m" "observation w (map items [Suc ?e..<n]) rs"
        by (auto simp: v(3))
      then show ?thesis using step v(1) Inr by (simp add: ws)
    qed
  qed
qed simp

lemma plan_indices_length: "length (plan_indices g plan sequence m) = m"
  by (induction m arbitrary: plan sequence) (auto split: prod.splits)

lemma plan_indices_the:
  assumes "None \<notin> set (plan_indices g plan 0 m)" "j < m"
  shows "plan_indices g plan 0 m ! j = Some (the (plan_indices g plan 0 m ! j))"
proof (cases "plan_indices g plan 0 m ! j")
  case None
  then show ?thesis using assms nth_mem [of j "plan_indices g plan 0 m"] by (simp add: plan_indices_length)
qed simp

lemma iterator_start_ok:
  assumes plan: "None \<notin> set (plan_indices g plan 0 (plan_len plan))" and "0 < plan_len plan" "0 < prefetch_size" "0 < num_workers"
    and "\<And>k. submit k"
  defines "w \<equiv> min (min num_workers prefetch_size) (plan_len plan)"
    and "idx \<equiv> (\<lambda>j. the (plan_indices g plan 0 (plan_len plan) ! j))"
  shows "\<exists>st. iterator_start g submit plan prefetch_size num_workers = Return st \<and>
    iter_ok g idx (\<lambda>j. read (idx j)) w (plan_len plan) st \<and> it_emitted st = 0"
proof -
  let ?n = "plan_len plan" and ?items = "\<lambda>j. read (idx j)"
  let ?init = "\<lparr>it_plan = plan, it_running = [], it_output = [], it_cancelled = False, it_pending = (\<lambda>k. None),
    it_parallelism = w, it_scheduled = 0, it_emitted = 0, it_total = ?n\<rparr> :: 'a RuntimeIterator"
  have "plan_indices g plan 0 ?n = map (\<lambda>j. Some (idx j)) [0..<?n]"
    using plan_indices_the [OF plan] by (intro nth_equalityI) (simp_all add: plan_indices_length idx_def)
  then have "iter_ok g idx ?items w ?n ?init" by (simp add: iter_ok_def dom_def)
  from schedule_available_ok [OF this, of submit] assms(5) obtain st where
    "schedule_available g submit ?init = (None, st)" "iter_ok g idx ?items w ?n st" "it_emitted st = 0" by auto
  moreover have "0 < w" using assms(2-4) by (simp add: w_def)
  ultimately show ?thesis by (auto simp: iterator_start_def Let_def w_def [symmetric])
qed

text \<open>The window of the reference is the one the dataset opens.\<close>

lemma window_items:
  assumes "epoch_plan g nd = Return (plan, nd')" and "open_window g nd = Return (ws, nd'')"
    and "None \<notin> set (plan_indices g plan 0 (plan_len plan))"
  shows "ws = map (\<lambda>j. load_index nd (Some (the (plan_indices g plan 0 (plan_len plan) ! j)))) [0..<plan_len plan]"
proof -
  have "ws = map (load_index nd) (plan_indices g plan 0 (plan_len plan))" using assms(1,2) by (simp add: open_window_def)
  then show ?thesis using plan_indices_the [OF assms(3)] by (intro nth_equalityI) (simp_all add: plan_indices_length)
qed

section \<open>The bound\<close>

abbreviation places :: "'v RuntimeIterator \<Rightarrow> nat" where
  "places st \<equiv> length (it_running st) + length (it_output st) + card (dom (it_pending st))"

definition bounded_iter :: "'v RuntimeIterator \<Rightarrow> bool" where
  "bounded_iter st \<longleftrightarrow> finite (dom (it_pending st)) \<and> places st \<le> it_parallelism st \<and>
     (it_emitted st < it_total st \<longrightarrow> it_emitted st \<le> it_scheduled st \<and>
       places st \<le> it_scheduled st - it_emitted st \<and> it_scheduled st - it_emitted st \<le> it_parallelism st)"

lemma bounded_complete:
  assumes "bounded_iter st" "k < length (it_running st)"
  shows "bounded_iter (complete read k st)"
proof -
  have "it_pending (complete read k st) = it_pending st" "it_emitted (complete read k st) = it_emitted st"
    "it_total (complete read k st) = it_total st" "it_scheduled (complete read k st) = it_scheduled st"
    "it_parallelism (complete read k st) = it_parallelism st"
    by (simp_all add: complete_def Let_def split: prod.splits)
  then show ?thesis using assms by (auto simp: bounded_iter_def complete_lengths)
qed

lemma bounded_stop: "bounded_iter st \<Longrightarrow> bounded_iter (stop st)"
  by (simp add: bounded_iter_def stop_def)

lemma bounded_schedule_next:
  assumes "bounded_iter st" "it_scheduled st - it_emitted st < it_parallelism st" "it_emitted st < it_total st"
    and "schedule_next g submit st = (r, st')"
  shows "bounded_iter st'" "it_emitted st' = it_emitted st" "it_total st' = it_total st"
  using assms by (auto simp: schedule_next_def bounded_iter_def split: prod.splits option.splits if_splits)

lemma bounded_schedule_available:
  assumes "bounded_iter st" "it_emitted st < it_total st" and "schedule_available g submit st = (r, st')"
  shows "bounded_iter st' \<and> it_emitted st' = it_emitted st \<and> it_total st' = it_total st"
  using assms
proof (induction g submit st arbitrary: r st' rule: schedule_available.induct)
  case (1 g submit st)
  show ?case
  proof (cases "it_scheduled st - it_emitted st < it_parallelism st \<and> it_scheduled st < it_total st")
    case True
    obtain e st1 where step: "schedule_next g submit st = (e, st1)" by fastforce
    note kept = bounded_schedule_next [OF 1(2) _ 1(3) step]
    show ?thesis
    proof (cases e)
      case None
      then have "schedule_available g submit st1 = (r, st')"
        using 1(4) True step by (subst (asm) schedule_available.simps) simp
      then show ?thesis using 1(1) [OF True step [symmetric] None] kept 1(3) True by simp
    next
      case (Some x)
      then show ?thesis using 1(4) kept True step by (subst (asm) schedule_available.simps) auto
    qed
  next
    case False
    then show ?thesis using 1(2-4) by (subst (asm) schedule_available.simps) auto
  qed
qed

text \<open>A result leaves its place before the next one may be scheduled.\<close>

lemma bounded_emit_pending:
  assumes "bounded_iter st" "it_emitted st < it_total st" "it_pending st (it_emitted st) = Some v"
  shows "bounded_iter (st\<lparr>it_pending := (it_pending st)(it_emitted st := None), it_emitted := it_emitted st + 1\<rparr>)"
proof -
  have "it_emitted st \<in> dom (it_pending st)" "finite (dom (it_pending st))" using assms by (auto simp: bounded_iter_def)
  then have "card (dom (it_pending st)) = Suc (card (dom (it_pending st) - {it_emitted st}))"
    by (metis card_Suc_Diff1)
  then show ?thesis using assms by (auto simp: bounded_iter_def)
qed

lemma bounded_keep:
  assumes "bounded_iter st" "it_output st = r # rest"
  shows "bounded_iter (st\<lparr>it_output := rest, it_pending := (it_pending st)(k \<mapsto> v)\<rparr>)"
proof -
  have "card (insert k (dom (it_pending st))) \<le> Suc (card (dom (it_pending st)))" by (rule card_insert_le_m1) simp_all
  then show ?thesis using assms by (auto simp: bounded_iter_def)
qed

lemma bounded_emit_received:
  assumes "bounded_iter st" "it_emitted st < it_total st" "it_output st = r # rest"
  shows "bounded_iter (st\<lparr>it_output := rest, it_emitted := it_emitted st + 1\<rparr>)"
    "bounded_iter (stop (st\<lparr>it_output := rest\<rparr>))"
  using assms by (auto simp: bounded_iter_def stop_def)

lemma bounded_await:
  assumes "bounded_iter st" "it_emitted st < it_total st" "await read pick st = Some (r, st')"
  shows "bounded_iter st'"
  using assms
proof (induction "2 * length (it_running st) + length (it_output st)" arbitrary: st rule: less_induct)
  case less
  note inv = less.prems(1) and waiting = less.prems(2) and result = less.prems(3) [unfolded await.simps [of read pick st]]
  consider v where "it_pending st (it_emitted st) = Some v" | "it_pending st (it_emitted st) = None" "it_output st = []"
    | e rest where "it_pending st (it_emitted st) = None" "it_output st = Inl e # rest"
    | k v rest where "it_pending st (it_emitted st) = None" "it_output st = Inr (k, v) # rest"
    by (cases "it_pending st (it_emitted st)"; cases "it_output st") (auto, metis old.prod.exhaust sum.exhaust)
  then show ?case
  proof cases
    case (1 v)
    then show ?thesis using bounded_emit_pending [OF inv waiting 1] result by auto
  next
    case 2
    let ?st = "complete read (pick (it_running st) mod length (it_running st)) st"
    have running: "it_running st \<noteq> []" and again: "await read pick ?st = Some (r, st')"
      using result 2 by (auto split: if_splits)
    have "bounded_iter ?st" using inv running by (intro bounded_complete) auto
    moreover have "it_emitted ?st < it_total ?st" using waiting by (simp add: complete_def Let_def split: prod.splits)
    ultimately show ?thesis by (rule less.hyps [OF complete_shrinks [OF running] _ _ again])
  next
    case (3 e rest)
    then show ?thesis using bounded_emit_received(2) [OF inv waiting 3(2)] result by auto
  next
    case (4 k v rest)
    show ?thesis
    proof (cases "k = it_emitted st")
      case True
      then show ?thesis using bounded_emit_received(1) [OF inv waiting 4(2)] result 4 by auto
    next
      case False
      let ?st = "st\<lparr>it_output := rest, it_pending := (it_pending st)(k \<mapsto> v)\<rparr>"
      have "bounded_iter ?st" by (rule bounded_keep [OF inv 4(2)])
      then show ?thesis
        using result 4 False waiting less.hyps [of ?st] by (auto simp: bounded_stop Let_def split: if_splits)
    qed
  qed
qed

lemma bounded_next:
  assumes "bounded_iter st" "next_item g submit read pick st = Some (r, st')"
  shows "bounded_iter st'"
proof (cases "it_total st \<le> it_emitted st")
  case False
  obtain e st1 where s: "schedule_available g submit st = (e, st1)" by fastforce
  then have st1: "bounded_iter st1" "it_emitted st1 < it_total st1"
    using bounded_schedule_available [OF assms(1) _ s] False by auto
  show ?thesis
    using assms(2) False s bounded_stop [OF st1(1)] bounded_await [OF st1] by (cases e) (auto simp: next_item_def)
qed (use assms in \<open>auto simp: next_item_def\<close>)

lemma bounded_start:
  assumes "iterator_start g submit plan prefetch_size num_workers = Return st"
  shows "bounded_iter st"
proof -
  let ?w = "min (min num_workers prefetch_size) (plan_len plan)"
  let ?init = "\<lparr>it_plan = plan, it_running = [], it_output = [], it_cancelled = False, it_pending = (\<lambda>k. None),
    it_parallelism = ?w, it_scheduled = 0, it_emitted = 0, it_total = plan_len plan\<rparr> :: 'a RuntimeIterator"
  have "?w \<noteq> 0" "schedule_available g submit ?init = (None, st)"
    using assms by (auto simp: iterator_start_def Let_def split: if_splits prod.splits option.splits)
  moreover have "bounded_iter ?init" by (simp add: bounded_iter_def dom_def)
  ultimately show ?thesis using bounded_schedule_available [of ?init] by auto
qed

lemma iter_reach_bounded: "iter_reach g submit read st \<Longrightarrow> bounded_iter st"
proof (induction rule: iter_reach.induct)
  case (dropped st)
  then show ?case by (simp add: bounded_iter_def drop_iterator_def)
qed (blast intro: bounded_start bounded_complete bounded_next)+

section \<open>Properties\<close>

lemma iterator_consumes:
  assumes window: "open_window g nd = Return (ws, nd')" and plan: "epoch_plan g nd = Return (plan, nd')"
    and planned: "None \<notin> set (plan_indices g plan 0 (plan_len plan))"
    and pos: "0 < plan_len plan" "0 < nd_prefetch nd" "0 < nd_num_workers nd"
  shows "\<exists>st rs st'. start_iterator g (\<lambda>k. True) nd = (Return st, nd') \<and>
    consume g (\<lambda>k. True) (\<lambda>p. load_index nd (Some p)) pick between 0 m st = Some (rs, st') \<and> length rs = m \<and>
    observation (min (min (nd_num_workers nd) (nd_prefetch nd)) (length ws)) ws rs"
proof -
  let ?w = "min (min (nd_num_workers nd) (nd_prefetch nd)) (plan_len plan)" and ?read = "\<lambda>p. load_index nd (Some p)"
  let ?idx = "\<lambda>j. the (plan_indices g plan 0 (plan_len plan) ! j)"
  have ws: "ws = map (\<lambda>j. ?read (?idx j)) [0..<plan_len plan]" by (rule window_items [OF plan window planned])
  obtain st where st: "iterator_start g (\<lambda>k. True) plan (nd_prefetch nd) (nd_num_workers nd) = Return st"
      "iter_ok g ?idx (\<lambda>j. ?read (?idx j)) ?w (plan_len plan) st" "it_emitted st = 0"
    using iterator_start_ok [OF planned pos, of "\<lambda>k. True" ?read] by auto
  have "0 < ?w" using pos by simp
  from consume_ok [OF st(2) this, of "\<lambda>k. True" ?read pick between 0 m] obtain rs st' where
    "consume g (\<lambda>k. True) ?read pick between 0 m st = Some (rs, st')" "length rs = m" "observation ?w ws rs"
    by (auto simp: st(3) ws)
  then show ?thesis using st(1) plan ws by (auto simp: start_iterator_def)
qed

text \<open>
  C16. The prefetching iterator refines the window: whatever order the reads finish in, before and during the
  calls, \<open>m\<close> calls of \<open>next\<close> return, and what they return is an observation of the window that
  \<open>open_window\<close> defines. Samples come in the planned order, an error surfaces at most the look-ahead early and
  ends the iteration.
\<close>

theorem iterator_refines_window:
  assumes "open_window g nd = Return (ws, nd')" and "epoch_plan g nd = Return (plan, nd')"
    and "None \<notin> set (plan_indices g plan 0 (plan_len plan))"
    and "0 < plan_len plan" "0 < nd_prefetch nd" "0 < nd_num_workers nd"
  shows "\<exists>st rs st'. start_iterator g (\<lambda>k. True) nd = (Return st, nd') \<and>
    consume g (\<lambda>k. True) (\<lambda>p. load_index nd (Some p)) pick between 0 m st = Some (rs, st') \<and> length rs = m \<and>
    observation (min (min (nd_num_workers nd) (nd_prefetch nd)) (length ws)) ws rs"
  using assms by (rule iterator_consumes)

text \<open>A dataset whose first cache cannot be read.\<close>

definition demo_broken :: "(string, string) native_dataset" where
  "demo_broken = demo_native\<lparr>nd_caches := map (\<lambda>c. if cache_id c = 40 then c\<lparr>cache_read := (\<lambda>i. Raise (RuntimeError ''corrupt shard''))\<rparr> else c) demo_caches\<rparr>"

lemma demo_plan:
  assumes "nd = demo_native \<or> nd = demo_broken"
  shows "\<exists>nd'. epoch_plan g nd = Return (SequentialPlan 2 0 3 (Some [4, 0, 4]), nd')"
  using assms
  by (auto simp: demo_native_def demo_broken_def epoch_plan_def advance_cyclic_offset_mod active_len_def active_physical_indices_def)

lemma demo_plan_indices: "plan_indices g (SequentialPlan 2 0 3 (Some [4, 0, 4])) 0 2 = [Some 4, Some 0]"
  using plan_indices_sequential [of 0 3 0 2 2 g "Some [4, 0, 4]"] by (simp add: upt_rec [of _ 2] index_get_def)

lemma demo_reads:
  "load_index demo_native (Some 4) = Return \<lparr>sample_value = ''c'', sample_cache_id = 9, sample_id = 2\<rparr>"
  "load_index demo_native (Some 0) = Return \<lparr>sample_value = ''a'', sample_cache_id = 40, sample_id = 0\<rparr>"
  by (simp_all add: load_index_def demo_native_def demo_caches_def collect_cache_offsets_def load_planned_sample_def
      locate_physical_sample_def partition_point_def Let_def)

lemma demo_broken_reads:
  "load_index demo_broken (Some 4) = Return \<lparr>sample_value = ''c'', sample_cache_id = 9, sample_id = 2\<rparr>"
  "load_index demo_broken (Some 0) = Raise (RuntimeError ''corrupt shard'')"
  by (simp_all add: load_index_def demo_broken_def demo_native_def demo_caches_def collect_cache_offsets_def load_planned_sample_def
      locate_physical_sample_def partition_point_def Let_def)

theorem iterator_refines_window_witness:
  "\<forall>g pick between. \<exists>st rs st'. fst (start_iterator g (\<lambda>k. True) demo_broken) = Return st \<and>
     consume g (\<lambda>k. True) (\<lambda>p. load_index demo_broken (Some p)) pick between 0 3 st = Some (rs, st') \<and> length rs = 3 \<and>
     observation 2 [Return \<lparr>sample_value = ''c'', sample_cache_id = 9, sample_id = 2\<rparr>, Raise (RuntimeError ''corrupt shard'')] rs"
proof (intro allI)
  fix g :: rng and pick :: "nat \<Rightarrow> (nat \<times> nat) list \<Rightarrow> nat" and between :: "nat \<Rightarrow> nat list"
  obtain nd' where plan: "epoch_plan g demo_broken = Return (SequentialPlan 2 0 3 (Some [4, 0, 4]), nd')" using demo_plan by blast
  let ?ws = "[Return \<lparr>sample_value = ''c'', sample_cache_id = 9, sample_id = 2\<rparr>, Raise (RuntimeError ''corrupt shard'')]"
  have "open_window g demo_broken = Return (?ws, nd')"
    using plan by (simp add: open_window_def demo_plan_indices demo_broken_reads del: plan_indices.simps)
  moreover have "nd_num_workers demo_broken = 2" "nd_prefetch demo_broken = 64" by (simp_all add: demo_broken_def demo_native_def)
  ultimately have "\<exists>st rs st'. start_iterator g (\<lambda>k. True) demo_broken = (Return st, nd') \<and>
     consume g (\<lambda>k. True) (\<lambda>p. load_index demo_broken (Some p)) pick between 0 3 st = Some (rs, st') \<and> length rs = 3 \<and>
     observation 2 ?ws rs"
    using iterator_refines_window [OF _ plan, of ?ws pick between 3]
    by (simp add: demo_plan_indices numeral_2_eq_2 [symmetric] del: plan_indices.simps observation.simps)
  then show "\<exists>st rs st'. fst (start_iterator g (\<lambda>k. True) demo_broken) = Return st \<and>
     consume g (\<lambda>k. True) (\<lambda>p. load_index demo_broken (Some p)) pick between 0 3 st = Some (rs, st') \<and> length rs = 3 \<and>
     observation 2 ?ws rs" by fastforce
qed

text \<open>
  C17. When every planned read succeeds, the iterator returns exactly the window, in order and once each, and
  then nothing: thread scheduling, look-ahead and worker count cannot be observed.
\<close>

theorem iterator_exact:
  assumes "open_window g nd = Return (ws, nd')" and "epoch_plan g nd = Return (plan, nd')"
    and "None \<notin> set (plan_indices g plan 0 (plan_len plan))"
    and "0 < plan_len plan" "0 < nd_prefetch nd" "0 < nd_num_workers nd"
    and "\<forall>x\<in>set ws. \<not> isl x" and "length ws \<le> m"
  shows "\<exists>st st'. start_iterator g (\<lambda>k. True) nd = (Return st, nd') \<and>
    consume g (\<lambda>k. True) (\<lambda>p. load_index nd (Some p)) pick between 0 m st =
      Some (map Some ws @ replicate (m - length ws) None, st')"
  using iterator_consumes [OF assms(1-6), of pick between m] observation_all_good [of _ ws] assms(7,8) by metis

theorem iterator_exact_witness:
  "\<forall>g pick between. \<exists>st st'. fst (start_iterator g (\<lambda>k. True) demo_native) = Return st \<and>
     consume g (\<lambda>k. True) (\<lambda>p. load_index demo_native (Some p)) pick between 0 3 st =
       Some ([Some (Return \<lparr>sample_value = ''c'', sample_cache_id = 9, sample_id = 2\<rparr>),
              Some (Return \<lparr>sample_value = ''a'', sample_cache_id = 40, sample_id = 0\<rparr>), None], st')"
proof (intro allI)
  fix g :: rng and pick :: "nat \<Rightarrow> (nat \<times> nat) list \<Rightarrow> nat" and between :: "nat \<Rightarrow> nat list"
  obtain nd' where plan: "epoch_plan g demo_native = Return (SequentialPlan 2 0 3 (Some [4, 0, 4]), nd')" using demo_plan by blast
  let ?c = "\<lparr>sample_value = ''c'', sample_cache_id = 9, sample_id = 2\<rparr>" and ?a = "\<lparr>sample_value = ''a'', sample_cache_id = 40, sample_id = 0\<rparr>"
  have "open_window g demo_native = Return ([Return ?c, Return ?a], nd')"
    using plan by (simp add: open_window_def demo_plan_indices demo_reads del: plan_indices.simps)
  from iterator_exact [OF this plan, of 3 pick between]
  show "\<exists>st st'. fst (start_iterator g (\<lambda>k. True) demo_native) = Return st \<and>
     consume g (\<lambda>k. True) (\<lambda>p. load_index demo_native (Some p)) pick between 0 3 st =
       Some ([Some (Return ?c), Some (Return ?a), None], st')"
    by (fastforce simp: demo_plan_indices demo_native_def simp del: plan_indices.simps)
qed

text \<open>
  C18. The look-ahead is bounded in every reachable state, after failures too: running reads, results in the
  channel and reordered results together never exceed the parallelism, so a thread that finishes a read always
  finds room in the channel and never waits for the consumer.
\<close>

theorem iterator_bounded:
  assumes "iter_reach g submit read st"
  shows "length (it_running st) + length (it_output st) + card (dom (it_pending st)) \<le> it_parallelism st \<and>
    (it_running st \<noteq> [] \<longrightarrow> length (it_output st) < it_parallelism st)"
proof -
  have "places st \<le> it_parallelism st" using iter_reach_bounded [OF assms] by (simp add: bounded_iter_def)
  then show ?thesis by (cases "it_running st") auto
qed

theorem iterator_bounded_witness:
  "\<forall>g. \<exists>st. iterator_start g (\<lambda>k. True) (SequentialPlan 2 0 3 (Some [4, 0, 4])) 64 2 = Return st \<and>
     length (it_running st) + length (it_output (st :: string RuntimeIterator)) + card (dom (it_pending st)) \<le> it_parallelism st"
proof
  fix g
  from iterator_start_ok [of g "SequentialPlan 2 0 3 (Some [4, 0, 4])" 64 2 "\<lambda>k. True"] demo_plan_indices [of g]
  obtain st :: "string RuntimeIterator" where
    st: "iterator_start g (\<lambda>k. True) (SequentialPlan 2 0 3 (Some [4, 0, 4])) 64 2 = Return st" by auto
  then have "iter_reach g (\<lambda>k. True) (\<lambda>p. Return ''x'') st" by (rule started)
  from iterator_bounded [OF this] st
  show "\<exists>st. iterator_start g (\<lambda>k. True) (SequentialPlan 2 0 3 (Some [4, 0, 4])) 64 2 = Return st \<and>
     length (it_running st) + length (it_output (st :: string RuntimeIterator)) + card (dom (it_pending st)) \<le> it_parallelism st" by blast
qed

end
