(* ===== verification/Bytes.thy ===== *)
theory Bytes
  imports Prelude "HOL-Library.Word"
begin

text \<open>
  Bytes and little-endian integers: \<open>int.to_bytes(n, "little")\<close> in Python, \<open>to_le_bytes\<close> and \<open>from_le_bytes\<close> in Rust.
\<close>

type_synonym byte = "8 word"

fun little_endian :: "nat \<Rightarrow> int \<Rightarrow> byte list" where
  "little_endian 0 x = []"
| "little_endian (Suc n) x = word_of_int x # little_endian n (x div 256)"

fun from_little_endian :: "byte list \<Rightarrow> int" where
  "from_little_endian [] = 0"
| "from_little_endian (b # bs) = uint b + 256 * from_little_endian bs"

lemma length_little_endian [simp]: "length (little_endian n x) = n"
  by (induction n arbitrary: x) simp_all

lemma little_endian_value: "from_little_endian (little_endian n x) = x mod 256 ^ n"
proof (induction n arbitrary: x)
  case (Suc n)
  have "uint (word_of_int x :: byte) = x mod 256" by (simp add: uint_word_of_int)
  moreover have "x mod (256 * 256 ^ n) = x mod 256 + 256 * (x div 256 mod 256 ^ n)" by (simp add: zmod_zmult2_eq)
  ultimately show ?case using Suc [of "x div 256"] by simp
qed simp

lemma little_endian_inverse: "0 \<le> x \<Longrightarrow> x < 2 ^ 64 \<Longrightarrow> from_little_endian (little_endian 8 x) = x"
  unfolding little_endian_value by simp

lemma little_endian_inject:
  assumes "0 \<le> x" "x < 2 ^ 64" "0 \<le> y" "y < 2 ^ 64"
  shows "little_endian 8 x = little_endian 8 y \<longleftrightarrow> x = y"
  using little_endian_inverse [OF assms(1,2)] little_endian_inverse [OF assms(3,4)] by metis

text \<open>The natural number of a fixed-width field, and its inverse.\<close>

definition le_nat :: "byte list \<Rightarrow> nat" where
  "le_nat bs = nat (from_little_endian bs)"

lemma le_nat_inverse: "x < 256 ^ n \<Longrightarrow> le_nat (little_endian n (int x)) = x"
  unfolding le_nat_def little_endian_value by (simp add: nat_mod_distrib flip: of_nat_power)

end
