(* ===== verification/Native_Storage.thy ===== *)
theory Native_Storage
  imports Bytes Loader_Options "HOL-Library.List_Lexorder" "HOL-Library.Char_ord"
begin

text \<open>
  The cache files of the native layer: \<open>src/src/dataset_rt/storage.rs\<close> with \<open>storage/index.rs\<close> and
  \<open>storage/manifest.rs\<close>, the envelopes of \<open>compression.rs\<close>, and the value types of \<open>types.rs\<close>. A cache is a directory
  of byte files: shards of records, the metadata table, the index and the manifest that publishes them.

  Arguments (\<open>storage_env\<close>): the block codecs of the \<open>lz4\<close>, \<open>lz4_flex\<close> and \<open>brotli\<close> crates, \<open>serde_json\<close> on metadata
  objects and manifests, the Arrow file format, SHA-256, UTF-8, and which file operation fails. \<open>usize\<close> and \<open>u64\<close>
  values are \<open>nat\<close> with the checked additions written out. A \<open>BTreeMap\<close> is the list of its entries in key order. As in
  \<open>Native_Dataset\<close>, an error is the Python exception \<open>into_py_err\<close> makes of it: \<open>ValueError\<close> for \<open>InvalidInput\<close> and
  \<open>InvalidCache\<close>, \<open>RuntimeError\<close> for the others. Timings and memory exhaustion are not modelled.
\<close>

section \<open>Values\<close>

datatype metadata_kind = KBool | KInt | KFloat | KString

datatype MetadataValue = MBool bool | MInt int | MFloat pyfloat | MString string

fun value_kind :: "MetadataValue \<Rightarrow> metadata_kind" where
  "value_kind (MBool b) = KBool"
| "value_kind (MInt i) = KInt"
| "value_kind (MFloat f) = KFloat"
| "value_kind (MString s) = KString"

fun kind_name :: "metadata_kind \<Rightarrow> string" where
  "kind_name KBool = ''bool''"
| "kind_name KInt = ''int''"
| "kind_name KFloat = ''float''"
| "kind_name KString = ''string''"

text \<open>\<open>PartialEq\<close>: a float that is not a number differs from itself.\<close>

fun value_eq :: "MetadataValue \<Rightarrow> MetadataValue \<Rightarrow> bool" where
  "value_eq (MFloat NaN) v \<longleftrightarrow> False"
| "value_eq u v \<longleftrightarrow> u = v"

record MetadataField =
  field_name :: string
  field_kind :: metadata_kind

record CacheSample =
  cs_data :: "byte list"
  cs_metadata :: "MetadataValue list"

type_synonym metadata_object = "(string \<times> MetadataValue) list"

fun btree_insert :: "('k :: linorder) \<Rightarrow> 'v \<Rightarrow> ('k \<times> 'v) list \<Rightarrow> ('k \<times> 'v) list" where
  "btree_insert k v [] = [(k, v)]"
| "btree_insert k v ((l, w) # m) =
     (if k < l then (k, v) # (l, w) # m else if k = l then (k, v) # m else (l, w) # btree_insert k v m)"

definition btree_collect :: "(('k :: linorder) \<times> 'v) list \<Rightarrow> ('k \<times> 'v) list" where
  "btree_collect entries = foldl (\<lambda>m (k, v). btree_insert k v m) [] entries"

definition btree :: "(('k :: linorder) \<times> 'v) list \<Rightarrow> bool" where
  "btree m \<longleftrightarrow> sorted_wrt (<) (map fst m)"

section \<open>Manifest\<close>

record ShardManifest =
  sm_name :: string
  sm_uncompressed_byte_len :: nat
  sm_byte_len :: nat
  sm_compression :: shard_policy
  sm_sha256 :: string

record ManifestFields =
  mf_source_name :: string
  mf_sample_count :: nat
  mf_schema :: "MetadataField list"
  mf_metadata_sha256 :: string
  mf_index_sha256 :: string
  mf_shards :: "ShardManifest list"
  mf_extra :: "(string \<times> string) list"

datatype Manifest = V2 ManifestFields | V3 nat ManifestFields | V4 nat ManifestFields

fun manifest_fields :: "Manifest \<Rightarrow> ManifestFields" where
  "manifest_fields (V2 m) = m"
| "manifest_fields (V3 cid m) = m"
| "manifest_fields (V4 cid m) = m"

fun manifest_whole_record :: "Manifest \<Rightarrow> bool" where
  "manifest_whole_record (V4 cid m) \<longleftrightarrow> True"
| "manifest_whole_record m \<longleftrightarrow> False"

fun resolve_cache_id :: "Manifest \<Rightarrow> nat \<Rightarrow> nat" where
  "resolve_cache_id (V2 m) position = position"
| "resolve_cache_id (V3 cid m) position = cid"
| "resolve_cache_id (V4 cid m) position = cid"

fun into_v3 :: "Manifest \<Rightarrow> nat \<Rightarrow> Manifest" where
  "into_v3 (V2 m) cid = V3 cid (m\<lparr>mf_extra := filter (\<lambda>(k, v). k \<noteq> ''cache_id'') (mf_extra m)\<rparr>)"
| "into_v3 m cid = m"

fun whole_record :: "shard_policy \<Rightarrow> bool" where
  "whole_record (WholeRecord c) \<longleftrightarrow> True"
| "whole_record (Legacy s) \<longleftrightarrow> False"

fun compressed :: "shard_policy \<Rightarrow> bool" where
  "compressed (WholeRecord c) \<longleftrightarrow> c \<noteq> NoCompression"
| "compressed (Legacy s) \<longleftrightarrow> shard_algo s \<noteq> AlgoNone"

text \<open>The check behind \<open>Deserialize for Manifest\<close>.\<close>

definition accept_manifest :: "Manifest \<Rightarrow> Manifest exn" where
  "accept_manifest m =
     (if list_ex (\<lambda>shard. whole_record (sm_compression shard) \<noteq> manifest_whole_record m) (mf_shards (manifest_fields m))
      then Raise (RuntimeError ''JSON error: compression scope disagrees with manifest format version'')
      else Return m)"

section \<open>Environment\<close>

record arrow_batch =
  ab_fields :: "(string \<times> metadata_kind option) list"
  ab_columns :: "MetadataValue option list list"
  ab_rows :: nat

datatype build_op = CreateDirectory | CreateShard nat | WriteRecord nat | FlushShard nat | WriteMetadata | WriteIndex | WriteManifest

record storage_env =
  block_encode :: "shard_policy \<Rightarrow> byte list \<Rightarrow> byte list exn"
  block_decode :: "shard_policy \<Rightarrow> byte list \<Rightarrow> nat \<Rightarrow> byte list exn"
  json_object :: "metadata_object \<Rightarrow> byte list exn"
  parse_object :: "byte list \<Rightarrow> metadata_object exn"
  arrow_write :: "MetadataField list \<Rightarrow> MetadataValue list list list \<Rightarrow> byte list exn"
  arrow_read :: "byte list \<Rightarrow> arrow_batch list exn"
  json_manifest :: "Manifest \<Rightarrow> byte list exn"
  parse_manifest :: "byte list \<Rightarrow> Manifest exn"
  sha_digest :: "byte list \<Rightarrow> byte list"
  utf8 :: "string \<Rightarrow> byte list"
  op_fault :: "build_op \<Rightarrow> py_error option"

definition hex_digit :: "nat \<Rightarrow> char" where
  "hex_digit n = (if n < 10 then char_of (48 + n) else char_of (87 + n))"

definition hex_encode :: "byte list \<Rightarrow> string" where
  "hex_encode bs = concat (map (\<lambda>b. [hex_digit (unat b div 16), hex_digit (unat b mod 16)]) bs)"

definition hash_bytes :: "storage_env \<Rightarrow> byte list \<Rightarrow> string" where
  "hash_bytes env bs = hex_encode (sha_digest env bs)"

definition guard_op :: "storage_env \<Rightarrow> build_op \<Rightarrow> 'a exn \<Rightarrow> 'a exn" where
  "guard_op env operation result = (case op_fault env operation of Some e \<Rightarrow> Raise e | None \<Rightarrow> result)"

text \<open>The first eight bytes of the digest, big-endian, without the sign bit.\<close>

definition cache_id_from_name :: "storage_env \<Rightarrow> string \<Rightarrow> nat" where
  "cache_id_from_name env name = le_nat (rev (take 8 (sha_digest env (utf8 env name)))) mod 2 ^ 63"

section \<open>Compression envelopes\<close>

definition frame_block :: "storage_env \<Rightarrow> shard_policy \<Rightarrow> byte list \<Rightarrow> byte list exn" where
  "frame_block env p data = bindE (block_encode env p data) (\<lambda>body. Return (little_endian 4 (int (length data)) @ body))"

fun compress_payload :: "storage_env \<Rightarrow> shard_policy \<Rightarrow> byte list \<Rightarrow> byte list exn" where
  "compress_payload env (WholeRecord NoCompression) data = Return data"
| "compress_payload env (WholeRecord (Brotli level)) data =
     (if 2 ^ 32 \<le> length data then Raise (ValueError ''Brotli record exceeds u32 size-prefix limit'')
      else frame_block env (WholeRecord (Brotli level)) data)"
| "compress_payload env (WholeRecord c) data = frame_block env (WholeRecord c) data"
| "compress_payload env (Legacy s) data =
     (if shard_algo s = AlgoNone then Return data
      else if 2 ^ 32 \<le> length data then Raise (ValueError ''LZ4 payload exceeds u32 size-prefix limit'')
      else frame_block env (Legacy s) data)"

fun codec_name :: "shard_policy \<Rightarrow> string" where
  "codec_name (WholeRecord (Brotli level)) = ''Brotli''"
| "codec_name p = ''LZ4''"

definition prefix_missing :: "shard_policy \<Rightarrow> string" where
  "prefix_missing p = codec_name p @ (if codec_name p = ''LZ4'' then '' payload'' else '' record'') @ '' is missing its size prefix''"

definition length_mismatch :: "shard_policy \<Rightarrow> string" where
  "length_mismatch p =
     (if codec_name p = ''LZ4'' then ''LZ4 decoded length does not match size prefix''
      else ''Brotli record has trailing bytes or decoded length mismatch'')"

definition decompress_payload :: "storage_env \<Rightarrow> shard_policy \<Rightarrow> byte list \<Rightarrow> nat \<Rightarrow> byte list exn" where
  "decompress_payload env p data max_uncompressed_len =
     (if \<not> compressed p then Return data
      else if length data < 4 then Raise (ValueError (prefix_missing p))
      else let len = le_nat (take 4 data) in
        if max_uncompressed_len < len then Raise (ValueError (codec_name p @ '' size prefix exceeds shard uncompressed length''))
        else bindE (block_decode env p (drop 4 data) len) (\<lambda>out.
          if length out \<noteq> len then Raise (ValueError (length_mismatch p)) else Return out))"

section \<open>Records\<close>

definition metadata_row_to_object :: "MetadataField list \<Rightarrow> MetadataValue list \<Rightarrow> metadata_object exn" where
  "metadata_row_to_object schema row =
     (if length row \<noteq> length schema then Raise (ValueError ''metadata row length does not match schema'')
      else Return (btree_collect (zip (map field_name schema) row)))"

definition quoted :: "string \<Rightarrow> string" where
  "quoted name = CHR 0x27 # name @ [CHR 0x27]"

text \<open>The common core of \<open>validate_metadata\<close> and \<open>metadata_object_to_row\<close>: one cell per field, of its kind.\<close>

definition row_cell :: "string \<Rightarrow> metadata_object \<Rightarrow> MetadataField \<Rightarrow> MetadataValue exn" where
  "row_cell label metadata field =
     (case map_of metadata (field_name field) of
        Some v \<Rightarrow> if value_kind v = field_kind field then Return v
          else Raise (ValueError (label @ '' field '' @ quoted (field_name field) @ '' expected '' @ kind_name (field_kind field) @
            '', got '' @ kind_name (value_kind v)))
      | None \<Rightarrow> Raise (ValueError (label @ '' field '' @ quoted (field_name field) @ '' is missing'')))"

definition metadata_object_to_row :: "MetadataField list \<Rightarrow> metadata_object \<Rightarrow> MetadataValue list exn" where
  "metadata_object_to_row schema metadata =
     (if length metadata \<noteq> length schema then Raise (ValueError ''embedded metadata keys do not match schema'')
      else mapE (row_cell ''embedded metadata'' metadata) schema)"

definition encode_sample_record :: "storage_env \<Rightarrow> byte list \<Rightarrow> MetadataField list \<Rightarrow> MetadataValue list \<Rightarrow> byte list exn" where
  "encode_sample_record env stored_payload schema row =
     bindE (metadata_row_to_object schema row) (\<lambda>metadata_object.
     bindE (json_object env metadata_object) (\<lambda>metadata_json.
     if 2 ^ 64 \<le> 8 + length metadata_json + length stored_payload
     then Raise (ValueError ''record byte length overflowed usize'')
     else Return (little_endian 8 (int (length metadata_json)) @ metadata_json @ stored_payload)))"

definition record_range :: "byte list \<Rightarrow> nat \<Rightarrow> nat \<Rightarrow> byte list exn" where
  "record_range bytes start stop =
     (if stop < start \<or> length bytes < stop then Raise (ValueError ''invalid binary record'')
      else Return (take (stop - start) (drop start bytes)))"

definition split_sample_record :: "storage_env \<Rightarrow> byte list \<Rightarrow> MetadataField list \<Rightarrow> (MetadataValue list \<times> byte list) exn" where
  "split_sample_record env bytes schema =
     bindE (record_range bytes 0 8) (\<lambda>prefix.
     let payload_start = 8 + le_nat prefix in
     if 2 ^ 64 \<le> payload_start then Raise (ValueError ''metadata record length overflowed'')
     else bindE (record_range bytes 8 payload_start) (\<lambda>metadata_json.
       bindE (parse_object env metadata_json) (\<lambda>metadata_object.
       bindE (metadata_object_to_row schema metadata_object) (\<lambda>metadata.
       Return (metadata, drop payload_start bytes)))))"

text \<open>The stored bytes and the length that the codec saw.\<close>

definition encode_stored_record ::
  "storage_env \<Rightarrow> byte list \<Rightarrow> MetadataField list \<Rightarrow> MetadataValue list \<Rightarrow> shard_policy \<Rightarrow> (byte list \<times> nat) exn" where
  "encode_stored_record env data schema row p =
     (if whole_record p
      then bindE (encode_sample_record env data schema row) (\<lambda>whole.
        bindE (compress_payload env p whole) (\<lambda>bytes. Return (bytes, length whole)))
      else bindE (compress_payload env p data) (\<lambda>payload.
        bindE (encode_sample_record env payload schema row) (\<lambda>bytes. Return (bytes, length data))))"

definition decode_stored_record :: "storage_env \<Rightarrow> byte list \<Rightarrow> Manifest \<Rightarrow> ShardManifest \<Rightarrow> CacheSample exn" where
  "decode_stored_record env bytes manifest shard =
     (let schema = mf_schema (manifest_fields manifest); p = sm_compression shard; bound = sm_uncompressed_byte_len shard in
      if manifest_whole_record manifest
      then bindE (if compressed p then decompress_payload env p bytes bound else Return bytes) (\<lambda>decoded.
        bindE (split_sample_record env decoded schema) (\<lambda>(metadata, payload).
        Return \<lparr>cs_data = payload, cs_metadata = metadata\<rparr>))
      else bindE (split_sample_record env bytes schema) (\<lambda>(metadata, payload).
        bindE (decompress_payload env p payload bound) (\<lambda>data.
        Return \<lparr>cs_data = data, cs_metadata = metadata\<rparr>)))"

section \<open>Metadata file\<close>

definition metadata_cell :: "MetadataValue list \<Rightarrow> nat \<Rightarrow> MetadataValue exn" where
  "metadata_cell row column = (if column < length row then Return (row ! column) else Raise (ValueError ''metadata column is out of range''))"

definition build_array :: "nat \<Rightarrow> metadata_kind \<Rightarrow> MetadataValue list list \<Rightarrow> MetadataValue list exn" where
  "build_array column kind rows =
     mapE (\<lambda>row. bindE (metadata_cell row column) (\<lambda>v.
       if value_kind v = kind then Return v else Raise (ValueError ''metadata kind drifted''))) rows"

fun row_string_bytes :: "storage_env \<Rightarrow> MetadataValue list \<Rightarrow> nat \<Rightarrow> nat exn" where
  "row_string_bytes env [] n = Return n"
| "row_string_bytes env (MString s # cells) n =
     (if 2 ^ 31 \<le> length (utf8 env s) then Raise (ValueError ''metadata string exceeds Arrow UTF-8 offset limit'')
      else if 2 ^ 64 \<le> n + length (utf8 env s) then Raise (ValueError ''metadata row byte length overflowed usize'')
      else row_string_bytes env cells (n + length (utf8 env s)))"
| "row_string_bytes env (cell # cells) n = row_string_bytes env cells n"

fun batch_len_loop :: "storage_env \<Rightarrow> nat \<Rightarrow> MetadataValue list list \<Rightarrow> nat \<Rightarrow> nat \<Rightarrow> nat exn" where
  "batch_len_loop env max_string_bytes [] bytes tally = Return tally"
| "batch_len_loop env max_string_bytes (row # rows) bytes tally =
     bindE (row_string_bytes env row 0) (\<lambda>row_bytes.
     if 0 < tally \<and> max_string_bytes - bytes < row_bytes then Return tally
     else if 2 ^ 64 \<le> bytes + row_bytes then Raise (ValueError ''metadata batch byte length overflowed usize'')
     else batch_len_loop env max_string_bytes rows (bytes + row_bytes) (tally + 1))"

definition metadata_batch_len :: "storage_env \<Rightarrow> MetadataValue list list \<Rightarrow> nat \<Rightarrow> nat \<Rightarrow> nat exn" where
  "metadata_batch_len env rows max_rows max_string_bytes = batch_len_loop env max_string_bytes (take max_rows rows) 0 0"

lemma batch_len_loop_mono: "batch_len_loop env m rows bytes tally = Return n \<Longrightarrow> tally \<le> n \<and> n \<le> tally + length rows"
  by (induction rows arbitrary: bytes tally) (fastforce simp: exn_simps split: if_splits)+

lemma metadata_batch_len_pos:
  "metadata_batch_len env rows (Suc k) m = Return n \<Longrightarrow> rows \<noteq> [] \<Longrightarrow> 0 < n \<and> n \<le> length rows"
  by (cases rows) (auto simp: metadata_batch_len_def exn_simps split: if_splits dest!: batch_len_loop_mono)

definition batch_columns :: "MetadataField list \<Rightarrow> MetadataValue list list \<Rightarrow> MetadataValue list list exn" where
  "batch_columns schema rows = mapE (\<lambda>(column, field). build_array column (field_kind field) rows) (zip [0..<length schema] schema)"

text \<open>The loop of \<open>write_metadata_file\<close>: batches of columns.\<close>

function metadata_batches :: "storage_env \<Rightarrow> MetadataField list \<Rightarrow> MetadataValue list list \<Rightarrow> MetadataValue list list list exn" where
  "metadata_batches env schema rows =
     (if rows = [] then Return []
      else case metadata_batch_len env rows 65536 (8 * 1024 * 1024) of
          Inl e \<Rightarrow> Raise e
        | Inr len \<Rightarrow> bindE (batch_columns schema (take len rows)) (\<lambda>columns.
            bindE (metadata_batches env schema (drop len rows)) (\<lambda>batches. Return (columns # batches))))"
  by pat_completeness auto
termination
  by (relation "measure (\<lambda>(env, schema, rows). length rows)") (auto dest!: metadata_batch_len_pos [where k = 65535, simplified])

declare metadata_batches.simps [simp del]

definition write_metadata_file :: "storage_env \<Rightarrow> MetadataField list \<Rightarrow> MetadataValue list list \<Rightarrow> byte list exn" where
  "write_metadata_file env schema rows =
     guard_op env WriteMetadata (bindE (metadata_batches env schema rows) (\<lambda>batches. arrow_write env schema batches))"

definition read_metadata_row :: "arrow_batch \<Rightarrow> MetadataField list \<Rightarrow> nat \<Rightarrow> MetadataValue list exn" where
  "read_metadata_row batch schema row =
     mapE (\<lambda>(column, field).
       case ab_columns batch ! column ! row of
         Some v \<Rightarrow> if value_kind v = field_kind field then Return v else Raise (ValueError (''metadata '' @ quoted (field_name field) @ '' is not '' @ kind_name (field_kind field)))
       | None \<Rightarrow> Raise (ValueError ''metadata column is missing'')) (zip [0..<length schema] schema)"

definition check_column_name :: "(string \<times> metadata_kind option) \<times> MetadataField \<Rightarrow> unit exn" where
  "check_column_name x =
     (case x of (actual, expected) \<Rightarrow>
      if fst actual \<noteq> field_name expected then Raise (ValueError (''metadata column name does not match '' @ quoted (field_name expected)))
      else Return ())"

definition check_column_type :: "((string \<times> metadata_kind option) \<times> MetadataValue option list) \<times> MetadataField \<Rightarrow> unit exn" where
  "check_column_type x =
     (case x of ((actual, column), field) \<Rightarrow>
      if snd actual \<noteq> Some (field_kind field) \<or> None \<in> set column
      then Raise (ValueError (''metadata '' @ quoted (field_name field) @ '' has invalid type or null values'')) else Return ())"

definition read_metadata_batch :: "arrow_batch \<Rightarrow> MetadataField list \<Rightarrow> MetadataValue list list exn" where
  "read_metadata_batch batch schema =
     (if length (ab_columns batch) \<noteq> length schema then Raise (ValueError ''metadata column count does not match manifest schema'')
      else bindE (mapE check_column_name (zip (ab_fields batch) schema)) (\<lambda>_.
        bindE (mapE check_column_type (zip (zip (ab_fields batch) (ab_columns batch)) schema)) (\<lambda>_.
        mapE (read_metadata_row batch schema) [0..<ab_rows batch])))"

definition read_metadata_file :: "storage_env \<Rightarrow> byte list \<Rightarrow> MetadataField list \<Rightarrow> MetadataValue list list exn" where
  "read_metadata_file env bytes schema =
     bindE (arrow_read env bytes) (\<lambda>batches.
     bindE (mapE (\<lambda>batch. read_metadata_batch batch schema) batches) (\<lambda>rows. Return (concat rows)))"

section \<open>Index\<close>

record IndexEntry =
  ix_shard_id :: nat
  ix_offset :: nat
  ix_byte_len :: nat

definition index_row :: "IndexEntry \<Rightarrow> byte list" where
  "index_row entry = little_endian 8 (int (ix_shard_id entry)) @ little_endian 8 (int (ix_offset entry)) @ little_endian 8 (int (ix_byte_len entry))"

definition write_index_file :: "storage_env \<Rightarrow> IndexEntry list \<Rightarrow> byte list exn" where
  "write_index_file env index = guard_op env WriteIndex (Return (concat (map index_row index)))"

definition read_index_entry :: "byte list \<Rightarrow> IndexEntry exn" where
  "read_index_entry bytes =
     bindE (record_range bytes 0 8) (\<lambda>a. bindE (record_range bytes 8 16) (\<lambda>b. bindE (record_range bytes 16 24) (\<lambda>c.
       Return \<lparr>ix_shard_id = le_nat a, ix_offset = le_nat b, ix_byte_len = le_nat c\<rparr>)))"

definition open_index :: "byte list \<Rightarrow> byte list exn" where
  "open_index bytes =
     (if length bytes mod 24 \<noteq> 0 then Raise (ValueError ''index length is not divisible by row size'') else Return bytes)"

definition index_len :: "byte list \<Rightarrow> nat" where
  "index_len bytes = length bytes div 24"

definition get_index_entry :: "byte list \<Rightarrow> nat \<Rightarrow> IndexEntry exn" where
  "get_index_entry bytes position =
     (if 2 ^ 64 \<le> position * 24 \<or> length bytes < position * 24 + 24 then Raise (ValueError (''sample index '' @ str_nat position @ '' is out of range''))
      else read_index_entry (take 24 (drop (position * 24) bytes)))"

text \<open>\<open>MappedIndex::iter\<close>.\<close>

definition index_entries :: "byte list \<Rightarrow> IndexEntry exn list" where
  "index_entries bytes = map (\<lambda>i. read_index_entry (take 24 (drop (i * 24) bytes))) [0..<index_len bytes]"

section \<open>Writing a cache\<close>

record OpenShard =
  os_id :: nat
  os_name :: string
  os_bytes :: "byte list"
  os_byte_len :: nat
  os_uncompressed_byte_len :: nat

record CacheBuilder =
  cb_source_name :: string
  cb_max_shard_bytes :: nat
  cb_schema :: "MetadataField list"
  cb_metadata_rows :: "MetadataValue list list"
  cb_index :: "IndexEntry list"
  cb_shards :: "ShardManifest list"
  cb_compression :: shard_policy
  cb_current :: OpenShard
  cb_files :: "string \<rightharpoonup> byte list"

text \<open>\<open>format!("{id:06}.bin")\<close>, below the directory of shards.\<close>

definition shard_name :: "nat \<Rightarrow> string" where
  "shard_name i = replicate (6 - length (str_nat i)) CHR ''0'' @ str_nat i @ ''.bin''"

definition shard_path :: "string \<Rightarrow> string" where
  "shard_path name = ''shards/'' @ name"

definition create_shard :: "storage_env \<Rightarrow> nat \<Rightarrow> OpenShard exn" where
  "create_shard env i =
     guard_op env (CreateShard i)
       (Return \<lparr>os_id = i, os_name = shard_name i, os_bytes = [], os_byte_len = 0, os_uncompressed_byte_len = 0\<rparr>)"

definition create_builder :: "storage_env \<Rightarrow> bool \<Rightarrow> string \<Rightarrow> nat \<Rightarrow> shard_policy \<Rightarrow> CacheBuilder exn" where
  "create_builder env path_exists name max_bytes p =
     (if path_exists then Raise (ValueError ''cache path already exists'')
      else guard_op env CreateDirectory
        (bindE (create_shard env 0) (\<lambda>shard.
         Return \<lparr>cb_source_name = name, cb_max_shard_bytes = max_bytes, cb_schema = [], cb_metadata_rows = [], cb_index = [],
           cb_shards = [], cb_compression = p, cb_current = shard, cb_files = [shard_path (os_name shard) \<mapsto> []]\<rparr>)))"

definition write_payload :: "storage_env \<Rightarrow> nat \<Rightarrow> byte list \<Rightarrow> nat \<Rightarrow> OpenShard \<Rightarrow> (IndexEntry \<times> OpenShard) exn" where
  "write_payload env number data uncompressed shard =
     (if 2 ^ 64 \<le> os_byte_len shard + length data then Raise (ValueError ''shard byte length overflowed u64'')
      else if 2 ^ 64 \<le> os_uncompressed_byte_len shard + uncompressed
      then Raise (ValueError ''shard uncompressed byte length overflowed u64'')
      else guard_op env (WriteRecord number)
        (Return (\<lparr>ix_shard_id = os_id shard, ix_offset = os_byte_len shard, ix_byte_len = length data\<rparr>,
          shard\<lparr>os_bytes := os_bytes shard @ data, os_byte_len := os_byte_len shard + length data,
            os_uncompressed_byte_len := os_uncompressed_byte_len shard + uncompressed\<rparr>)))"

text \<open>Closing a shard: its manifest entry, and its content in the file.\<close>

definition shard_manifest :: "storage_env \<Rightarrow> shard_policy \<Rightarrow> OpenShard \<Rightarrow> ShardManifest" where
  "shard_manifest env p shard =
     \<lparr>sm_name = os_name shard, sm_uncompressed_byte_len = os_uncompressed_byte_len shard, sm_byte_len = os_byte_len shard,
      sm_compression = p, sm_sha256 = hash_bytes env (os_bytes shard)\<rparr>"

definition finish_shard :: "storage_env \<Rightarrow> CacheBuilder \<Rightarrow> CacheBuilder exn" where
  "finish_shard env b =
     guard_op env (FlushShard (os_id (cb_current b)))
       (Return (b\<lparr>cb_shards := cb_shards b @ [shard_manifest env (cb_compression b) (cb_current b)],
          cb_files := (cb_files b)(shard_path (os_name (cb_current b)) \<mapsto> os_bytes (cb_current b))\<rparr>))"

definition rotate_shard_if_needed :: "storage_env \<Rightarrow> nat \<Rightarrow> CacheBuilder \<Rightarrow> CacheBuilder exn" where
  "rotate_shard_if_needed env next_payload_len b =
     (let current = cb_current b in
      if os_byte_len current = 0 then Return b
      else if next_payload_len \<le> cb_max_shard_bytes b - os_byte_len current then Return b
      else if 2 ^ 64 \<le> os_id current + 1 then Raise (ValueError ''shard id overflowed u64'')
      else bindE (create_shard env (os_id current + 1)) (\<lambda>fresh.
        bindE (finish_shard env (b\<lparr>cb_files := (cb_files b)(shard_path (os_name fresh) \<mapsto> [])\<rparr>)) (\<lambda>closed.
        Return (closed\<lparr>cb_current := fresh\<rparr>))))"

definition validate_metadata :: "metadata_object \<Rightarrow> CacheBuilder \<Rightarrow> (MetadataValue list \<times> CacheBuilder) exn" where
  "validate_metadata metadata b =
     (let schema = (if cb_schema b = [] then map (\<lambda>(name, v). \<lparr>field_name = name, field_kind = value_kind v\<rparr>) metadata else cb_schema b) in
      if length metadata \<noteq> length schema then Raise (ValueError ''metadata keys must be identical for every sample'')
      else bindE (mapE (row_cell ''metadata'' metadata) schema) (\<lambda>row. Return (row, b\<lparr>cb_schema := schema\<rparr>)))"

definition push_sample :: "storage_env \<Rightarrow> byte list \<times> metadata_object \<Rightarrow> CacheBuilder \<Rightarrow> CacheBuilder exn" where
  "push_sample env sample b =
     (case sample of (data, metadata) \<Rightarrow>
      bindE (validate_metadata metadata b) (\<lambda>(row, b1).
      bindE (encode_stored_record env data (cb_schema b1) row (cb_compression b1)) (\<lambda>(bytes, uncompressed).
      bindE (rotate_shard_if_needed env (length bytes) b1) (\<lambda>b2.
      bindE (write_payload env (length (cb_index b2)) bytes uncompressed (cb_current b2)) (\<lambda>(entry, shard).
      Return (b2\<lparr>cb_current := shard, cb_index := cb_index b2 @ [entry], cb_metadata_rows := cb_metadata_rows b2 @ [row]\<rparr>))))))"

definition finish_builder :: "storage_env \<Rightarrow> CacheBuilder \<Rightarrow> (Manifest \<times> (string \<rightharpoonup> byte list)) exn" where
  "finish_builder env b =
     (if cb_index b = [] then Raise (ValueError ''cache source yielded no samples'')
      else bindE (finish_shard env b) (\<lambda>b1.
        bindE (write_metadata_file env (cb_schema b1) (cb_metadata_rows b1)) (\<lambda>metadata_bytes.
        bindE (write_index_file env (cb_index b1)) (\<lambda>index_bytes.
        let fields = \<lparr>mf_source_name = cb_source_name b1, mf_sample_count = length (cb_index b1), mf_schema = cb_schema b1,
              mf_metadata_sha256 = hash_bytes env metadata_bytes, mf_index_sha256 = hash_bytes env index_bytes,
              mf_shards = cb_shards b1, mf_extra = []\<rparr>;
            identity = cache_id_from_name env (cb_source_name b1);
            manifest = (if whole_record (cb_compression b1) then V4 identity fields else V3 identity fields) in
        bindE (guard_op env WriteManifest (json_manifest env manifest)) (\<lambda>manifest_bytes.
        Return (manifest, (cb_files b1)(''metadata.arrow'' \<mapsto> metadata_bytes, ''index.bin'' \<mapsto> index_bytes,
             ''manifest.json'' \<mapsto> manifest_bytes)))))))"

fun push_samples :: "storage_env \<Rightarrow> (byte list \<times> metadata_object) list \<Rightarrow> CacheBuilder \<Rightarrow> CacheBuilder exn" where
  "push_samples env [] b = Return b"
| "push_samples env (sample # samples) b = bindE (push_sample env sample b) (push_samples env samples)"

section \<open>Loading a cache\<close>

record LoadedCache =
  lc_cache_id :: nat
  lc_manifest :: Manifest
  lc_metadata_rows :: "MetadataValue list list option"
  lc_index :: "byte list"
  lc_validate :: bool

definition open_file :: "(string \<rightharpoonup> byte list) \<Rightarrow> string \<Rightarrow> byte list exn" where
  "open_file files name = (case files name of Some bytes \<Rightarrow> Return bytes | None \<Rightarrow> Raise (RuntimeError (''I/O error: '' @ name)))"

definition read_manifest :: "storage_env \<Rightarrow> (string \<rightharpoonup> byte list) \<Rightarrow> Manifest exn" where
  "read_manifest env files =
     (case files ''manifest.json'' of
        None \<Rightarrow> Raise (ValueError ''missing manifest'')
      | Some bytes \<Rightarrow> bindE (parse_manifest env bytes) accept_manifest)"

definition verify_file_checksum :: "storage_env \<Rightarrow> (string \<rightharpoonup> byte list) \<Rightarrow> string \<Rightarrow> string \<Rightarrow> unit exn" where
  "verify_file_checksum env files name expected =
     bindE (open_file files name) (\<lambda>bytes.
     if hash_bytes env bytes \<noteq> expected then Raise (ValueError (''checksum mismatch for '' @ name)) else Return ())"

definition verify_shard :: "storage_env \<Rightarrow> (string \<rightharpoonup> byte list) \<Rightarrow> bool \<Rightarrow> ShardManifest \<Rightarrow> unit exn" where
  "verify_shard env files validate shard =
     bindE (open_file files (shard_path (sm_name shard))) (\<lambda>bytes.
     if length bytes \<noteq> sm_byte_len shard then Raise (ValueError (''shard length mismatch for '' @ shard_path (sm_name shard)))
     else if validate then verify_file_checksum env files (shard_path (sm_name shard)) (sm_sha256 shard) else Return ())"

definition validate_loaded_shapes :: "Manifest \<Rightarrow> MetadataValue list list option \<Rightarrow> byte list \<Rightarrow> unit exn" where
  "validate_loaded_shapes manifest rows index =
     (let count_expected = mf_sample_count (manifest_fields manifest) in
      if (case rows of Some rs \<Rightarrow> length rs \<noteq> count_expected | None \<Rightarrow> False)
      then Raise (ValueError ''metadata row count does not match manifest'')
      else if index_len index \<noteq> count_expected then Raise (ValueError ''index row count does not match manifest'')
      else bindE (mapE (\<lambda>item. bindE item (\<lambda>entry.
             if length (mf_shards (manifest_fields manifest)) \<le> ix_shard_id entry
             then Raise (ValueError (''index references missing shard '' @ str_nat (ix_shard_id entry))) else Return ())) (index_entries index)) (\<lambda>_. Return ()))"

definition load_cache :: "storage_env \<Rightarrow> (string \<rightharpoonup> byte list) \<Rightarrow> bool \<Rightarrow> nat \<Rightarrow> LoadedCache exn" where
  "load_cache env files validate position =
     bindE (read_manifest env files) (\<lambda>manifest.
     let fields = manifest_fields manifest in
     bindE (if validate
            then bindE (verify_file_checksum env files ''metadata.arrow'' (mf_metadata_sha256 fields)) (\<lambda>_.
              verify_file_checksum env files ''index.bin'' (mf_index_sha256 fields))
            else Return ()) (\<lambda>_.
     bindE (mapE (verify_shard env files validate) (mf_shards fields)) (\<lambda>_.
     bindE (bindE (open_file files ''index.bin'') open_index) (\<lambda>index.
     bindE (open_file files ''metadata.arrow'') (\<lambda>metadata_bytes.
     bindE (if validate then bindE (read_metadata_file env metadata_bytes (mf_schema fields)) (\<lambda>rows. Return (Some rows))
            else Return None) (\<lambda>rows.
     bindE (validate_loaded_shapes manifest rows index) (\<lambda>_.
     Return \<lparr>lc_cache_id = resolve_cache_id manifest position, lc_manifest = manifest, lc_metadata_rows = rows,
       lc_index = index, lc_validate = validate\<rparr>)))))))"

definition loaded_sample_count :: "LoadedCache \<Rightarrow> nat" where
  "loaded_sample_count cache = index_len (lc_index cache)"

text \<open>The open shard files of one worker, most recently used last.\<close>

record ShardReaderCache =
  readers :: "(string \<times> byte list) list"
  recent_paths :: "string list"
  max_readers :: nat

definition new_reader_cache :: ShardReaderCache where
  "new_reader_cache = \<lparr>readers = [], recent_paths = [], max_readers = 64\<rparr>"

definition mark_recent :: "string \<Rightarrow> ShardReaderCache \<Rightarrow> ShardReaderCache" where
  "mark_recent name c = c\<lparr>recent_paths := filter (\<lambda>p. p \<noteq> name) (recent_paths c) @ [name]\<rparr>"

fun evict_loop :: "nat \<Rightarrow> string list \<Rightarrow> (string \<times> byte list) list \<Rightarrow> (string \<times> byte list) list \<times> string list" where
  "evict_loop limit [] open_readers = (open_readers, [])"
| "evict_loop limit (oldest # recents) open_readers =
     (if limit \<le> length open_readers then evict_loop limit recents (filter (\<lambda>(p, f). p \<noteq> oldest) open_readers)
      else (open_readers, oldest # recents))"

definition evict_if_full :: "ShardReaderCache \<Rightarrow> ShardReaderCache" where
  "evict_if_full c =
     (case evict_loop (max_readers c) (recent_paths c) (readers c) of
        (open_readers, recents) \<Rightarrow> c\<lparr>readers := open_readers, recent_paths := recents\<rparr>)"

text \<open>The cache after the call, and the file or the error of opening it.\<close>

definition reader_for :: "(string \<rightharpoonup> byte list) \<Rightarrow> string \<Rightarrow> ShardReaderCache \<Rightarrow> ShardReaderCache \<times> byte list exn" where
  "reader_for files name c =
     (case map_of (readers c) name of
        Some file_bytes \<Rightarrow> (mark_recent name c, Return file_bytes)
      | None \<Rightarrow>
          let c1 = evict_if_full c in
          (case open_file files name of
             Inl e \<Rightarrow> (c1, Raise e)
           | Inr file_bytes \<Rightarrow> (c1\<lparr>readers := (name, file_bytes) # readers c1, recent_paths := recent_paths c1 @ [name]\<rparr>, Return file_bytes)))"

definition read_exact :: "byte list \<Rightarrow> nat \<Rightarrow> nat \<Rightarrow> byte list exn" where
  "read_exact bytes offset len =
     (if length bytes < offset + len then Raise (RuntimeError ''I/O error: failed to fill whole buffer'')
      else Return (take len (drop offset bytes)))"

definition with_metadata_rows :: "storage_env \<Rightarrow> (string \<rightharpoonup> byte list) \<Rightarrow> LoadedCache \<Rightarrow> MetadataValue list list exn" where
  "with_metadata_rows env files cache =
     (case lc_metadata_rows cache of
        Some rows \<Rightarrow> Return rows
      | None \<Rightarrow> bindE (open_file files ''metadata.arrow'') (\<lambda>bytes. read_metadata_file env bytes (mf_schema (manifest_fields (lc_manifest cache)))))"

definition validate_redundant_metadata :: "MetadataValue list \<Rightarrow> MetadataValue list \<Rightarrow> nat \<Rightarrow> unit exn" where
  "validate_redundant_metadata metadata embedded i =
     (if list_all2 value_eq metadata embedded then Return ()
      else Raise (ValueError (''embedded metadata does not match metadata.arrow for sample '' @ str_nat i)))"

definition check_embedded :: "storage_env \<Rightarrow> (string \<rightharpoonup> byte list) \<Rightarrow> LoadedCache \<Rightarrow> nat \<Rightarrow> CacheSample \<Rightarrow> CacheSample exn" where
  "check_embedded env files cache i sample =
     (if lc_validate cache
      then bindE (with_metadata_rows env files cache) (\<lambda>rows.
        if length rows \<le> i then Raise (ValueError (''metadata row '' @ str_nat i @ '' is out of range''))
        else bindE (validate_redundant_metadata (rows ! i) (cs_metadata sample) i) (\<lambda>_. Return sample))
      else Return sample)"

definition read_sample_with_cache ::
  "storage_env \<Rightarrow> (string \<rightharpoonup> byte list) \<Rightarrow> LoadedCache \<Rightarrow> nat \<Rightarrow> ShardReaderCache \<Rightarrow> ShardReaderCache \<times> CacheSample exn" where
  "read_sample_with_cache env files cache i c =
     (case get_index_entry (lc_index cache) i of
        Inl e \<Rightarrow> (c, Raise e)
      | Inr entry \<Rightarrow>
          let shards = mf_shards (manifest_fields (lc_manifest cache)) in
          if length shards \<le> ix_shard_id entry then (c, Raise (ValueError (''shard id '' @ str_nat (ix_shard_id entry) @ '' is out of range'')))
          else let shard = shards ! ix_shard_id entry in
            if 2 ^ 64 \<le> ix_offset entry + ix_byte_len entry then (c, Raise (ValueError ''record offset and length overflowed u64''))
            else (case reader_for files (shard_path (sm_name shard)) c of
                (c1, Inl e) \<Rightarrow> (c1, Raise e)
              | (c1, Inr file_bytes) \<Rightarrow>
                  (c1,
                   if sm_byte_len shard < ix_offset entry + ix_byte_len entry then Raise (ValueError ''record extends beyond shard length'')
                   else bindE (read_exact file_bytes (ix_offset entry) (ix_byte_len entry)) (\<lambda>bytes.
                     bindE (decode_stored_record env bytes (lc_manifest cache) shard) (check_embedded env files cache i)))))"


section \<open>What the arguments promise\<close>

text \<open>The documented behaviour of the crates: a block decodes into a buffer of its original size, and the block
  formats hold less than four gibibytes; a metadata table is read back as written and has a column; a manifest is
  read back as written.\<close>

definition codec_laws :: "storage_env \<Rightarrow> bool" where
  "codec_laws env \<longleftrightarrow> (\<forall>p data body. compressed p \<longrightarrow> block_encode env p data = Return body \<longrightarrow>
     length data < 2 ^ 32 \<and> block_decode env p body (length data) = Return data)"

definition arrow_batch_of :: "MetadataField list \<Rightarrow> MetadataValue list list \<Rightarrow> arrow_batch" where
  "arrow_batch_of schema columns =
     \<lparr>ab_fields = map (\<lambda>f. (field_name f, Some (field_kind f))) schema, ab_columns = map (map Some) columns, ab_rows = length (hd columns)\<rparr>"

definition file_laws :: "storage_env \<Rightarrow> bool" where
  "file_laws env \<longleftrightarrow>
     (\<forall>schema batches bytes. arrow_write env schema batches = Return bytes \<longrightarrow>
        schema \<noteq> [] \<and> arrow_read env bytes = Return (map (arrow_batch_of schema) batches)) \<and>
     (\<forall>m bytes. json_manifest env m = Return bytes \<longrightarrow> parse_manifest env bytes = Return m)"

text \<open>JSON does not keep every metadata object (numbers that are not finite become \<open>null\<close>), so this is asked of the
  objects that are written.\<close>

definition json_exact :: "storage_env \<Rightarrow> metadata_object \<Rightarrow> bool" where
  "json_exact env m \<longleftrightarrow> (\<forall>bytes. json_object env m = Return bytes \<longrightarrow> parse_object env bytes = Return m)"

section \<open>Ordered entries\<close>

lemma btree_insert_last: "\<forall>l\<in>fst ` set m. l < k \<Longrightarrow> btree_insert k v m = m @ [(k, v)]"
  by (induction k v m rule: btree_insert.induct) auto

lemma btree_collect_id: "btree m \<Longrightarrow> btree_collect m = m"
proof (induction m rule: rev_induct)
  case (snoc x m)
  obtain k v where x: "x = (k, v)" by (cases x)
  have "btree m" "\<forall>l\<in>fst ` set m. l < k" using snoc.prems x by (auto simp: btree_def sorted_wrt_append)
  then show ?case using snoc.IH btree_insert_last [of m k v] x by (simp add: btree_collect_def)
qed (simp add: btree_collect_def)

lemma btree_distinct: "btree m \<Longrightarrow> distinct (map fst m)"
  unfolding btree_def by (metis strict_sorted_iff)

lemma row_cell_Return:
  "row_cell label m f = Return v \<longleftrightarrow> map_of m (field_name f) = Some v \<and> value_kind v = field_kind f"
  by (auto simp: row_cell_def split: option.splits)

lemma mapE_Return_iff: "mapE f xs = Return ys \<longleftrightarrow> list_all2 (\<lambda>x y. f x = Return y) xs ys"
  by (induction xs arbitrary: ys) (auto simp: exn_simps list_all2_Cons1)

lemma mapE_elements: "mapE f xs = Return ys \<Longrightarrow> x \<in> set xs \<Longrightarrow> \<exists>y. f x = Return y"
  by (auto simp: mapE_Return_iff list_all2_conv_all_nth in_set_conv_nth)

lemma mapE_unit: "(\<And>x. x \<in> set xs \<Longrightarrow> f x = Return ()) \<Longrightarrow> \<exists>us. mapE f xs = Return us"
  by (induction xs) (auto simp: exn_simps)

text \<open>A row that fits a schema in key order is the object itself.\<close>

lemma fitting_row:
  assumes m: "btree m" and schema: "sorted_wrt (<) (map field_name schema)" and "length m = length schema"
    and row: "mapE (row_cell label m) schema = Return row"
  shows "zip (map field_name schema) row = m" and "row = map snd m"
proof -
  have cells: "list_all2 (\<lambda>f v. map_of m (field_name f) = Some v \<and> value_kind v = field_kind f) schema row"
    using row by (simp add: mapE_Return_iff row_cell_Return)
  have "set (map field_name schema) \<subseteq> set (map fst m)"
  proof
    fix x assume "x \<in> set (map field_name schema)"
    then obtain i where i: "i < length schema" "x = field_name (schema ! i)" by (auto simp: in_set_conv_nth)
    then have "map_of m x = Some (row ! i)" using cells by (simp add: list_all2_conv_all_nth)
    then show "x \<in> set (map fst m)" by (force dest: map_of_SomeD)
  qed
  moreover have "distinct (map field_name schema)" using schema by (metis strict_sorted_iff)
  ultimately have "set (map field_name schema) = set (map fst m)"
    using distinct_card [OF btree_distinct [OF m]] distinct_card [of "map field_name schema"] \<open>length m = length schema\<close>
    by (intro card_subset_eq) simp_all
  then have names: "map field_name schema = map fst m"
    by (intro strict_sorted_equal) (use schema m in \<open>simp_all add: btree_def\<close>)
  have "row ! i = snd (m ! i)" if "i < length m" for i
  proof -
    have "field_name (schema ! i) = fst (m ! i)" using arg_cong [OF names, of "\<lambda>xs. xs ! i"] that \<open>length m = length schema\<close> by simp
    then have "map_of m (fst (m ! i)) = Some (row ! i)" using list_all2_nthD [OF cells, of i] that \<open>length m = length schema\<close> by auto
    then show ?thesis using map_of_is_SomeI [OF btree_distinct [OF m], of "fst (m ! i)" "snd (m ! i)"] that by simp
  qed
  moreover have "length row = length m" using cells \<open>length m = length schema\<close> by (simp add: list_all2_lengthD)
  ultimately show "row = map snd m" by (simp add: nth_equalityI)
  then show "zip (map field_name schema) row = m" using names by (simp add: zip_map_fst_snd)
qed

section \<open>Records\<close>

lemma compress_payload_Return:
  "compress_payload env p data = Return bytes \<Longrightarrow>
   (\<not> compressed p \<and> bytes = data) \<or>
   (compressed p \<and> (\<exists>body. block_encode env p data = Return body \<and> bytes = little_endian 4 (int (length data)) @ body))"
  by (induction env p data rule: compress_payload.induct) (auto simp: frame_block_def exn_simps split: if_splits)

lemma decompress_compress:
  assumes "codec_laws env" and "compress_payload env p data = Return bytes" and "length data \<le> bound"
  shows "decompress_payload env p bytes bound = Return data"
proof (cases "compressed p")
  case True
  then obtain body where body: "block_encode env p data = Return body" "bytes = little_endian 4 (int (length data)) @ body"
    using compress_payload_Return [OF assms(2)] by auto
  then have laws: "length data < 2 ^ 32" "block_decode env p body (length data) = Return data"
    using assms(1) True unfolding codec_laws_def by blast+
  have "le_nat (little_endian 4 (int (length data))) = length data" using laws(1) by (intro le_nat_inverse) simp
  then show ?thesis using True body(2) laws(2) assms(3) by (simp add: decompress_payload_def)
qed (use compress_payload_Return [OF assms(2)] in \<open>simp add: decompress_payload_def\<close>)

lemma encode_sample_record_Return:
  "encode_sample_record env payload schema row = Return bytes \<longleftrightarrow>
   length row = length schema \<and> (\<exists>json. json_object env (btree_collect (zip (map field_name schema) row)) = Return json \<and>
     8 + length json + length payload < 2 ^ 64 \<and> bytes = little_endian 8 (int (length json)) @ json @ payload)"
  by (cases "json_object env (btree_collect (zip (map field_name schema) row))")
    (auto simp: encode_sample_record_def metadata_row_to_object_def)

lemma split_encode:
  assumes "encode_sample_record env payload schema row = Return bytes" and "json_exact env m"
    and "zip (map field_name schema) row = m" and "btree m" and "mapE (row_cell label m) schema = Return row"
  shows "split_sample_record env bytes schema = Return (row, payload)"
proof -
  obtain json where json: "json_object env m = Return json" "8 + length json + length payload < 2 ^ 64"
      "bytes = little_endian 8 (int (length json)) @ json @ payload" and len: "length row = length schema"
    using assms(1,3,4) btree_collect_id [of m] by (auto simp: encode_sample_record_Return)
  have prefix: "le_nat (little_endian 8 (int (length json))) = length json" using json(2) by (intro le_nat_inverse) simp
  have "length m = length schema" using assms(3) len by auto
  moreover have "mapE (row_cell ''embedded metadata'' m) schema = Return row"
    using assms(5) by (simp add: mapE_Return_iff row_cell_Return)
  ultimately have "metadata_object_to_row schema m = Return row" by (simp add: metadata_object_to_row_def)
  moreover have "parse_object env json = Return m" using assms(2) json(1) unfolding json_exact_def by blast
  ultimately show ?thesis using json prefix by (simp add: split_sample_record_def record_range_def)
qed

lemma encode_stored_nonempty: "encode_stored_record env data schema row p = Return (bytes, n) \<Longrightarrow> bytes \<noteq> []"
  by (auto simp: encode_stored_record_def exn_simps encode_sample_record_Return split: if_splits dest!: compress_payload_Return)
    (auto dest: arg_cong [where f = length])

text \<open>Decoding a stored record gives back the sample, whatever the compression.\<close>

lemma decode_stored:
  assumes "codec_laws env" and "encode_stored_record env data schema row p = Return (bytes, n)"
    and "json_exact env m" "zip (map field_name schema) row = m" "btree m" "mapE (row_cell label m) schema = Return row"
    and "n \<le> sm_uncompressed_byte_len shard" and "sm_compression shard = p"
    and "mf_schema (manifest_fields manifest) = schema" and "manifest_whole_record manifest = whole_record p"
  shows "decode_stored_record env bytes manifest shard = Return \<lparr>cs_data = data, cs_metadata = row\<rparr>"
proof (cases "whole_record p")
  case True
  then obtain whole where whole: "encode_sample_record env data schema row = Return whole" "compress_payload env p whole = Return bytes" "n = length whole"
    using assms(2) by (auto simp: encode_stored_record_def exn_simps)
  have "(if compressed p then decompress_payload env p bytes (sm_uncompressed_byte_len shard) else Return bytes) = Return whole"
    using decompress_compress [OF assms(1) whole(2)] compress_payload_Return [OF whole(2)] assms(7) whole(3) by auto
  then show ?thesis using True split_encode [OF whole(1) assms(3-6)] assms(8-10) by (simp add: decode_stored_record_def Let_def)
next
  case False
  then obtain payload where payload: "compress_payload env p data = Return payload" "encode_sample_record env payload schema row = Return bytes" "n = length data"
    using assms(2) by (auto simp: encode_stored_record_def exn_simps)
  show ?thesis using False split_encode [OF payload(2) assms(3-6)] decompress_compress [OF assms(1) payload(1)] assms(7-10) payload(3)
    by (simp add: decode_stored_record_def Let_def)
qed

section \<open>Index\<close>

definition entry_ok :: "IndexEntry \<Rightarrow> bool" where
  "entry_ok e \<longleftrightarrow> ix_shard_id e < 2 ^ 64 \<and> ix_offset e < 2 ^ 64 \<and> ix_byte_len e < 2 ^ 64"

text \<open>A file of rows of one width: row \<open>i\<close> starts at \<open>i * width\<close>, and is read back when it fits.\<close>

locale fixed_rows =
  fixes encode :: "'a \<Rightarrow> byte list" and decode :: "byte list \<Rightarrow> 'a exn" and fits :: "'a \<Rightarrow> bool" and width :: nat
  assumes encode_width: "length (encode x) = width"
    and decode_encoded: "fits x \<Longrightarrow> decode (encode x) = Return x"
begin

lemma rows_length: "length (concat (map encode xs)) = width * length xs"
  by (induction xs) (simp_all add: encode_width)

lemma row_slice: "i < length xs \<Longrightarrow> take width (drop (i * width) (concat (map encode xs))) = encode (xs ! i)"
proof (induction xs arbitrary: i)
  case (Cons x xs)
  then show ?case by (cases i) (simp_all add: add.commute encode_width)
qed simp

lemma row_read: "i < length xs \<Longrightarrow> fits (xs ! i) \<Longrightarrow> decode (take width (drop (i * width) (concat (map encode xs)))) = Return (xs ! i)"
  by (simp add: row_slice decode_encoded)

end

lemma read_index_row: "entry_ok e \<Longrightarrow> read_index_entry (index_row e) = Return e"
proof -
  assume "entry_ok e"
  then have "le_nat (little_endian 8 (int (ix_shard_id e))) = ix_shard_id e" "le_nat (little_endian 8 (int (ix_offset e))) = ix_offset e"
      "le_nat (little_endian 8 (int (ix_byte_len e))) = ix_byte_len e"
    by (auto simp: entry_ok_def intro!: le_nat_inverse)
  then show ?thesis by (simp add: read_index_entry_def record_range_def index_row_def)
qed

interpretation index_rows: fixed_rows index_row read_index_entry entry_ok 24
  by unfold_locales (simp add: index_row_def, rule read_index_row)

lemma open_index_rows: "open_index (concat (map index_row es)) = Return (concat (map index_row es))"
  by (simp add: open_index_def index_rows.rows_length)

lemma index_len_rows [simp]: "index_len (concat (map index_row es)) = length es"
  by (simp add: index_len_def index_rows.rows_length)

lemma get_index_rows:
  assumes "i < length es" and "entry_ok (es ! i)" and "length es * 24 < 2 ^ 64"
  shows "get_index_entry (concat (map index_row es)) i = Return (es ! i)"
  using assms index_rows.row_read [OF assms(1,2)] by (simp add: get_index_entry_def index_rows.rows_length)

lemma index_entries_rows: "list_all entry_ok es \<Longrightarrow> index_entries (concat (map index_row es)) = map Return es"
  by (intro nth_equalityI) (auto simp: index_entries_def index_rows.row_read list_all_length)

end
