(* ===== verification/Cache_Roundtrip.thy ===== *)
theory Cache_Roundtrip
  imports Native_Storage
begin

text \<open>
  What the native storage guarantees: the invariant of \<open>CacheBuilder\<close> under every push, the bound of the shards, that a
  finished cache loads and gives back every sample, and that the cache of open shard files is bounded and invisible.
\<close>

section \<open>The metadata table\<close>

lemma build_array_Return:
  "build_array j kind rows = Return column \<longleftrightarrow>
   (\<forall>row\<in>set rows. j < length row \<and> value_kind (row ! j) = kind) \<and> column = map (\<lambda>row. row ! j) rows"
  unfolding build_array_def
  by (induction rows arbitrary: column) (auto simp: exn_simps metadata_cell_def split: if_splits)

lemma batch_columns_Return:
  assumes "batch_columns schema rows = Return columns"
  shows "length columns = length schema"
    and "j < length schema \<Longrightarrow> columns ! j = map (\<lambda>row. row ! j) rows"
    and "j < length schema \<Longrightarrow> row \<in> set rows \<Longrightarrow> j < length row \<and> value_kind (row ! j) = field_kind (schema ! j)"
proof -
  have all: "list_all2 (\<lambda>x column. build_array (fst x) (field_kind (snd x)) rows = Return column) (zip [0..<length schema] schema) columns"
    using assms by (simp add: batch_columns_def mapE_Return_iff case_prod_beta)
  then show len: "length columns = length schema" by (simp add: list_all2_lengthD [symmetric])
  have "build_array j (field_kind (schema ! j)) rows = Return (columns ! j)" if "j < length schema" for j
    using list_all2_nthD [OF all, of j] that by simp
  then show "j < length schema \<Longrightarrow> columns ! j = map (\<lambda>row. row ! j) rows"
    "j < length schema \<Longrightarrow> row \<in> set rows \<Longrightarrow> j < length row \<and> value_kind (row ! j) = field_kind (schema ! j)"
    by (auto simp: build_array_Return)
qed

lemma read_batch:
  assumes "batch_columns schema rows = Return columns" and "schema \<noteq> []" and "\<forall>row\<in>set rows. length row = length schema"
  shows "read_metadata_batch (arrow_batch_of schema columns) schema = Return rows"
proof -
  note columns = batch_columns_Return [OF assms(1)]
  have count: "length (hd columns) = length rows"
    using columns(1) columns(2) [of 0] assms(2) by (cases columns) auto
  have row: "read_metadata_row (arrow_batch_of schema columns) schema i = Return (rows ! i)" if "i < length rows" for i
  proof -
    have "list_all2 (\<lambda>(column, field) v. map (map Some) columns ! column ! i = Some v \<and> value_kind v = field_kind field)
        (zip [0..<length schema] schema) (rows ! i)"
      using that columns assms(3) by (auto simp: list_all2_conv_all_nth)
    then have "list_all2 (\<lambda>x v. (case x of (column, field) \<Rightarrow>
         case map (map Some) columns ! column ! i of
           Some v \<Rightarrow> if value_kind v = field_kind field then Return v else Raise (ValueError (''metadata '' @ quoted (field_name field) @ '' is not '' @ kind_name (field_kind field)))
         | None \<Rightarrow> Raise (ValueError ''metadata column is missing'')) = Return v) (zip [0..<length schema] schema) (rows ! i)"
      by (rule list_all2_mono) auto
    then show ?thesis by (simp add: read_metadata_row_def mapE_Return_iff arrow_batch_of_def)
  qed
  have "mapE (read_metadata_row (arrow_batch_of schema columns) schema) [0..<length rows] = Return rows"
    by (simp add: mapE_Return_iff list_all2_conv_all_nth row)
  moreover have "\<exists>us. mapE check_column_name (zip (map (\<lambda>f. (field_name f, Some (field_kind f))) schema) schema) = Return us"
    by (rule mapE_unit) (auto simp: check_column_name_def in_set_zip)
  moreover have "\<exists>us. mapE check_column_type (zip (zip (map (\<lambda>f. (field_name f, Some (field_kind f))) schema) (map (map Some) columns)) schema) = Return us"
    by (rule mapE_unit) (auto simp: check_column_type_def in_set_zip)
  ultimately show ?thesis using columns(1) count by (auto simp: read_metadata_batch_def arrow_batch_of_def)
qed

lemma metadata_batches_cells:
  assumes "metadata_batches env schema rows = Return batches"
  shows "row \<in> set rows \<Longrightarrow> j < length schema \<Longrightarrow> j < length row \<and> value_kind (row ! j) = field_kind (schema ! j)"
  using assms
proof (induction env schema rows arbitrary: batches rule: metadata_batches.induct)
  case (1 env schema rows)
  then have "rows \<noteq> []" by auto
  then obtain len columns rest where steps: "metadata_batch_len env rows 65536 (8 * 1024 * 1024) = Return len"
      "batch_columns schema (take len rows) = Return columns" "metadata_batches env schema (drop len rows) = Return rest"
    using 1(4) by (subst (asm) metadata_batches.simps) (auto simp: exn_simps split: sum.splits)
  have "row \<in> set (take len rows) \<or> row \<in> set (drop len rows)" using 1(2) by (metis Un_iff append_take_drop_id set_append)
  then show ?case using batch_columns_Return(3) [OF steps(2)] 1(1) [OF \<open>rows \<noteq> []\<close> steps(1) _ 1(3) steps(3)] 1(3) by blast
qed

lemma metadata_batches_read:
  assumes "metadata_batches env schema rows = Return batches" and "schema \<noteq> []" and "\<forall>row\<in>set rows. length row = length schema"
  shows "\<exists>parts. mapE (\<lambda>b. read_metadata_batch b schema) (map (arrow_batch_of schema) batches) = Return parts \<and> concat parts = rows"
  using assms
proof (induction env schema rows arbitrary: batches rule: metadata_batches.induct)
  case (1 env schema rows)
  show ?case
  proof (cases "rows = []")
    case True
    then show ?thesis using 1(2) by (simp add: metadata_batches.simps)
  next
    case False
    then obtain len columns rest where steps: "metadata_batch_len env rows 65536 (8 * 1024 * 1024) = Return len"
        "batch_columns schema (take len rows) = Return columns" "metadata_batches env schema (drop len rows) = Return rest" "batches = columns # rest"
      using 1(2) by (subst (asm) metadata_batches.simps) (auto simp: exn_simps split: sum.splits)
    have lens: "\<forall>row\<in>set (drop len rows). length row = length schema" "\<forall>row\<in>set (take len rows). length row = length schema"
      using 1(4) by (meson in_set_dropD in_set_takeD)+
    then obtain parts where parts: "mapE (\<lambda>b. read_metadata_batch b schema) (map (arrow_batch_of schema) rest) = Return parts" "concat parts = drop len rows"
      using 1(1) [OF False steps(1,3) 1(3)] by blast
    have "mapE (\<lambda>b. read_metadata_batch b schema) (map (arrow_batch_of schema) batches) = Return (take len rows # parts)"
      using parts(1) read_batch [OF steps(2) 1(3) lens(2)] steps(4) by simp
    then show ?thesis using parts(2) by (metis append_take_drop_id concat.simps(2))
  qed
qed

section \<open>The invariant of a builder\<close>

lemma leading_zeros: "foldl (\<lambda>a c. 10 * a + digit_value c) 0 (replicate k CHR ''0'' @ ds) = foldl (\<lambda>a c. 10 * a + digit_value c) 0 ds"
  by (induction k) (simp_all add: digit_value_def)

lemma shard_name_inject [simp]: "shard_name i = shard_name j \<longleftrightarrow> i = j"
proof
  assume "shard_name i = shard_name j"
  then have "replicate (6 - length (str_nat i)) CHR ''0'' @ str_nat i = replicate (6 - length (str_nat j)) CHR ''0'' @ str_nat j"
    by (simp add: shard_name_def flip: append_assoc)
  then show "i = j" by (metis leading_zeros str_nat_value)
qed simp

lemma shard_path_inject [simp]: "shard_path a = shard_path b \<longleftrightarrow> a = b"
  by (simp add: shard_path_def)

text \<open>The content, the codec bytes and the index entries of shard \<open>k\<close>, closed or current.\<close>

definition shard_content :: "CacheBuilder \<Rightarrow> nat \<Rightarrow> byte list option" where
  "shard_content b k = (if k = os_id (cb_current b) then Some (os_bytes (cb_current b)) else cb_files b (shard_path (shard_name k)))"

definition shard_uncompressed :: "CacheBuilder \<Rightarrow> nat \<Rightarrow> nat" where
  "shard_uncompressed b k =
     (if k = os_id (cb_current b) then os_uncompressed_byte_len (cb_current b) else sm_uncompressed_byte_len (cb_shards b ! k))"

text \<open>A record of \<open>n\<close> codec bytes stands where its index entry says.\<close>

definition placed :: "CacheBuilder \<Rightarrow> IndexEntry \<Rightarrow> byte list \<Rightarrow> nat \<Rightarrow> bool" where
  "placed b e bytes n \<longleftrightarrow> ix_shard_id e \<le> os_id (cb_current b) \<and> ix_byte_len e = length bytes \<and> n \<le> shard_uncompressed b (ix_shard_id e) \<and>
     (\<exists>content. shard_content b (ix_shard_id e) = Some content \<and> ix_offset e + ix_byte_len e \<le> length content \<and>
        take (ix_byte_len e) (drop (ix_offset e) content) = bytes)"

text \<open>Sample \<open>i\<close> is stored with the schema of its time, which is the schema of the cache unless it had no metadata.\<close>

definition stored :: "storage_env \<Rightarrow> CacheBuilder \<Rightarrow> nat \<Rightarrow> byte list \<times> metadata_object \<Rightarrow> bool" where
  "stored env b i sample \<longleftrightarrow>
     (\<exists>schema bytes n. encode_stored_record env (fst sample) schema (cb_metadata_rows b ! i) (cb_compression b) = Return (bytes, n) \<and>
        (schema = cb_schema b \<or> schema = []) \<and> length (snd sample) = length schema \<and>
        mapE (row_cell ''metadata'' (snd sample)) schema = Return (cb_metadata_rows b ! i) \<and> placed b (cb_index b ! i) bytes n)"

definition closed_shard :: "storage_env \<Rightarrow> CacheBuilder \<Rightarrow> nat \<Rightarrow> bool" where
  "closed_shard env b k \<longleftrightarrow>
     (\<exists>content. cb_files b (shard_path (shard_name k)) = Some content \<and> length content < 2 ^ 64 \<and>
        cb_shards b ! k = \<lparr>sm_name = shard_name k, sm_uncompressed_byte_len = sm_uncompressed_byte_len (cb_shards b ! k),
          sm_byte_len = length content, sm_compression = cb_compression b, sm_sha256 = hash_bytes env content\<rparr>)"

definition current_ok :: "CacheBuilder \<Rightarrow> bool" where
  "current_ok b \<longleftrightarrow> os_id (cb_current b) = length (cb_shards b) \<and> os_id (cb_current b) < 2 ^ 64 \<and>
     os_name (cb_current b) = shard_name (os_id (cb_current b)) \<and> os_byte_len (cb_current b) = length (os_bytes (cb_current b)) \<and>
     os_byte_len (cb_current b) < 2 ^ 64"

text \<open>A shard above the limit holds one record; a record is not empty.\<close>

definition bounded_shard :: "CacheBuilder \<Rightarrow> nat \<Rightarrow> bool" where
  "bounded_shard b k \<longleftrightarrow> (\<exists>content. shard_content b k = Some content \<and>
     (length content \<le> cb_max_shard_bytes b \<or> length (filter (\<lambda>e. ix_shard_id e = k) (cb_index b)) \<le> 1))"

definition builder_inv :: "storage_env \<Rightarrow> CacheBuilder \<Rightarrow> (byte list \<times> metadata_object) list \<Rightarrow> bool" where
  "builder_inv env b samples \<longleftrightarrow> current_ok b \<and> (\<forall>k<length (cb_shards b). closed_shard env b k) \<and>
     length (cb_index b) = length samples \<and> length (cb_metadata_rows b) = length samples \<and>
     sorted_wrt (<) (map field_name (cb_schema b)) \<and> (\<forall>i<length samples. stored env b i (samples ! i)) \<and>
     (\<forall>e\<in>set (cb_index b). 0 < ix_byte_len e) \<and> (\<forall>k\<le>os_id (cb_current b). bounded_shard b k)"

lemma guard_op_Return: "guard_op env operation result = Return x \<longleftrightarrow> op_fault env operation = None \<and> result = Return x"
  by (auto simp: guard_op_def split: option.splits)

lemma create_builder_inv: "create_builder env path_exists name max_bytes p = Return b \<Longrightarrow> builder_inv env b []"
  by (auto simp: create_builder_def create_shard_def guard_op_Return exn_simps builder_inv_def current_ok_def bounded_shard_def shard_content_def
    split: if_splits)

text \<open>Choosing the schema keeps everything that is stored.\<close>

lemma validate_metadata_inv:
  assumes "builder_inv env b samples" and "validate_metadata metadata b = Return (row, b1)" and "btree metadata"
  shows "builder_inv env b1 samples" and "b1 = b\<lparr>cb_schema := cb_schema b1\<rparr>" and "length metadata = length (cb_schema b1)"
    and "mapE (row_cell ''metadata'' metadata) (cb_schema b1) = Return row"
proof -
  let ?schema = "if cb_schema b = [] then map (\<lambda>(name, v). \<lparr>field_name = name, field_kind = value_kind v\<rparr>) metadata else cb_schema b"
  have b1: "b1 = b\<lparr>cb_schema := ?schema\<rparr>" and row: "length metadata = length ?schema" "mapE (row_cell ''metadata'' metadata) ?schema = Return row"
    using assms(2) unfolding validate_metadata_def Let_def by (auto simp only: exn_simps split: if_splits prod.splits)
  then have schema: "cb_schema b1 = ?schema" by simp
  show "b1 = b\<lparr>cb_schema := cb_schema b1\<rparr>" unfolding schema by (rule b1)
  show "length metadata = length (cb_schema b1)" "mapE (row_cell ''metadata'' metadata) (cb_schema b1) = Return row"
    unfolding schema by (fact row)+
  have "field_name \<circ> (\<lambda>(name, v). \<lparr>field_name = name, field_kind = value_kind v\<rparr>) = fst" by auto
  then have sorted: "sorted_wrt (<) (map field_name (cb_schema b1))"
    using assms(1,3) unfolding schema by (auto simp: builder_inv_def btree_def)
  have same: "cb_current b1 = cb_current b" "cb_files b1 = cb_files b" "cb_shards b1 = cb_shards b" "cb_index b1 = cb_index b"
      "cb_metadata_rows b1 = cb_metadata_rows b" "cb_compression b1 = cb_compression b" "cb_max_shard_bytes b1 = cb_max_shard_bytes b"
    unfolding b1 by simp_all
  have "stored env b1 i s" if "stored env b i s" for i s
    using that unfolding stored_def placed_def shard_content_def shard_uncompressed_def same schema by auto
  then show "builder_inv env b1 samples"
    using assms(1) sorted unfolding builder_inv_def current_ok_def closed_shard_def bounded_shard_def shard_content_def same by blast
qed


text \<open>Closing the current shard and opening the next.\<close>

lemma rotate_inv:
  assumes inv: "builder_inv env b samples" and rotate: "rotate_shard_if_needed env len b = Return b1" and "0 < len"
  shows "builder_inv env b1 samples" and "cb_schema b1 = cb_schema b" and "cb_compression b1 = cb_compression b"
    and "cb_max_shard_bytes b1 = cb_max_shard_bytes b" and "cb_index b1 = cb_index b" and "cb_metadata_rows b1 = cb_metadata_rows b"
    and "os_byte_len (cb_current b1) = 0 \<or> os_byte_len (cb_current b1) + len \<le> cb_max_shard_bytes b"
proof -
  let ?cur = "cb_current b" and ?fresh = "\<lparr>os_id = os_id (cb_current b) + 1, os_name = shard_name (os_id (cb_current b) + 1), os_bytes = [], os_byte_len = 0, os_uncompressed_byte_len = 0\<rparr>"
  let ?rotated = "b\<lparr>cb_files := (cb_files b)(shard_path (shard_name (os_id ?cur + 1)) \<mapsto> [], shard_path (os_name ?cur) \<mapsto> os_bytes ?cur),
      cb_shards := cb_shards b @ [shard_manifest env (cb_compression b) ?cur], cb_current := ?fresh\<rparr>"
  consider (same) "b1 = b" "os_byte_len ?cur = 0 \<or> os_byte_len ?cur + len \<le> cb_max_shard_bytes b"
    | (rotated) "b1 = ?rotated" "os_id ?cur + 1 < 2 ^ 64"
    using rotate \<open>0 < len\<close>
    by (auto simp: rotate_shard_if_needed_def create_shard_def finish_shard_def guard_op_Return exn_simps Let_def split: if_splits)
  note cases = this
  show "cb_schema b1 = cb_schema b" "cb_compression b1 = cb_compression b" "cb_max_shard_bytes b1 = cb_max_shard_bytes b"
    "cb_index b1 = cb_index b" "cb_metadata_rows b1 = cb_metadata_rows b"
    "os_byte_len (cb_current b1) = 0 \<or> os_byte_len (cb_current b1) + len \<le> cb_max_shard_bytes b"
    using cases by (cases; simp)+
  show "builder_inv env b1 samples"
    using cases
  proof cases
    case rotated
    have cur: "os_id ?cur = length (cb_shards b)" "os_name ?cur = shard_name (os_id ?cur)" "os_byte_len ?cur = length (os_bytes ?cur)" "os_byte_len ?cur < 2 ^ 64"
      using inv by (simp_all add: builder_inv_def current_ok_def)
    have content: "shard_content b1 k = shard_content b k" "shard_uncompressed b1 k = shard_uncompressed b k" if "k \<le> os_id ?cur" for k
      using that cur unfolding rotated(1) shard_content_def shard_uncompressed_def shard_manifest_def by (auto simp: nth_append)
    have "closed_shard env b1 k" if "k < length (cb_shards b1)" for k
    proof (cases "k = os_id ?cur")
      case True
      then show ?thesis using cur unfolding closed_shard_def rotated(1) by (simp add: shard_manifest_def)
    next
      case False
      then have k: "k < length (cb_shards b)" using that cur rotated(1) by simp
      then have "closed_shard env b k" using inv by (simp add: builder_inv_def)
      then show ?thesis using k cur False unfolding closed_shard_def rotated(1) by (auto simp: nth_append)
    qed
    moreover have "current_ok b1" using cur rotated by (simp add: current_ok_def)
    moreover have "placed b1 e bytes n" if "placed b e bytes n" for e bytes n
      using that content unfolding placed_def by (auto simp: rotated(1))
    then have "stored env b1 i s" if "stored env b i s" for i s
      using that unfolding stored_def by (fastforce simp: rotated(1))
    moreover have "bounded_shard b1 k" if "k \<le> os_id (cb_current b1)" for k
    proof (cases "k \<le> os_id ?cur")
      case True
      then have "bounded_shard b k" using inv by (simp add: builder_inv_def)
      then show ?thesis unfolding bounded_shard_def content(1) [OF True] by (simp add: rotated(1))
    next
      case False
      then have "k = os_id (cb_current b1)" using that rotated(1) by simp
      then show ?thesis unfolding bounded_shard_def shard_content_def by (simp add: rotated(1))
    qed
    ultimately show ?thesis using inv unfolding builder_inv_def by (simp add: rotated(1))
  qed (use inv in simp)
qed

text \<open>Writing a record into the current shard.\<close>

lemma write_inv:
  assumes inv: "builder_inv env b samples"
    and encoded: "encode_stored_record env data (cb_schema b) row (cb_compression b) = Return (bytes, n)"
    and row: "length metadata = length (cb_schema b)" "mapE (row_cell ''metadata'' metadata) (cb_schema b) = Return row"
    and room: "os_byte_len (cb_current b) = 0 \<or> os_byte_len (cb_current b) + length bytes \<le> cb_max_shard_bytes b"
    and written: "write_payload env k bytes n (cb_current b) = Return (entry, shard)"
    and b1: "b1 = b\<lparr>cb_current := shard, cb_index := cb_index b @ [entry], cb_metadata_rows := cb_metadata_rows b @ [row]\<rparr>"
  shows "builder_inv env b1 (samples @ [(data, metadata)])"
proof -
  let ?cur = "cb_current b"
  have shard: "entry = \<lparr>ix_shard_id = os_id ?cur, ix_offset = os_byte_len ?cur, ix_byte_len = length bytes\<rparr>"
      "shard = ?cur\<lparr>os_bytes := os_bytes ?cur @ bytes, os_byte_len := os_byte_len ?cur + length bytes,
        os_uncompressed_byte_len := os_uncompressed_byte_len ?cur + n\<rparr>" "os_byte_len ?cur + length bytes < 2 ^ 64"
    using written by (auto simp: write_payload_def guard_op_Return split: if_splits)
  have cur: "os_byte_len ?cur = length (os_bytes ?cur)" using inv by (simp add: builder_inv_def current_ok_def)
  have lens: "length (cb_index b) = length samples" "length (cb_metadata_rows b) = length samples" using inv by (simp_all add: builder_inv_def)
  have placed: "placed b1 e bs m" if "placed b e bs m" for e bs m
    using that unfolding placed_def shard_content_def shard_uncompressed_def b1 shard(2) by (cases "ix_shard_id e = os_id ?cur") auto
  have "placed b1 entry bytes n"
    using cur unfolding placed_def shard_content_def shard_uncompressed_def b1 shard by simp
  then have "stored env b1 (length samples) (data, metadata)"
    using encoded row lens unfolding stored_def b1 by (auto simp: nth_append)
  moreover have "stored env b1 i s" if "stored env b i s" "i < length samples" for i s
  proof -
    obtain schema bs m where s: "encode_stored_record env (fst s) schema (cb_metadata_rows b ! i) (cb_compression b) = Return (bs, m)"
        "schema = cb_schema b \<or> schema = []" "length (snd s) = length schema"
        "mapE (row_cell ''metadata'' (snd s)) schema = Return (cb_metadata_rows b ! i)" "placed b (cb_index b ! i) bs m"
      using \<open>stored env b i s\<close> unfolding stored_def by blast
    have "cb_metadata_rows b1 ! i = cb_metadata_rows b ! i" "cb_index b1 ! i = cb_index b ! i" "cb_schema b1 = cb_schema b" "cb_compression b1 = cb_compression b"
      using lens that(2) unfolding b1 by (simp_all add: nth_append)
    then show ?thesis using s(1-4) placed [OF s(5)] unfolding stored_def by metis
  qed
  ultimately have "\<forall>i<length (samples @ [(data, metadata)]). stored env b1 i ((samples @ [(data, metadata)]) ! i)"
    using inv unfolding builder_inv_def by (auto simp: nth_append less_Suc_eq)
  moreover have "bounded_shard b1 k" if "k \<le> os_id (cb_current b1)" for k
  proof (cases "k = os_id ?cur \<and> os_byte_len ?cur = 0")
    case True
    have "ix_shard_id e \<noteq> k" if "e \<in> set (cb_index b)" for e
    proof
      assume e: "ix_shard_id e = k"
      obtain i where i: "i < length samples" "e = cb_index b ! i" using \<open>e \<in> set (cb_index b)\<close> lens by (metis in_set_conv_nth)
      then have "stored env b i (samples ! i)" using inv by (simp add: builder_inv_def)
      then have "ix_byte_len e \<le> length (os_bytes ?cur)" using True e i(2) unfolding stored_def placed_def shard_content_def by auto
      moreover have "0 < ix_byte_len e" using inv \<open>e \<in> set (cb_index b)\<close> by (simp add: builder_inv_def)
      ultimately show False using True cur by simp
    qed
    then show ?thesis using True unfolding bounded_shard_def shard_content_def b1 shard by (simp add: filter_empty_conv)
  next
    case False
    have old: "bounded_shard b k" using inv that unfolding builder_inv_def by (simp add: b1 shard)
    then show ?thesis using False room cur unfolding bounded_shard_def shard_content_def b1 shard by (auto split: if_splits)
  qed
  moreover have "\<forall>k<length (cb_shards b1). closed_shard env b1 k"
    using inv unfolding builder_inv_def closed_shard_def b1 by simp
  moreover have "current_ok b1" using inv shard unfolding builder_inv_def current_ok_def b1 by simp
  ultimately show ?thesis
    using inv encode_stored_nonempty [OF encoded] shard(1) unfolding builder_inv_def by (simp add: b1)
qed

theorem push_sample_inv:
  assumes "builder_inv env b samples" and "push_sample env sample b = Return b1" and "btree (snd sample)"
  shows "builder_inv env b1 (samples @ [sample])" and "cb_compression b1 = cb_compression b"
    and "cb_max_shard_bytes b1 = cb_max_shard_bytes b" and "cb_source_name b1 = cb_source_name b"
proof -
  obtain data metadata where sample: "sample = (data, metadata)" by (cases sample)
  obtain row v bytes n r entry shard where steps: "validate_metadata metadata b = Return (row, v)"
      "encode_stored_record env data (cb_schema v) row (cb_compression v) = Return (bytes, n)"
      "rotate_shard_if_needed env (length bytes) v = Return r"
      "write_payload env (length (cb_index r)) bytes n (cb_current r) = Return (entry, shard)"
      "b1 = r\<lparr>cb_current := shard, cb_index := cb_index r @ [entry], cb_metadata_rows := cb_metadata_rows r @ [row]\<rparr>"
    using assms(2) sample by (auto simp: push_sample_def exn_simps)
  have "btree metadata" using assms(3) sample by simp
  note valid = validate_metadata_inv [OF assms(1) steps(1) this]
  have "0 < length bytes" using encode_stored_nonempty [OF steps(2)] by simp
  note rotated = rotate_inv [OF valid(1) steps(3) this]
  show "builder_inv env b1 (samples @ [sample])"
    unfolding sample
    by (rule write_inv [OF rotated(1) _ _ _ _ steps(4,5)]) (use steps(2) valid(3,4) rotated in simp_all)
  have v: "cb_compression v = cb_compression b" "cb_max_shard_bytes v = cb_max_shard_bytes b" "cb_source_name v = cb_source_name b"
    using arg_cong [OF valid(2), of cb_compression] arg_cong [OF valid(2), of cb_max_shard_bytes] arg_cong [OF valid(2), of cb_source_name] by simp_all
  have "cb_source_name r = cb_source_name v"
    using steps(3) by (auto simp: rotate_shard_if_needed_def finish_shard_def guard_op_Return exn_simps Let_def split: if_splits)
  then show "cb_compression b1 = cb_compression b" "cb_max_shard_bytes b1 = cb_max_shard_bytes b" "cb_source_name b1 = cb_source_name b"
    using steps(5) rotated(3,4) v by simp_all
qed

lemma push_samples_inv:
  assumes "builder_inv env b prior" and "push_samples env samples b = Return b1" and "\<forall>s\<in>set samples. btree (snd s)"
  shows "builder_inv env b1 (prior @ samples) \<and> cb_compression b1 = cb_compression b \<and> cb_max_shard_bytes b1 = cb_max_shard_bytes b \<and>
    cb_source_name b1 = cb_source_name b"
  using assms
proof (induction samples arbitrary: b "prior")
  case (Cons s samples)
  then obtain b' where b': "push_sample env s b = Return b'" "push_samples env samples b' = Return b1" by (auto simp: exn_simps)
  have "btree (snd s)" using Cons.prems(3) by simp
  note step = push_sample_inv [OF Cons.prems(1) b'(1) this]
  show ?case using Cons.IH [OF step(1) b'(2)] Cons.prems(3) step(2-4) by simp
qed simp

section \<open>A finished cache\<close>

lemma finish_steps:
  assumes "finish_builder env b = Return (manifest, files)"
  obtains metadata_bytes manifest_bytes where
    "write_metadata_file env (cb_schema b) (cb_metadata_rows b) = Return metadata_bytes" and "json_manifest env manifest = Return manifest_bytes"
    and "files = (cb_files b)(shard_path (os_name (cb_current b)) \<mapsto> os_bytes (cb_current b), ''metadata.arrow'' \<mapsto> metadata_bytes,
      ''index.bin'' \<mapsto> concat (map index_row (cb_index b)), ''manifest.json'' \<mapsto> manifest_bytes)"
    and "manifest_fields manifest = \<lparr>mf_source_name = cb_source_name b, mf_sample_count = length (cb_index b), mf_schema = cb_schema b,
      mf_metadata_sha256 = hash_bytes env metadata_bytes, mf_index_sha256 = hash_bytes env (concat (map index_row (cb_index b))),
      mf_shards = cb_shards b @ [shard_manifest env (cb_compression b) (cb_current b)], mf_extra = []\<rparr>"
    and "manifest_whole_record manifest = whole_record (cb_compression b)"
    and "\<forall>position. resolve_cache_id manifest position = cache_id_from_name env (cb_source_name b)"
  using assms that
  by (auto simp: finish_builder_def finish_shard_def write_index_file_def guard_op_Return exn_simps Let_def split: if_splits)

lemma shard_path_other [simp]:
  "shard_path name \<noteq> ''metadata.arrow''" "shard_path name \<noteq> ''index.bin''" "shard_path name \<noteq> ''manifest.json''"
  "''metadata.arrow'' \<noteq> shard_path name" "''index.bin'' \<noteq> shard_path name" "''manifest.json'' \<noteq> shard_path name"
  by (simp_all add: shard_path_def)

text \<open>The manifest names every shard with the length, the policy and the digest of its file.\<close>

lemma finished_shard:
  assumes "builder_inv env b samples" and "finish_builder env b = Return (manifest, files)" and "k \<le> os_id (cb_current b)"
  obtains content where "shard_content b k = Some content" and "files (shard_path (shard_name k)) = Some content" and "length content < 2 ^ 64"
    and "mf_shards (manifest_fields manifest) ! k = \<lparr>sm_name = shard_name k, sm_uncompressed_byte_len = shard_uncompressed b k,
      sm_byte_len = length content, sm_compression = cb_compression b, sm_sha256 = hash_bytes env content\<rparr>"
proof -
  obtain metadata_bytes manifest_bytes where files: "files = (cb_files b)(shard_path (os_name (cb_current b)) \<mapsto> os_bytes (cb_current b),
      ''metadata.arrow'' \<mapsto> metadata_bytes, ''index.bin'' \<mapsto> concat (map index_row (cb_index b)), ''manifest.json'' \<mapsto> manifest_bytes)"
    and shards: "mf_shards (manifest_fields manifest) = cb_shards b @ [shard_manifest env (cb_compression b) (cb_current b)]"
    by (rule finish_steps [OF assms(2)]) simp
  have cur: "os_id (cb_current b) = length (cb_shards b)" "os_name (cb_current b) = shard_name (os_id (cb_current b))"
      "os_byte_len (cb_current b) = length (os_bytes (cb_current b))" "os_byte_len (cb_current b) < 2 ^ 64"
    using assms(1) by (simp_all add: builder_inv_def current_ok_def)
  show ?thesis
  proof (cases "k = os_id (cb_current b)")
    case True
    show ?thesis
      by (rule that [of "os_bytes (cb_current b)"])
        (use True cur in \<open>simp_all add: shard_content_def shard_uncompressed_def files shards shard_manifest_def\<close>)
  next
    case False
    then have k: "k < length (cb_shards b)" using assms(3) cur(1) by simp
    then have "closed_shard env b k" using assms(1) by (simp add: builder_inv_def)
    then obtain content where content: "cb_files b (shard_path (shard_name k)) = Some content" "length content < 2 ^ 64"
        "cb_shards b ! k = \<lparr>sm_name = shard_name k, sm_uncompressed_byte_len = sm_uncompressed_byte_len (cb_shards b ! k),
          sm_byte_len = length content, sm_compression = cb_compression b, sm_sha256 = hash_bytes env content\<rparr>"
      unfolding closed_shard_def by blast
    have "mf_shards (manifest_fields manifest) ! k = cb_shards b ! k" using k by (simp add: shards nth_append)
    then show ?thesis
      using that [of content] content False cur by (simp add: shard_content_def shard_uncompressed_def files)
  qed
qed

text \<open>Every row of the table is the metadata of its sample, in key order.\<close>

lemma finished_sample:
  assumes "builder_inv env b samples" and "file_laws env" and "write_metadata_file env (cb_schema b) (cb_metadata_rows b) = Return metadata_bytes"
    and "i < length samples" and "btree (snd (samples ! i))"
  obtains bytes n where "encode_stored_record env (fst (samples ! i)) (cb_schema b) (cb_metadata_rows b ! i) (cb_compression b) = Return (bytes, n)"
    and "mapE (row_cell ''metadata'' (snd (samples ! i))) (cb_schema b) = Return (cb_metadata_rows b ! i)"
    and "zip (map field_name (cb_schema b)) (cb_metadata_rows b ! i) = snd (samples ! i)"
    and "cb_metadata_rows b ! i = map snd (snd (samples ! i))" and "length (cb_metadata_rows b ! i) = length (cb_schema b)"
    and "placed b (cb_index b ! i) bytes n"
proof -
  obtain batches where batches: "metadata_batches env (cb_schema b) (cb_metadata_rows b) = Return batches" "arrow_write env (cb_schema b) batches = Return metadata_bytes"
    using assms(3) by (auto simp: write_metadata_file_def guard_op_Return exn_simps)
  have "cb_schema b \<noteq> []" using assms(2) batches(2) unfolding file_laws_def by blast
  obtain schema bytes n where s: "encode_stored_record env (fst (samples ! i)) schema (cb_metadata_rows b ! i) (cb_compression b) = Return (bytes, n)"
      "schema = cb_schema b \<or> schema = []" "length (snd (samples ! i)) = length schema"
      "mapE (row_cell ''metadata'' (snd (samples ! i))) schema = Return (cb_metadata_rows b ! i)" "placed b (cb_index b ! i) bytes n"
    using assms(1,4) unfolding builder_inv_def stored_def by meson
  have "cb_metadata_rows b ! i \<in> set (cb_metadata_rows b)" using assms(1,4) by (simp add: builder_inv_def)
  then have "cb_metadata_rows b ! i \<noteq> []" using metadata_batches_cells [OF batches(1), of _ 0] \<open>cb_schema b \<noteq> []\<close> by auto
  then have schema: "schema = cb_schema b" using s(2,4) by auto
  have "sorted_wrt (<) (map field_name (cb_schema b))" using assms(1) by (simp add: builder_inv_def)
  note row = fitting_row [OF assms(5) this s(3) [unfolded schema] s(4) [unfolded schema]]
  show ?thesis by (rule that [OF s(1) [unfolded schema] s(4) [unfolded schema] row _ s(5)]) (use row(2) s(3) schema in simp)
qed

lemma finished_entry:
  assumes "builder_inv env b samples" and "finish_builder env b = Return (manifest, files)" and "placed b e bytes n"
  shows "entry_ok e"
proof -
  have "ix_shard_id e \<le> os_id (cb_current b)" using assms(3) by (simp add: placed_def)
  from finished_shard [OF assms(1,2) this] obtain content where "shard_content b (ix_shard_id e) = Some content" "length content < 2 ^ 64" .
  then show ?thesis using assms(1,3) by (auto simp: placed_def entry_ok_def builder_inv_def current_ok_def)
qed

section \<open>The cache of open shard files\<close>

text \<open>The order of use lists exactly the open files, each with the content of the directory, and there are at most
  \<open>max_readers\<close>.\<close>

definition reader_cache_ok :: "(string \<rightharpoonup> byte list) \<Rightarrow> ShardReaderCache \<Rightarrow> bool" where
  "reader_cache_ok files c \<longleftrightarrow> distinct (map fst (readers c)) \<and> distinct (recent_paths c) \<and> set (recent_paths c) = fst ` set (readers c) \<and>
     (\<forall>(p, content)\<in>set (readers c). files p = Some content) \<and> length (readers c) \<le> max_readers c \<and> 0 < max_readers c"

lemma new_reader_cache_ok: "reader_cache_ok files new_reader_cache"
  by (simp add: reader_cache_ok_def new_reader_cache_def)

lemma evict_loop_ok:
  assumes "evict_loop limit recents rs = (rs1, recents1)" and "0 < limit" and "distinct (map fst rs)" "distinct recents" "set recents = fst ` set rs"
  shows "length rs1 < limit \<and> distinct (map fst rs1) \<and> distinct recents1 \<and> set recents1 = fst ` set rs1 \<and> set rs1 \<subseteq> set rs"
  using assms
proof (induction limit recents rs rule: evict_loop.induct)
  case (2 limit oldest recents rs)
  show ?case
  proof (cases "limit \<le> length rs")
    case True
    have "set recents = fst ` set (filter (\<lambda>(p, f). p \<noteq> oldest) rs)" using "2.prems"(4,5) by force
    moreover have "distinct (map fst (filter (\<lambda>(p, f). p \<noteq> oldest) rs))" using "2.prems"(3) by (rule distinct_map_filter)
    ultimately show ?thesis using 2 True by auto
  qed (use 2 in auto)
qed auto

lemma mark_recent_ok:
  assumes "reader_cache_ok files c" and "name \<in> fst ` set (readers c)"
  shows "reader_cache_ok files (mark_recent name c)"
  using assms by (auto simp: reader_cache_ok_def mark_recent_def)

lemma evict_if_full_ok:
  assumes "reader_cache_ok files c"
  shows "reader_cache_ok files (evict_if_full c)" and "length (readers (evict_if_full c)) < max_readers c"
    and "max_readers (evict_if_full c) = max_readers c" and "set (readers (evict_if_full c)) \<subseteq> set (readers c)"
proof -
  obtain rs1 recents1 where evict: "evict_loop (max_readers c) (recent_paths c) (readers c) = (rs1, recents1)" by fastforce
  have "length rs1 < max_readers c \<and> distinct (map fst rs1) \<and> distinct recents1 \<and> set recents1 = fst ` set rs1 \<and> set rs1 \<subseteq> set (readers c)"
    by (rule evict_loop_ok [OF evict]) (use assms in \<open>simp_all add: reader_cache_ok_def\<close>)
  then show "reader_cache_ok files (evict_if_full c)" "length (readers (evict_if_full c)) < max_readers c"
    "max_readers (evict_if_full c) = max_readers c" "set (readers (evict_if_full c)) \<subseteq> set (readers c)"
    using assms evict by (auto simp: reader_cache_ok_def evict_if_full_def)
qed

text \<open>A cached file is the file that opening the path would give.\<close>

lemma reader_for_ok:
  assumes "reader_cache_ok files c"
  shows "reader_cache_ok files (fst (reader_for files name c)) \<and> max_readers (fst (reader_for files name c)) = max_readers c \<and>
    snd (reader_for files name c) = open_file files name"
proof (cases "map_of (readers c) name")
  case None
  note evicted = evict_if_full_ok [OF assms]
  have fresh: "name \<notin> fst ` set (readers (evict_if_full c))" using None evicted(4) by (auto simp: map_of_eq_None_iff)
  show ?thesis
  proof (cases "files name")
    case (Some content)
    then have "reader_cache_ok files ((evict_if_full c)\<lparr>readers := (name, content) # readers (evict_if_full c), recent_paths := recent_paths (evict_if_full c) @ [name]\<rparr>)"
      using evicted(1-3) fresh by (auto simp: reader_cache_ok_def)
    then show ?thesis using None Some evicted(3) by (simp add: reader_for_def open_file_def Let_def)
  qed (use None evicted in \<open>simp add: reader_for_def open_file_def Let_def\<close>)
next
  case (Some content)
  then have "(name, content) \<in> set (readers c)" by (rule map_of_SomeD)
  moreover from this have "files name = Some content" using assms by (auto simp: reader_cache_ok_def)
  ultimately show ?thesis using Some mark_recent_ok [OF assms, of name]
    by (force simp: reader_for_def open_file_def mark_recent_def)
qed

text \<open>What a read returns when the shard file is opened for it alone.\<close>

definition read_sample_direct :: "storage_env \<Rightarrow> (string \<rightharpoonup> byte list) \<Rightarrow> LoadedCache \<Rightarrow> nat \<Rightarrow> CacheSample exn" where
  "read_sample_direct env files cache i =
     bindE (get_index_entry (lc_index cache) i) (\<lambda>entry.
     let shards = mf_shards (manifest_fields (lc_manifest cache)); shard = shards ! ix_shard_id entry; stop = ix_offset entry + ix_byte_len entry in
     if length shards \<le> ix_shard_id entry then Raise (ValueError (''shard id '' @ str_nat (ix_shard_id entry) @ '' is out of range''))
     else if 2 ^ 64 \<le> stop then Raise (ValueError ''record offset and length overflowed u64'')
     else bindE (open_file files (shard_path (sm_name shard))) (\<lambda>content.
       if sm_byte_len shard < stop then Raise (ValueError ''record extends beyond shard length'')
       else bindE (read_exact content (ix_offset entry) (ix_byte_len entry)) (\<lambda>bytes.
         bindE (decode_stored_record env bytes (lc_manifest cache) shard) (check_embedded env files cache i))))"

fun read_samples :: "storage_env \<Rightarrow> (string \<rightharpoonup> byte list) \<Rightarrow> LoadedCache \<Rightarrow> nat list \<Rightarrow> ShardReaderCache \<Rightarrow> ShardReaderCache \<times> CacheSample exn list" where
  "read_samples env files cache [] c = (c, [])"
| "read_samples env files cache (i # positions) c =
     (case read_sample_with_cache env files cache i c of (c1, sample) \<Rightarrow>
      case read_samples env files cache positions c1 of (c2, samples) \<Rightarrow> (c2, sample # samples))"

lemma read_sample_ok:
  assumes "reader_cache_ok files c"
  shows "reader_cache_ok files (fst (read_sample_with_cache env files cache i c)) \<and>
    max_readers (fst (read_sample_with_cache env files cache i c)) = max_readers c \<and>
    snd (read_sample_with_cache env files cache i c) = read_sample_direct env files cache i"
proof (cases "get_index_entry (lc_index cache) i")
  case (Inr entry)
  let ?name = "shard_path (sm_name (mf_shards (manifest_fields (lc_manifest cache)) ! ix_shard_id entry))"
  show ?thesis
    using assms Inr reader_for_ok [OF assms, of ?name]
    by (cases "reader_for files ?name c") (auto simp: read_sample_with_cache_def read_sample_direct_def Let_def split: sum.splits)
qed (use assms in \<open>simp add: read_sample_with_cache_def read_sample_direct_def\<close>)

lemma read_samples_ok:
  assumes "reader_cache_ok files c" and "read_samples env files cache positions c = (c1, results)"
  shows "reader_cache_ok files c1 \<and> max_readers c1 = max_readers c \<and> results = map (read_sample_direct env files cache) positions"
  using assms
proof (induction positions arbitrary: c results)
  case (Cons i positions)
  obtain c' sample where first: "read_sample_with_cache env files cache i c = (c', sample)" by fastforce
  obtain others where rest: "read_samples env files cache positions c' = (c1, others)" "results = sample # others"
    using Cons.prems(2) first by (auto split: prod.splits)
  note step = read_sample_ok [OF Cons.prems(1), of env cache i]
  show ?case using Cons.IH [of c' others] rest step first by simp
qed simp

section \<open>Loading and reading it back\<close>

lemma index_of_row: "builder_inv env b samples \<Longrightarrow> row \<in> set (cb_metadata_rows b) \<Longrightarrow> \<exists>i<length samples. row = cb_metadata_rows b ! i"
  by (simp add: builder_inv_def in_set_conv_nth) metis

lemma index_of_entry: "builder_inv env b samples \<Longrightarrow> e \<in> set (cb_index b) \<Longrightarrow> \<exists>i<length samples. e = cb_index b ! i"
  by (simp add: builder_inv_def in_set_conv_nth) metis

lemma finished_table:
  assumes "builder_inv env b samples" and "file_laws env" and "write_metadata_file env (cb_schema b) (cb_metadata_rows b) = Return metadata_bytes"
    and "\<forall>s\<in>set samples. btree (snd s)"
  shows "read_metadata_file env metadata_bytes (cb_schema b) = Return (cb_metadata_rows b)"
proof -
  obtain batches where batches: "metadata_batches env (cb_schema b) (cb_metadata_rows b) = Return batches" "arrow_write env (cb_schema b) batches = Return metadata_bytes"
    using assms(3) by (auto simp: write_metadata_file_def guard_op_Return exn_simps)
  then have arrow: "cb_schema b \<noteq> []" "arrow_read env metadata_bytes = Return (map (arrow_batch_of (cb_schema b)) batches)"
    using assms(2) unfolding file_laws_def by blast+
  have "length row = length (cb_schema b)" if "row \<in> set (cb_metadata_rows b)" for row
  proof -
    obtain i where i: "i < length samples" "row = cb_metadata_rows b ! i"
      using \<open>row \<in> set (cb_metadata_rows b)\<close> index_of_row [OF assms(1)] by blast
    then have "btree (snd (samples ! i))" using assms(4) by simp
    from finished_sample [OF assms(1-3) i(1) this] show ?thesis using i(2) by metis
  qed
  then obtain parts where "mapE (\<lambda>batch. read_metadata_batch batch (cb_schema b)) (map (arrow_batch_of (cb_schema b)) batches) = Return parts"
      "concat parts = cb_metadata_rows b"
    using metadata_batches_read [OF batches(1) arrow(1)] by blast
  then show ?thesis using arrow(2) by (simp add: read_metadata_file_def)
qed

lemma finished_entries:
  assumes "builder_inv env b samples" and "finish_builder env b = Return (manifest, files)"
  shows "list_all entry_ok (cb_index b)" and "\<forall>e\<in>set (cb_index b). ix_shard_id e < length (mf_shards (manifest_fields manifest))"
proof -
  have placed: "\<exists>bytes n. placed b e bytes n" if "e \<in> set (cb_index b)" for e
  proof -
    obtain i where "i < length samples" "e = cb_index b ! i" using \<open>e \<in> set (cb_index b)\<close> index_of_entry [OF assms(1)] by blast
    then show ?thesis using assms(1) unfolding builder_inv_def stored_def by blast
  qed
  then show "list_all entry_ok (cb_index b)" using finished_entry [OF assms] by (auto simp: list_all_iff)
  have "length (mf_shards (manifest_fields manifest)) = Suc (os_id (cb_current b))"
    by (rule finish_steps [OF assms(2)]) (use assms(1) in \<open>simp add: builder_inv_def current_ok_def\<close>)
  then show "\<forall>e\<in>set (cb_index b). ix_shard_id e < length (mf_shards (manifest_fields manifest))"
    using placed by (fastforce simp: placed_def)
qed

lemma finished_shards:
  assumes "builder_inv env b samples" and "finish_builder env b = Return (manifest, files)" and "shard \<in> set (mf_shards (manifest_fields manifest))"
  shows "verify_shard env files validate shard = Return ()" and "sm_compression shard = cb_compression b"
proof -
  have "length (mf_shards (manifest_fields manifest)) = Suc (os_id (cb_current b))"
    by (rule finish_steps [OF assms(2)]) (use assms(1) in \<open>simp add: builder_inv_def current_ok_def\<close>)
  then obtain k where k: "k \<le> os_id (cb_current b)" "shard = mf_shards (manifest_fields manifest) ! k"
    using assms(3) by (metis in_set_conv_nth less_Suc_eq_le)
  from finished_shard [OF assms(1,2) k(1)] obtain content where "files (shard_path (shard_name k)) = Some content"
      "mf_shards (manifest_fields manifest) ! k = \<lparr>sm_name = shard_name k, sm_uncompressed_byte_len = shard_uncompressed b k,
      sm_byte_len = length content, sm_compression = cb_compression b, sm_sha256 = hash_bytes env content\<rparr>" .
  then show "verify_shard env files validate shard = Return ()" "sm_compression shard = cb_compression b"
    using k(2) by (simp_all add: verify_shard_def verify_file_checksum_def open_file_def)
qed

lemma load_finished:
  assumes inv: "builder_inv env b samples" and "file_laws env" and finish: "finish_builder env b = Return (manifest, files)"
    and "\<forall>s\<in>set samples. btree (snd s)"
  shows "load_cache env files validate position =
    Return \<lparr>lc_cache_id = cache_id_from_name env (cb_source_name b), lc_manifest = manifest,
      lc_metadata_rows = (if validate then Some (cb_metadata_rows b) else None), lc_index = concat (map index_row (cb_index b)), lc_validate = validate\<rparr>"
proof -
  obtain metadata_bytes manifest_bytes where meta: "write_metadata_file env (cb_schema b) (cb_metadata_rows b) = Return metadata_bytes"
      and json: "json_manifest env manifest = Return manifest_bytes"
      and files: "files = (cb_files b)(shard_path (os_name (cb_current b)) \<mapsto> os_bytes (cb_current b), ''metadata.arrow'' \<mapsto> metadata_bytes,
        ''index.bin'' \<mapsto> concat (map index_row (cb_index b)), ''manifest.json'' \<mapsto> manifest_bytes)"
      and fields: "manifest_fields manifest = \<lparr>mf_source_name = cb_source_name b, mf_sample_count = length (cb_index b), mf_schema = cb_schema b,
        mf_metadata_sha256 = hash_bytes env metadata_bytes, mf_index_sha256 = hash_bytes env (concat (map index_row (cb_index b))),
        mf_shards = cb_shards b @ [shard_manifest env (cb_compression b) (cb_current b)], mf_extra = []\<rparr>"
      and whole: "manifest_whole_record manifest = whole_record (cb_compression b)"
      and cid: "\<forall>position. resolve_cache_id manifest position = cache_id_from_name env (cb_source_name b)"
    by (rule finish_steps [OF finish])
  have contents: "files ''manifest.json'' = Some manifest_bytes" "files ''index.bin'' = Some (concat (map index_row (cb_index b)))"
      "files ''metadata.arrow'' = Some metadata_bytes"
    unfolding files by simp_all
  note shards = finished_shards [OF inv finish]
  have "accept_manifest manifest = Return manifest" using shards(2) whole by (auto simp: accept_manifest_def list_ex_iff)
  moreover have "parse_manifest env manifest_bytes = Return manifest" using assms(2) json unfolding file_laws_def by blast
  ultimately have manifest: "read_manifest env files = Return manifest" using contents by (simp add: read_manifest_def)
  obtain us where us: "mapE (verify_shard env files validate) (mf_shards (manifest_fields manifest)) = Return us"
    using mapE_unit shards(1) by metis
  note entries = finished_entries [OF inv finish]
  have "\<exists>us. mapE (\<lambda>item. bindE item (\<lambda>entry. if length (mf_shards (manifest_fields manifest)) \<le> ix_shard_id entry
      then Raise (ValueError (''index references missing shard '' @ str_nat (ix_shard_id entry))) else Return ()))
      (index_entries (concat (map index_row (cb_index b)))) = Return us"
    by (rule mapE_unit) (use entries in \<open>auto simp: index_entries_rows\<close>)
  then have shapes: "validate_loaded_shapes manifest (if validate then Some (cb_metadata_rows b) else None) (concat (map index_row (cb_index b))) = Return ()"
    using inv unfolding validate_loaded_shapes_def by (auto simp: fields builder_inv_def)
  note table = finished_table [OF inv assms(2) meta assms(4)]
  show ?thesis
    unfolding load_cache_def manifest
    using us shapes open_index_rows contents table cid by (cases validate) (simp_all add: fields verify_file_checksum_def open_file_def)
qed

lemma read_finished:
  assumes inv: "builder_inv env b samples" and laws: "codec_laws env" "file_laws env" and finish: "finish_builder env b = Return (manifest, files)"
    and samples: "\<forall>s\<in>set samples. btree (snd s) \<and> json_exact env (snd s)"
    and load: "load_cache env files validate position = Return cache"
    and i: "i < length samples" and "length samples * 24 < 2 ^ 64"
    and refl: "validate \<longrightarrow> (\<forall>v\<in>set (map snd (snd (samples ! i))). value_eq v v)"
  shows "read_sample_direct env files cache i = Return \<lparr>cs_data = fst (samples ! i), cs_metadata = map snd (snd (samples ! i))\<rparr>"
proof -
  have bt: "\<forall>s\<in>set samples. btree (snd s)" and sample: "btree (snd (samples ! i))" "json_exact env (snd (samples ! i))"
    using samples i by simp_all
  have cache: "cache = \<lparr>lc_cache_id = cache_id_from_name env (cb_source_name b), lc_manifest = manifest,
      lc_metadata_rows = (if validate then Some (cb_metadata_rows b) else None), lc_index = concat (map index_row (cb_index b)), lc_validate = validate\<rparr>"
    using load_finished [OF inv laws(2) finish bt, of validate position] load by simp
  obtain metadata_bytes where meta: "write_metadata_file env (cb_schema b) (cb_metadata_rows b) = Return metadata_bytes"
      and fields: "mf_schema (manifest_fields manifest) = cb_schema b" "manifest_whole_record manifest = whole_record (cb_compression b)"
    by (rule finish_steps [OF finish]) simp
  obtain bytes n where stored: "encode_stored_record env (fst (samples ! i)) (cb_schema b) (cb_metadata_rows b ! i) (cb_compression b) = Return (bytes, n)"
      "mapE (row_cell ''metadata'' (snd (samples ! i))) (cb_schema b) = Return (cb_metadata_rows b ! i)"
      "zip (map field_name (cb_schema b)) (cb_metadata_rows b ! i) = snd (samples ! i)"
      "cb_metadata_rows b ! i = map snd (snd (samples ! i))" and placed: "placed b (cb_index b ! i) bytes n"
    by (rule finished_sample [OF inv laws(2) meta i sample(1)])
  let ?e = "cb_index b ! i"
  have k: "ix_shard_id ?e \<le> os_id (cb_current b)" using placed by (simp add: placed_def)
  obtain content where content: "shard_content b (ix_shard_id ?e) = Some content" "files (shard_path (shard_name (ix_shard_id ?e))) = Some content"
      "length content < 2 ^ 64" and shard: "mf_shards (manifest_fields manifest) ! ix_shard_id ?e =
        \<lparr>sm_name = shard_name (ix_shard_id ?e), sm_uncompressed_byte_len = shard_uncompressed b (ix_shard_id ?e),
         sm_byte_len = length content, sm_compression = cb_compression b, sm_sha256 = hash_bytes env content\<rparr>"
    by (rule finished_shard [OF inv finish k])
  note entries = finished_entries [OF inv finish]
  have lens: "length (cb_index b) = length samples" "length (cb_metadata_rows b) = length samples" using inv by (simp_all add: builder_inv_def)
  have entry: "get_index_entry (concat (map index_row (cb_index b))) i = Return ?e"
    by (rule get_index_rows) (use entries(1) i lens assms(8) in \<open>simp_all add: list_all_length\<close>)
  have range: "ix_shard_id ?e < length (mf_shards (manifest_fields manifest))" using entries(2) i lens by simp
  have slice: "ix_offset ?e + ix_byte_len ?e \<le> length content" "take (ix_byte_len ?e) (drop (ix_offset ?e) content) = bytes" "n \<le> shard_uncompressed b (ix_shard_id ?e)"
    using placed content(1) by (auto simp: placed_def)
  have "decode_stored_record env bytes manifest (mf_shards (manifest_fields manifest) ! ix_shard_id ?e) =
      Return \<lparr>cs_data = fst (samples ! i), cs_metadata = cb_metadata_rows b ! i\<rparr>"
    by (rule decode_stored [OF laws(1) stored(1) sample(2) stored(3) sample(1) stored(2)]) (use slice(3) shard fields in simp_all)
  moreover have "check_embedded env files cache i \<lparr>cs_data = fst (samples ! i), cs_metadata = cb_metadata_rows b ! i\<rparr> =
      Return \<lparr>cs_data = fst (samples ! i), cs_metadata = cb_metadata_rows b ! i\<rparr>"
    using refl i lens stored(4)
    by (auto simp: cache check_embedded_def with_metadata_rows_def validate_redundant_metadata_def list_all2_same)
  ultimately show ?thesis
    using entry range slice(1,2) content(2,3) shard stored(4)
    by (simp add: read_sample_direct_def cache open_file_def read_exact_def)
qed

section \<open>Properties\<close>

lemma written_inv:
  assumes "create_builder env path_exists name max_bytes p = Return b" and "push_samples env samples b = Return b1"
    and "\<forall>s\<in>set samples. btree (snd s)"
  shows "builder_inv env b1 samples" and "cb_max_shard_bytes b1 = max_bytes" and "cb_source_name b1 = name"
proof -
  have "cb_max_shard_bytes b = max_bytes" "cb_source_name b = name"
    using assms(1) by (auto simp: create_builder_def guard_op_Return exn_simps split: if_splits)
  then show "builder_inv env b1 samples" "cb_max_shard_bytes b1 = max_bytes" "cb_source_name b1 = name"
    using push_samples_inv [OF create_builder_inv [OF assms(1)] assms(2,3)] by simp_all
qed

lemma written_roundtrip:
  assumes "codec_laws env" and "file_laws env"
    and "create_builder env path_exists name max_bytes p = Return b" and "push_samples env samples b = Return b1"
    and "finish_builder env b1 = Return (manifest, files)"
    and "\<forall>s\<in>set samples. btree (snd s) \<and> json_exact env (snd s) \<and> (validate \<longrightarrow> (\<forall>(k, v)\<in>set (snd s). value_eq v v))"
    and "length samples * 24 < 2 ^ 64" and "set positions \<subseteq> {..<length samples}"
  shows "\<exists>cache. load_cache env files validate position = Return cache \<and> loaded_sample_count cache = length samples \<and>
    lc_cache_id cache = cache_id_from_name env name \<and>
    snd (read_samples env files cache positions new_reader_cache) =
      map (\<lambda>i. Return \<lparr>cs_data = fst (samples ! i), cs_metadata = map snd (snd (samples ! i))\<rparr>) positions"
proof -
  have bt: "\<forall>s\<in>set samples. btree (snd s)" and samples: "\<forall>s\<in>set samples. btree (snd s) \<and> json_exact env (snd s)"
    using assms(6) by simp_all
  note inv = written_inv [OF assms(3,4) bt]
  obtain cache where cache: "load_cache env files validate position = Return cache" "loaded_sample_count cache = length samples"
      "lc_cache_id cache = cache_id_from_name env name"
    using load_finished [OF inv(1) assms(2,5) bt, of validate position] inv by (simp add: loaded_sample_count_def builder_inv_def)
  have "read_sample_direct env files cache i = Return \<lparr>cs_data = fst (samples ! i), cs_metadata = map snd (snd (samples ! i))\<rparr>"
    if "i \<in> set positions" for i
  proof -
    have "i < length samples" using that assms(8) by auto
    moreover from this have "validate \<longrightarrow> (\<forall>v\<in>set (map snd (snd (samples ! i))). value_eq v v)"
      using assms(6) [rule_format, OF nth_mem] by fastforce
    ultimately show ?thesis by (rule read_finished [OF inv(1) assms(1,2,5) samples cache(1) _ assms(7)])
  qed
  then show ?thesis
    using cache read_samples_ok [OF new_reader_cache_ok, of env files cache positions]
    by (cases "read_samples env files cache positions new_reader_cache") simp
qed

text \<open>C11. A cache that \<open>CacheBuilder\<close> finished is read back: it loads, with or without validation, with the identity of
  its name, and any sequence of reads through a worker's cache of open files returns each sample with its data and its
  metadata in key order, under every compression policy and however the samples fell into shards.\<close>

theorem cache_roundtrip:
  assumes "codec_laws env" and "file_laws env"
    and "create_builder env path_exists name max_bytes p = Return b" and "push_samples env samples b = Return b1"
    and "finish_builder env b1 = Return (manifest, files)"
    and "\<forall>s\<in>set samples. btree (snd s) \<and> json_exact env (snd s) \<and> (validate \<longrightarrow> (\<forall>(k, v)\<in>set (snd s). value_eq v v))"
    and "length samples * 24 < 2 ^ 64" and "set positions \<subseteq> {..<length samples}"
  shows "\<exists>cache. load_cache env files validate position = Return cache \<and> loaded_sample_count cache = length samples \<and>
    lc_cache_id cache = cache_id_from_name env name \<and>
    snd (read_samples env files cache positions new_reader_cache) =
      map (\<lambda>i. Return \<lparr>cs_data = fst (samples ! i), cs_metadata = map snd (snd (samples ! i))\<rparr>) positions"
  by (rule written_roundtrip [OF assms])

text \<open>C15. No shard of a finished cache exceeds the configured size, unless it holds a single record: the index of the
  cache has at most one entry in a shard that is too long.\<close>

theorem shards_bounded:
  assumes "create_builder env path_exists name max_bytes p = Return b" and "push_samples env samples b = Return b1"
    and "finish_builder env b1 = Return (manifest, files)" and "\<forall>s\<in>set samples. btree (snd s)"
  shows "\<exists>entries. files ''index.bin'' = Some (concat (map index_row entries)) \<and> length entries = length samples \<and>
    (\<forall>k<length (mf_shards (manifest_fields manifest)).
       sm_byte_len (mf_shards (manifest_fields manifest) ! k) \<le> max_bytes \<or> length (filter (\<lambda>e. ix_shard_id e = k) entries) \<le> 1)"
proof -
  note inv = written_inv [OF assms(1,2,4)]
  have shards: "length (mf_shards (manifest_fields manifest)) = Suc (os_id (cb_current b1))" "files ''index.bin'' = Some (concat (map index_row (cb_index b1)))"
    by (rule finish_steps [OF assms(3)], use inv(1) in \<open>simp add: builder_inv_def current_ok_def\<close>)+
  have "sm_byte_len (mf_shards (manifest_fields manifest) ! k) \<le> max_bytes \<or> length (filter (\<lambda>e. ix_shard_id e = k) (cb_index b1)) \<le> 1"
    if k: "k \<le> os_id (cb_current b1)" for k
  proof -
    obtain content where "shard_content b1 k = Some content" "sm_byte_len (mf_shards (manifest_fields manifest) ! k) = length content"
      by (rule finished_shard [OF inv(1) assms(3) k]) simp
    moreover have "bounded_shard b1 k" using inv(1) k by (simp add: builder_inv_def)
    ultimately show ?thesis using inv(2) by (auto simp: bounded_shard_def)
  qed
  then show ?thesis using inv(1) shards by (auto simp: builder_inv_def less_Suc_eq_le intro!: exI [of _ "cb_index b1"])
qed


text \<open>C14. A validated cache is intact: when \<open>load_cache\<close> returns, every file that the manifest names is there with the
  recorded length and digest, the table and the index have one row per sample, and every index entry names a shard.\<close>

theorem load_cache_intact:
  assumes "load_cache env files True position = Return cache"
  shows "(\<forall>shard\<in>set (mf_shards (manifest_fields (lc_manifest cache))). \<exists>content. files (shard_path (sm_name shard)) = Some content \<and>
      length content = sm_byte_len shard \<and> hash_bytes env content = sm_sha256 shard) \<and>
    (\<exists>index metadata. files ''index.bin'' = Some index \<and> hash_bytes env index = mf_index_sha256 (manifest_fields (lc_manifest cache)) \<and>
      files ''metadata.arrow'' = Some metadata \<and> hash_bytes env metadata = mf_metadata_sha256 (manifest_fields (lc_manifest cache))) \<and>
    loaded_sample_count cache = mf_sample_count (manifest_fields (lc_manifest cache)) \<and>
    (\<exists>rows. lc_metadata_rows cache = Some rows \<and> length rows = loaded_sample_count cache) \<and>
    (\<forall>i < loaded_sample_count cache. \<exists>entry. index_entries (lc_index cache) ! i = Return entry \<and>
      ix_shard_id entry < length (mf_shards (manifest_fields (lc_manifest cache))))"
proof -
  obtain manifest us rows index metadata where steps:
      "verify_file_checksum env files ''metadata.arrow'' (mf_metadata_sha256 (manifest_fields manifest)) = Return ()"
      "verify_file_checksum env files ''index.bin'' (mf_index_sha256 (manifest_fields manifest)) = Return ()"
      "mapE (verify_shard env files True) (mf_shards (manifest_fields manifest)) = Return us"
      "validate_loaded_shapes manifest (Some rows) index = Return ()"
      and cache: "lc_manifest cache = manifest" "lc_metadata_rows cache = Some rows" "lc_index cache = index"
    using assms by (auto simp: load_cache_def Let_def exn_simps)
  have shards: "\<exists>content. files (shard_path (sm_name shard)) = Some content \<and> length content = sm_byte_len shard \<and> hash_bytes env content = sm_sha256 shard"
    if "shard \<in> set (mf_shards (manifest_fields manifest))" for shard
  proof -
    have "verify_shard env files True shard = Return ()" using mapE_elements [OF steps(3) that] by auto
    then show ?thesis by (auto simp: verify_shard_def verify_file_checksum_def open_file_def exn_simps split: option.splits if_splits)
  qed
  have digests: "\<exists>content. files name = Some content \<and> hash_bytes env content = expected"
    if "verify_file_checksum env files name expected = Return ()" for name expected
    using that by (auto simp: verify_file_checksum_def open_file_def split: option.splits if_splits)
  have shapes: "length rows = mf_sample_count (manifest_fields manifest)" "index_len index = mf_sample_count (manifest_fields manifest)"
    using steps(4) by (auto simp: validate_loaded_shapes_def Let_def split: if_splits)
  obtain vs where vs: "mapE (\<lambda>item. bindE item (\<lambda>entry. if length (mf_shards (manifest_fields manifest)) \<le> ix_shard_id entry
      then Raise (ValueError (''index references missing shard '' @ str_nat (ix_shard_id entry))) else Return ())) (index_entries index) = Return vs"
    using steps(4) shapes by (auto simp: validate_loaded_shapes_def Let_def exn_simps)
  have "\<exists>entry. index_entries index ! i = Return entry \<and> ix_shard_id entry < length (mf_shards (manifest_fields manifest))" if "i < index_len index" for i
  proof -
    have "index_entries index ! i \<in> set (index_entries index)" using that by (simp add: index_entries_def)
    from mapE_elements [OF vs this] show ?thesis by (auto simp: exn_simps split: if_splits)
  qed
  then show ?thesis
    using shards digests [OF steps(1)] digests [OF steps(2)] shapes by (simp add: cache loaded_sample_count_def)
qed

section \<open>An example\<close>

text \<open>A codec that copies, files of one byte for the one table and the one manifest that the example writes, and an empty
  digest. Two samples fall into two shards.\<close>

definition demo_table_schema :: "MetadataField list" where
  "demo_table_schema = [\<lparr>field_name = ''label'', field_kind = KInt\<rparr>]"

definition demo_samples :: "(byte list \<times> metadata_object) list" where
  "demo_samples = [([1, 2], [(''label'', MInt 7)]), ([3], [(''label'', MInt 8)])]"

definition demo_manifest :: Manifest where
  "demo_manifest = V4 0 \<lparr>mf_source_name = ''demo'', mf_sample_count = 2, mf_schema = demo_table_schema, mf_metadata_sha256 = '''', mf_index_sha256 = '''',
     mf_shards = [\<lparr>sm_name = ''000000.bin'', sm_uncompressed_byte_len = 11, sm_byte_len = 15, sm_compression = WholeRecord (Brotli 5), sm_sha256 = ''''\<rparr>,
       \<lparr>sm_name = ''000001.bin'', sm_uncompressed_byte_len = 10, sm_byte_len = 14, sm_compression = WholeRecord (Brotli 5), sm_sha256 = ''''\<rparr>],
     mf_extra = []\<rparr>"

definition demo_storage :: storage_env where
  "demo_storage =
     \<lparr>block_encode = \<lambda>p data. if length data < 2 ^ 32 then Return data else Raise (ValueError ''too long''),
      block_decode = \<lambda>p body len. Return body,
      json_object = \<lambda>m. (case m of [(k, MInt i)] \<Rightarrow> Return [word_of_int i] | _ \<Rightarrow> Raise (RuntimeError ''JSON error'')),
      parse_object = \<lambda>bytes. Return [(''label'', MInt (uint (hd bytes)))],
      arrow_write = \<lambda>schema batches. if schema = demo_table_schema \<and> batches = [[[MInt 7, MInt 8]]] then Return [1] else Raise (RuntimeError ''Arrow error''),
      arrow_read = \<lambda>bytes. Return [arrow_batch_of demo_table_schema [[MInt 7, MInt 8]]],
      json_manifest = \<lambda>m. if m = demo_manifest then Return [2] else Raise (RuntimeError ''JSON error''),
      parse_manifest = \<lambda>bytes. Return demo_manifest,
      sha_digest = \<lambda>bytes. [], utf8 = \<lambda>s. [], op_fault = \<lambda>operation. None\<rparr>"

lemma demo_laws: "codec_laws demo_storage" "file_laws demo_storage"
  by (auto simp: codec_laws_def file_laws_def demo_storage_def demo_table_schema_def split: if_splits)

definition demo_builder :: CacheBuilder where
  "demo_builder =
     \<lparr>cb_source_name = ''demo'', cb_max_shard_bytes = 20, cb_schema = [], cb_metadata_rows = [], cb_index = [], cb_shards = [],
      cb_compression = WholeRecord (Brotli 5),
      cb_current = \<lparr>os_id = 0, os_name = ''000000.bin'', os_bytes = [], os_byte_len = 0, os_uncompressed_byte_len = 0\<rparr>,
      cb_files = [''shards/000000.bin'' \<mapsto> []]\<rparr>"

lemma demo_shard_names: "shard_name 0 = ''000000.bin''" "shard_name (Suc 0) = ''000001.bin''"
  by code_simp+

lemma demo_created: "create_builder demo_storage False ''demo'' 20 (WholeRecord (Brotli 5)) = Return demo_builder"
  by (simp add: create_builder_def create_shard_def guard_op_def demo_storage_def demo_builder_def demo_shard_names shard_path_def)

definition demo_pushed :: CacheBuilder where
  "demo_pushed = demo_builder\<lparr>cb_schema := demo_table_schema, cb_metadata_rows := [[MInt 7], [MInt 8]],
     cb_index := [\<lparr>ix_shard_id = 0, ix_offset = 0, ix_byte_len = 15\<rparr>, \<lparr>ix_shard_id = 1, ix_offset = 0, ix_byte_len = 14\<rparr>],
     cb_shards := [\<lparr>sm_name = ''000000.bin'', sm_uncompressed_byte_len = 11, sm_byte_len = 15, sm_compression = WholeRecord (Brotli 5), sm_sha256 = ''''\<rparr>],
     cb_current := \<lparr>os_id = 1, os_name = ''000001.bin'', os_bytes = little_endian 4 10 @ little_endian 8 1 @ [8, 3], os_byte_len = 14, os_uncompressed_byte_len = 10\<rparr>,
     cb_files := [''shards/000001.bin'' \<mapsto> [], ''shards/000000.bin'' \<mapsto> little_endian 4 11 @ little_endian 8 1 @ [7, 1, 2]]\<rparr>"

lemmas push_sample_simps = push_sample_def validate_metadata_def row_cell_def encode_stored_record_def encode_sample_record_def
  metadata_row_to_object_def btree_collect_def frame_block_def rotate_shard_if_needed_def create_shard_def finish_shard_def
  shard_manifest_def write_payload_def guard_op_def hash_bytes_def hex_encode_def

lemma demo_pushes: "push_samples demo_storage demo_samples demo_builder = Return demo_pushed"
  by (simp add: push_sample_simps demo_storage_def demo_builder_def demo_samples_def demo_pushed_def demo_table_schema_def demo_shard_names shard_path_def)

definition demo_files :: "string \<rightharpoonup> byte list" where
  "demo_files = (cb_files demo_pushed)(''shards/000001.bin'' \<mapsto> os_bytes (cb_current demo_pushed), ''metadata.arrow'' \<mapsto> [1],
     ''index.bin'' \<mapsto> concat (map index_row (cb_index demo_pushed)), ''manifest.json'' \<mapsto> [2])"

lemma demo_batches: "metadata_batches demo_storage demo_table_schema [[MInt 7], [MInt 8]] = Return [[[MInt 7, MInt 8]]]"
  by (simp add: metadata_batches.simps metadata_batch_len_def batch_columns_def build_array_def metadata_cell_def demo_table_schema_def)

lemma demo_finished: "finish_builder demo_storage demo_pushed = Return (demo_manifest, demo_files)"
proof -
  have "write_metadata_file demo_storage demo_table_schema [[MInt 7], [MInt 8]] = Return [1]"
    by (simp add: write_metadata_file_def guard_op_def demo_batches) (simp add: demo_storage_def)
  then show ?thesis
    by (simp add: finish_builder_def finish_shard_def shard_manifest_def write_index_file_def demo_pushed_def demo_builder_def demo_files_def shard_path_def)
      (simp add: guard_op_def demo_storage_def demo_manifest_def hash_bytes_def hex_encode_def cache_id_from_name_def le_nat_def)
qed

lemma demo_metadata:
  "\<forall>s\<in>set demo_samples. btree (snd s) \<and> json_exact demo_storage (snd s) \<and> (validate \<longrightarrow> (\<forall>(k, v)\<in>set (snd s). value_eq v v))"
  by (simp add: demo_samples_def btree_def json_exact_def demo_storage_def)

theorem cache_roundtrip_witness:
  "\<exists>cache. load_cache demo_storage demo_files True 0 = Return cache \<and> loaded_sample_count cache = 2 \<and>
    lc_cache_id cache = cache_id_from_name demo_storage ''demo'' \<and>
    snd (read_samples demo_storage demo_files cache [1, 0, 1] new_reader_cache) =
      [Return \<lparr>cs_data = [3], cs_metadata = [MInt 8]\<rparr>, Return \<lparr>cs_data = [1, 2], cs_metadata = [MInt 7]\<rparr>, Return \<lparr>cs_data = [3], cs_metadata = [MInt 8]\<rparr>]"
  using cache_roundtrip [OF demo_laws demo_created demo_pushes demo_finished demo_metadata, of "[1, 0, 1]" True 0]
  by (simp add: demo_samples_def del: read_samples.simps) (simp add: numeral_2_eq_2 del: read_samples.simps)

theorem shards_bounded_witness:
  "\<exists>entries. demo_files ''index.bin'' = Some (concat (map index_row entries)) \<and> length entries = 2 \<and>
    (\<forall>k<2. sm_byte_len (mf_shards (manifest_fields demo_manifest) ! k) \<le> 20 \<or> length (filter (\<lambda>e. ix_shard_id e = k) entries) \<le> 1)"
proof -
  have "\<forall>s\<in>set demo_samples. btree (snd s)" using demo_metadata [of False] by simp
  moreover have "length demo_samples = 2" "length (mf_shards (manifest_fields demo_manifest)) = 2" by (simp_all add: demo_samples_def demo_manifest_def)
  ultimately show ?thesis using shards_bounded [OF demo_created demo_pushes demo_finished] by simp
qed

theorem load_cache_intact_witness:
  "\<exists>cache. load_cache demo_storage demo_files True 0 = Return cache \<and> lc_manifest cache = demo_manifest \<and>
    (\<exists>content. demo_files ''shards/000001.bin'' = Some content \<and> length content = 14) \<and>
    (\<exists>rows. lc_metadata_rows cache = Some rows \<and> length rows = 2)"
proof -
  have "\<forall>s\<in>set demo_samples. btree (snd s)" using demo_metadata [of False] by simp
  then have "builder_inv demo_storage demo_pushed demo_samples" using written_inv(1) [OF demo_created demo_pushes] by simp
  note loaded = load_finished [OF this demo_laws(2) demo_finished \<open>\<forall>s\<in>set demo_samples. btree (snd s)\<close>, of True 0]
  have "length (cb_index demo_pushed) = 2" by (simp add: demo_pushed_def)
  moreover have "\<exists>content. demo_files ''shards/000001.bin'' = Some content \<and> length content = 14"
    using load_cache_intact [OF loaded, THEN conjunct1] by (auto simp: demo_manifest_def shard_path_def)
  ultimately show ?thesis using load_cache_intact [OF loaded] loaded by (simp add: loaded_sample_count_def)
qed

end
