(* ===== verification/Native_Writer.thy ===== *)
theory Native_Writer
  imports Cache_Roundtrip
begin

text \<open>
  The native writer of one source: \<open>src/src/dataset_rt/writer.rs\<close>. Samples go through jobs on the pool threads, which
  finish in any order; the writer receives them, holds those that came early, and stores them in source order. A cache is
  built below the shared temporary directory and published by a rename.

  Arguments: the outcome of each receive (which of the running jobs it delivers, or the error that ends it), the submissions
  that the pool refuses, pending signals, what Python's \<open>iter\<close> and the iterator return, conversions of Python numbers and
  the text of Python exceptions, and the file operations that fail. \<open>u64\<close> sequence numbers are \<open>nat\<close> with the
  checked additions written out. Progress, profiling and timings are not modelled.
\<close>

section \<open>The window of running jobs\<close>

text \<open>\<open>SampleWritePipeline\<close>: the jobs that run, the samples that came early, the state that the commits
  change, and the word that an overflow of its sequence numbers is reported with.\<close>

record ('x, 's) job_window =
  w_state :: 's
  w_pending :: "(nat \<times> 'x) list"
  w_next :: nat
  w_flight :: "(nat \<times> 'x) list"
  w_received :: nat
  w_parallelism :: nat
  w_kind :: string

type_synonym ('x, 's) commit = "'x \<Rightarrow> 's \<Rightarrow> 's \<times> unit exn"

definition new_job_window :: "string \<Rightarrow> nat \<Rightarrow> nat \<Rightarrow> 's \<Rightarrow> ('x, 's) job_window" where
  "new_job_window kind ahead threads s =
     \<lparr>w_state = s, w_pending = [], w_next = 0, w_flight = [], w_received = 0, w_parallelism = min ahead threads, w_kind = kind\<rparr>"

abbreviation lost_worker :: "'a exn" where
  "lost_worker \<equiv> Raise (RuntimeError ''runtime worker failed'')"

text \<open>The loop that stores every sample whose turn has come.\<close>

function commit_ready :: "('x, 's) commit \<Rightarrow> ('x, 's) job_window \<Rightarrow> ('x, 's) job_window \<times> unit exn" where
  "commit_ready commit w =
     (case map_of (w_pending w) (w_next w) of
        None \<Rightarrow> (w, Return ())
      | Some x \<Rightarrow>
          (case commit x (w_state w) of (s, r) \<Rightarrow>
           let w1 = w\<lparr>w_pending := filter (\<lambda>(k, y). k \<noteq> w_next w) (w_pending w), w_state := s\<rparr> in
           if r \<noteq> Return () then (w1, r)
           else if 2 ^ 64 \<le> w_next w + 1 then (w1, Raise (ValueError (w_kind w @ '' sequence overflowed u64'')))
           else commit_ready commit (w1\<lparr>w_next := w_next w + 1\<rparr>)))"
  by pat_completeness auto
termination
  by (relation "measure (\<lambda>(commit, w). length (w_pending w))")
    (auto dest!: map_of_SomeD intro!: length_filter_less)

declare commit_ready.simps [simp del]

text \<open>The \<open>k\<close>-th receive ends with an error, or delivers one of the running jobs.\<close>

definition complete_one :: "('x, 's) commit \<Rightarrow> (nat \<Rightarrow> nat exn) \<Rightarrow> ('x, 's) job_window \<Rightarrow> ('x, 's) job_window \<times> unit exn" where
  "complete_one commit arrivals w =
     (let w1 = w\<lparr>w_received := w_received w + 1\<rparr> in
      case arrivals (w_received w) of
        Inl e \<Rightarrow> (w1, Raise e)
      | Inr choice \<Rightarrow>
          if w_flight w = [] then (w1, lost_worker)
          else let i = choice mod length (w_flight w); (k, x) = w_flight w ! i;
                   w2 = w1\<lparr>w_flight := take i (w_flight w) @ drop (Suc i) (w_flight w), w_pending := btree_insert k x (w_pending w)\<rparr> in
            if k \<in> fst ` set (w_pending w) then (w2, lost_worker) else commit_ready commit w2)"

definition submit_job ::
  "('x, 's) commit \<Rightarrow> (nat \<Rightarrow> nat exn) \<Rightarrow> (nat \<Rightarrow> unit exn) \<Rightarrow> nat \<Rightarrow> 'x \<Rightarrow> ('x, 's) job_window \<Rightarrow> ('x, 's) job_window \<times> unit exn" where
  "submit_job commit arrivals pool k x w =
     (case (if length (w_flight w) = w_parallelism w then complete_one commit arrivals w else (w, Return ())) of
        (w1, Inl e) \<Rightarrow> (w1, Raise e)
      | (w1, Inr u) \<Rightarrow> (case pool k of Inl e \<Rightarrow> (w1, Raise e) | Inr u \<Rightarrow> (w1\<lparr>w_flight := w_flight w1 @ [(k, x)]\<rparr>, Return ())))"

lemma commit_ready_wait: "map_of (w_pending w) (w_next w) = None \<Longrightarrow> commit_ready commit w = (w, Return ())"
  by (subst commit_ready.simps) simp

lemma commit_ready_step:
  assumes "map_of (w_pending w) (w_next w) = Some x" and "commit x (w_state w) = (s, Return ())" and "w_next w + 1 < 2 ^ 64"
  shows "commit_ready commit w =
    commit_ready commit (w\<lparr>w_pending := filter (\<lambda>(k, y). k \<noteq> w_next w) (w_pending w), w_state := s, w_next := w_next w + 1\<rparr>)"
  using assms by (subst commit_ready.simps) (simp add: Let_def)

lemma commit_ready_fail:
  assumes "map_of (w_pending w) (w_next w) = Some x" and "commit x (w_state w) = (s, Raise e)"
  shows "commit_ready commit w = (w\<lparr>w_pending := filter (\<lambda>(k, y). k \<noteq> w_next w) (w_pending w), w_state := s\<rparr>, Raise e)"
  using assms by (subst commit_ready.simps) (simp add: Let_def)

lemma commit_ready_flight: "w_flight (fst (commit_ready commit w)) = w_flight w \<and> w_parallelism (fst (commit_ready commit w)) = w_parallelism w"
proof (induction commit w rule: commit_ready.induct)
  case (1 commit w)
  show ?case
  proof (cases "map_of (w_pending w) (w_next w)")
    case (Some x)
    obtain s r where "commit x (w_state w) = (s, r)" by fastforce
    then show ?thesis using 1 [OF Some] Some by (subst (1 2) commit_ready.simps) (auto simp: Let_def)
  qed (simp add: commit_ready_wait)
qed

lemma complete_one_flight: "complete_one commit arrivals w = (w1, Return u) \<Longrightarrow> Suc (length (w_flight w1)) = length (w_flight w)"
proof -
  assume run: "complete_one commit arrivals w = (w1, Return u)"
  then obtain choice where choice: "arrivals (w_received w) = Return choice" "w_flight w \<noteq> []"
    by (auto simp: complete_one_def Let_def split: sum.splits if_splits)
  let ?i = "choice mod length (w_flight w)"
  have "\<exists>w2. w_flight w2 = take ?i (w_flight w) @ drop (Suc ?i) (w_flight w) \<and> commit_ready commit w2 = (w1, Return u)"
    using run choice by (auto simp: complete_one_def Let_def split: if_splits prod.splits)
  then have "w_flight w1 = take ?i (w_flight w) @ drop (Suc ?i) (w_flight w)" using commit_ready_flight [of commit] by (metis fst_conv)
  moreover have "?i < length (w_flight w)" using choice(2) by simp
  ultimately show ?thesis by (simp add: min_def)
qed

lemma complete_one_parallelism: "complete_one commit arrivals w = (w1, r) \<Longrightarrow> w_parallelism w1 = w_parallelism w"
proof -
  assume run: "complete_one commit arrivals w = (w1, r)"
  have "w_parallelism w1 = w_parallelism w \<or> (\<exists>w2. w_parallelism w2 = w_parallelism w \<and> commit_ready commit w2 = (w1, r))"
    using run by (auto simp: complete_one_def Let_def split: sum.splits if_splits prod.splits)
  then show ?thesis using commit_ready_flight [of commit] by (metis fst_conv)
qed

function drain :: "('x, 's) commit \<Rightarrow> (nat \<Rightarrow> nat exn) \<Rightarrow> ('x, 's) job_window \<Rightarrow> ('x, 's) job_window \<times> unit exn" where
  "drain commit arrivals w =
     (if w_flight w = [] then (w, Return ())
      else case complete_one commit arrivals w of
          (w1, Inl e) \<Rightarrow> (w1, Raise e)
        | (w1, Inr u) \<Rightarrow> drain commit arrivals w1)"
  by pat_completeness auto
termination
  by (relation "measure (\<lambda>(commit, arrivals, w). length (w_flight w))") (auto dest!: complete_one_flight [OF sym] simp flip: Suc_le_eq)

declare drain.simps [simp del]

section \<open>Samples from Python\<close>

text \<open>What an iterator may yield: a tuple of buffers, dictionaries and other values, or another object.\<close>

datatype py_part = PBytes "byte list" | PDict "(pyval \<times> pyval) list" | PValue pyval

datatype py_item = PTuple "py_part list" | PObject

record native_source =
  ns_name :: "pyval exn"
  ns_items :: "py_item exn list exn"

record writer_env =
  storage :: storage_env
  arrivals :: "nat \<Rightarrow> nat exn"
  pool_accepts :: "nat \<Rightarrow> unit exn"
  signals :: "nat \<Rightarrow> unit exn"
  float_of_int :: "int \<Rightarrow> pyfloat option"
  py_text :: "py_error \<Rightarrow> string"
  prepare_fault :: "py_error option"
  cleanup_fault :: "py_error option"
  rename_fault :: "py_error option"

text \<open>\<open>py_error\<close>: interrupts keep their class, every other exception becomes an error of the writer.\<close>

fun wrap_py :: "writer_env \<Rightarrow> py_error \<Rightarrow> py_error" where
  "wrap_py env (KeyboardInterrupt m) = KeyboardInterrupt (py_text env (KeyboardInterrupt m))"
| "wrap_py env (SystemExit c) = SystemExit (Inr (py_text env (SystemExit c)))"
| "wrap_py env e = RuntimeError (''Python error: '' @ py_text env e)"

definition wrapE :: "writer_env \<Rightarrow> 'a exn \<Rightarrow> 'a exn" where
  "wrapE env r = (case r of Inl e \<Rightarrow> Raise (wrap_py env e) | Inr x \<Rightarrow> Return x)"

text \<open>An element of \<open>bytearray(iterable)\<close>, and \<open>bytearray(value)\<close>, which counts zeros for an integer and iterates over the
  keys of a dictionary.\<close>

fun byte_of :: "pyval \<Rightarrow> byte option" where
  "byte_of (VInt i) = (if 0 \<le> i \<and> i < 256 then Some (word_of_int i) else None)"
| "byte_of (VBool b) = Some (if b then 1 else 0)"
| "byte_of v = None"

fun bytearray_of :: "py_part \<Rightarrow> byte list option" where
  "bytearray_of (PBytes bs) = Some bs"
| "bytearray_of (PDict entries) = those (map (byte_of \<circ> fst) entries)"
| "bytearray_of (PValue (VInt i)) = (if 0 \<le> i then Some (replicate (nat i) 0) else None)"
| "bytearray_of (PValue (VBool b)) = Some (if b then [0] else [])"
| "bytearray_of (PValue v) = None"

definition extract_data :: "py_part \<Rightarrow> byte list exn" where
  "extract_data part = (case bytearray_of part of Some bs \<Rightarrow> Return bs | None \<Rightarrow> Raise (ValueError ''data must be bytes-like''))"

fun extract_metadata_value :: "writer_env \<Rightarrow> pyval \<Rightarrow> MetadataValue exn" where
  "extract_metadata_value env (VBool b) = Return (MBool b)"
| "extract_metadata_value env (VInt i) =
     (if - (2 ^ 63) \<le> i \<and> i < 2 ^ 63 then Return (MInt i)
      else case float_of_int env i of
          Some f \<Rightarrow> Return (MFloat f)
        | None \<Rightarrow> Raise (ValueError ''metadata values must be bool, int, float, or str''))"
| "extract_metadata_value env (VFloat f) = Return (MFloat f)"
| "extract_metadata_value env (VStr s) = Return (MString s)"
| "extract_metadata_value env v = Raise (ValueError ''metadata values must be bool, int, float, or str'')"

fun metadata_entries :: "writer_env \<Rightarrow> (pyval \<times> pyval) list \<Rightarrow> metadata_object \<Rightarrow> metadata_object exn" where
  "metadata_entries env [] m = Return m"
| "metadata_entries env ((VStr k, v) # entries) m =
     bindE (extract_metadata_value env v) (\<lambda>cell. metadata_entries env entries (btree_insert k cell m))"
| "metadata_entries env ((k, v) # entries) m = Raise (ValueError ''metadata keys must be strings'')"

fun extract_sample_metadata :: "writer_env \<Rightarrow> py_part \<Rightarrow> metadata_object exn" where
  "extract_sample_metadata env (PDict entries) = metadata_entries env entries []"
| "extract_sample_metadata env part = Raise (ValueError ''metadata must be a dict'')"

fun extract_cache_input :: "writer_env \<Rightarrow> py_item \<Rightarrow> (byte list \<times> metadata_object) exn" where
  "extract_cache_input env PObject = Raise (ValueError ''CacheSource must yield CacheInput tuples'')"
| "extract_cache_input env (PTuple [d, m]) =
     bindE (extract_data d) (\<lambda>data. bindE (extract_sample_metadata env m) (\<lambda>metadata. Return (data, metadata)))"
| "extract_cache_input env (PTuple parts) = Raise (ValueError ''CacheInput must contain data and metadata'')"

section \<open>One source through the window\<close>

definition store_sample :: "writer_env \<Rightarrow> (byte list \<times> metadata_object, CacheBuilder) commit" where
  "store_sample env sample b = (case push_sample (storage env) sample b of Inl e \<Rightarrow> (b, Raise e) | Inr b1 \<Rightarrow> (b1, Return ()))"

text \<open>One turn of the loop before the submission: signals, the next item, its extraction.\<close>

definition next_input :: "writer_env \<Rightarrow> nat \<Rightarrow> py_item exn \<Rightarrow> (byte list \<times> metadata_object) exn" where
  "next_input env k item = bindE (wrapE env (signals env k)) (\<lambda>_. bindE (wrapE env item) (extract_cache_input env))"

fun ingest_python_samples ::
  "writer_env \<Rightarrow> nat \<Rightarrow> py_item exn list \<Rightarrow> (byte list \<times> metadata_object, CacheBuilder) job_window \<Rightarrow>
   (byte list \<times> metadata_object, CacheBuilder) job_window \<times> unit exn" where
  "ingest_python_samples env k [] w = (w, wrapE env (signals env k))"
| "ingest_python_samples env k (item # items) w =
     (case next_input env k item of
        Inl e \<Rightarrow> (w, Raise e)
      | Inr sample \<Rightarrow>
          (case submit_job (store_sample env) (arrivals env) (pool_accepts env) k sample w of
             (w1, Inl e) \<Rightarrow> (w1, Raise e)
           | (w1, Inr u) \<Rightarrow>
               if 2 ^ 64 \<le> k + 1 then (w1, Raise (ValueError ''sample sequence overflowed u64''))
               else ingest_python_samples env (k + 1) items w1))"

text \<open>The files that the last state of the builder left in its directory, and the finished cache.\<close>

definition finish_pipeline ::
  "writer_env \<Rightarrow> (byte list \<times> metadata_object, CacheBuilder) job_window \<Rightarrow> (string \<rightharpoonup> byte list) \<times> (string \<rightharpoonup> byte list) exn" where
  "finish_pipeline env w =
     (case drain (store_sample env) (arrivals env) w of
        (w1, Inl e) \<Rightarrow> (cb_files (w_state w1), Raise e)
      | (w1, Inr u) \<Rightarrow> (cb_files (w_state w1),
          if w_pending w1 \<noteq> [] then lost_worker
          else bindE (finish_builder (storage env) (w_state w1)) (\<lambda>(manifest, files). Return files)))"

definition write_with_pipeline ::
  "writer_env \<Rightarrow> nat \<Rightarrow> nat \<Rightarrow> py_item exn list \<Rightarrow> CacheBuilder \<Rightarrow> (string \<rightharpoonup> byte list) \<times> (string \<rightharpoonup> byte list) exn" where
  "write_with_pipeline env ahead threads items b =
     (case ingest_python_samples env 0 items (new_job_window ''sample'' ahead threads b) of
        (w, Inl e) \<Rightarrow> (cb_files (w_state w), Raise e)
      | (w, Inr u) \<Rightarrow> finish_pipeline env w)"

section \<open>Settings\<close>

record native_config =
  nc_max_shard_bytes :: nat
  nc_prefetch_size :: nat
  nc_num_workers :: nat
  nc_compression :: shard_policy
  nc_validate :: bool
  nc_reuse :: bool

definition extract_u64 :: "writer_env \<Rightarrow> int \<Rightarrow> nat exn" where
  "extract_u64 env i =
     (if 0 \<le> i \<and> i < 2 ^ 64 then Return (nat i) else Raise (wrap_py env (OverflowError ''can't convert to unsigned'')))"

definition positive_setting :: "string \<Rightarrow> nat \<Rightarrow> nat exn" where
  "positive_setting name n = (if n = 0 then Raise (ValueError (name @ '' must be greater than zero'')) else Return n)"

definition ranged_setting :: "writer_env \<Rightarrow> int \<Rightarrow> int \<Rightarrow> string \<Rightarrow> int \<Rightarrow> int exn" where
  "ranged_setting env low high message i =
     (if i < - (2 ^ 31) \<or> 2 ^ 31 \<le> i then Raise (wrap_py env (OverflowError ''out of range integral type conversion attempted''))
      else if i < low \<or> high < i then Raise (ValueError message) else Return i)"

fun extract_shard_compression :: "writer_env \<Rightarrow> shard_policy \<Rightarrow> shard_policy exn" where
  "extract_shard_compression env (WholeRecord NoCompression) = Return (WholeRecord NoCompression)"
| "extract_shard_compression env (WholeRecord (Lz4Fast a)) =
     bindE (ranged_setting env 1 65537 ''LZ4 acceleration must be between 1 and 65537'' a) (\<lambda>a. Return (WholeRecord (Lz4Fast a)))"
| "extract_shard_compression env (WholeRecord (Lz4HC l)) =
     bindE (ranged_setting env 1 12 ''LZ4 HC level must be between 1 and 12'' l) (\<lambda>l. Return (WholeRecord (Lz4HC l)))"
| "extract_shard_compression env (WholeRecord (Brotli l)) =
     bindE (ranged_setting env 0 11 ''Brotli level must be between 0 and 11'' l) (\<lambda>l. Return (WholeRecord (Brotli l)))"
| "extract_shard_compression env (Legacy s) =
     (if shard_ratio s \<le> 0 then Raise (ValueError ''shard_compression.ratio must be positive and finite'')
      else if shard_algo s = AlgoNone \<and> shard_ratio s \<noteq> 1
      then Raise (ValueError (''shard_compression.ratio must be 1.0 when algo is '' @ quoted ''none''))
      else Return (Legacy s))"

definition extract_writer_config :: "writer_env \<Rightarrow> WriterConfig \<Rightarrow> nat \<Rightarrow> bool \<Rightarrow> native_config exn" where
  "extract_writer_config env config workers reuse_existing =
     bindE (extract_u64 env (max_shard_bytes config)) (\<lambda>max_bytes.
     bindE (extract_u64 env (writer_prefetch_size config)) (\<lambda>ahead.
     bindE (positive_setting ''max_shard_bytes'' max_bytes) (\<lambda>max_bytes.
     bindE (positive_setting ''prefetch_size'' ahead) (\<lambda>ahead.
     bindE (extract_shard_compression env (shard_compression config)) (\<lambda>policy.
     Return \<lparr>nc_max_shard_bytes = max_bytes, nc_prefetch_size = ahead, nc_num_workers = workers, nc_compression = policy,
       nc_validate = writer_validate_cache config, nc_reuse = reuse_existing\<rparr>)))))"

section \<open>Publishing\<close>

text \<open>The base directory: caches by name, caches being written below \<open>tmp\<close>, and whether \<open>tmp\<close> itself exists.\<close>

record cache_dirs =
  published :: "string \<rightharpoonup> (string \<rightharpoonup> byte list)"
  temporary :: "string \<rightharpoonup> (string \<rightharpoonup> byte list)"
  tmp_exists :: bool

text \<open>\<open>Path::components\<close> on POSIX: empty parts and inner dots vanish.\<close>

definition validate_source_name_native :: "string \<Rightarrow> string exn" where
  "validate_source_name_native name =
     (let plain = Raise (ValueError ''CacheSource.name must be a plain path segment'') in
      if name = [] then Raise (ValueError ''CacheSource.name must not be empty'')
      else if hd name = CHR ''/'' then plain
      else case filter (\<lambda>part. part \<noteq> []) (split_char CHR ''/'' name) of
          [] \<Rightarrow> plain
        | first # others \<Rightarrow>
            if first = ''.'' \<or> first = ''..'' \<or> list_ex (\<lambda>part. part \<noteq> ''.'') others then plain else Return first)"

text \<open>The name as given, and the directory it stands for.\<close>

definition extract_source_name :: "writer_env \<Rightarrow> native_source \<Rightarrow> (string \<times> string) exn" where
  "extract_source_name env source =
     bindE (wrapE env (ns_name source)) (\<lambda>v.
     case v of
       VStr name \<Rightarrow> bindE (validate_source_name_native name) (\<lambda>segment. Return (name, segment))
     | _ \<Rightarrow> Raise (wrap_py env (TypeError (''object cannot be converted to '' @ quoted ''PyString''))))"

definition cache_exists :: "cache_dirs \<Rightarrow> string \<Rightarrow> bool" where
  "cache_exists dirs segment \<longleftrightarrow> published dirs segment \<noteq> None \<or> (segment = ''tmp'' \<and> tmp_exists dirs)"

definition cache_files :: "cache_dirs \<Rightarrow> string \<Rightarrow> string \<rightharpoonup> byte list" where
  "cache_files dirs segment = (case published dirs segment of Some files \<Rightarrow> files | None \<Rightarrow> Map.empty)"

definition join_path :: "string \<Rightarrow> string \<Rightarrow> string" where
  "join_path base name = (if base = [] then name else if last base = CHR ''/'' then base @ name else base @ CHR ''/'' # name)"

definition prepare_cache_paths :: "writer_env \<Rightarrow> string \<Rightarrow> string \<Rightarrow> cache_dirs \<Rightarrow> cache_dirs \<times> unit exn" where
  "prepare_cache_paths env path segment dirs =
     (if cache_exists dirs segment then (dirs, Raise (ValueError (''cache path already exists: '' @ path)))
      else if temporary dirs segment = None then (dirs, Return ())
      else case prepare_fault env of
          Some e \<Rightarrow> (dirs, Raise e)
        | None \<Rightarrow> (dirs\<lparr>temporary := (temporary dirs)(segment := None)\<rparr>, Return ()))"

text \<open>An error of the clean-up replaces the error that caused it.\<close>

definition cleanup_temp_cache :: "writer_env \<Rightarrow> string \<Rightarrow> py_error \<Rightarrow> cache_dirs \<Rightarrow> cache_dirs \<times> 'a exn" where
  "cleanup_temp_cache env segment e dirs =
     (if temporary dirs segment = None then (dirs, Raise e)
      else case cleanup_fault env of
          Some f \<Rightarrow> (dirs, Raise f)
        | None \<Rightarrow> (dirs\<lparr>temporary := (temporary dirs)(segment := None)\<rparr>, Raise e))"

text \<open>A rename over an existing directory that is not empty fails: \<open>tmp\<close> holds the cache to be published.\<close>

definition publish_cache :: "writer_env \<Rightarrow> string \<Rightarrow> (string \<rightharpoonup> byte list) \<Rightarrow> cache_dirs \<Rightarrow> cache_dirs \<times> unit exn" where
  "publish_cache env segment files dirs =
     (case rename_fault env of
        Some e \<Rightarrow> (dirs, Raise e)
      | None \<Rightarrow>
          if segment = ''tmp'' then (dirs, Raise (RuntimeError ''I/O error: Directory not empty''))
          else (dirs\<lparr>published := (published dirs)(segment \<mapsto> files), temporary := (temporary dirs)(segment := None)\<rparr>, Return ()))"

definition in_temporary :: "string \<Rightarrow> (string \<rightharpoonup> byte list) \<Rightarrow> cache_dirs \<Rightarrow> cache_dirs" where
  "in_temporary segment files dirs = dirs\<lparr>temporary := (temporary dirs)(segment \<mapsto> files), tmp_exists := True\<rparr>"

definition write_new_cache :: "writer_env \<Rightarrow> native_config \<Rightarrow> string \<Rightarrow> string \<Rightarrow> native_source \<Rightarrow> cache_dirs \<Rightarrow> cache_dirs \<times> unit exn" where
  "write_new_cache env config name segment source dirs =
     (case create_builder (storage env) False name (nc_max_shard_bytes config) (nc_compression config) of
        Inl e \<Rightarrow> cleanup_temp_cache env segment e (in_temporary segment Map.empty dirs)
      | Inr b \<Rightarrow>
          (case wrapE env (ns_items source) of
             Inl e \<Rightarrow> (in_temporary segment (cb_files b) dirs, Raise e)
           | Inr items \<Rightarrow>
               (case write_with_pipeline env (nc_prefetch_size config) (nc_num_workers config) items b of
                  (partial, Inl e) \<Rightarrow> cleanup_temp_cache env segment e (in_temporary segment partial dirs)
                | (partial, Inr files) \<Rightarrow>
                    (case publish_cache env segment files (in_temporary segment files dirs) of
                       (dirs1, Inl e) \<Rightarrow> cleanup_temp_cache env segment e dirs1
                     | (dirs1, Inr u) \<Rightarrow> (dirs1, Return ())))))"

definition write_named_source :: "writer_env \<Rightarrow> string \<Rightarrow> native_config \<Rightarrow> string \<Rightarrow> string \<Rightarrow> native_source \<Rightarrow> cache_dirs \<Rightarrow> cache_dirs \<times> unit exn" where
  "write_named_source env base config name segment source dirs =
     (if nc_reuse config \<and> cache_exists dirs segment
      then (dirs, if nc_validate config
                  then bindE (load_cache (storage env) (cache_files dirs segment) True 0) (\<lambda>_. Return ())
                  else Return ())
      else case prepare_cache_paths env (join_path base name) segment dirs of
          (dirs1, Inl e) \<Rightarrow> (dirs1, Raise e)
        | (dirs1, Inr u) \<Rightarrow> write_new_cache env config name segment source dirs1)"

fun is_interrupt :: "py_error \<Rightarrow> bool" where
  "is_interrupt (KeyboardInterrupt m) \<longleftrightarrow> True"
| "is_interrupt (SystemExit c) \<longleftrightarrow> True"
| "is_interrupt e \<longleftrightarrow> False"

fun cache_error_text :: "py_error \<Rightarrow> string" where
  "cache_error_text (ValueError m) = m"
| "cache_error_text (RuntimeError m) = m"
| "cache_error_text e = []"

text \<open>\<open>write_one_source_result\<close>: interrupts stop the call, every other error becomes the record of the source.\<close>

definition write_one_source_result ::
  "writer_env \<Rightarrow> string \<Rightarrow> nat \<Rightarrow> native_config \<Rightarrow> native_source \<Rightarrow> cache_dirs \<Rightarrow> cache_dirs \<times> (string \<times> string \<times> string) exn" where
  "write_one_source_result env base position config source dirs =
     (case extract_source_name env source of
        Inl e \<Rightarrow> (dirs, if is_interrupt e then Raise e else Return (''error'', ''source['' @ str_nat position @ '']'', cache_error_text e))
      | Inr (name, segment) \<Rightarrow>
          (case write_named_source env base config name segment source dirs of
             (dirs1, Inl e) \<Rightarrow> (dirs1, if is_interrupt e then Raise e else Return (''error'', name, cache_error_text e))
           | (dirs1, Inr u) \<Rightarrow> (dirs1, Return (''success'', name, join_path base name))))"

definition write_single_cache ::
  "writer_env \<Rightarrow> nat \<Rightarrow> string \<Rightarrow> WriterConfig \<Rightarrow> bool \<Rightarrow> native_source \<Rightarrow> cache_dirs \<Rightarrow> cache_dirs \<times> (string \<times> string \<times> string) list exn" where
  "write_single_cache env workers base writer_config reuse_existing source dirs =
     (case extract_writer_config env writer_config workers reuse_existing of
        Inl e \<Rightarrow> (dirs, Raise e)
      | Inr config \<Rightarrow>
          (case write_one_source_result env base 0 config source dirs of
             (dirs1, Inl e) \<Rightarrow> (dirs1, Raise e)
           | (dirs1, Inr outcome) \<Rightarrow> (dirs1, Return [outcome])))"

section \<open>The window commits in order\<close>

fun commit_all :: "('x, 's) commit \<Rightarrow> 'x list \<Rightarrow> 's \<Rightarrow> 's \<times> unit exn" where
  "commit_all commit [] s = (s, Return ())"
| "commit_all commit (x # xs) s = (case commit x s of (s1, Inl e) \<Rightarrow> (s1, Raise e) | (s1, Inr u) \<Rightarrow> commit_all commit xs s1)"

lemma commit_all_append:
  "commit_all commit (xs @ ys) s = (case commit_all commit xs s of (s1, Inl e) \<Rightarrow> (s1, Raise e) | (s1, Inr u) \<Rightarrow> commit_all commit ys s1)"
  by (induction xs arbitrary: s) (auto split: prod.split sum.split)

text \<open>After the samples \<open>xs\<close> were submitted: those before \<open>w_next\<close> are stored, each later one runs or waits, once.\<close>

definition window_ok :: "('x, 's) commit \<Rightarrow> 'x list \<Rightarrow> 's \<Rightarrow> ('x, 's) job_window \<Rightarrow> bool" where
  "window_ok commit xs s0 w \<longleftrightarrow>
     w_next w \<le> length xs \<and> commit_all commit (take (w_next w) xs) s0 = (w_state w, Return ()) \<and>
     distinct (map fst (w_flight w @ w_pending w)) \<and> set (w_flight w @ w_pending w) = (\<lambda>k. (k, xs ! k)) ` {w_next w..<length xs} \<and>
     length (w_flight w) \<le> w_parallelism w \<and> 0 < w_parallelism w"

definition window_settled :: "('x, 's) commit \<Rightarrow> 'x list \<Rightarrow> 's \<Rightarrow> ('x, 's) job_window \<Rightarrow> bool" where
  "window_settled commit xs s0 w \<longleftrightarrow> window_ok commit xs s0 w \<and> w_next w \<notin> fst ` set (w_pending w)"

lemma new_window_settled: "0 < ahead \<Longrightarrow> 0 < threads \<Longrightarrow> window_settled commit [] s (new_job_window kind ahead threads s)"
  by (simp add: window_settled_def window_ok_def new_job_window_def)

lemma window_ok_turn:
  assumes "window_ok commit xs s0 w" and "map_of (w_pending w) (w_next w) = Some x"
  shows "w_next w < length xs" and "x = xs ! w_next w" and "take (Suc (w_next w)) xs = take (w_next w) xs @ [x]"
proof -
  have "(w_next w, x) \<in> set (w_flight w @ w_pending w)" using map_of_SomeD [OF assms(2)] by simp
  then have "(w_next w, x) \<in> (\<lambda>k. (k, xs ! k)) ` {w_next w..<length xs}" using assms(1) unfolding window_ok_def by blast
  then show "w_next w < length xs" "x = xs ! w_next w" by auto
  then show "take (Suc (w_next w)) xs = take (w_next w) xs @ [x]" by (simp add: take_Suc_conv_app_nth)
qed

lemma window_ok_stored:
  assumes ok: "window_ok commit xs s0 w" and turn: "map_of (w_pending w) (w_next w) = Some x" and "commit x (w_state w) = (s, Return ())"
  shows "window_ok commit xs s0 (w\<lparr>w_pending := filter (\<lambda>(k, y). k \<noteq> w_next w) (w_pending w), w_state := s, w_next := w_next w + 1\<rparr>)"
proof -
  note head = window_ok_turn [OF ok turn]
  let ?pending = "filter (\<lambda>(k, y). k \<noteq> w_next w) (w_pending w)"
  have "(w_next w, y) \<notin> set (w_flight w)" for y
    using ok map_of_SomeD [OF turn] by (force simp: window_ok_def)
  then have "set (w_flight w @ ?pending) = {(k, y) \<in> set (w_flight w @ w_pending w). k \<noteq> w_next w}" by auto
  also have "\<dots> = (\<lambda>k. (k, xs ! k)) ` {w_next w + 1..<length xs}" using ok unfolding window_ok_def by auto
  finally have "set (w_flight w @ ?pending) = (\<lambda>k. (k, xs ! k)) ` {w_next w + 1..<length xs}" .
  moreover have "distinct (map fst (w_flight w @ ?pending))" using ok by (auto simp: window_ok_def distinct_map_filter)
  moreover have "commit_all commit (take (w_next w + 1) xs) s0 = (s, Return ())"
    using ok head(3) assms(3) by (simp add: window_ok_def commit_all_append)
  ultimately show ?thesis using ok head(1) by (auto simp: window_ok_def)
qed

lemma commit_ready_ok:
  assumes "window_ok commit xs s0 w" and "length xs < 2 ^ 64" and "commit_ready commit w = (w1, r)"
  shows "(r = Return () \<and> window_settled commit xs s0 w1) \<or>
    (\<exists>e. r = Raise e \<and> commit_all commit xs s0 = (w_state w1, Raise e))"
  using assms
proof (induction commit w rule: commit_ready.induct)
  case (1 commit w)
  show ?case
  proof (cases "map_of (w_pending w) (w_next w)")
    case None
    then show ?thesis using 1 by (auto simp: commit_ready_wait map_of_eq_None_iff window_settled_def)
  next
    case (Some x)
    note head = window_ok_turn [OF "1.prems"(1) Some]
    obtain s r' where step: "commit x (w_state w) = (s, r')" by fastforce
    show ?thesis
    proof (cases r')
      case (Inl e)
      have "commit_all commit (take (w_next w) xs @ x # drop (Suc (w_next w)) xs) s0 = (s, Raise e)"
        using "1.prems"(1) step Inl by (simp add: window_ok_def commit_all_append)
      then have "commit_all commit xs s0 = (s, Raise e)" using head(1,2) by (simp add: id_take_nth_drop [symmetric])
      moreover have "(w1, r) = (w\<lparr>w_pending := filter (\<lambda>(k, y). k \<noteq> w_next w) (w_pending w), w_state := s\<rparr>, Raise e)"
        using "1.prems"(3) commit_ready_fail [where commit = commit, OF Some step [unfolded Inl]] by simp
      ultimately show ?thesis by simp
    next
      case (Inr u)
      then have step': "commit x (w_state w) = (s, Return ())" using step by simp
      have bound: "w_next w + 1 < 2 ^ 64" using head(1) "1.prems"(2) by simp
      show ?thesis
        using "1.IH" [OF Some step' [symmetric] refl _ _ window_ok_stored [where commit = commit, OF "1.prems"(1) Some step'] "1.prems"(2)]
          "1.prems"(3) commit_ready_step [where commit = commit, OF Some step' bound] bound by simp
    qed
  qed
qed

lemma btree_insert_set: "k \<notin> fst ` set m \<Longrightarrow> set (btree_insert k v m) = insert (k, v) (set m) \<and> (distinct (map fst m) \<longrightarrow> distinct (map fst (btree_insert k v m)))"
  by (induction k v m rule: btree_insert.induct) auto

lemma removed_at:
  assumes "xs = ys @ y # zs"
  shows "set xs = insert y (set (ys @ zs))" and "distinct (map f xs) \<longleftrightarrow> f y \<notin> f ` set (ys @ zs) \<and> distinct (map f (ys @ zs))"
  unfolding assms by auto

lemma complete_one_ok:
  assumes "window_settled commit xs s0 w" and "length xs < 2 ^ 64" and "w_flight w \<noteq> []" and run: "complete_one commit arrive w = (w1, r)"
  shows "(r = Return () \<and> window_settled commit xs s0 w1) \<or>
    (\<exists>e. r = Raise e \<and> (commit_all commit xs s0 = (w_state w1, Raise e) \<or> arrive (w_received w) = Raise e))"
proof (cases "arrive (w_received w)")
  case (Inr choice)
  have ok: "window_ok commit xs s0 w" using assms(1) by (simp add: window_settled_def)
  let ?i = "choice mod length (w_flight w)"
  obtain k x where job: "w_flight w ! ?i = (k, x)" by fastforce
  have i: "?i < length (w_flight w)" using assms(3) by simp
  define rest where "rest = take ?i (w_flight w) @ drop (Suc ?i) (w_flight w)"
  have sets: "set (w_flight w) = insert (k, x) (set rest)" and dist: "distinct (map fst (w_flight w)) \<longleftrightarrow> k \<notin> fst ` set rest \<and> distinct (map fst rest)"
    using removed_at(1) [OF id_take_nth_drop [OF i]] removed_at(2) [OF id_take_nth_drop [OF i], of fst] job unfolding rest_def by simp_all
  have k: "k \<notin> fst ` set (w_pending w)" using ok sets by (auto simp: window_ok_def)
  let ?w2 = "w\<lparr>w_received := w_received w + 1, w_flight := rest, w_pending := btree_insert k x (w_pending w)\<rparr>"
  have "set (rest @ btree_insert k x (w_pending w)) = set (w_flight w @ w_pending w)" using btree_insert_set [OF k, of x] sets by auto
  moreover have "distinct (map fst (rest @ btree_insert k x (w_pending w)))"
  proof -
    have "distinct (map fst (w_flight w))" "distinct (map fst (w_pending w))" "fst ` set (w_flight w) \<inter> fst ` set (w_pending w) = {}"
      using ok by (simp_all add: window_ok_def)
    moreover have "fst ` set (w_flight w) = insert k (fst ` set rest)" unfolding sets by simp
    moreover have "fst ` set (btree_insert k x (w_pending w)) = insert k (fst ` set (w_pending w))" using btree_insert_set [OF k, of x] by simp
    moreover have "distinct (map fst (btree_insert k x (w_pending w)))" using calculation(2) btree_insert_set [OF k, of x] by simp
    ultimately show ?thesis using dist k unfolding map_append distinct_append set_map by (simp add: disjoint_iff)
  qed
  moreover have "length rest \<le> length (w_flight w)" by (simp add: rest_def)
  ultimately have w2: "window_ok commit xs s0 ?w2" using ok unfolding window_ok_def by simp
  have "commit_ready commit ?w2 = (w1, r)" using run Inr assms(3) job k by (simp add: complete_one_def Let_def rest_def)
  then show ?thesis using commit_ready_ok [OF w2 assms(2)] by auto
qed (use run in \<open>auto simp: complete_one_def Let_def\<close>)

lemma settled_submit:
  assumes "window_settled commit xs s0 w" and "length (w_flight w) < w_parallelism w"
  shows "window_settled commit (xs @ [x]) s0 (w\<lparr>w_flight := w_flight w @ [(length xs, x)]\<rparr>)"
proof -
  have jobs: "set (w_flight w @ w_pending w) = (\<lambda>k. (k, xs ! k)) ` {w_next w..<length xs}" and le: "w_next w \<le> length xs"
    using assms(1) by (simp_all add: window_settled_def window_ok_def)
  have "{w_next w..<length (xs @ [x])} = insert (length xs) {w_next w..<length xs}" using le by auto
  then have "(\<lambda>k. (k, (xs @ [x]) ! k)) ` {w_next w..<length (xs @ [x])} = insert (length xs, x) ((\<lambda>k. (k, (xs @ [x]) ! k)) ` {w_next w..<length xs})"
    by simp
  also have "(\<lambda>k. (k, (xs @ [x]) ! k)) ` {w_next w..<length xs} = (\<lambda>k. (k, xs ! k)) ` {w_next w..<length xs}"
    by (intro image_cong) (simp_all add: nth_append)
  finally have "set ((w_flight w @ [(length xs, x)]) @ w_pending w) = (\<lambda>k. (k, (xs @ [x]) ! k)) ` {w_next w..<length (xs @ [x])}"
    using jobs by auto
  moreover have "length xs \<notin> fst ` set (w_flight w @ w_pending w)" unfolding jobs by auto
  then have "distinct (map fst ((w_flight w @ [(length xs, x)]) @ w_pending w))"
    using assms(1) unfolding window_settled_def window_ok_def by (simp add: image_Un)
  ultimately show ?thesis using assms le by (simp add: window_settled_def window_ok_def)
qed

lemma submit_job_ok:
  assumes "window_settled commit xs s0 w" and "length xs < 2 ^ 64" and run: "submit_job commit arrive pool (length xs) x w = (w1, r)"
  shows "(r = Return () \<and> window_settled commit (xs @ [x]) s0 w1) \<or>
    (\<exists>e. r = Raise e \<and> (commit_all commit xs s0 = (w_state w1, Raise e) \<or> arrive (w_received w) = Raise e \<or> pool (length xs) = Raise e))"
proof -
  have ok: "window_ok commit xs s0 w" using assms(1) by (simp add: window_settled_def)
  obtain w' r' where freed: "(if length (w_flight w) = w_parallelism w then complete_one commit arrive w else (w, Return ())) = (w', r')"
    by fastforce
  consider (fail) e where "r' = Raise e" "commit_all commit xs s0 = (w_state w', Raise e) \<or> arrive (w_received w) = Raise e"
    | (free) "r' = Return ()" "window_settled commit xs s0 w'" "length (w_flight w') < w_parallelism w'"
  proof (cases "length (w_flight w) = w_parallelism w")
    case True
    then have "w_flight w \<noteq> []" and step: "complete_one commit arrive w = (w', r')" using ok freed by (auto simp: window_ok_def)
    moreover have "length (w_flight w') < w_parallelism w'" if "r' = Return ()"
      using complete_one_flight [of commit arrive w w' "()"] step that True complete_one_parallelism [OF step] by simp
    ultimately show ?thesis using complete_one_ok [OF assms(1,2)] that by blast
  next
    case False
    then show ?thesis using that(2) freed assms(1) ok by (auto simp: window_ok_def)
  qed
  then show ?thesis
  proof cases
    case fail
    then show ?thesis using run freed by (auto simp: submit_job_def)
  next
    case free
    have "window_settled commit (xs @ [x]) s0 (w'\<lparr>w_flight := w_flight w' @ [(length xs, x)]\<rparr>)"
      using free(2,3) by (rule settled_submit)
    moreover have "(w1, r) = (case pool (length xs) of Inl e \<Rightarrow> (w', Raise e) | Inr u \<Rightarrow> (w'\<lparr>w_flight := w_flight w' @ [(length xs, x)]\<rparr>, Return ()))"
      using run freed free(1) by (simp add: submit_job_def)
    ultimately show ?thesis by (cases "pool (length xs)") simp_all
  qed
qed

lemma drain_ok:
  assumes "window_settled commit xs s0 w" and "length xs < 2 ^ 64" and "drain commit arrive w = (w1, r)"
  shows "(r = Return () \<and> w_pending w1 = [] \<and> commit_all commit xs s0 = (w_state w1, Return ())) \<or>
    (\<exists>e. r = Raise e \<and> (commit_all commit xs s0 = (w_state w1, Raise e) \<or> (\<exists>k. arrive k = Raise e)))"
  using assms
proof (induction commit arrive w rule: drain.induct)
  case (1 commit arrive w)
  show ?case
  proof (cases "w_flight w = []")
    case True
    have next_end: "w_next w = length xs"
    proof (rule ccontr)
      assume "w_next w \<noteq> length xs"
      then have "w_next w \<in> {w_next w..<length xs}" using "1.prems"(1) by (simp add: window_settled_def window_ok_def)
      then have "(w_next w, xs ! w_next w) \<in> set (w_pending w)" using "1.prems"(1) True by (simp add: window_settled_def window_ok_def)
      then show False using "1.prems"(1) by (force simp: window_settled_def)
    qed
    then have "w_pending w = []" "commit_all commit xs s0 = (w_state w, Return ())" using "1.prems"(1) True by (auto simp: window_settled_def window_ok_def)
    moreover have "(w1, r) = (w, Return ())" using "1.prems"(3) True by (simp add: drain.simps)
    ultimately show ?thesis by simp
  next
    case False
    obtain w' r' where step: "complete_one commit arrive w = (w', r')" by fastforce
    show ?thesis
    proof (cases r')
      case (Inl e)
      then have "(w1, r) = (w', Raise e)" using "1.prems"(3) step False by (simp add: drain.simps)
      then show ?thesis using complete_one_ok [OF "1.prems"(1,2) False step] Inl by auto
    next
      case (Inr u)
      have "drain commit arrive w' = (w1, r)" using "1.prems"(3) step False Inr by (subst (asm) drain.simps) simp
      moreover have "window_settled commit xs s0 w'" using complete_one_ok [OF "1.prems"(1,2) False step] Inr by auto
      ultimately show ?thesis using "1.IH" [OF False step [symmetric] Inr] "1.prems"(2) by simp
    qed
  qed
qed

section \<open>The samples of a source\<close>

text \<open>What the iterator gives, extracted in order.\<close>

definition source_inputs :: "writer_env \<Rightarrow> py_item exn list \<Rightarrow> (byte list \<times> metadata_object) list exn" where
  "source_inputs env items = mapE (\<lambda>item. bindE (wrapE env item) (extract_cache_input env)) items"

text \<open>No interrupt, no lost worker, no refused job.\<close>

definition quiet :: "writer_env \<Rightarrow> bool" where
  "quiet env \<longleftrightarrow> (\<forall>k. (\<exists>choice. arrivals env k = Return choice) \<and> pool_accepts env k = Return () \<and> signals env k = Return ())"

lemma next_input_Return: "next_input env k item = Return x \<Longrightarrow> bindE (wrapE env item) (extract_cache_input env) = Return x"
  by (auto simp: next_input_def exn_simps)

lemma next_input_quiet: "quiet env \<Longrightarrow> next_input env k item = bindE (wrapE env item) (extract_cache_input env)"
  by (simp add: next_input_def quiet_def wrapE_def)

lemma commit_all_push: "push_samples (storage env) xs b = (case commit_all (store_sample env) xs b of (b1, Inl e) \<Rightarrow> Raise e | (b1, Inr u) \<Rightarrow> Return b1)"
  by (induction xs arbitrary: b) (auto simp: store_sample_def bindE_def split: sum.split prod.split)

lemma commit_all_raise: "commit_all commit xs s = (s1, Raise e) \<Longrightarrow> commit_all commit (xs @ ys) s = (s1, Raise e)"
  by (simp add: commit_all_append)

lemma ingest_ok:
  assumes "window_settled (store_sample env) xs b w" and "length xs + length items < 2 ^ 64" and "ingest_python_samples env (length xs) items w = (w1, r)"
  shows "(r = Return () \<and> (\<exists>ys. source_inputs env items = Return ys \<and> window_settled (store_sample env) (xs @ ys) b w1)) \<or>
    (\<exists>e. r = Raise e \<and> (quiet env \<longrightarrow> (\<forall>ys. source_inputs env items = Return ys \<longrightarrow> commit_all (store_sample env) (xs @ ys) b = (w_state w1, Raise e))))"
  using assms
proof (induction items arbitrary: xs w)
  case Nil
  then show ?case by (cases "signals env (length xs)") (auto simp: source_inputs_def quiet_def wrapE_def)
next
  case (Cons item items)
  show ?case
  proof (cases "next_input env (length xs) item")
    case (Inl e)
    have "source_inputs env (item # items) = Raise e" if "quiet env"
    proof -
      have "bindE (wrapE env item) (extract_cache_input env) = Raise e" using next_input_quiet [OF that, of "length xs" item] Inl by simp
      then show ?thesis by (simp add: source_inputs_def)
    qed
    then show ?thesis using Cons.prems(3) Inl by auto
  next
    case (Inr x)
    note x = next_input_Return [OF Inr]
    obtain w' r' where step: "submit_job (store_sample env) (arrivals env) (pool_accepts env) (length xs) x w = (w', r')" by fastforce
    have "length xs < 2 ^ 64" using Cons.prems(2) by simp
    note submitted = submit_job_ok [OF Cons.prems(1) this step]
    show ?thesis
    proof (cases r')
      case (Inl e)
      then have run: "(w1, r) = (w', Raise e)" using Cons.prems(3) Inr step by simp
      have "commit_all (store_sample env) xs b = (w_state w', Raise e)" if "quiet env"
        using submitted Inl that by (auto simp: quiet_def) (metis Inr_Inl_False sum.distinct(2))+
      then show ?thesis using run commit_all_raise by (metis prod.inject)
    next
      case (Inr u)
      then have "window_settled (store_sample env) (xs @ [x]) b w'" using submitted by auto
      moreover have "length (xs @ [x]) + length items < 2 ^ 64" using Cons.prems(2) by simp
      moreover have "ingest_python_samples env (length (xs @ [x])) items w' = (w1, r)"
        using Cons.prems(2,3) \<open>next_input env (length xs) item = Inr x\<close> step Inr by (simp split: if_splits)
      ultimately have rest: "(r = Return () \<and> (\<exists>ys. source_inputs env items = Return ys \<and> window_settled (store_sample env) ((xs @ [x]) @ ys) b w1)) \<or>
          (\<exists>e. r = Raise e \<and> (quiet env \<longrightarrow> (\<forall>ys. source_inputs env items = Return ys \<longrightarrow>
             commit_all (store_sample env) ((xs @ [x]) @ ys) b = (w_state w1, Raise e))))"
        by (rule Cons.IH)
      have "source_inputs env (item # items) = Return zs \<longleftrightarrow> (\<exists>ys. source_inputs env items = Return ys \<and> zs = x # ys)" for zs
        using x by (cases x) (auto simp: source_inputs_def exn_simps)
      then show ?thesis using rest by auto
    qed
  qed
qed

lemma pipeline_returns:
  assumes "write_with_pipeline env ahead threads items b = (partial, Return files)" and "0 < ahead" "0 < threads" and "length items < 2 ^ 64"
  shows "\<exists>xs b1 manifest. source_inputs env items = Return xs \<and> push_samples (storage env) xs b = Return b1 \<and>
    finish_builder (storage env) b1 = Return (manifest, files)"
proof -
  obtain w where ingest: "ingest_python_samples env 0 items (new_job_window ''sample'' ahead threads b) = (w, Return ())"
      and finish: "finish_pipeline env w = (partial, Return files)"
    using assms(1) by (auto simp: write_with_pipeline_def split: prod.splits sum.splits)
  have start: "window_settled (store_sample env) [] b (new_job_window ''sample'' ahead threads b)" by (rule new_window_settled [OF assms(2,3)])
  obtain xs where xs: "source_inputs env items = Return xs" "window_settled (store_sample env) xs b w"
    using ingest_ok [OF start, of items w "Return ()"] ingest assms(4) by auto
  have "length xs = length items" using xs(1) by (auto simp: source_inputs_def dest: mapE_length)
  then have "length xs < 2 ^ 64" using assms(4) by simp
  obtain w1 where drained: "drain (store_sample env) (arrivals env) w = (w1, Return ())"
      and built: "bindE (finish_builder (storage env) (w_state w1)) (\<lambda>(manifest, files). Return files) = Return files"
    using finish by (auto simp: finish_pipeline_def split: prod.splits sum.splits if_splits)
  have "commit_all (store_sample env) xs b = (w_state w1, Return ())" using drain_ok [OF xs(2) \<open>length xs < 2 ^ 64\<close> drained] by auto
  then show ?thesis using xs(1) built by (auto simp: commit_all_push exn_simps)
qed

lemma pipeline_sequential:
  assumes "quiet env" and "source_inputs env items = Return xs" and "0 < ahead" "0 < threads" and "length items < 2 ^ 64"
  shows "snd (write_with_pipeline env ahead threads items b) =
    bindE (push_samples (storage env) xs b) (\<lambda>b1. bindE (finish_builder (storage env) b1) (\<lambda>(manifest, files). Return files))"
proof -
  obtain w r where ingest: "ingest_python_samples env 0 items (new_job_window ''sample'' ahead threads b) = (w, r)" by fastforce
  have "length xs = length items" using assms(2) by (auto simp: source_inputs_def dest: mapE_length)
  then have len: "length xs < 2 ^ 64" using assms(5) by simp
  have start: "window_settled (store_sample env) [] b (new_job_window ''sample'' ahead threads b)" by (rule new_window_settled [OF assms(3,4)])
  consider (ok) "r = Return ()" "window_settled (store_sample env) xs b w" | (fail) e where "r = Raise e" "commit_all (store_sample env) xs b = (w_state w, Raise e)"
    using ingest_ok [OF start, of items w r] ingest assms(1,2,5) by auto
  then show ?thesis
  proof cases
    case fail
    then show ?thesis using ingest by (simp add: write_with_pipeline_def commit_all_push)
  next
    case ok
    obtain w1 r1 where drained: "drain (store_sample env) (arrivals env) w = (w1, r1)" by fastforce
    have "(r1 = Return () \<and> w_pending w1 = [] \<and> commit_all (store_sample env) xs b = (w_state w1, Return ())) \<or>
        (\<exists>e. r1 = Raise e \<and> commit_all (store_sample env) xs b = (w_state w1, Raise e))"
      using drain_ok [OF ok(2) len drained] assms(1) unfolding quiet_def by (metis Inr_Inl_False)
    then show ?thesis using ingest ok(1) drained by (auto simp: write_with_pipeline_def finish_pipeline_def commit_all_push)
  qed
qed

text \<open>The metadata of an extracted sample is in key order.\<close>

lemma btree_insert_keys: "fst ` set (btree_insert k v m) = insert k (fst ` set m)"
  by (induction k v m rule: btree_insert.induct) auto

lemma btree_insert_btree: "btree m \<Longrightarrow> btree (btree_insert k v m)"
proof (induction k v m rule: btree_insert.induct)
  case (2 k v l u m)
  have "btree m" "\<forall>x\<in>fst ` set m. l < x" using "2.prems" by (auto simp: btree_def)
  then show ?case using 2 btree_insert_keys [of k v m] by (auto simp: btree_def)
qed (simp add: btree_def)

lemma metadata_entries_btree: "btree m \<Longrightarrow> metadata_entries env entries m = Return m1 \<Longrightarrow> btree m1"
  by (induction env entries m rule: metadata_entries.induct) (auto simp: exn_simps btree_insert_btree)

lemma extracted_btree: "extract_cache_input env item = Return (data, m) \<Longrightarrow> btree m"
proof -
  have "btree m" if "extract_sample_metadata env part = Return m" for part
    using that metadata_entries_btree [of "[]" env] by (cases part) (auto simp: btree_def)
  then show "extract_cache_input env item = Return (data, m) \<Longrightarrow> btree m"
    by (cases "(env, item)" rule: extract_cache_input.cases) (auto simp: exn_simps)
qed

lemma source_inputs_btree: "source_inputs env items = Return xs \<Longrightarrow> \<forall>s\<in>set xs. btree (snd s)"
  unfolding source_inputs_def by (induction items arbitrary: xs) (fastforce simp: exn_simps dest: extracted_btree)+

section \<open>Publishing\<close>

lemma write_new_cache_cases:
  assumes "write_new_cache env config name segment source dirs = (dirs1, r)"
  obtains (failed) e where "r = Raise e" and "published dirs1 = published dirs" and "\<forall>other. other \<noteq> segment \<longrightarrow> temporary dirs1 other = temporary dirs other"
      and "cleanup_fault env = None \<and> (\<exists>items. ns_items source = Return items) \<longrightarrow> temporary dirs1 segment = None"
  | (written) b items partial files where "r = Return ()" and "segment \<noteq> ''tmp''"
      and "create_builder (storage env) False name (nc_max_shard_bytes config) (nc_compression config) = Return b" and "ns_items source = Return items"
      and "write_with_pipeline env (nc_prefetch_size config) (nc_num_workers config) items b = (partial, Return files)"
      and "published dirs1 = (published dirs)(segment \<mapsto> files)" and "temporary dirs1 = (temporary dirs)(segment := None)"
proof -
  have clean: "published d1 = published d \<and> r1 \<noteq> Return u \<and> (\<forall>other. other \<noteq> segment \<longrightarrow> temporary d1 other = temporary d other) \<and>
      (cleanup_fault env = None \<longrightarrow> temporary d1 segment = None)"
    if "cleanup_temp_cache env segment e d = (d1, r1)" for e d d1 and r1 :: "unit exn" and u
    using that by (auto simp: cleanup_temp_cache_def split: if_splits option.splits)
  consider (create) e where "create_builder (storage env) False name (nc_max_shard_bytes config) (nc_compression config) = Raise e"
    | (iter) b e where "create_builder (storage env) False name (nc_max_shard_bytes config) (nc_compression config) = Return b" "ns_items source = Raise e"
    | (run) b items partial e where "create_builder (storage env) False name (nc_max_shard_bytes config) (nc_compression config) = Return b"
        "ns_items source = Return items" "write_with_pipeline env (nc_prefetch_size config) (nc_num_workers config) items b = (partial, Raise e)"
    | (built) b items partial files where "create_builder (storage env) False name (nc_max_shard_bytes config) (nc_compression config) = Return b"
        "ns_items source = Return items" "write_with_pipeline env (nc_prefetch_size config) (nc_num_workers config) items b = (partial, Return files)"
    by (metis obj_sumE prod.exhaust)
  then show ?thesis
  proof cases
    case create
    then have "cleanup_temp_cache env segment e (in_temporary segment Map.empty dirs) = (dirs1, r)" using assms by (simp add: write_new_cache_def)
    from clean [OF this] show ?thesis using failed by (cases r) (auto simp: in_temporary_def)
  next
    case iter
    then have "r = Raise (wrap_py env e)" "dirs1 = in_temporary segment (cb_files b) dirs" using assms by (auto simp: write_new_cache_def wrapE_def)
    then show ?thesis using failed iter by (simp add: in_temporary_def)
  next
    case run
    then have "cleanup_temp_cache env segment e (in_temporary segment partial dirs) = (dirs1, r)" using assms by (simp add: write_new_cache_def wrapE_def)
    from clean [OF this] show ?thesis using failed by (cases r) (auto simp: in_temporary_def)
  next
    case built
    obtain dirs2 r2 where publish: "publish_cache env segment files (in_temporary segment files dirs) = (dirs2, r2)" by fastforce
    show ?thesis
    proof (cases r2)
      case (Inl e)
      then have "cleanup_temp_cache env segment e dirs2 = (dirs1, r)" "dirs2 = in_temporary segment files dirs"
        using assms built publish by (auto simp: write_new_cache_def wrapE_def publish_cache_def split: option.splits if_splits)
      with clean show ?thesis using failed by (cases r) (fastforce simp: in_temporary_def)+
    next
      case (Inr u)
      then have "r = Return ()" "dirs1 = dirs2" using assms built publish by (auto simp: write_new_cache_def wrapE_def)
      then show ?thesis using written built publish Inr by (auto simp: publish_cache_def in_temporary_def split: option.splits if_splits)
    qed
  qed
qed

lemma prepare_cache_paths_ok:
  assumes "prepare_cache_paths env path segment dirs = (dirs1, r)"
  shows "published dirs1 = published dirs" and "tmp_exists dirs1 = tmp_exists dirs" and "temporary dirs1 other = None \<or> temporary dirs1 other = temporary dirs other"
    and "other \<noteq> segment \<Longrightarrow> temporary dirs1 other = temporary dirs other"
    and "r = Return () \<Longrightarrow> \<not> cache_exists dirs segment \<and> temporary dirs1 segment = None"
  using assms by (auto simp: prepare_cache_paths_def split: if_splits option.splits)

text \<open>What a call does to the directories.\<close>

lemma write_named_source_cases:
  assumes "write_named_source env base config name segment source dirs = (dirs1, r)"
  obtains (reused) "nc_reuse config" and "cache_exists dirs segment" and "dirs1 = dirs"
      and "r = Return () \<Longrightarrow> nc_validate config \<Longrightarrow> \<exists>cache. load_cache (storage env) (cache_files dirs segment) True 0 = Return cache"
      and "\<not> nc_validate config \<Longrightarrow> r = Return ()"
  | (refused) e where "r = Raise e" and "published dirs1 = published dirs" and "\<forall>other. temporary dirs1 other = None \<or> temporary dirs1 other = temporary dirs other"
  | (fresh) dirs0 where "\<not> cache_exists dirs segment" and "published dirs0 = published dirs" and "\<forall>other. other \<noteq> segment \<longrightarrow> temporary dirs0 other = temporary dirs other"
      and "write_new_cache env config name segment source dirs0 = (dirs1, r)"
proof (cases "nc_reuse config \<and> cache_exists dirs segment")
  case True
  then have dirs1: "dirs1 = dirs"
    and r: "r = (if nc_validate config then bindE (load_cache (storage env) (cache_files dirs segment) True 0) (\<lambda>_. Return ()) else Return ())"
    using assms by (simp_all add: write_named_source_def)
  have "\<exists>cache. load_cache (storage env) (cache_files dirs segment) True 0 = Return cache" if "r = Return ()" "nc_validate config"
    using that r by (auto simp: bindE_eq_Return)
  then show ?thesis using True dirs1 r by (intro reused) simp_all
next
  case False
  obtain dirs0 r0 where prepare: "prepare_cache_paths env (join_path base name) segment dirs = (dirs0, r0)" by fastforce
  note prepared = prepare_cache_paths_ok [OF prepare]
  show ?thesis
  proof (cases r0)
    case (Inl e)
    then have "(dirs1, r) = (dirs0, Raise e)" using assms False prepare by (auto simp: write_named_source_def)
    then show ?thesis using refused prepared(1,3) by auto
  next
    case (Inr u)
    then have "write_new_cache env config name segment source dirs0 = (dirs1, r)" using assms False prepare by (auto simp: write_named_source_def)
    then show ?thesis using fresh prepared(1,4,5) Inr by auto
  qed
qed

text \<open>C10. Whatever order the pool threads finish their jobs in, the window of the writer stores the samples in source order:
  without interrupts or lost workers the result, error included, is that of pushing the samples one after the other and
  finishing the cache.\<close>

theorem pipeline_in_order:
  assumes "quiet env" and "source_inputs env items = Return xs" and "0 < ahead" "0 < threads" and "length items < 2 ^ 64"
  shows "snd (write_with_pipeline env ahead threads items b) =
    bindE (push_samples (storage env) xs b) (\<lambda>b1. bindE (finish_builder (storage env) b1) (\<lambda>(manifest, files). Return files))"
  by (rule pipeline_sequential [OF assms])


text \<open>C2. A source that the native writer reports as newly written can be read: its cache is published under its name, it
  loads, and every read returns the data and the metadata that the Python iterator yielded at that position.\<close>

theorem written_source_reads_back:
  assumes laws: "codec_laws (storage env)" "file_laws (storage env)"
    and wrote: "write_one_source_result env base position config source dirs = (dirs1, Return (''success'', name, detail))"
    and source: "extract_source_name env source = Return (name, segment)" "ns_items source = Return items"
    and fresh: "\<not> cache_exists dirs segment" and sizes: "0 < nc_prefetch_size config" "0 < nc_num_workers config" "length items * 24 < 2 ^ 64"
    and json: "\<forall>xs. source_inputs env items = Return xs \<longrightarrow> (\<forall>s\<in>set xs. json_exact (storage env) (snd s) \<and> (validate \<longrightarrow> (\<forall>(k, v)\<in>set (snd s). value_eq v v)))"
    and positions: "set positions \<subseteq> {..<length items}"
  shows "\<exists>files xs cache. published dirs1 = (published dirs)(segment \<mapsto> files) \<and> source_inputs env items = Return xs \<and> length xs = length items \<and>
    load_cache (storage env) files validate at_position = Return cache \<and> loaded_sample_count cache = length items \<and>
    snd (read_samples (storage env) files cache positions new_reader_cache) =
      map (\<lambda>i. Return \<lparr>cs_data = fst (xs ! i), cs_metadata = map snd (snd (xs ! i))\<rparr>) positions"
proof -
  have run: "write_named_source env base config name segment source dirs = (dirs1, Return ())"
    using wrote source(1) by (auto simp: write_one_source_result_def split: prod.splits sum.splits if_splits)
  obtain dirs0 where new: "published dirs0 = published dirs" "write_new_cache env config name segment source dirs0 = (dirs1, Return ())"
    by (rule write_named_source_cases [OF run]) (use fresh in auto)
  obtain b partial files where written: "create_builder (storage env) False name (nc_max_shard_bytes config) (nc_compression config) = Return b"
      "write_with_pipeline env (nc_prefetch_size config) (nc_num_workers config) items b = (partial, Return files)"
      "published dirs1 = (published dirs0)(segment \<mapsto> files)"
    by (rule write_new_cache_cases [OF new(2)]) (use source(2) in auto)
  have "length items < 2 ^ 64" using sizes(3) by simp
  from pipeline_returns [OF written(2) sizes(1,2) this] obtain xs b1 manifest where pushed: "source_inputs env items = Return xs"
      "push_samples (storage env) xs b = Return b1" "finish_builder (storage env) b1 = Return (manifest, files)" by blast
  have len: "length xs = length items" using pushed(1) by (auto simp: source_inputs_def dest: mapE_length)
  have "\<forall>s\<in>set xs. btree (snd s) \<and> json_exact (storage env) (snd s) \<and> (validate \<longrightarrow> (\<forall>(k, v)\<in>set (snd s). value_eq v v))"
    using json pushed(1) source_inputs_btree [OF pushed(1)] by blast
  then obtain cache where "load_cache (storage env) files validate at_position = Return cache" "loaded_sample_count cache = length xs"
      "snd (read_samples (storage env) files cache positions new_reader_cache) =
        map (\<lambda>i. Return \<lparr>cs_data = fst (xs ! i), cs_metadata = map snd (snd (xs ! i))\<rparr>) positions"
    using written_roundtrip [OF laws written(1) pushed(2,3), of validate positions at_position] sizes(3) positions len by auto
  then show ?thesis using written(3) new(1) pushed(1) len by auto
qed

text \<open>C39. A source named like the shared temporary directory is never written: no cache of that name is published. With
  reuse and without validation the writer nevertheless reports success once the temporary directory exists.\<close>

theorem tmp_source_reported:
  assumes "write_one_source_result env base position config source dirs = (dirs1, r)" and "extract_source_name env source = Return (name, ''tmp'')"
    and "published dirs ''tmp'' = None"
  shows "published dirs1 ''tmp'' = None \<and>
    (nc_reuse config \<and> \<not> nc_validate config \<and> tmp_exists dirs \<longrightarrow> r = Return (''success'', name, join_path base name)) \<and>
    (\<not> nc_reuse config \<longrightarrow> r \<noteq> Return (''success'', name, join_path base name))"
proof -
  obtain r1 where run: "write_named_source env base config name ''tmp'' source dirs = (dirs1, r1)"
      and ok: "r1 = Return () \<Longrightarrow> r = Return (''success'', name, join_path base name)"
      and err: "\<And>e. r1 = Raise e \<Longrightarrow> r \<noteq> Return (''success'', name, join_path base name)"
    using assms(1,2) by (auto simp: write_one_source_result_def split: prod.splits sum.splits if_splits)
  from run show ?thesis
  proof (cases rule: write_named_source_cases)
    case reused
    then show ?thesis using assms(3) ok by auto
  next
    case (refused e)
    then have "\<not> (nc_reuse config \<and> \<not> nc_validate config \<and> tmp_exists dirs)"
      using run by (auto simp: write_named_source_def cache_exists_def)
    then show ?thesis using refused assms(3) err by auto
  next
    case (fresh dirs0)
    from fresh(4) show ?thesis
    proof (cases rule: write_new_cache_cases)
      case (failed e)
      then show ?thesis using fresh(1,2) assms(3) err by (auto simp: cache_exists_def)
    qed simp
  qed
qed

section \<open>An example\<close>

definition demo_writer_env :: writer_env where
  "demo_writer_env =
     \<lparr>storage = demo_storage, arrivals = \<lambda>k. Return 1, pool_accepts = \<lambda>k. Return (), signals = \<lambda>k. Return (), float_of_int = \<lambda>i. None,
      py_text = \<lambda>e. [], prepare_fault = None, cleanup_fault = None, rename_fault = None\<rparr>"

definition demo_items :: "py_item exn list" where
  "demo_items = [Return (PTuple [PBytes [1, 2], PDict [(VStr ''label'', VInt 7)]]), Return (PTuple [PBytes [3], PDict [(VStr ''label'', VInt 8)]])]"

definition demo_native_source :: "string \<Rightarrow> native_source" where
  "demo_native_source name = \<lparr>ns_name = Return (VStr name), ns_items = Return demo_items\<rparr>"

definition demo_native_config :: "bool \<Rightarrow> native_config" where
  "demo_native_config reuse =
     \<lparr>nc_max_shard_bytes = 20, nc_prefetch_size = 4, nc_num_workers = 2, nc_compression = WholeRecord (Brotli 5), nc_validate = False, nc_reuse = reuse\<rparr>"

definition demo_dirs :: "bool \<Rightarrow> cache_dirs" where
  "demo_dirs tmp = \<lparr>published = Map.empty, temporary = Map.empty, tmp_exists = tmp\<rparr>"

lemma demo_quiet: "quiet demo_writer_env"
  by (simp add: quiet_def demo_writer_env_def)

lemma demo_inputs: "source_inputs demo_writer_env demo_items = Return demo_samples"
  by (simp add: source_inputs_def demo_items_def demo_samples_def wrapE_def extract_data_def)

lemma demo_named: "extract_source_name demo_writer_env (demo_native_source ''demo'') = Return (''demo'', ''demo'')"
    "extract_source_name demo_writer_env (demo_native_source ''tmp'') = Return (''tmp'', ''tmp'')"
  by (simp_all add: extract_source_name_def demo_native_source_def wrapE_def validate_source_name_native_def)

lemma demo_written:
  "write_one_source_result demo_writer_env ''base'' 0 (demo_native_config False) (demo_native_source ''demo'') (demo_dirs False) =
    (\<lparr>published = [''demo'' \<mapsto> demo_files], temporary = Map.empty, tmp_exists = True\<rparr>, Return (''success'', ''demo'', ''base/demo''))"
proof -
  have store: "storage demo_writer_env = demo_storage" by (simp add: demo_writer_env_def)
  have "snd (write_with_pipeline demo_writer_env 4 2 demo_items demo_builder) = Return demo_files"
    using pipeline_sequential [OF demo_quiet demo_inputs, of 4 2 demo_builder] store demo_pushes demo_finished by (simp add: demo_items_def)
  then obtain partial where "write_with_pipeline demo_writer_env 4 2 demo_items demo_builder = (partial, Return demo_files)" by (metis prod.collapse)
  then have "write_new_cache demo_writer_env (demo_native_config False) ''demo'' ''demo'' (demo_native_source ''demo'') (demo_dirs False) =
      (\<lparr>published = [''demo'' \<mapsto> demo_files], temporary = Map.empty, tmp_exists = True\<rparr>, Return ())"
    using store demo_created
    by (simp add: write_new_cache_def demo_native_config_def demo_native_source_def wrapE_def publish_cache_def in_temporary_def demo_dirs_def)
      (simp add: demo_writer_env_def)
  then show ?thesis
    using demo_named(1)
    by (simp add: write_one_source_result_def write_named_source_def prepare_cache_paths_def cache_exists_def demo_dirs_def join_path_def)
qed

theorem pipeline_in_order_witness:
  "snd (write_with_pipeline demo_writer_env 4 2 demo_items demo_builder) = Return demo_files"
proof -
  have store: "storage demo_writer_env = demo_storage" by (simp add: demo_writer_env_def)
  show ?thesis
    using pipeline_in_order [OF demo_quiet demo_inputs, of 4 2 demo_builder] store demo_pushes demo_finished by (simp add: demo_items_def)
qed


theorem written_source_reads_back_witness:
  "\<exists>cache. load_cache demo_storage demo_files True 0 = Return cache \<and> loaded_sample_count cache = 2 \<and>
    snd (read_samples demo_storage demo_files cache [1, 0] new_reader_cache) =
      [Return \<lparr>cs_data = [3], cs_metadata = [MInt 8]\<rparr>, Return \<lparr>cs_data = [1, 2], cs_metadata = [MInt 7]\<rparr>]"
proof -
  have store: "storage demo_writer_env = demo_storage" by (simp add: demo_writer_env_def)
  have items: "ns_items (demo_native_source ''demo'') = Return demo_items" "length demo_items = 2" by (simp_all add: demo_native_source_def demo_items_def)
  have "\<not> cache_exists (demo_dirs False) ''demo''" "0 < nc_prefetch_size (demo_native_config False)" "0 < nc_num_workers (demo_native_config False)"
    by (simp_all add: cache_exists_def demo_dirs_def demo_native_config_def)
  then obtain files xs cache where "[''demo'' \<mapsto> demo_files] = (published (demo_dirs False))(''demo'' \<mapsto> files)" "xs = demo_samples"
      "load_cache demo_storage files True 0 = Return cache" "loaded_sample_count cache = 2"
      "snd (read_samples demo_storage files cache [1, 0] new_reader_cache) =
        map (\<lambda>i. Return \<lparr>cs_data = fst (xs ! i), cs_metadata = map snd (snd (xs ! i))\<rparr>) [1, 0]"
    using written_source_reads_back [OF _ _ demo_written demo_named(1) items(1), of True "[1, 0]" 0] demo_laws demo_inputs demo_metadata [of True] items(2)
    by (auto simp: store simp del: read_samples.simps)
  moreover from this(1) have "files = demo_files" by (metis fun_upd_same option.inject)
  ultimately show ?thesis by (auto simp: demo_samples_def simp del: read_samples.simps)
qed

theorem tmp_source_reported_witness:
  "snd (write_one_source_result demo_writer_env ''base'' 0 (demo_native_config True) (demo_native_source ''tmp'') (demo_dirs True)) =
    Return (''success'', ''tmp'', ''base/tmp'')"
proof -
  obtain dirs1 r where run: "write_one_source_result demo_writer_env ''base'' 0 (demo_native_config True) (demo_native_source ''tmp'') (demo_dirs True) = (dirs1, r)"
    by fastforce
  have "published (demo_dirs True) ''tmp'' = None" by (simp add: demo_dirs_def)
  from tmp_source_reported [OF run demo_named(2) this] show ?thesis using run by (simp add: demo_native_config_def demo_dirs_def join_path_def)
qed

end
