(* ===== verification/Native_Caches.thy ===== *)
theory Native_Caches
  imports Native_Writer Native_Dataset "HOL-Library.Multiset"
begin

text \<open>
  Cache directories as the caches of a dataset: \<open>load_caches\<close> of \<open>src/src/dataset_rt/dataset.rs\<close> over the files of
  \<open>Native_Storage\<close>, and the composition of writing, loading and reading.

  Arguments: which of the running loads finishes next, beside those of the storage layer.
\<close>

section \<open>Loading several caches\<close>

text \<open>A loaded directory as the dataset sees it. Reads go through the open files of a worker, which cannot be observed
  (\<open>reader_cache_transparent\<close>).\<close>

definition native_cache :: "storage_env \<Rightarrow> (string \<rightharpoonup> byte list) \<Rightarrow> LoadedCache \<Rightarrow> (CacheSample, MetadataValue list exn) loaded_cache" where
  "native_cache env files cache =
     \<lparr>cache_id = lc_cache_id cache,
      cache_schema = map (\<lambda>f. (field_name f, kind_name (field_kind f))) (mf_schema (manifest_fields (lc_manifest cache))),
      cache_count = loaded_sample_count cache, cache_read = read_sample_direct env files cache,
      cache_columns = \<lambda>i. bindE (with_metadata_rows env files cache) (\<lambda>rows.
        if i < length rows then Return (rows ! i) else Raise (ValueError ''metadata row is out of range''))\<rparr>"

definition open_cache ::
  "storage_env \<Rightarrow> bool \<Rightarrow> (string \<rightharpoonup> byte list) list \<Rightarrow> nat \<Rightarrow> (CacheSample, MetadataValue list exn) loaded_cache exn" where
  "open_cache env validate directories position =
     bindE (load_cache env (directories ! position) validate position) (\<lambda>cache. Return (native_cache env (directories ! position) cache))"

text \<open>Receive a finished load, then submit the next directory.\<close>

fun collect_loads :: "(nat \<Rightarrow> nat) \<Rightarrow> (nat \<Rightarrow> 'c exn) \<Rightarrow> nat \<Rightarrow> nat list \<Rightarrow> nat list \<Rightarrow> (nat \<times> 'c) list \<Rightarrow> (nat \<times> 'c) list exn" where
  "collect_loads pick load 0 running waiting results = Return results"
| "collect_loads pick load (Suc n) running waiting results =
     (let i = pick n mod length running; position = running ! i; others = take i running @ drop (Suc i) running in
      bindE (load position) (\<lambda>cache.
      collect_loads pick load n (others @ take 1 waiting) (drop 1 waiting) (results @ [(position, cache)])))"

definition order_loaded_caches :: "(nat \<times> 'c) list \<Rightarrow> 'c list" where
  "order_loaded_caches results = map snd (sort_key fst results)"

definition load_caches :: "(nat \<Rightarrow> nat) \<Rightarrow> (nat \<Rightarrow> 'c exn) \<Rightarrow> nat \<Rightarrow> nat \<Rightarrow> 'c list exn" where
  "load_caches pick load amount workers =
     (let parallelism = min workers amount in
      bindE (collect_loads pick load amount [0..<parallelism] [parallelism..<amount] []) (\<lambda>results. Return (order_loaded_caches results)))"

text \<open>The caches come out in the order of their paths, whatever order the loads finish in; an error is that of a load.\<close>

lemma collect_loads_ok:
  assumes "mset (running @ waiting @ map fst results) = mset [0..<amount]" and "n = length running + length waiting"
    and "running = [] \<Longrightarrow> waiting = []" and "\<forall>(p, c)\<in>set results. load p = Return c"
    and "collect_loads pick load n running waiting results = Return final"
  shows "mset (map fst final) = mset [0..<amount] \<and> (\<forall>(p, c)\<in>set final. load p = Return c)"
  using assms
proof (induction n arbitrary: running waiting results)
  case (Suc n)
  let ?i = "pick n mod length running"
  have "running \<noteq> []" using Suc.prems(2,3) by auto
  then have i: "?i < length running" by simp
  define others where "others = take ?i running @ drop (Suc ?i) running"
  have "mset running = add_mset (running ! ?i) (mset others)" using arg_cong [OF id_take_nth_drop [OF i], of mset] by (simp add: others_def)
  moreover have "length others + 1 = length running" using i by (simp add: others_def)
  moreover have "mset waiting = mset (take 1 waiting) + mset (drop 1 waiting)" by (metis append_take_drop_id mset_append)
  moreover obtain c where c: "load (running ! ?i) = Return c"
      "collect_loads pick load n (others @ take 1 waiting) (drop 1 waiting) (results @ [(running ! ?i, c)]) = Return final"
    using Suc.prems(5) by (auto simp: exn_simps Let_def others_def)
  ultimately show ?case
    using Suc.prems(1-4) by (intro Suc.IH [OF _ _ _ _ c(2)]) (auto simp: ac_simps)
qed simp

lemma collect_loads_total:
  assumes "\<forall>p\<in>set running \<union> set waiting. \<exists>c. load p = Return c" and "n = length running + length waiting" and "running = [] \<Longrightarrow> waiting = []"
  shows "\<exists>final. collect_loads pick load n running waiting results = Return final"
  using assms
proof (induction n arbitrary: running waiting results)
  case (Suc n)
  let ?i = "pick n mod length running"
  have "running \<noteq> []" using Suc.prems(2,3) by auto
  then have i: "?i < length running" by simp
  then obtain c where "load (running ! ?i) = Return c" using Suc.prems(1) by (meson UnI1 nth_mem)
  moreover have "\<exists>final. collect_loads pick load n ((take ?i running @ drop (Suc ?i) running) @ take 1 waiting) (drop 1 waiting) (results @ [(running ! ?i, c)]) = Return final"
    using Suc.prems i by (intro Suc.IH) (auto dest: in_set_takeD in_set_dropD)
  ultimately show ?case by (simp add: Let_def)
qed simp

lemma load_caches_in_order:
  assumes "\<forall>p<amount. load p = Return (c p)" and "0 < workers"
  shows "load_caches pick load amount workers = Return (map c [0..<amount])"
proof -
  let ?k = "min workers amount"
  have whole: "[0..<?k] @ [?k..<amount] = [0..<amount]" by (simp add: upt_join)
  obtain final where run: "collect_loads pick load amount [0..<?k] [?k..<amount] [] = Return final"
  proof -
    have "\<forall>p\<in>set [0..<?k] \<union> set [?k..<amount]. \<exists>x. load p = Return x" using assms(1) by auto
    then have "\<exists>final. collect_loads pick load amount [0..<?k] [?k..<amount] [] = Return final"
      by (rule collect_loads_total) (use assms(2) in auto)
    then show ?thesis using that by blast
  qed
  have positions: "mset (map fst final) = mset [0..<amount]" and loads: "\<forall>(p, x)\<in>set final. load p = Return x"
    using collect_loads_ok [OF _ _ _ _ run, of amount] whole assms(2) by (auto simp flip: mset_append)
  have "final = map (\<lambda>p. (p, c p)) (map fst final)"
  proof (rule nth_equalityI)
    fix i assume i: "i < length final"
    obtain p x where px: "final ! i = (p, x)" by fastforce
    have "p \<in> set (map fst final)" using nth_mem [OF i] px by force
    moreover have "set (map fst final) = {..<amount}" using arg_cong [OF positions, of set_mset] by (simp add: atLeast0LessThan)
    ultimately have "p < amount" by simp
    moreover have "load p = Return x" using loads nth_mem [OF i] px by auto
    ultimately show "final ! i = map (\<lambda>p. (p, c p)) (map fst final) ! i" using i px assms(1) by simp
  qed simp
  moreover have "mset (map (\<lambda>p. (p, c p)) (map fst final)) = mset (map (\<lambda>p. (p, c p)) [0..<amount])"
    using positions by (metis mset_map)
  ultimately have same: "mset final = mset (map (\<lambda>p. (p, c p)) [0..<amount])" by simp
  have "set final = (\<lambda>p. (p, c p)) ` {0..<amount}" using arg_cong [OF same, of set_mset] by simp
  then have "inj_on fst (set final)" by (auto simp: inj_on_def)
  then have "sort_key fst final = map (\<lambda>p. (p, c p)) [0..<amount]"
    by (rule sort_key_inj_key_eq [OF same]) (simp add: o_def)
  then show ?thesis using run by (simp add: load_caches_def order_loaded_caches_def o_def)
qed

section \<open>Reading in physical order\<close>

lemma physical_order:
  "k \<le> length caches \<Longrightarrow> [0..<first_index caches k] = concat (map (\<lambda>c. map (\<lambda>i. first_index caches c + i) [0..<cache_count (caches ! c)]) [0..<k])"
proof (induction k)
  case (Suc k)
  have "[0..<first_index caches (Suc k)] = [0..<first_index caches k] @ [first_index caches k..<first_index caches k + cache_count (caches ! k)]"
    using first_index_Suc [of k caches] Suc.prems by (simp add: upt_join)
  also have "[first_index caches k..<first_index caches k + cache_count (caches ! k)] = map (\<lambda>i. first_index caches k + i) [0..<cache_count (caches ! k)]"
    by (rule nth_equalityI) simp_all
  finally show ?case using Suc by simp
qed simp

lemma read_all_caches:
  assumes "collect_cache_offsets caches = Return (offs, n)"
  shows "map (load_planned_sample caches offs) [0..<n] =
    concat (map (\<lambda>cache. map (\<lambda>i. bindE (cache_read cache i) (\<lambda>v. Return \<lparr>sample_value = v, sample_cache_id = cache_id cache, sample_id = i\<rparr>))
      [0..<cache_count cache]) caches)"
proof -
  have "n = first_index caches (length caches)" using offsets_from_values(2) [of 0 caches offs n] assms by (simp add: collect_cache_offsets_def)
  then have "[0..<n] = concat (map (\<lambda>c. map (\<lambda>i. first_index caches c + i) [0..<cache_count (caches ! c)]) [0..<length caches])"
    using physical_order [of "length caches" caches] by simp
  then have "map (load_planned_sample caches offs) [0..<n] =
      concat (map (\<lambda>c. map (\<lambda>i. load_planned_sample caches offs (first_index caches c + i)) [0..<cache_count (caches ! c)]) [0..<length caches])"
    by (simp add: map_concat o_def)
  also have "\<dots> = concat (map (\<lambda>c. map (\<lambda>i. bindE (cache_read (caches ! c) i)
      (\<lambda>v. Return \<lparr>sample_value = v, sample_cache_id = cache_id (caches ! c), sample_id = i\<rparr>)) [0..<cache_count (caches ! c)]) [0..<length caches])"
    by (intro arg_cong [of _ _ concat] map_cong refl) (simp add: load_planned_sample_def locate_eq [OF assms])
  also have "\<dots> = concat (map (\<lambda>cache. map (\<lambda>i. bindE (cache_read cache i) (\<lambda>v. Return \<lparr>sample_value = v, sample_cache_id = cache_id cache, sample_id = i\<rparr>))
      [0..<cache_count cache]) (map ((!) caches) [0..<length caches]))" by (simp add: o_def)
  finally show ?thesis by (simp add: map_nth)
qed

text \<open>The first pass of a new sequential dataset.\<close>

lemma first_pass:
  assumes "native_load (Return caches) workers seed ahead False False = Return nd"
  shows "\<exists>nd'. open_window g nd = Return (concat (map (\<lambda>cache. map (\<lambda>i. bindE (cache_read cache i)
    (\<lambda>v. Return \<lparr>sample_value = v, sample_cache_id = cache_id cache, sample_id = i\<rparr>)) [0..<cache_count cache]) caches), nd')"
proof -
  obtain offs n where offs: "collect_cache_offsets caches = Return (offs, n)" "0 < n"
      and nd: "nd = \<lparr>nd_caches = caches, nd_total = n, nd_seed = seed, nd_prefetch = ahead, nd_num_workers = workers, nd_shuffle = False,
        nd_active = Full, nd_epoch_len = n, nd_sequential_offset = 0, nd_draw_offset = 0\<rparr>"
    using assms by (auto simp: native_load_def exn_simps split: if_splits)
  have len: "active_len nd = n" "active_physical_indices nd = None" by (simp_all add: nd active_len_def active_physical_indices_def)
  have "ready g nd" using offs(2) len by (simp add: ready_def nd)
  moreover have "same_source nd nd" by (simp add: same_source_def)
  ultimately obtain nd' where window: "open_window g nd = Return (map (sample_stream g nd) [0..<n], nd')"
    using open_window_sequential [of g nd nd 0] len by (auto simp: nd)
  have "sample_stream g nd p = load_planned_sample caches offs p" if "p < n" for p
    using that len offs(1) by (simp add: sample_stream_def active_pick_def nd index_get_def load_index_def)
  then have "map (sample_stream g nd) [0..<n] = map (load_planned_sample caches offs) [0..<n]" by simp
  then show ?thesis using window read_all_caches [OF offs(1)] by metis
qed

section \<open>From sources to samples\<close>

text \<open>A directory that a builder finished for the given samples, whose metadata JSON keeps.\<close>

definition written_cache :: "storage_env \<Rightarrow> string \<Rightarrow> (byte list \<times> metadata_object) list \<Rightarrow> (string \<rightharpoonup> byte list) \<Rightarrow> bool" where
  "written_cache env name samples files \<longleftrightarrow>
     (\<exists>max_bytes p b b1 manifest. create_builder env False name max_bytes p = Return b \<and> push_samples env samples b = Return b1 \<and>
        finish_builder env b1 = Return (manifest, files)) \<and>
     (\<forall>s\<in>set samples. btree (snd s) \<and> json_exact env (snd s) \<and> (\<forall>(k, v)\<in>set (snd s). value_eq v v)) \<and> length samples * 24 < 2 ^ 64"

text \<open>What a dataset should deliver for one source.\<close>

definition delivered :: "storage_env \<Rightarrow> string \<Rightarrow> (byte list \<times> metadata_object) list \<Rightarrow> CacheSample CachedSample list" where
  "delivered env name samples =
     map (\<lambda>i. \<lparr>sample_value = \<lparr>cs_data = fst (samples ! i), cs_metadata = map snd (snd (samples ! i))\<rparr>,
       sample_cache_id = cache_id_from_name env name, sample_id = i\<rparr>) [0..<length samples]"

lemma open_written_cache:
  assumes "codec_laws env" "file_laws env" and "written_cache env name samples files" and "position < length directories" "directories ! position = files"
  shows "\<exists>cache. open_cache env validate directories position = Return cache \<and>
    map (\<lambda>i. bindE (cache_read cache i) (\<lambda>v. Return \<lparr>sample_value = v, sample_cache_id = cache_id cache, sample_id = i\<rparr>)) [0..<cache_count cache] =
      map Return (delivered env name samples)"
proof -
  obtain max_bytes p b b1 manifest where build: "create_builder env False name max_bytes p = Return b" "push_samples env samples b = Return b1"
      "finish_builder env b1 = Return (manifest, files)"
    and samples: "\<forall>s\<in>set samples. btree (snd s) \<and> json_exact env (snd s) \<and> (validate \<longrightarrow> (\<forall>(k, v)\<in>set (snd s). value_eq v v))"
    and len: "length samples * 24 < 2 ^ 64"
    using assms(3) by (auto simp: written_cache_def)
  obtain cache where cache: "load_cache env files validate position = Return cache" "loaded_sample_count cache = length samples"
      "lc_cache_id cache = cache_id_from_name env name"
    and "snd (read_samples env files cache [0..<length samples] new_reader_cache) =
      map (\<lambda>i. Return \<lparr>cs_data = fst (samples ! i), cs_metadata = map snd (snd (samples ! i))\<rparr>) [0..<length samples]"
    using written_roundtrip [OF assms(1,2) build samples len, of "[0..<length samples]" position] by (simp only: atLeast_upt subset_refl) blast
  then have "map (read_sample_direct env files cache) [0..<length samples] =
      map (\<lambda>i. Return \<lparr>cs_data = fst (samples ! i), cs_metadata = map snd (snd (samples ! i))\<rparr>) [0..<length samples]"
    using read_samples_ok [OF new_reader_cache_ok, of env files cache "[0..<length samples]"]
    by (cases "read_samples env files cache [0..<length samples] new_reader_cache") simp
  then have "\<forall>i<length samples. read_sample_direct env files cache i = Return \<lparr>cs_data = fst (samples ! i), cs_metadata = map snd (snd (samples ! i))\<rparr>"
    by (simp add: map_eq_conv)
  then show ?thesis using cache assms(5) by (simp add: open_cache_def native_cache_def delivered_def)
qed


text \<open>The example of the storage layer, as a dataset of one cache.\<close>

lemma demo_open:
  "open_cache demo_storage False [demo_files] 0 = Return (native_cache demo_storage demo_files
     \<lparr>lc_cache_id = cache_id_from_name demo_storage ''demo'', lc_manifest = demo_manifest, lc_metadata_rows = None,
      lc_index = concat (map index_row (cb_index demo_pushed)), lc_validate = False\<rparr>)"
proof -
  have bt: "\<forall>s\<in>set demo_samples. btree (snd s)" using demo_metadata [of False] by simp
  have "cb_source_name demo_pushed = ''demo''" by (simp add: demo_pushed_def demo_builder_def)
  then show ?thesis
    using load_finished [OF written_inv(1) [OF demo_created demo_pushes bt] demo_laws(2) demo_finished bt, of False 0] by (simp add: open_cache_def)
qed


end
