(* ===== verification/Partitions.thy ===== *)
theory Partitions
  imports Loader_Options Reconstruction
begin

text \<open>
  \<open>prepare_partitions\<close> of \<open>src/dataset_rt/integrations/loader.py\<close>: the plan of a rank, one
  \<open>WorkerPlan\<close> per loading worker, with its sample budget, its span of the (padded) row positions and
  its seeds.

  The plan loop is \<open>plan_workers\<close>; \<open>plan_population\<close> is the choice of the population size of a worker and
  \<open>make_plan\<close> the construction (and field validation) of one plan. \<open>entropy w\<close> is the value
  \<open>secrets.randbits(64)\<close> gives for worker \<open>w\<close> when no seed was resolved.
\<close>

section \<open>Planning\<close>

definition split_population :: "int \<Rightarrow> int \<Rightarrow> int \<Rightarrow> int \<Rightarrow> int exn" where
  "split_population row_count samples budget world =
     (if samples = row_count then Return (budget * world)
      else if row_count < world then bindE (py_div (row_count + world - 1) world) (\<lambda>q. Return (q * world))
      else Return row_count)"

definition plan_population ::
  "partition_mode \<Rightarrow> int \<Rightarrow> bool \<Rightarrow> int \<Rightarrow> int \<Rightarrow> int \<Rightarrow> int \<Rightarrow> int exn" where
  "plan_population mode row_count full_pass rank_length active worker budget =
     (if budget = 0 then Return 0
      else if mode = Replicate then Return row_count
      else if full_pass then Return budget
      else bindE (partition_rows rank_length active worker) (\<lambda>span. Return (span_length span)))"

definition make_plan ::
  "(int \<Rightarrow> int) \<Rightarrow> ReplicaIdentity \<Rightarrow> partition_mode \<Rightarrow> bool \<Rightarrow> int option \<Rightarrow>
   int \<Rightarrow> int \<Rightarrow> int \<Rightarrow> int \<Rightarrow> WorkerPlan exn" where
  "make_plan entropy replica mode shuffle seed worker offset len budget =
     bindE (reader_seed (entropy worker) shuffle seed (rank replica) worker) (\<lambda>s.
     check_WorkerPlan
       \<lparr>plan_rank = rank replica, plan_worker_id = worker,
        plan_offset = (if mode = Replicate then 0 else offset),
        population_size = len, sample_count = budget, plan_seed = s,
        partition_seed = (if shuffle \<and> mode = Split then seed else None)\<rparr>)"

fun plan_workers ::
  "(int \<Rightarrow> int \<Rightarrow> int exn) \<Rightarrow> (int \<Rightarrow> int \<Rightarrow> int \<Rightarrow> int \<Rightarrow> WorkerPlan exn) \<Rightarrow>
   int \<Rightarrow> int \<Rightarrow> int list \<Rightarrow> WorkerPlan list exn" where
  "plan_workers size_of build worker offset [] = Return []"
| "plan_workers size_of build worker offset (budget # budgets) =
     bindE (size_of worker budget) (\<lambda>len.
     bindE (build worker offset len budget) (\<lambda>plan.
     bindE (plan_workers size_of build (worker + 1) (offset + len) budgets) (\<lambda>plans.
     Return (plan # plans))))"

text \<open>The result carries the plans and the warnings \<open>rank_budget\<close> issued.\<close>

definition prepare_partitions ::
  "(int \<Rightarrow> int) \<Rightarrow> DatasetConfiguration \<Rightarrow> ReplicaIdentity \<Rightarrow> int \<Rightarrow> int \<Rightarrow> int \<Rightarrow> partition_mode \<Rightarrow>
   bool \<Rightarrow> int option \<Rightarrow> bool \<Rightarrow> (WorkerPlan list \<times> string list) exn" where
  "prepare_partitions entropy config replica num_workers batch_size samples mode shuffle seed drop_last =
     bindE (rank_budget samples replica batch_size drop_last) (\<lambda>(count, warned).
     let workers = max 1 num_workers in
     bindE (if mode = Replicate then Return (mk_RowSpan 0 (cfg_row_count config), workers)
            else bindE (split_population (cfg_row_count config) samples count (world_size replica)) (\<lambda>population.
                 bindE (partition_rows population (world_size replica) (rank replica)) (\<lambda>span.
                 Return (span, span_length span)))) (\<lambda>(rank_span, populations).
     bindE (worker_budgets count workers populations batch_size) (\<lambda>budgets.
     let active = int (length (filter (\<lambda>b. b > 0) budgets));
         full_pass = (sum_list budgets = span_length rank_span) in
     bindE (plan_workers
              (plan_population mode (cfg_row_count config) full_pass (span_length rank_span) active)
              (make_plan entropy replica mode shuffle seed) 0 (span_offset rank_span) budgets) (\<lambda>plans.
     Return (plans, warned)))))"

section \<open>The plan loop\<close>

text \<open>The offset the loop has reached before worker \<open>i\<close> is the sum of the earlier sizes.\<close>

lemma plan_workers_nth:
  assumes "plan_workers size_of build w offset budgets = Return plans"
  shows "length plans = length budgets \<and>
    (\<exists>sizes. length sizes = length budgets \<and> (\<forall>i<length budgets.
       size_of (w + int i) (budgets ! i) = Return (sizes ! i) \<and>
       build (w + int i) (offset + sum_list (take i sizes)) (sizes ! i) (budgets ! i) = Return (plans ! i)))"
  using assms
proof (induction budgets arbitrary: w offset plans)
  case (Cons b bs)
  then obtain len p ps where step: "size_of w b = Return len" "build w offset len b = Return p"
      "plan_workers size_of build (w + 1) (offset + len) bs = Return ps" "plans = p # ps"
    by (auto simp: exn_simps)
  from Cons.IH [OF step(3)] obtain sizes where IH: "length ps = length bs" "length sizes = length bs"
      "\<And>i. i < length bs \<Longrightarrow> size_of (w + 1 + int i) (bs ! i) = Return (sizes ! i) \<and>
         build (w + 1 + int i) (offset + len + sum_list (take i sizes)) (sizes ! i) (bs ! i) = Return (ps ! i)"
    by blast
  show ?case
  proof (intro conjI exI [of _ "len # sizes"] allI impI)
    show "length plans = length (b # bs)" using IH step by simp
    show "length (len # sizes) = length (b # bs)" using IH by simp
    fix i assume i: "i < length (b # bs)"
    show "size_of (w + int i) ((b # bs) ! i) = Return ((len # sizes) ! i)"
      using i step IH(3) [of "i - 1"] by (cases i) (simp_all add: algebra_simps)
    show "build (w + int i) (offset + sum_list (take i (len # sizes))) ((len # sizes) ! i) ((b # bs) ! i) =
        Return (plans ! i)"
      using i step IH(3) [of "i - 1"] by (cases i) (simp_all add: algebra_simps)
  qed
qed simp

lemma plan_workers_total:
  assumes "length sizes = length budgets"
    and "\<And>i. i < length budgets \<Longrightarrow> size_of (w + int i) (budgets ! i) = Return (sizes ! i)"
    and "\<And>i. i < length budgets \<Longrightarrow> \<exists>p. build (w + int i) (offset + sum_list (take i sizes)) (sizes ! i) (budgets ! i) = Return p"
  shows "\<exists>plans. plan_workers size_of build w offset budgets = Return plans"
  using assms
proof (induction budgets arbitrary: w offset sizes)
  case (Cons b bs)
  then obtain len rest where sizes: "sizes = len # rest" by (cases sizes) auto
  from Cons.prems(2) [of 0] sizes have s: "size_of w b = Return len" by simp
  from Cons.prems(3) [of 0] sizes obtain p where p: "build w offset len b = Return p" by auto
  have "\<exists>plans. plan_workers size_of build (w + 1) (offset + len) bs = Return plans"
  proof (rule Cons.IH)
    show "length rest = length bs" using Cons.prems(1) sizes by simp
    fix i assume i: "i < length bs"
    then show "size_of (w + 1 + int i) (bs ! i) = Return (rest ! i)"
      using Cons.prems(2) [of "Suc i"] sizes by (simp add: algebra_simps)
    from i show "\<exists>p. build (w + 1 + int i) (offset + len + sum_list (take i rest)) (rest ! i) (bs ! i) = Return p"
      using Cons.prems(3) [of "Suc i"] sizes by (simp add: algebra_simps)
  qed
  with s p show ?case by auto
qed simp

section \<open>Inputs the loader passes\<close>

text \<open>
  What \<open>make_dataloader\<close> has established when it plans: a valid replica, the ranges of \<open>LoaderOptions\<close>,
  a sample count within the budget limit, a checked configuration with an unsigned 64-bit row count, and
  a resolved seed when shuffling.
\<close>

definition planner_inputs ::
  "DatasetConfiguration \<Rightarrow> ReplicaIdentity \<Rightarrow> int \<Rightarrow> int \<Rightarrow> int \<Rightarrow> bool \<Rightarrow> int option \<Rightarrow> bool" where
  "planner_inputs config replica num_workers batch_size samples shuffle seed \<longleftrightarrow>
     valid_replica replica \<and> 0 \<le> num_workers \<and> num_workers \<le> 2 ^ 32 - 1 \<and> 1 \<le> batch_size \<and>
     1 \<le> samples \<and> samples \<le> MAX_SAMPLE_BUDGET \<and>
     1 \<le> cfg_row_count config \<and> cfg_row_count config \<le> U64_MAX \<and>
     (shuffle \<longrightarrow> (\<exists>s. seed = Some s \<and> 0 \<le> s \<and> s \<le> U64_MAX))"

definition local_budget :: "int \<Rightarrow> int \<Rightarrow> int \<Rightarrow> bool \<Rightarrow> int" where
  "local_budget samples world b drop_last =
     (if drop_last then samples div (world * b) * b else (samples + world - 1) div world)"

lemma local_budget_bounds:
  assumes "1 \<le> samples" "0 < world" "1 \<le> b"
  shows "0 \<le> local_budget samples world b drop_last" and "local_budget samples world b drop_last \<le> samples"
    and "local_budget samples world b drop_last * world < samples + world"
    and "\<not> drop_last \<Longrightarrow> samples \<le> local_budget samples world b drop_last * world"
    and "drop_last \<Longrightarrow> local_budget samples world b drop_last * world \<le> samples"
proof -
  have "0 \<le> samples mod (world * b)" using assms by (intro pos_mod_sign) simp
  then have "samples div (world * b) * (world * b) \<le> samples"
    using div_mult_mod_eq [of samples "world * b"] by linarith
  then have down: "samples div (world * b) * b * world \<le> samples" by (simp add: ac_simps)
  have up: "samples \<le> (samples + world - 1) div world * world" "(samples + world - 1) div world * world < samples + world"
    using assms div_mult_mod_eq [of "samples + world - 1" world] pos_mod_bound [of world "samples + world - 1"]
      pos_mod_sign [of world "samples + world - 1"] by linarith+
  show "0 \<le> local_budget samples world b drop_last"
    using assms by (simp add: local_budget_def pos_imp_zdiv_nonneg_iff)
  show "local_budget samples world b drop_last * world < samples + world"
    using down up assms by (simp add: local_budget_def)
  show "\<not> drop_last \<Longrightarrow> samples \<le> local_budget samples world b drop_last * world"
    using up by (simp add: local_budget_def)
  show "drop_last \<Longrightarrow> local_budget samples world b drop_last * world \<le> samples"
    using down by (simp add: local_budget_def)
  have "(samples + world - 1) div world \<le> samples"
  proof -
    have "(samples + world - 1) div world \<le> (samples * world) div world"
    proof (rule zdiv_mono1)
      have "0 \<le> (samples - 1) * (world - 1)" using assms by simp
      then show "samples + world - 1 \<le> samples * world" by (simp add: algebra_simps)
    qed (use assms in simp)
    then show ?thesis using assms by simp
  qed
  moreover have "samples div (world * b) * b \<le> samples"
  proof -
    have "0 \<le> samples div (world * b) * b" using assms by (simp add: pos_imp_zdiv_nonneg_iff)
    then have "samples div (world * b) * b * 1 \<le> samples div (world * b) * b * world"
      using assms by (intro mult_left_mono) auto
    with down show ?thesis by simp
  qed
  ultimately show "local_budget samples world b drop_last \<le> samples" by (simp add: local_budget_def)
qed

text \<open>The number of row positions that the ranks split.\<close>

definition split_total :: "int \<Rightarrow> int \<Rightarrow> int \<Rightarrow> int \<Rightarrow> int" where
  "split_total row_count samples budget world =
     (if samples = row_count then budget * world else if row_count < world then world else row_count)"

lemma split_population_total:
  assumes "0 < world" "1 \<le> row_count"
  shows "split_population row_count samples budget world = Return (split_total row_count samples budget world)"
proof -
  have "(row_count + world - 1) div world = 1" if "row_count < world"
    using that assms by (intro int_div_pos_eq [where r = "row_count - 1"]) auto
  then show ?thesis using assms by (simp add: split_population_def split_total_def)
qed

definition rank_span_of :: "partition_mode \<Rightarrow> int \<Rightarrow> ReplicaIdentity \<Rightarrow> int \<Rightarrow> int \<Rightarrow> RowSpan" where
  "rank_span_of mode row_count replica samples budget =
     (if mode = Replicate then mk_RowSpan 0 row_count
      else partition_span (split_total row_count samples budget (world_size replica)) (world_size replica) (rank replica))"

definition plan_budgets :: "int \<Rightarrow> int \<Rightarrow> int \<Rightarrow> int \<Rightarrow> int list" where
  "plan_budgets budget workers populations b =
     (if budget = 0 then replicate (nat workers) 0
      else let active = active_workers budget workers populations b in
        map (budget_of budget b active) (range_list active) @ replicate (nat (workers - active)) 0)"

definition plan_sizes :: "partition_mode \<Rightarrow> int \<Rightarrow> int \<Rightarrow> int \<Rightarrow> int \<Rightarrow> int \<Rightarrow> int list" where
  "plan_sizes mode row_count len budget workers b =
     (if budget = 0 then replicate (nat workers) 0
      else let active = active_workers budget workers (if mode = Replicate then workers else len) b in
        map (\<lambda>i. if mode = Replicate then row_count
                 else if budget = len then budget_of budget b active i
                 else span_length (partition_span len active i)) (range_list active) @
        replicate (nat (workers - active)) 0)"

lemma active_bounds:
  assumes "0 < workers" "0 < populations"
  shows "0 < active_workers budget workers populations b"
    and "active_workers budget workers populations b \<le> workers"
    and "active_workers budget workers populations b \<le> populations"
  using assms by (auto simp: active_workers_def)

lemma length_plan_budgets: "0 < workers \<Longrightarrow> 0 < populations \<Longrightarrow> length (plan_budgets budget workers populations b) = nat workers"
  using active_bounds [of workers populations budget b] by (auto simp: plan_budgets_def Let_def)

lemma length_plan_sizes:
  "0 < workers \<Longrightarrow> mode = Replicate \<or> 0 < len \<Longrightarrow> length (plan_sizes mode row_count len budget workers b) = nat workers"
  using active_bounds [of workers "if mode = Replicate then workers else len" budget b]
  by (auto simp: plan_sizes_def Let_def)

lemma plan_budgets_nth:
  assumes "0 < budget" "0 < workers" "0 < populations" "0 < b" "i < nat workers"
  defines "active \<equiv> active_workers budget workers populations b"
  shows "plan_budgets budget workers populations b ! i = (if int i < active then budget_of budget b active (int i) else 0)"
    and "0 < plan_budgets budget workers populations b ! i \<longleftrightarrow> int i < active"
proof -
  note a = active_bounds [OF assms(2,3), of budget b, folded active_def]
  show eq: "plan_budgets budget workers populations b ! i = (if int i < active then budget_of budget b active (int i) else 0)"
    using assms(1,5) a by (auto simp: plan_budgets_def Let_def active_def [symmetric] nth_append)
  then show "0 < plan_budgets budget workers populations b ! i \<longleftrightarrow> int i < active"
    using budget_of_pos [OF assms(1-4), of "int i", folded active_def] by auto
qed

lemma plan_budgets_sum:
  assumes "0 \<le> budget" "0 < workers" "0 < populations" "0 < b"
  shows "sum_list (plan_budgets budget workers populations b) = budget"
    and "\<forall>v\<in>set (plan_budgets budget workers populations b). 0 \<le> v"
    and "0 < budget \<Longrightarrow> int (length (filter (\<lambda>v. 0 < v) (plan_budgets budget workers populations b))) =
           active_workers budget workers populations b"
proof -
  let ?a = "active_workers budget workers populations b"
  note a = active_bounds [OF assms(2,3), of budget b]
  have pos: "0 < v" if "0 < budget" "v \<in> budget_of budget b ?a ` set (range_list ?a)" for v
    using that budget_of_pos [OF that(1) assms(2-4)] by auto
  show "sum_list (plan_budgets budget workers populations b) = budget"
    using assms sum_budgets [OF _ a(1), of budget b] by (auto simp: plan_budgets_def Let_def sum_list_replicate)
  show "\<forall>v\<in>set (plan_budgets budget workers populations b). 0 \<le> v"
    using pos assms(1) by (auto simp: plan_budgets_def Let_def intro: less_imp_le)
  assume "0 < budget"
  then have "filter (\<lambda>v. 0 < v) (plan_budgets budget workers populations b) = map (budget_of budget b ?a) (range_list ?a)"
    using pos by (auto simp: plan_budgets_def Let_def filter_id_conv)
  then show "int (length (filter (\<lambda>v. 0 < v) (plan_budgets budget workers populations b))) = ?a"
    using a by simp
qed

lemma worker_budgets_plan:
  assumes "0 \<le> budget" "budget \<le> U64_MAX" "0 < workers" "workers \<le> U64_MAX" "0 < b"
    and "0 < budget \<Longrightarrow> 0 < populations"
  shows "worker_budgets budget workers populations b = Return (plan_budgets budget workers populations b)"
  using assms worker_budgets_eq [of budget workers populations b]
  by (cases "budget = 0") (simp_all add: worker_budgets_def plan_budgets_def Let_def)

lemma plan_sizes_nth:
  assumes "0 < budget" "0 < workers" "mode = Replicate \<or> 0 < len" "0 < b" "i < nat workers"
  defines "active \<equiv> active_workers budget workers (if mode = Replicate then workers else len) b"
  shows "plan_sizes mode row_count len budget workers b ! i =
    (if \<not> int i < active then 0 else if mode = Replicate then row_count
     else if budget = len then budget_of budget b active (int i) else span_length (partition_span len active (int i)))"
proof -
  have "0 < (if mode = Replicate then workers else len)" using assms(2,3) by auto
  note a = active_bounds [OF assms(2) this, of budget b, folded active_def]
  show ?thesis using assms(1,5) a by (auto simp: plan_sizes_def Let_def active_def [symmetric] nth_append)
qed

lemma plan_sizes_pos:
  assumes "0 < budget" "0 < workers" "mode = Replicate \<or> 0 < len" "0 < b" "i < nat workers" "0 < row_count"
  shows "0 < plan_sizes mode row_count len budget workers b ! i \<longleftrightarrow>
      int i < active_workers budget workers (if mode = Replicate then workers else len) b"
    and "0 \<le> plan_sizes mode row_count len budget workers b ! i"
proof -
  let ?p = "if mode = Replicate then workers else len"
  let ?a = "active_workers budget workers ?p b"
  have p: "0 < ?p" using assms(2,3) by auto
  note a = active_bounds [OF assms(2) p, of budget b]
  have "0 < span_length (partition_span len ?a (int i))" if "int i < ?a" "mode \<noteq> Replicate"
  proof -
    have "1 \<le> len div ?a" using a that(2) by (simp add: int_one_le_iff_zero_less pos_imp_zdiv_pos_iff)
    then show ?thesis by (simp add: partition_span_sel)
  qed
  then show "0 < plan_sizes mode row_count len budget workers b ! i \<longleftrightarrow> int i < ?a"
    using plan_sizes_nth [OF assms(1-5), of row_count] budget_of_pos [OF assms(1,2) p assms(4), of "int i"] assms(6)
    by auto
  then show "0 \<le> plan_sizes mode row_count len budget workers b ! i"
    using plan_sizes_nth [OF assms(1-5), of row_count] by auto
qed

lemma plan_sizes_sum:
  assumes "0 < budget" "0 < workers" "0 < len" "0 < b"
  shows "sum_list (plan_sizes Split row_count len budget workers b) = len"
proof -
  let ?a = "active_workers budget workers len b"
  note a = active_bounds [OF assms(2,3), of budget b]
  show ?thesis
    using sum_budgets [OF assms(1) a(1) assms(4)] rows.total_length [of len, OF _ a(1)] assms
    by (cases "budget = len") (simp_all add: plan_sizes_def Let_def sum_list_replicate)
qed

section \<open>The plans of a rank\<close>

text \<open>The plan of worker \<open>i\<close>, given the rank's budget.\<close>

definition plans_fit ::
  "(int \<Rightarrow> int) \<Rightarrow> ReplicaIdentity \<Rightarrow> partition_mode \<Rightarrow> bool \<Rightarrow> int option \<Rightarrow> int \<Rightarrow> int list \<Rightarrow> int list \<Rightarrow>
   WorkerPlan list \<Rightarrow> bool" where
  "plans_fit entropy replica mode shuffle seed base sizes budgets plans \<longleftrightarrow>
     length plans = length budgets \<and> (\<forall>i<length budgets.
       plan_rank (plans ! i) = rank replica \<and> plan_worker_id (plans ! i) = int i \<and>
       plan_offset (plans ! i) = (if mode = Replicate then 0 else base + sum_list (take i sizes)) \<and>
       population_size (plans ! i) = sizes ! i \<and> sample_count (plans ! i) = budgets ! i \<and>
       reader_seed (entropy (int i)) shuffle seed (rank replica) (int i) = Return (plan_seed (plans ! i)) \<and>
       partition_seed (plans ! i) = (if shuffle \<and> mode = Split then seed else None))"

lemma make_plan_Return [exn_simps]:
  "make_plan entropy replica mode shuffle seed w offset len budget = Return p \<longleftrightarrow>
     (\<exists>s. reader_seed (entropy w) shuffle seed (rank replica) w = Return s \<and>
       0 \<le> rank replica \<and> rank replica < 2 ^ 32 \<and> 0 \<le> w \<and> w < 2 ^ 32 \<and> 0 \<le> len \<and> 0 \<le> budget \<and>
       0 \<le> s \<and> s < 2 ^ 64 \<and> (mode = Replicate \<or> 0 \<le> offset) \<and>
       (case (if shuffle \<and> mode = Split then seed else None) of None \<Rightarrow> True | Some v \<Rightarrow> 0 \<le> v \<and> v < 2 ^ 64) \<and>
       p = \<lparr>plan_rank = rank replica, plan_worker_id = w, plan_offset = (if mode = Replicate then 0 else offset),
            population_size = len, sample_count = budget, plan_seed = s,
            partition_seed = (if shuffle \<and> mode = Split then seed else None)\<rparr>)"
  by (auto simp: make_plan_def check_WorkerPlan_def exn_simps split: if_splits)

lemma make_plan_fields:
  assumes "make_plan entropy replica mode shuffle seed w offset len budget = Return p"
  shows "plan_rank p = rank replica \<and> plan_worker_id p = w \<and> plan_offset p = (if mode = Replicate then 0 else offset) \<and>
    population_size p = len \<and> sample_count p = budget \<and>
    reader_seed (entropy w) shuffle seed (rank replica) w = Return (plan_seed p) \<and>
    partition_seed p = (if shuffle \<and> mode = Split then seed else None)"
proof -
  obtain s where "reader_seed (entropy w) shuffle seed (rank replica) w = Return s"
    "p = \<lparr>plan_rank = rank replica, plan_worker_id = w, plan_offset = (if mode = Replicate then 0 else offset),
          population_size = len, sample_count = budget, plan_seed = s,
          partition_seed = (if shuffle \<and> mode = Split then seed else None)\<rparr>"
    using assms make_plan_Return by blast
  then show ?thesis by simp
qed

lemma reader_seed_total:
  assumes "shuffle \<longrightarrow> (\<exists>s. seed = Some s \<and> 0 \<le> s \<and> s \<le> U64_MAX)" "0 \<le> r" "r < 2 ^ 32" "0 \<le> w" "w < 2 ^ 32"
  shows "\<exists>s. reader_seed entropy shuffle seed r w = Return s \<and> 0 \<le> s \<and> s < 2 ^ 64"
proof (cases shuffle)
  case True
  then obtain v where v: "seed = Some v" "0 \<le> v" "v \<le> U64_MAX" using assms(1) by blast
  then obtain s where s: "derive_seed v r w = Return s" using assms derive_seed_Return by blast
  then have "0 \<le> s" "s < 2 ^ 64" using derive_seed_range [OF s] by (simp_all add: U64_MAX_def)
  then show ?thesis using True v s by (simp add: reader_seed_def)
qed (simp add: reader_seed_def)

lemma planner_inputs_bounds:
  assumes "planner_inputs config replica num_workers b samples shuffle seed"
  shows "0 < world_size replica" "world_size replica \<le> 2 ^ 32" "0 \<le> rank replica" "rank replica < world_size replica"
    "0 < b" "0 < max 1 num_workers" "max 1 num_workers \<le> 2 ^ 32" "1 \<le> samples" "samples \<le> 2 ^ 53"
    "0 < cfg_row_count config" "cfg_row_count config \<le> U64_MAX"
  using assms by (simp_all add: planner_inputs_def valid_replica_def MAX_SAMPLE_BUDGET_def)

lemma planner_budget_bounds:
  assumes "planner_inputs config replica num_workers b samples shuffle seed"
  shows "0 \<le> local_budget samples (world_size replica) b drop_last"
    and "local_budget samples (world_size replica) b drop_last \<le> U64_MAX"
proof -
  note bd = planner_inputs_bounds [OF assms]
  have b1: "1 \<le> b" using bd(5) by simp
  show "0 \<le> local_budget samples (world_size replica) b drop_last"
    by (rule local_budget_bounds(1) [OF bd(8,1) b1])
  have "local_budget samples (world_size replica) b drop_last \<le> 2 ^ 53"
    using local_budget_bounds(2) [OF bd(8,1) b1] bd(9) by (rule order_trans)
  then show "local_budget samples (world_size replica) b drop_last \<le> U64_MAX" by (simp add: U64_MAX_def)
qed

lemma split_total_bounds:
  fixes drop_last :: bool
  assumes "planner_inputs config replica num_workers b samples shuffle seed"
  defines "budget \<equiv> local_budget samples (world_size replica) b drop_last"
  defines "positions \<equiv> split_total (cfg_row_count config) samples budget (world_size replica)"
  shows "0 \<le> positions" "positions \<le> U64_MAX" "0 < budget \<Longrightarrow> world_size replica \<le> positions"
proof -
  note b = planner_inputs_bounds [OF assms(1)] planner_budget_bounds [OF assms(1), of drop_last, folded budget_def]
  have "budget * world_size replica < 2 ^ 53 + 2 ^ 32"
    using local_budget_bounds(3) [of samples "world_size replica" b drop_last] b by (simp add: budget_def)
  then show "positions \<le> U64_MAX" using b by (auto simp: positions_def split_total_def U64_MAX_def)
  show "0 \<le> positions" using b by (auto simp: positions_def split_total_def)
  assume "0 < budget"
  then have "1 * world_size replica \<le> budget * world_size replica" using b by (intro mult_right_mono) auto
  then show "world_size replica \<le> positions" by (auto simp: positions_def split_total_def)
qed

lemma rank_span_bounds:
  fixes drop_last :: bool and mode :: partition_mode
  assumes "planner_inputs config replica num_workers b samples shuffle seed"
  defines "budget \<equiv> local_budget samples (world_size replica) b drop_last"
  defines "rs \<equiv> rank_span_of mode (cfg_row_count config) replica samples budget"
  shows "0 \<le> span_offset rs" "0 \<le> span_length rs" "span_length rs \<le> U64_MAX" "0 < budget \<Longrightarrow> 0 < span_length rs"
proof -
  note b = planner_inputs_bounds [OF assms(1)] planner_budget_bounds [OF assms(1), of drop_last, folded budget_def]
  note t = split_total_bounds [OF assms(1), of drop_last, folded budget_def]
  let ?t = "split_total (cfg_row_count config) samples budget (world_size replica)"
  note r = rows.bounds [OF t(1) b(3,4)] rows.part_length [OF t(1) b(3,4)]
  show "0 \<le> span_offset rs" "0 \<le> span_length rs" "span_length rs \<le> U64_MAX"
    using r t(2) b by (auto simp: rs_def rank_span_of_def)
  assume "0 < budget"
  then have "0 < ?t div world_size replica" using t(3) b(1) by (simp add: pos_imp_zdiv_pos_iff)
  then show "0 < span_length rs" using b by (auto simp: rs_def rank_span_of_def partition_span_sel)
qed

lemma sum_take_nonneg:
  fixes xs :: "int list"
  assumes "\<forall>v\<in>set xs. 0 \<le> v"
  shows "0 \<le> sum_list (take i xs)"
  using assms by (intro sum_list_nonneg) (blast dest: in_set_takeD)

lemma plan_lists:
  assumes "0 \<le> budget" "0 < workers" "0 < b" "0 < row_count" "0 < budget \<Longrightarrow> mode = Replicate \<or> 0 < len"
  defines "P \<equiv> (if mode = Replicate then workers else len)"
  shows "length (plan_budgets budget workers P b) = nat workers"
    and "length (plan_sizes mode row_count len budget workers b) = nat workers"
    and "\<forall>v\<in>set (plan_sizes mode row_count len budget workers b). 0 \<le> v"
    and "\<forall>v\<in>set (plan_budgets budget workers P b). 0 \<le> v"
    and "sum_list (plan_budgets budget workers P b) = budget"
proof -
  have "length (plan_budgets budget workers P b) = nat workers \<and>
    length (plan_sizes mode row_count len budget workers b) = nat workers \<and>
    (\<forall>v\<in>set (plan_sizes mode row_count len budget workers b). 0 \<le> v) \<and>
    (\<forall>v\<in>set (plan_budgets budget workers P b). 0 \<le> v) \<and> sum_list (plan_budgets budget workers P b) = budget"
  proof (cases "budget = 0")
    case True
    then show ?thesis by (auto simp: plan_budgets_def plan_sizes_def sum_list_replicate)
  next
    case False
    then have pos: "0 < budget" and m: "mode = Replicate \<or> 0 < len" using assms(1,5) by auto
    then have P: "0 < P" using assms(2) by (auto simp: P_def)
    have "0 \<le> plan_sizes mode row_count len budget workers b ! i" if "i < nat workers" for i
      using plan_sizes_pos(2) [OF pos assms(2) m assms(3) that assms(4)] .
    then have "\<forall>v\<in>set (plan_sizes mode row_count len budget workers b). 0 \<le> v"
      using length_plan_sizes [OF assms(2) m] by (auto simp: in_set_conv_nth)
    then show ?thesis
      using length_plan_sizes [OF assms(2) m] length_plan_budgets [OF assms(2) P]
        plan_budgets_sum [OF assms(1,2) P assms(3)] by simp
  qed
  then show "length (plan_budgets budget workers P b) = nat workers"
    "length (plan_sizes mode row_count len budget workers b) = nat workers"
    "\<forall>v\<in>set (plan_sizes mode row_count len budget workers b). 0 \<le> v"
    "\<forall>v\<in>set (plan_budgets budget workers P b). 0 \<le> v" "sum_list (plan_budgets budget workers P b) = budget"
    by simp_all
qed

lemma plan_population_eq:
  assumes "0 \<le> budget" "0 < workers" "workers \<le> U64_MAX" "0 < b"
    and "0 < budget \<Longrightarrow> mode = Replicate \<or> 0 < len" "0 \<le> len" "len \<le> U64_MAX" and i: "i < nat workers"
  defines "budgets \<equiv> plan_budgets budget workers (if mode = Replicate then workers else len) b"
  shows "plan_population mode row_count (sum_list budgets = len) len (int (length (filter (\<lambda>v. v > 0) budgets)))
      (int i) (budgets ! i) = Return (plan_sizes mode row_count len budget workers b ! i)"
proof (cases "budget = 0")
  case True
  then show ?thesis using i by (simp add: plan_population_def budgets_def plan_budgets_def plan_sizes_def)
next
  case False
  let ?P = "if mode = Replicate then workers else len"
  let ?a = "active_workers budget workers ?P b"
  from False have pos: "0 < budget" and m: "mode = Replicate \<or> 0 < len" using assms(1,5) by auto
  then have P: "0 < ?P" using assms(2) by auto
  note sums = plan_budgets_sum [OF assms(1,2) P assms(4), folded budgets_def]
  have "?a \<le> U64_MAX" using active_bounds(2) [OF assms(2) P, of budget b] assms(3) by simp
  then have "partition_rows len ?a (int i) = Return (partition_span len ?a (int i))" if "int i < ?a"
    using assms(6,7) that by (intro partition_rows_ok) auto
  then show ?thesis
    using plan_budgets_nth [OF pos assms(2) P assms(4) i, folded budgets_def] sums(1) sums(3) [OF pos]
      plan_sizes_nth [OF pos assms(2) m assms(4) i, of row_count]
    by (auto simp: plan_population_def exn_simps)
qed

lemma make_plan_total:
  assumes "planner_inputs config replica num_workers b samples shuffle seed" "i < nat (max 1 num_workers)"
    and "0 \<le> offset" "0 \<le> len" "0 \<le> budget"
  shows "\<exists>p. make_plan entropy replica mode shuffle seed (int i) offset len budget = Return p"
proof -
  note bd = planner_inputs_bounds [OF assms(1)]
  have w: "int i < 2 ^ 32" "rank replica < 2 ^ 32" using bd assms(2) by auto
  then obtain s where "reader_seed (entropy (int i)) shuffle seed (rank replica) (int i) = Return s" "0 \<le> s" "s < 2 ^ 64"
    using reader_seed_total [of shuffle seed "rank replica" "int i" "entropy (int i)"] assms(1) bd(3)
    by (auto simp: planner_inputs_def)
  moreover have "case (if shuffle \<and> mode = Split then seed else None) of None \<Rightarrow> True | Some v \<Rightarrow> 0 \<le> v \<and> v < 2 ^ 64"
    using assms(1) by (auto simp: planner_inputs_def U64_MAX_def)
  ultimately show ?thesis using w bd(3) assms(3-5) by (auto simp: make_plan_Return)
qed

text \<open>
  Planning succeeds on every input the loader passes, and its plans are those the closed forms above
  describe.
\<close>

lemma prepare_partitions_plans:
  fixes drop_last :: bool and mode :: partition_mode
  assumes ok: "planner_inputs config replica num_workers b samples shuffle seed"
  defines "budget \<equiv> local_budget samples (world_size replica) b drop_last"
    and "workers \<equiv> max 1 num_workers"
  defines "rs \<equiv> rank_span_of mode (cfg_row_count config) replica samples budget"
  defines "budgets \<equiv> plan_budgets budget workers (if mode = Replicate then workers else span_length rs) b"
    and "sizes \<equiv> plan_sizes mode (cfg_row_count config) (span_length rs) budget workers b"
  shows "\<exists>plans ws. prepare_partitions entropy config replica num_workers b samples mode shuffle seed drop_last =
      Return (plans, ws) \<and> rank_budget samples replica b drop_last = Return (budget, ws) \<and>
      plans_fit entropy replica mode shuffle seed (span_offset rs) sizes budgets plans"
proof -
  note bd = planner_inputs_bounds [OF ok, folded workers_def]
  note bud = planner_budget_bounds [OF ok, of drop_last, folded budget_def]
  note rb = rank_span_bounds [OF ok, where mode = mode and drop_last = drop_last, folded budget_def, folded rs_def]
  note sb = split_total_bounds [OF ok, of drop_last, folded budget_def]
  let ?P = "if mode = Replicate then workers else span_length rs"
  let ?size = "plan_population mode (cfg_row_count config) (sum_list budgets = span_length rs) (span_length rs)
      (int (length (filter (\<lambda>v. v > 0) budgets)))"
  have U: "workers \<le> U64_MAX" "world_size replica \<le> U64_MAX" using bd by (simp_all add: U64_MAX_def)
  have pop: "0 < budget \<Longrightarrow> mode = Replicate \<or> 0 < span_length rs" using rb(4) by simp
  note lists = plan_lists [OF bud(1) bd(6,5,10) pop, folded budgets_def sizes_def]
  have wb: "worker_budgets budget workers ?P b = Return budgets"
    unfolding budgets_def using bd bud rb(4) U by (intro worker_budgets_plan) auto
  have len: "?size (0 + int i) (budgets ! i) = Return (sizes ! i)" if "i < length budgets" for i
    using plan_population_eq [OF bud(1) bd(6) U(1) bd(5) pop rb(2,3), folded budgets_def] that lists(1) by (simp add: sizes_def)
  have "\<exists>p. make_plan entropy replica mode shuffle seed (0 + int i) (span_offset rs + sum_list (take i sizes))
      (sizes ! i) (budgets ! i) = Return p" if "i < length budgets" for i
    using make_plan_total [OF ok, of i] that lists rb(1) sum_take_nonneg [OF lists(3)]
    by (auto simp: workers_def [symmetric])
  then have "\<exists>plans. plan_workers ?size (make_plan entropy replica mode shuffle seed) 0 (span_offset rs) budgets = Return plans"
    using len lists(1,2) by (intro plan_workers_total [of sizes]) (simp_all add: lists(1,2))
  then obtain plans where plans: "plan_workers ?size (make_plan entropy replica mode shuffle seed) 0 (span_offset rs) budgets =
      Return plans" by blast
  from plan_workers_nth [OF plans] obtain sizes' where nth: "length plans = length budgets" "length sizes' = length budgets"
      "\<And>i. i < length budgets \<Longrightarrow> ?size (0 + int i) (budgets ! i) = Return (sizes' ! i) \<and>
        make_plan entropy replica mode shuffle seed (0 + int i) (span_offset rs + sum_list (take i sizes')) (sizes' ! i)
          (budgets ! i) = Return (plans ! i)" by blast
  have "sizes' = sizes" using nth len lists by (intro nth_equalityI) auto
  then have "make_plan entropy replica mode shuffle seed (int i) (span_offset rs + sum_list (take i sizes)) (sizes ! i)
      (budgets ! i) = Return (plans ! i)" if "i < length budgets" for i using nth(3) [OF that] by simp
  from make_plan_fields [OF this] have fit: "plans_fit entropy replica mode shuffle seed (span_offset rs) sizes budgets plans"
    using nth(1) by (simp add: plans_fit_def)
  obtain ws where rbud: "rank_budget samples replica b drop_last = Return (budget, ws)"
    using rank_budget_local [OF bd(1,5), of samples drop_last] by (auto simp: budget_def local_budget_def)
  have "partition_rows (split_total (cfg_row_count config) samples budget (world_size replica)) (world_size replica)
      (rank replica) = Return rs" if "mode \<noteq> Replicate"
    using partition_rows_ok [OF sb(1,2) U(2) bd(3,4)] that by (simp add: rs_def rank_span_of_def)
  then have "prepare_partitions entropy config replica num_workers b samples mode shuffle seed drop_last = Return (plans, ws)"
    using rbud wb plans split_population_total [OF bd(1), of "cfg_row_count config"] bd(10)
    by (auto simp: prepare_partitions_def Let_def workers_def [symmetric] rs_def rank_span_of_def)
  with rbud fit show ?thesis by blast
qed

lemma plans_fit_map:
  assumes "plans_fit entropy replica mode shuffle seed base sizes budgets plans" "length sizes = length budgets"
  shows "map sample_count plans = budgets" "map population_size plans = sizes"
  using assms by (auto simp: plans_fit_def intro!: nth_equalityI)

section \<open>Spans laid end to end\<close>

definition plan_rows :: "WorkerPlan \<Rightarrow> int set" where
  "plan_rows p = {plan_offset p ..< plan_offset p + population_size p}"

lemma end_to_end_unique:
  fixes sizes :: "int list"
  assumes nonneg: "\<forall>v\<in>set sizes. 0 \<le> v" and "base \<le> x" "x < base + sum_list sizes"
  shows "\<exists>!i. i < length sizes \<and> base + sum_list (take i sizes) \<le> x \<and> x < base + sum_list (take i sizes) + sizes ! i"
proof -
  let ?edge = "\<lambda>i. base + sum_list (take i sizes)"
  have step: "?edge (Suc i) = ?edge i + sizes ! i" if "i < length sizes" for i
    using that by (simp add: take_Suc_conv_app_nth)
  have mono: "?edge i \<le> ?edge j" if "i \<le> j" for i j
  proof (rule mono_bound [OF _ that])
    fix k show "?edge k \<le> ?edge (Suc k)"
      using step [of k] nonneg by (cases "k < length sizes") auto
  qed
  obtain i where i: "i < length sizes" "?edge i \<le> x" "x < ?edge (Suc i)"
    using ex_next_bound [of ?edge x "length sizes"] assms(2,3) by auto
  show ?thesis
  proof (rule ex1I [of _ i])
    show "i < length sizes \<and> ?edge i \<le> x \<and> x < ?edge i + sizes ! i" using i step by simp
    fix j assume j: "j < length sizes \<and> ?edge j \<le> x \<and> x < ?edge j + sizes ! j"
    then have "x < ?edge (Suc j)" using step by simp
    then show "j = i" using i j mono [of "Suc i" j] mono [of "Suc j" i] by (metis Suc_leI leD linorder_neqE_nat order_trans)
  qed
qed

lemma end_to_end_inside:
  fixes sizes :: "int list"
  assumes nonneg: "\<forall>v\<in>set sizes. 0 \<le> v" and i: "i < length sizes"
  shows "0 \<le> sum_list (take i sizes)" "sum_list (take i sizes) + sizes ! i \<le> sum_list sizes"
proof -
  show "0 \<le> sum_list (take i sizes)" by (rule sum_take_nonneg [OF nonneg])
  have "sum_list sizes = sum_list (take (Suc i) sizes) + sum_list (drop (Suc i) sizes)"
    by (simp flip: sum_list_append)
  moreover have "0 \<le> sum_list (drop (Suc i) sizes)"
    using nonneg by (intro sum_list_nonneg) (blast dest: in_set_dropD)
  ultimately show "sum_list (take i sizes) + sizes ! i \<le> sum_list sizes"
    using i by (simp add: take_Suc_conv_app_nth)
qed

text \<open>The populations of a rank's workers lie end to end in the rank's span.\<close>

lemma rank_plans_tile:
  assumes ok: "planner_inputs config replica num_workers b samples shuffle seed"
    and run: "prepare_partitions entropy config replica num_workers b samples Split shuffle seed drop_last = Return (plans, ws)"
  defines "budget \<equiv> local_budget samples (world_size replica) b drop_last"
  defines "rs \<equiv> partition_span (split_total (cfg_row_count config) samples budget (world_size replica)) (world_size replica) (rank replica)"
  assumes pos: "0 < budget"
  shows "x \<in> span_rows rs \<Longrightarrow> \<exists>!i. i < length plans \<and> x \<in> plan_rows (plans ! i)"
    and "i < length plans \<Longrightarrow> plan_rows (plans ! i) \<subseteq> span_rows rs"
    and "samples = cfg_row_count config \<Longrightarrow> map sample_count plans = map population_size plans"
proof -
  let ?W = "max 1 num_workers"
  note bd = planner_inputs_bounds [OF ok] and bud = planner_budget_bounds [OF ok, of drop_last, folded budget_def]
  have rs: "rs = rank_span_of Split (cfg_row_count config) replica samples budget" by (simp add: rs_def rank_span_of_def)
  have len: "0 < span_length rs" using rank_span_bounds(4) [OF ok, where mode = Split and drop_last = drop_last] pos
    by (simp add: rs budget_def)
  let ?ss = "plan_sizes Split (cfg_row_count config) (span_length rs) budget ?W b"
  let ?bs = "plan_budgets budget ?W (span_length rs) b"
  have lists: "length ?ss = nat ?W" "\<forall>v\<in>set ?ss. 0 \<le> v" "length ?bs = nat ?W"
    using plan_lists [OF bud(1) bd(6,5,10), of Split "span_length rs"] len by simp_all
  have total: "sum_list ?ss = span_length rs" by (rule plan_sizes_sum [OF pos bd(6) len bd(5)])
  have fit: "plans_fit entropy replica Split shuffle seed (span_offset rs) ?ss ?bs plans"
    using prepare_partitions_plans [OF ok, of entropy Split drop_last] run by (simp add: rs budget_def)
  then have rows: "plan_rows (plans ! i) = {span_offset rs + sum_list (take i ?ss) ..< span_offset rs + sum_list (take i ?ss) + ?ss ! i}"
    and n: "length plans = nat ?W" if "i < nat ?W" for i
    using that lists by (auto simp: plans_fit_def plan_rows_def)
  have n: "length plans = nat ?W" using fit lists by (simp add: plans_fit_def)
  show "i < length plans \<Longrightarrow> plan_rows (plans ! i) \<subseteq> span_rows rs"
    using end_to_end_inside [OF lists(2), of i] rows [of i] unfolding n lists(1) total span_rows_def
    by (simp only: atLeastLessThan_subset_iff) auto
  show "\<exists>!i. i < length plans \<and> x \<in> plan_rows (plans ! i)" if "x \<in> span_rows rs"
  proof -
    have "\<exists>!i. i < length ?ss \<and> span_offset rs + sum_list (take i ?ss) \<le> x \<and> x < span_offset rs + sum_list (take i ?ss) + ?ss ! i"
      using that total by (intro end_to_end_unique [OF lists(2)]) (auto simp: span_rows_def)
    moreover have "(i < length plans \<and> x \<in> plan_rows (plans ! i)) \<longleftrightarrow>
        (i < length ?ss \<and> span_offset rs + sum_list (take i ?ss) \<le> x \<and> x < span_offset rs + sum_list (take i ?ss) + ?ss ! i)" for i
      unfolding n lists(1) by (rule conj_cong [OF refl]) (simp only: rows atLeastLessThan_iff)
    ultimately show ?thesis by (simp only:)
  qed
  assume "samples = cfg_row_count config"
  then have "span_length rs = budget" using bd by (simp add: rs_def split_total_def partition_span_sel)
  then have "?ss = ?bs" using pos by (simp add: plan_sizes_def plan_budgets_def)
  then show "map sample_count plans = map population_size plans"
    using plans_fit_map [OF fit] lists by simp
qed

text \<open>What holds of the plans of any call that returns.\<close>

lemma prepared_plan:
  assumes "prepare_partitions entropy config replica num_workers b samples mode shuffle seed drop_last = Return (plans, ws)"
    and "p \<in> set plans"
  shows "plan_rank p = rank replica \<and>
    reader_seed (entropy (plan_worker_id p)) shuffle seed (plan_rank p) (plan_worker_id p) = Return (plan_seed p) \<and>
    (mode = Replicate \<longrightarrow> plan_offset p = 0 \<and> (population_size p = 0 \<or> population_size p = cfg_row_count config)) \<and>
    partition_seed p = (if shuffle \<and> mode = Split then seed else None)"
proof -
  obtain full len active base budgets where "plan_workers (plan_population mode (cfg_row_count config) full len active)
      (make_plan entropy replica mode shuffle seed) 0 base budgets = Return plans"
    using assms(1) by (auto simp: prepare_partitions_def Let_def exn_simps)
  from plan_workers_nth [OF this] assms(2) obtain i off v v' where
      "plan_population mode (cfg_row_count config) full len active (0 + int i) v = Return v'"
      "make_plan entropy replica mode shuffle seed (0 + int i) off v' v = Return p"
    by (metis in_set_conv_nth)
  with make_plan_fields [OF this(2)] show ?thesis by (auto simp: plan_population_def split: if_splits)
qed

lemma prepared_exists:
  assumes ok: "planner_inputs config replica num_workers b samples shuffle seed"
  shows "\<exists>plans ws. prepare_partitions entropy config replica num_workers b samples mode shuffle seed drop_last =
    Return (plans, ws) \<and> length plans = nat (max 1 num_workers)"
proof -
  let ?B = "local_budget samples (world_size replica) b drop_last"
  let ?rs = "rank_span_of mode (cfg_row_count config) replica samples ?B"
  note bd = planner_inputs_bounds [OF ok] and bud = planner_budget_bounds [OF ok, of drop_last]
  have pop: "0 < ?B \<Longrightarrow> mode = Replicate \<or> 0 < span_length ?rs" using rank_span_bounds(4) [OF ok] by simp
  show ?thesis
    using prepare_partitions_plans [OF ok, of entropy mode drop_last] plan_lists(1) [OF bud(1) bd(6,5,10) pop]
    unfolding plans_fit_def by metis
qed

lemma prepared_budget:
  assumes ok: "planner_inputs config replica num_workers b samples shuffle seed"
    and run: "prepare_partitions entropy config replica num_workers b samples mode shuffle seed drop_last = Return (plans, ws)"
  shows "\<exists>budget ws'. rank_budget samples replica b drop_last = Return (budget, ws') \<and>
    length plans = nat (max 1 num_workers) \<and> sum_list (map sample_count plans) = budget"
proof -
  let ?B = "local_budget samples (world_size replica) b drop_last"
  let ?rs = "rank_span_of mode (cfg_row_count config) replica samples ?B"
  note bd = planner_inputs_bounds [OF ok] and bud = planner_budget_bounds [OF ok, of drop_last]
  have pop: "0 < ?B \<Longrightarrow> mode = Replicate \<or> 0 < span_length ?rs" using rank_span_bounds(4) [OF ok] by simp
  note lists = plan_lists [OF bud(1) bd(6,5,10) pop]
  have fit: "rank_budget samples replica b drop_last = Return (?B, ws)" "plans_fit entropy replica mode shuffle seed (span_offset ?rs)
      (plan_sizes mode (cfg_row_count config) (span_length ?rs) ?B (max 1 num_workers) b)
      (plan_budgets ?B (max 1 num_workers) (if mode = Replicate then max 1 num_workers else span_length ?rs) b) plans"
    using prepare_partitions_plans [OF ok, of entropy mode drop_last] run by auto
  from plans_fit_map(1) [OF fit(2)] lists have "sum_list (map sample_count plans) = ?B" by simp
  moreover have "length plans = nat (max 1 num_workers)" using fit(2) lists(1) by (simp add: plans_fit_def)
  ultimately show ?thesis using fit(1) by blast
qed

lemma plan_seed_derived:
  assumes "prepare_partitions entropy config replica W b samples mode True (Some seed) drop_last = Return (plans, ws)"
    and "p \<in> set plans"
  shows "derive_seed seed (plan_rank p) (plan_worker_id p) = Return (plan_seed p)"
  using prepared_plan [OF assms] by (auto simp: reader_seed_def)

text \<open>Plans that tile the span of every rank tile the positions that the ranks split.\<close>

lemma spans_tile:
  assumes "0 < world" "0 \<le> positions"
    and tile: "\<And>r x. 0 \<le> r \<Longrightarrow> r < world \<Longrightarrow> x \<in> span_rows (partition_span positions world r) \<Longrightarrow>
      \<exists>!i. i < length (plans r) \<and> x \<in> plan_rows (plans r ! i)"
    and inside: "\<And>r i. 0 \<le> r \<Longrightarrow> r < world \<Longrightarrow> i < length (plans r) \<Longrightarrow>
      plan_rows (plans r ! i) \<subseteq> span_rows (partition_span positions world r)"
  shows "\<forall>x. 0 \<le> x \<and> x < positions \<longrightarrow>
      (\<exists>!p. 0 \<le> fst p \<and> fst p < world \<and> snd p < length (plans (fst p)) \<and> x \<in> plan_rows (plans (fst p) ! snd p))"
    and "\<forall>r i. 0 \<le> r \<and> r < world \<and> i < length (plans r) \<longrightarrow> plan_rows (plans r ! i) \<subseteq> {0..<positions}"
proof -
  show "\<forall>x. 0 \<le> x \<and> x < positions \<longrightarrow>
      (\<exists>!p. 0 \<le> fst p \<and> fst p < world \<and> snd p < length (plans (fst p)) \<and> x \<in> plan_rows (plans (fst p) ! snd p))"
  proof (intro allI impI, erule conjE)
    fix x assume x: "0 \<le> x" "x < positions"
    obtain r where r: "0 \<le> r" "r < world" "x \<in> span_rows (partition_span positions world r)"
      using rows.cover [OF x assms(1)] by blast
    obtain i where i: "i < length (plans r)" "x \<in> plan_rows (plans r ! i)" using tile [OF r] by blast
    show "\<exists>!p. 0 \<le> fst p \<and> fst p < world \<and> snd p < length (plans (fst p)) \<and> x \<in> plan_rows (plans (fst p) ! snd p)"
    proof (rule ex1I [of _ "(r, i)"])
      fix p assume p: "0 \<le> fst p \<and> fst p < world \<and> snd p < length (plans (fst p)) \<and> x \<in> plan_rows (plans (fst p) ! snd p)"
      then have "x \<in> span_rows (partition_span positions world (fst p))" using inside by blast
      then have "fst p = r" using rows.separate [OF assms(2)] p r by blast
      then show "p = (r, i)" using tile [OF r] i p by (metis prod.collapse)
    qed (use r i in simp)
  qed
  have "plan_rows (plans r ! i) \<subseteq> {0..<positions}" if "0 \<le> r" "r < world" "i < length (plans r)" for r i
    using rows.inside [OF assms(2) that(1,2)] inside [OF that] by auto
  then show "\<forall>r i. 0 \<le> r \<and> r < world \<and> i < length (plans r) \<longrightarrow> plan_rows (plans r ! i) \<subseteq> {0..<positions}" by blast
qed

lemma split_tiling:
  assumes run: "\<And>r. 0 \<le> r \<Longrightarrow> r < world \<Longrightarrow>
      planner_inputs config \<lparr>rank = r, world_size = world\<rparr> (W r) b samples shuffle seed \<and>
      prepare_partitions (entropy r) config \<lparr>rank = r, world_size = world\<rparr> (W r) b samples Split shuffle seed drop_last =
        Return (plans r, ws r)"
    and "0 < world" and budget: "rank_budget samples \<lparr>rank = 0, world_size = world\<rparr> b drop_last = Return (budget, w0)"
    and pos: "0 < budget"
  defines "positions \<equiv> (if samples = cfg_row_count config then budget * world else max world (cfg_row_count config))"
  shows "(\<forall>x. 0 \<le> x \<and> x < positions \<longrightarrow>
      (\<exists>!p. 0 \<le> fst p \<and> fst p < world \<and> snd p < length (plans (fst p)) \<and> x \<in> plan_rows (plans (fst p) ! snd p))) \<and>
    (\<forall>r i. 0 \<le> r \<and> r < world \<and> i < length (plans r) \<longrightarrow> plan_rows (plans r ! i) \<subseteq> {0..<positions}) \<and>
    (samples = cfg_row_count config \<longrightarrow> (\<forall>r. 0 \<le> r \<and> r < world \<longrightarrow>
       map sample_count (plans r) = map population_size (plans r)))"
proof -
  have ok: "planner_inputs config \<lparr>rank = 0, world_size = world\<rparr> (W 0) b samples shuffle seed" using run assms(2) by simp
  note bd = planner_inputs_bounds [OF ok]
  have bud: "local_budget samples world b drop_last = budget"
    using budget rank_budget_local [of "\<lparr>rank = 0, world_size = world\<rparr>" b samples drop_last] bd
    by (auto simp: local_budget_def)
  have positions: "split_total (cfg_row_count config) samples budget world = positions"
    by (simp add: split_total_def positions_def)
  let ?rs = "\<lambda>r. partition_span positions world r"
  have tile: "\<exists>!i. i < length (plans r) \<and> x \<in> plan_rows (plans r ! i)" if "0 \<le> r" "r < world" "x \<in> span_rows (?rs r)" for r x
    using rank_plans_tile(1) [OF conjunct1 [OF run [OF that(1,2)]] conjunct2 [OF run [OF that(1,2)]]] pos that(3)
    by (simp add: bud positions)
  have inside: "plan_rows (plans r ! i) \<subseteq> span_rows (?rs r)" if "0 \<le> r" "r < world" "i < length (plans r)" for r i
    using rank_plans_tile(2) [OF conjunct1 [OF run [OF that(1,2)]] conjunct2 [OF run [OF that(1,2)]]] pos that(3)
    by (simp add: bud positions)
  have full: "samples = cfg_row_count config \<longrightarrow> map sample_count (plans r) = map population_size (plans r)"
    if "0 \<le> r" "r < world" for r
    using rank_plans_tile(3) [OF conjunct1 [OF run [OF that]] conjunct2 [OF run [OF that]]] pos bud by auto
  have p0: "0 \<le> positions" using pos bd by (auto simp: positions_def)
  have "samples = cfg_row_count config \<longrightarrow> (\<forall>r. 0 \<le> r \<and> r < world \<longrightarrow>
      map sample_count (plans r) = map population_size (plans r))" using full by blast
  then show ?thesis using spans_tile [OF assms(2) p0 tile inside] by (intro conjI)
qed

lemma plan_budgets_batches:
  assumes "0 \<le> samples" "0 < workers" "0 < b" and "0 < samples \<Longrightarrow> 0 < populations"
  shows "sum_list (map (\<lambda>v. (v + b - 1) div b) (plan_budgets samples workers populations b)) = (samples + b - 1) div b"
proof (cases "samples = 0")
  case True
  then show ?thesis using assms(3) by (simp add: plan_budgets_def sum_list_replicate)
next
  case False
  then have pos: "0 < samples" using assms(1) by simp
  then have "0 < active_workers samples workers populations b" using active_bounds(1) assms by auto
  then show ?thesis using budget_batches(2) [OF pos _ assms(3)] False assms(3)
    by (simp add: plan_budgets_def Let_def o_def sum_list_replicate)
qed

lemma plan_sizes_active:
  assumes "0 \<le> B" "0 < W" "0 < b" "0 < row_count" "i < nat W" and pop: "0 < B \<Longrightarrow> mode = Replicate \<or> 0 < len"
  shows "(0 < plan_sizes mode row_count len B W b ! i) = (0 < plan_budgets B W (if mode = Replicate then W else len) b ! i)"
proof (cases "B = 0")
  case False
  then have "0 < B" using assms(1) by simp
  moreover from this have "0 < (if mode = Replicate then W else len)" using assms(2) pop by auto
  ultimately show ?thesis
    using plan_sizes_pos(1) [OF _ assms(2) pop assms(3,5,4)] plan_budgets_nth(2) [OF _ assms(2) _ assms(3,5), of B]
    by simp
qed (simp add: plan_budgets_def plan_sizes_def assms(5))

lemma prepared_plans:
  assumes ok: "planner_inputs config replica num_workers b samples shuffle seed"
  shows "\<exists>plans ws budget.
    prepare_partitions entropy config replica num_workers b samples mode shuffle seed drop_last = Return (plans, ws) \<and>
    rank_budget samples replica b drop_last = Return (budget, ws) \<and>
    map plan_worker_id plans = range_list (max 1 num_workers) \<and>
    (\<forall>p\<in>set plans. plan_rank p = rank replica \<and> 0 \<le> sample_count p \<and> (0 < population_size p \<longleftrightarrow> 0 < sample_count p)) \<and>
    sum_list (map sample_count plans) = budget \<and>
    sum_list (map (\<lambda>p. (sample_count p + b - 1) div b) plans) = (budget + b - 1) div b"
proof -
  let ?W = "max 1 num_workers"
  let ?B = "local_budget samples (world_size replica) b drop_last"
  let ?rs = "rank_span_of mode (cfg_row_count config) replica samples ?B"
  let ?P = "if mode = Replicate then ?W else span_length ?rs"
  let ?bs = "plan_budgets ?B ?W ?P b" and ?ss = "plan_sizes mode (cfg_row_count config) (span_length ?rs) ?B ?W b"
  note bd = planner_inputs_bounds [OF ok] and bud = planner_budget_bounds [OF ok, of drop_last]
  have pop: "0 < ?B \<Longrightarrow> mode = Replicate \<or> 0 < span_length ?rs" using rank_span_bounds(4) [OF ok] by simp
  note lists = plan_lists [OF bud(1) bd(6,5,10) pop]
  obtain plans ws where plans: "prepare_partitions entropy config replica num_workers b samples mode shuffle seed drop_last =
      Return (plans, ws)" "rank_budget samples replica b drop_last = Return (?B, ws)"
      "plans_fit entropy replica mode shuffle seed (span_offset ?rs) ?ss ?bs plans"
    using prepare_partitions_plans [OF ok, of entropy mode drop_last] by blast
  note maps = plans_fit_map [OF plans(3)]
  have len: "length plans = nat ?W" using plans(3) lists(1) by (simp add: plans_fit_def)
  have ids: "map plan_worker_id plans = range_list ?W"
    using plans(3) lists(1) len by (intro nth_equalityI) (auto simp: plans_fit_def)
  have active: "(0 < ?ss ! i) = (0 < ?bs ! i)" if "i < nat ?W" for i
    by (rule plan_sizes_active [OF bud(1) bd(6,5,10) that pop])
  have each: "plan_rank p = rank replica \<and> 0 \<le> sample_count p \<and> (0 < population_size p \<longleftrightarrow> 0 < sample_count p)"
    if p: "p \<in> set plans" for p
  proof -
    obtain i where i: "i < nat ?W" "p = plans ! i" using p len by (auto simp: in_set_conv_nth)
    then show ?thesis using plans(3) lists(1,4) active [OF i(1)] by (auto simp: plans_fit_def)
  qed
  have batches: "sum_list (map (\<lambda>v. (v + b - 1) div b) ?bs) = (?B + b - 1) div b"
    using pop bd(6) by (intro plan_budgets_batches [OF bud(1) bd(6,5)]) auto
  have counts: "map sample_count plans = ?bs" using maps(1) lists(1,2) by simp
  then have "map (\<lambda>p. (sample_count p + b - 1) div b) plans = map (\<lambda>v. (v + b - 1) div b) ?bs"
    by (metis (no_types, lifting) map_map comp_def map_eq_conv)
  then have sums: "sum_list (map sample_count plans) = ?B"
    "sum_list (map (\<lambda>p. (sample_count p + b - 1) div b) plans) = (?B + b - 1) div b"
    using counts lists(5) batches by simp_all
  then show ?thesis using plans(1,2) ids each by blast
qed

section \<open>Properties\<close>

text \<open>
  C21. On every input the loader passes, planning raises nothing and gives one plan per consumer, in
  worker order and for this rank; the plans' sample counts are nonnegative and sum to the rank's
  budget; a plan has rows exactly when it has samples; and the batches the workers form separately are
  as many as the rank's budget would give in one process.
\<close>

theorem prepare_partitions_total:
  assumes ok: "planner_inputs config replica num_workers b samples shuffle seed"
  shows "\<exists>plans ws budget.
    prepare_partitions entropy config replica num_workers b samples mode shuffle seed drop_last = Return (plans, ws) \<and>
    rank_budget samples replica b drop_last = Return (budget, ws) \<and>
    map plan_worker_id plans = range_list (max 1 num_workers) \<and>
    (\<forall>p\<in>set plans. plan_rank p = rank replica \<and> 0 \<le> sample_count p \<and> (0 < population_size p \<longleftrightarrow> 0 < sample_count p)) \<and>
    sum_list (map sample_count plans) = budget \<and>
    sum_list (map (\<lambda>p. (sample_count p + b - 1) div b) plans) = (budget + b - 1) div b"
  using assms by (rule prepared_plans)

definition demo_config :: "int \<Rightarrow> DatasetConfiguration" where
  "demo_config n = \<lparr>cfg_cache_paths = [Path ''/'' [''cache'']], cfg_reader_config =
     \<lparr>reader_seed_value = 7, prefetch_size = 64, reader_shuffle = True, validate_cache = False\<rparr>,
     cfg_num_workers = 2, cfg_epoch_len = n, cfg_row_count = n\<rparr>"

lemma demo_planner_inputs:
  "0 \<le> r \<Longrightarrow> r < 3 \<Longrightarrow> planner_inputs (demo_config 10) \<lparr>rank = r, world_size = 3\<rparr> 2 4 10 True (Some 7)"
  by (simp add: planner_inputs_def demo_config_def valid_replica_def MAX_SAMPLE_BUDGET_def sys_maxsize_def U64_MAX_def)

theorem prepare_partitions_total_witness:
  "\<exists>plans ws. prepare_partitions (\<lambda>w. 0) (demo_config 10) \<lparr>rank = 1, world_size = 3\<rparr> 2 4 10 Split True (Some 7) False =
     Return (plans, ws) \<and> map plan_worker_id plans = range_list 2 \<and> sum_list (map sample_count plans) = 4"
  using prepare_partitions_total [OF demo_planner_inputs, of 1 "\<lambda>w. 0" Split False]
  by (auto simp: rank_budget_def Let_def)

text \<open>
  C22. Split plans of all ranks together: every row position below the common total lies in the
  population of exactly one worker of exactly one rank, and no population leaves that range. The total
  is the padded or trimmed sample count in a full pass, and otherwise the rows, or one position per rank
  if there are fewer rows than ranks. In a full pass every worker samples exactly as often as it has rows.
\<close>

theorem split_plans_tile:
  assumes run: "\<And>r. 0 \<le> r \<Longrightarrow> r < world \<Longrightarrow>
      planner_inputs config \<lparr>rank = r, world_size = world\<rparr> (W r) b samples shuffle seed \<and>
      prepare_partitions (entropy r) config \<lparr>rank = r, world_size = world\<rparr> (W r) b samples Split shuffle seed drop_last =
        Return (plans r, ws r)"
    and "0 < world" and budget: "rank_budget samples \<lparr>rank = 0, world_size = world\<rparr> b drop_last = Return (budget, w0)"
    and pos: "0 < budget"
  defines "positions \<equiv> (if samples = cfg_row_count config then budget * world else max world (cfg_row_count config))"
  shows "(\<forall>x. 0 \<le> x \<and> x < positions \<longrightarrow>
      (\<exists>!p. 0 \<le> fst p \<and> fst p < world \<and> snd p < length (plans (fst p)) \<and> x \<in> plan_rows (plans (fst p) ! snd p))) \<and>
    (\<forall>r i. 0 \<le> r \<and> r < world \<and> i < length (plans r) \<longrightarrow> plan_rows (plans r ! i) \<subseteq> {0..<positions}) \<and>
    (samples = cfg_row_count config \<longrightarrow> (\<forall>r. 0 \<le> r \<and> r < world \<longrightarrow>
       map sample_count (plans r) = map population_size (plans r)))"
  unfolding positions_def using assms(1-4) by (rule split_tiling)

theorem split_plans_tile_witness:
  "\<exists>plans. (\<forall>x. 0 \<le> x \<and> x < 12 \<longrightarrow>
      (\<exists>!p. 0 \<le> fst p \<and> fst p < 3 \<and> snd p < length (plans (fst p)) \<and> x \<in> plan_rows (plans (fst p) ! snd p))) \<and>
    (\<forall>r i. 0 \<le> r \<and> r < 3 \<and> i < length (plans r) \<longrightarrow> plan_rows (plans r ! i) \<subseteq> {0..<12}) \<and>
    (\<forall>r. 0 \<le> r \<and> r < 3 \<longrightarrow> prepare_partitions (\<lambda>w. 0) (demo_config 10) \<lparr>rank = r, world_size = 3\<rparr> 2 4 10 Split
      True (Some 7) False = Return (plans r, if r = 0 then [''samples_per_epoch adjusted: requested '' @ str_int 10 @
              '' global samples, effective '' @ str_int 12 @ ''; padded '' @ str_int 2 @
              '' for equal rank batch counts''] else []))"
proof -
  let ?run = "\<lambda>r. prepare_partitions (\<lambda>w. 0) (demo_config 10) \<lparr>rank = r, world_size = 3\<rparr> 2 4 10 Split True (Some 7) False"
  let ?ws = "\<lambda>r :: int. if r = 0 then [''samples_per_epoch adjusted: requested '' @ str_int 10 @
              '' global samples, effective '' @ str_int 12 @ ''; padded '' @ str_int 2 @
              '' for equal rank batch counts''] else []"
  define plans where "plans r = fst (projr (?run r))" for r
  have budget: "rank_budget 10 \<lparr>rank = r, world_size = 3\<rparr> 4 False = Return (4, ?ws r)" for r
    by (simp add: rank_budget_def Let_def)
  have run: "?run r = Return (plans r, ?ws r)" if "0 \<le> r" "r < 3" for r
    using prepare_partitions_plans [OF demo_planner_inputs [OF that], of "\<lambda>w. 0" Split False] budget [of r]
    by (auto simp: plans_def)
  have "cfg_row_count (demo_config 10) = 10" by (simp add: demo_config_def)
  with split_plans_tile [where world = 3 and config = "demo_config 10" and W = "\<lambda>r. 2" and b = 4 and samples = 10 and
      shuffle = True and seed = "Some 7" and entropy = "\<lambda>r w. 0" and drop_last = False and plans = plans and ws = ?ws and
      budget = 4, OF conjI [OF demo_planner_inputs run] _ budget [of 0]]
  have "(\<forall>x. 0 \<le> x \<and> x < 12 \<longrightarrow>
      (\<exists>!p. 0 \<le> fst p \<and> fst p < 3 \<and> snd p < length (plans (fst p)) \<and> x \<in> plan_rows (plans (fst p) ! snd p))) \<and>
    (\<forall>r i. 0 \<le> r \<and> r < 3 \<and> i < length (plans r) \<longrightarrow> plan_rows (plans r ! i) \<subseteq> {0..<12})" by simp
  with run show ?thesis by blast
qed

text \<open>
  Shuffled readers never share a seed: plans of any two workers of any two ranks, made from one
  resolved seed, carry the same reader seed only if they are the same worker of the same rank.
\<close>

theorem plan_seeds_distinct:
  assumes "prepare_partitions entropy config replica W b samples mode True (Some seed) drop_last = Return (plans, ws)"
    and "prepare_partitions entropy' config' replica' W' b' samples' mode' True (Some seed) drop_last' = Return (plans', ws')"
    and "p \<in> set plans" and "p' \<in> set plans'" and "plan_seed p = plan_seed p'"
  shows "plan_rank p = plan_rank p' \<and> plan_worker_id p = plan_worker_id p'"
  using derive_seed_eqD [OF plan_seed_derived [OF assms(1,3)]] plan_seed_derived [OF assms(2,4)] assms(5) by simp

theorem plan_seeds_distinct_witness:
  "\<exists>plans ws plans' ws'. prepare_partitions (\<lambda>w. 0) (demo_config 10) \<lparr>rank = 0, world_size = 3\<rparr> 2 4 10 Split True (Some 7) False =
     Return (plans, ws) \<and> prepare_partitions (\<lambda>w. 0) (demo_config 10) \<lparr>rank = 1, world_size = 3\<rparr> 2 4 10 Split True (Some 7) False =
     Return (plans', ws') \<and> plans \<noteq> [] \<and> plans' \<noteq> [] \<and> (\<forall>p\<in>set plans. \<forall>p'\<in>set plans'. plan_seed p \<noteq> plan_seed p')"
proof -
  let ?run = "\<lambda>r. prepare_partitions (\<lambda>w. 0) (demo_config 10) \<lparr>rank = r, world_size = 3\<rparr> 2 4 10 Split True (Some 7) False"
  have run: "\<exists>plans ws. ?run r = Return (plans, ws) \<and> length plans = nat (max 1 2)" if "0 \<le> r" "r < 3" for r
    using prepared_exists [OF demo_planner_inputs [OF that]] .
  obtain plans ws where zero: "?run 0 = Return (plans, ws)" "length plans = nat (max 1 2)" using run [of 0] by auto
  obtain plans' ws' where one: "?run 1 = Return (plans', ws')" "length plans' = nat (max 1 2)" using run [of 1] by auto
  have ranks: "plan_rank p = 0" "plan_rank p' = 1" if "p \<in> set plans" "p' \<in> set plans'" for p p'
    using prepared_plan [OF zero(1) that(1)] prepared_plan [OF one(1) that(2)] by simp_all
  have "plan_seed p \<noteq> plan_seed p'" if "p \<in> set plans" "p' \<in> set plans'" for p p'
    using plan_seeds_distinct [OF zero(1) one(1) that] ranks [OF that] by auto
  then show ?thesis using zero one by fastforce
qed

end
