(* ===== verification/Benchmark.thy ===== *)
theory Benchmark
  imports Bytes Native_Dataset Partitions
begin

text \<open>
  \<open>src/dataset_rt/benchmarks/config.py\<close> and the checks of \<open>src/dataset_rt/benchmarks/distributed.py\<close>: the
  workload settings, the synthetic fixtures with the identity every payload carries, and the independent
  re-computation of budgets, spans and delivery order that the benchmark holds against the loader.

  A byte is an \<open>8 word\<close>. SHA-256 and the tensor made from a digest are arguments of the definitions.
\<close>

section \<open>Settings\<close>

datatype bench_device = CPU | CUDA

record BenchmarkConfig =
  bench_ranks :: int
  bench_num_workers :: int
  bench_device_kind :: bench_device
  bench_worker_context :: string
  bench_native_num_workers :: int
  bench_batch_size :: int
  bench_samples_per_epoch :: "int option"
  bench_shuffle :: bool
  bench_worker_partition :: partition_mode
  bench_drop_last :: bool
  bench_persistent_workers :: bool
  bench_pin_memory :: bool
  bench_seed :: int
  bench_repeats :: int
  bench_samples_per_cache :: int
  bench_caches :: int
  bench_payload_bytes :: int
  bench_metadata_bytes :: int
  bench_cache_paths :: "path list"
  bench_input_features :: int
  bench_model_width :: int
  bench_transform_rounds :: int
  bench_prefetch_size :: int
  bench_prefetch_factor :: int
  bench_timeout_seconds :: int
  bench_worker_timeout :: rat
  bench_output :: path
  bench_quiet :: bool

text \<open>The field constraints, in one conjunction; \<open>is_dir\<close> is the check behind \<open>DirectoryPath\<close>.\<close>

definition bench_fields_ok :: "(path \<Rightarrow> bool) \<Rightarrow> BenchmarkConfig \<Rightarrow> bool" where
  "bench_fields_ok is_dir c \<longleftrightarrow>
     0 < bench_ranks c \<and> 0 \<le> bench_num_workers c \<and>
     bench_worker_context c \<in> set [''spawn'', ''forkserver'', ''fork''] \<and>
     0 < bench_native_num_workers c \<and> 0 < bench_batch_size c \<and>
     (case bench_samples_per_epoch c of None \<Rightarrow> True | Some n \<Rightarrow> 0 < n \<and> n \<le> 2 ^ 53) \<and>
     0 \<le> bench_seed c \<and> bench_seed c < 2 ^ 64 \<and> 0 < bench_repeats c \<and>
     0 < bench_samples_per_cache c \<and> 0 < bench_caches c \<and> 16 \<le> bench_payload_bytes c \<and>
     0 \<le> bench_metadata_bytes c \<and> list_all is_dir (bench_cache_paths c) \<and>
     0 < bench_input_features c \<and> 0 < bench_model_width c \<and> 0 \<le> bench_transform_rounds c \<and>
     0 < bench_prefetch_size c \<and> 0 < bench_prefetch_factor c \<and> 0 < bench_timeout_seconds c \<and>
     0 < bench_worker_timeout c"

definition check_BenchmarkConfig :: "string list \<Rightarrow> (path \<Rightarrow> bool) \<Rightarrow> BenchmarkConfig \<Rightarrow> BenchmarkConfig exn" where
  "check_BenchmarkConfig start_methods is_dir c =
     (if \<not> bench_fields_ok is_dir c then Raise (ValueError ''BenchmarkConfig'')
      else if bench_worker_context c \<notin> set start_methods
      then Raise (ValueError ''worker_context is unavailable on this platform'')
      else if bench_device_kind c = CUDA \<and> bench_num_workers c \<noteq> 0 \<and> bench_worker_context c = ''fork''
      then Raise (ValueError ''CUDA loading requires spawn or forkserver workers'')
      else if bench_input_features c mod 32 \<noteq> 0
      then Raise (ValueError ''input_features must be divisible by 32'')
      else Return c)"

record Topology =
  top_rank :: int
  top_local_rank :: int
  top_world_size :: int
  top_local_world_size :: int

definition check_Topology :: "Topology \<Rightarrow> Topology exn" where
  "check_Topology t =
     (if \<not> (0 \<le> top_rank t \<and> 0 \<le> top_local_rank t \<and> 0 < top_world_size t \<and> 0 < top_local_world_size t)
      then Raise (ValueError ''Topology'')
      else if top_rank t \<ge> top_world_size t \<or> top_local_rank t \<ge> top_local_world_size t
      then Raise (ValueError ''rank does not belong to its launcher topology'')
      else Return t)"

section \<open>Fixtures\<close>

text \<open>\<open>int.to_bytes(8, "little")\<close>.\<close>

definition to_bytes :: "int \<Rightarrow> byte list exn" where
  "to_bytes x =
     (if x < 0 then Raise (OverflowError ''can't convert negative int to unsigned'')
      else if x \<ge> 2 ^ 64 then Raise (OverflowError ''int too big to convert'')
      else Return (little_endian 8 x))"

record Source =
  fixture_name :: string
  fixture_cache_position :: int
  fixture_count :: int
  fixture_payload_bytes :: int
  fixture_metadata_bytes :: int

text \<open>A cached value of the fixtures: the payload and the metadata columns.\<close>

record fixture =
  fixture_data :: "byte list"
  fixture_metadata :: "string \<Rightarrow> pyval option"

definition ljust :: "string \<Rightarrow> int \<Rightarrow> char \<Rightarrow> string" where
  "ljust s n c = s @ replicate (nat n - length s) c"

definition fixture_input :: "Source \<Rightarrow> int \<Rightarrow> fixture exn" where
  "fixture_input s index =
     (let position = fixture_cache_position s * fixture_count s + index in
      bindE (to_bytes position) (\<lambda>low.
      bindE (to_bytes index) (\<lambda>high.
      let header = low @ high;
          payload = take (nat (fixture_payload_bytes s)) (concat (replicate (nat ((fixture_payload_bytes s + 15) div 16)) header)) in
      Return \<lparr>fixture_data = payload,
        fixture_metadata = [''benchmark_position'' \<mapsto> VInt position,
          ''wide'' \<mapsto> VStr (if fixture_metadata_bytes s \<noteq> 0 then ljust (str_int position) (fixture_metadata_bytes s) CHR ''x'' else [])]\<rparr>)))"

text \<open>\<open>Source.__iter__\<close>: what the generator yields, up to the item whose encoding raises.\<close>

definition fixture_inputs :: "Source \<Rightarrow> fixture exn list" where
  "fixture_inputs s = map (fixture_input s) (range_list (fixture_count s))"

definition fixture_sources :: "BenchmarkConfig \<Rightarrow> Source list" where
  "fixture_sources c =
     map (\<lambda>index. \<lparr>fixture_name = ''benchmark-'' @ str_int index, fixture_cache_position = index,
            fixture_count = bench_samples_per_cache c, fixture_payload_bytes = bench_payload_bytes c,
            fixture_metadata_bytes = bench_metadata_bytes c\<rparr>) (range_list (bench_caches c))"

record Identity =
  id_cache :: int
  id_sample :: int
  id_position :: int
  id_worker :: nat

record 't Sample =
  sample_inputs :: 't
  sample_identity :: Identity

record 'b Batch =
  batch_inputs :: 'b
  batch_identities :: "Identity list"

record Transform =
  tr_features :: int
  tr_rounds :: int
  tr_synthetic :: bool

text \<open>
  \<open>Transform.__call__\<close> in loading worker \<open>worker\<close> (\<open>None\<close> in the training process). \<open>tensor\<close> makes the
  inputs from a digest and the number of repetitions.
\<close>

definition synthetic_position :: "fixture CachedSample \<Rightarrow> int exn" where
  "synthetic_position sample =
     (case fixture_metadata (sample_value sample) ''benchmark_position'' of
        None \<Rightarrow> Raise (KeyError ''benchmark_position'')
      | Some (VInt position) \<Rightarrow>
          bindE (to_bytes position) (\<lambda>low.
          bindE (to_bytes (int (sample_id sample))) (\<lambda>high.
          if take 16 (fixture_data (sample_value sample)) \<noteq> low @ high
          then Raise (ValueError ''synthetic payload identity differs from metadata'')
          else Return position))
      | Some other \<Rightarrow> Raise (ValueError ''synthetic position must be an integer''))"

definition transform ::
  "(byte list \<Rightarrow> byte list) \<Rightarrow> (byte list \<Rightarrow> int \<Rightarrow> 't) \<Rightarrow> nat option \<Rightarrow> Transform \<Rightarrow> fixture CachedSample \<Rightarrow> 't Sample exn" where
  "transform sha256 tensor worker tr sample =
     bindE (if tr_synthetic tr then synthetic_position sample else Return 0) (\<lambda>position.
     let digest = (sha256 ^^ nat (tr_rounds tr)) (sha256 (fixture_data (sample_value sample))) in
     Return \<lparr>sample_inputs = tensor digest (tr_features tr div 32),
       sample_identity = \<lparr>id_cache = int (sample_cache_id sample), id_sample = int (sample_id sample),
         id_position = position, id_worker = (case worker of None \<Rightarrow> 0 | Some k \<Rightarrow> k)\<rparr>\<rparr>)"

definition collate :: "('t list \<Rightarrow> 'b) \<Rightarrow> 't Sample list \<Rightarrow> 'b Batch" where
  "collate stack samples =
     \<lparr>batch_inputs = stack (map sample_inputs samples), batch_identities = map sample_identity samples\<rparr>"

section \<open>Checks held against the loader\<close>

definition local_samples :: "int \<Rightarrow> int \<Rightarrow> int \<Rightarrow> bool \<Rightarrow> int exn" where
  "local_samples samples ranks batch_size drop_last =
     (if drop_last then bindE (py_div samples (ranks * batch_size)) (\<lambda>q. Return (q * batch_size))
      else py_div (samples + ranks - 1) ranks)"

text \<open>The loop over the active plans, and its final offset.\<close>

fun check_spans :: "int \<Rightarrow> WorkerPlan list \<Rightarrow> int exn" where
  "check_spans offset [] = Return offset"
| "check_spans offset (plan # plans) =
     (if plan_offset plan \<noteq> offset \<or> population_size plan = 0
      then Raise (ValueError ''split worker spans overlap or omit positions'')
      else check_spans (offset + population_size plan) plans)"

definition expected_span :: "int \<Rightarrow> int \<Rightarrow> int \<Rightarrow> Topology \<Rightarrow> RowSpan exn" where
  "expected_span population requested quota t =
     (if requested = population then Return (mk_RowSpan (top_rank t * quota) quota)
      else let virtual = max population (top_world_size t) in
        bindE (py_divmod virtual (top_world_size t)) (\<lambda>(len, remainder).
        Return (mk_RowSpan (top_rank t * len + min (top_rank t) remainder)
                  (len + (if top_rank t < remainder then 1 else 0)))))"

definition validate_plans ::
  "WorkerPlan list \<Rightarrow> int \<Rightarrow> int \<Rightarrow> BenchmarkConfig \<Rightarrow> Topology \<Rightarrow> unit exn" where
  "validate_plans partitions population requested c t =
     bindE (local_samples requested (top_world_size t) (bench_batch_size c) (bench_drop_last c)) (\<lambda>quota.
     let active = filter (\<lambda>plan. sample_count plan \<noteq> 0) partitions in
     if sum_list (map sample_count active) \<noteq> quota
     then Raise (ValueError ''worker plans multiply or lose the local budget'')
     else if quota = 0 then Return ()
     else if bench_worker_partition c = Replicate
     then if list_ex (\<lambda>plan. plan_offset plan \<noteq> 0 \<or> population_size plan \<noteq> population) active
       then Raise (ValueError ''replicated worker population is incomplete'')
       else Return ()
     else bindE (expected_span population requested quota t) (\<lambda>expected.
       bindE (check_spans (span_offset expected) active) (\<lambda>offset.
       if offset \<noteq> span_offset expected + span_length expected
       then Raise (ValueError ''split rank span has incorrect coverage'')
       else Return ())))"

text \<open>
  \<open>check_order\<close> over the identities of a batch. \<open>counters\<close> is updated in place; the counters of the
  identities before the one that raises are lost with the benchmark.
\<close>

definition check_identity :: "WorkerPlan list \<Rightarrow> int \<Rightarrow> Identity \<Rightarrow> int list \<Rightarrow> int list exn" where
  "check_identity partitions population identity counters =
     (if id_worker identity \<ge> length partitions then Raise (IndexError ''tuple index out of range'')
      else if id_worker identity \<ge> length counters then Raise (IndexError ''list index out of range'')
      else let plan = partitions ! id_worker identity; counter = counters ! id_worker identity in
        bindE (py_mod counter (population_size plan)) (\<lambda>step.
        bindE (py_mod (plan_offset plan + step) population) (\<lambda>expected.
        if id_position identity \<noteq> expected
        then Raise (ValueError ''sequential fixture position differs from worker plan'')
        else Return (counters[id_worker identity := counter + 1]))))"

fun check_order :: "WorkerPlan list \<Rightarrow> int \<Rightarrow> Identity list \<Rightarrow> int list \<Rightarrow> int list exn" where
  "check_order partitions population [] counters = Return counters"
| "check_order partitions population (identity # identities) counters =
     bindE (check_identity partitions population identity counters) (check_order partitions population identities)"

text \<open>The bytes \<open>prefix_digest\<close> feeds to the hash.\<close>

definition identity_bytes :: "Identity \<Rightarrow> byte list exn" where
  "identity_bytes identity =
     bindE (to_bytes (id_cache identity)) (\<lambda>a. bindE (to_bytes (id_sample identity)) (\<lambda>b. Return (a @ b)))"

definition prefix_digest :: "'b Batch \<Rightarrow> byte list \<Rightarrow> byte list exn" where
  "prefix_digest batch digest = bindE (mapE identity_bytes (batch_identities batch)) (\<lambda>bs. Return (digest @ concat bs))"

section \<open>Budgets and spans\<close>

lemma local_samples_eq:
  "0 < ranks \<Longrightarrow> 0 < b \<Longrightarrow> local_samples samples ranks b drop_last = Return (local_budget samples ranks b drop_last)"
  by (simp add: local_samples_def local_budget_def)

lemma check_spans_Return [exn_simps]:
  "check_spans offset plans = Return e \<longleftrightarrow>
     (\<forall>i<length plans. plan_offset (plans ! i) = offset + sum_list (take i (map population_size plans)) \<and> population_size (plans ! i) \<noteq> 0) \<and>
     e = offset + sum_list (map population_size plans)"
  by (induction plans arbitrary: offset) (auto simp: All_less_Suc2 algebra_simps)

text \<open>Plans without samples have no rows, so leaving them out keeps the spans end to end.\<close>

lemma check_spans_active:
  assumes "\<forall>i<length plans. plan_offset (plans ! i) = offset + sum_list (take i (map population_size plans))"
    and "\<forall>p\<in>set plans. population_size p = 0 \<longleftrightarrow> sample_count p = 0"
  shows "check_spans offset (filter (\<lambda>p. sample_count p \<noteq> 0) plans) = Return (offset + sum_list (map population_size plans))"
  using assms
proof (induction plans arbitrary: offset)
  case (Cons p plans)
  then have "check_spans (offset + population_size p) (filter (\<lambda>p. sample_count p \<noteq> 0) plans) =
      Return (offset + population_size p + sum_list (map population_size plans))"
    by (intro Cons.IH) (auto simp: All_less_Suc2 algebra_simps)
  then show ?case using Cons.prems by (auto simp: All_less_Suc2 algebra_simps)
qed simp

lemma contiguous_tile:
  assumes spans: "check_spans (span_offset rs) plans = Return (span_offset rs + span_length rs)"
    and nonneg: "\<forall>p\<in>set plans. 0 \<le> population_size p"
  shows "x \<in> span_rows rs \<Longrightarrow> \<exists>!i. i < length plans \<and> x \<in> plan_rows (plans ! i)"
    and "i < length plans \<Longrightarrow> plan_rows (plans ! i) \<subseteq> span_rows rs"
proof -
  let ?ss = "map population_size plans"
  have ss: "\<forall>v\<in>set ?ss. 0 \<le> v" "sum_list ?ss = span_length rs" using nonneg spans by (auto simp: exn_simps)
  have rows: "x \<in> plan_rows (plans ! i) \<longleftrightarrow>
      span_offset rs + sum_list (take i ?ss) \<le> x \<and> x < span_offset rs + sum_list (take i ?ss) + ?ss ! i" if "i < length plans" for i x
    using spans that by (simp add: exn_simps plan_rows_def)
  show "plan_rows (plans ! i) \<subseteq> span_rows rs" if "i < length plans"
  proof
    fix x assume "x \<in> plan_rows (plans ! i)"
    then show "x \<in> span_rows rs"
      using end_to_end_inside [OF ss(1), of i] that unfolding rows [OF that] span_rows_def ss(2) by simp
  qed
  show "\<exists>!i. i < length plans \<and> x \<in> plan_rows (plans ! i)" if "x \<in> span_rows rs"
  proof -
    have "\<exists>!i. i < length ?ss \<and> span_offset rs + sum_list (take i ?ss) \<le> x \<and> x < span_offset rs + sum_list (take i ?ss) + ?ss ! i"
      using that ss(2) by (intro end_to_end_unique [OF ss(1)]) (auto simp: span_rows_def)
    moreover have "(i < length plans \<and> x \<in> plan_rows (plans ! i)) \<longleftrightarrow>
        (i < length ?ss \<and> span_offset rs + sum_list (take i ?ss) \<le> x \<and> x < span_offset rs + sum_list (take i ?ss) + ?ss ! i)" for i
      unfolding length_map by (rule conj_cong [OF refl]) (rule rows)
    ultimately show ?thesis by (simp only:)
  qed
qed

text \<open>The benchmark computes the span of a rank from first principles; it is the part the loader asks for.\<close>

lemma expected_span_eq:
  assumes "0 < top_world_size t" "0 \<le> top_rank t" "0 \<le> quota"
  shows "expected_span population requested quota t =
    Return (partition_span (split_total population requested quota (top_world_size t)) (top_world_size t) (top_rank t))"
  using assms by (auto simp: expected_span_def split_total_def partition_span_def Let_def max_def)

lemma validate_split_Return:
  fixes requested population :: int and plans :: "WorkerPlan list"
  assumes "0 < top_world_size t" "0 \<le> top_rank t" "0 < bench_batch_size c" and "bench_worker_partition c = Split"
  defines "quota \<equiv> local_budget requested (top_world_size t) (bench_batch_size c) (bench_drop_last c)"
  defines "rs \<equiv> partition_span (split_total population requested quota (top_world_size t)) (top_world_size t) (top_rank t)"
  defines "active \<equiv> filter (\<lambda>p. sample_count p \<noteq> 0) plans"
  assumes "0 < quota"
  shows "validate_plans plans population requested c t = Return () \<longleftrightarrow>
    sum_list (map sample_count active) = quota \<and> check_spans (span_offset rs) active = Return (span_offset rs + span_length rs)"
proof -
  have ls: "local_samples requested (top_world_size t) (bench_batch_size c) (bench_drop_last c) = Return quota"
    unfolding quota_def by (rule local_samples_eq [OF assms(1,3)])
  show ?thesis
    using assms(4,8) expected_span_eq [OF assms(1,2), of quota population requested]
    by (auto simp: validate_plans_def Let_def ls active_def rs_def exn_simps)
qed

lemma prepared_spans:
  assumes ok: "planner_inputs config replica num_workers b samples shuffle seed"
    and run: "prepare_partitions entropy config replica num_workers b samples mode shuffle seed drop_last = Return (plans, ws)"
  defines "budget \<equiv> local_budget samples (world_size replica) b drop_last"
  defines "rs \<equiv> rank_span_of mode (cfg_row_count config) replica samples budget"
  shows "sum_list (map sample_count plans) = budget"
    and "p \<in> set plans \<Longrightarrow> population_size p = 0 \<longleftrightarrow> sample_count p = 0"
    and "mode = Split \<Longrightarrow> i < length plans \<Longrightarrow>
      plan_offset (plans ! i) = span_offset rs + sum_list (take i (map population_size plans))"
    and "mode = Split \<Longrightarrow> 0 < budget \<Longrightarrow> sum_list (map population_size plans) = span_length rs"
proof -
  let ?W = "max 1 num_workers"
  let ?ss = "plan_sizes mode (cfg_row_count config) (span_length rs) budget ?W b"
  note bd = planner_inputs_bounds [OF ok] and bud = planner_budget_bounds [OF ok, of drop_last, folded budget_def]
  have len: "0 < budget \<Longrightarrow> 0 < span_length rs"
    using rank_span_bounds(4) [OF ok, of drop_last mode] by (simp add: rs_def budget_def)
  then have pop: "0 < budget \<Longrightarrow> mode = Replicate \<or> 0 < span_length rs" by simp
  note lists = plan_lists [OF bud(1) bd(6,5,10) pop]
  let ?bs = "plan_budgets budget ?W (if mode = Replicate then ?W else span_length rs) b"
  obtain plans' ws' where "prepare_partitions entropy config replica num_workers b samples mode shuffle seed drop_last = Return (plans', ws')"
      "plans_fit entropy replica mode shuffle seed (span_offset rs) ?ss ?bs plans'"
    using prepare_partitions_plans [OF ok, of entropy mode drop_last] unfolding rs_def budget_def by blast
  then have fit: "plans_fit entropy replica mode shuffle seed (span_offset rs) ?ss ?bs plans" using run by simp
  note maps = plans_fit_map [OF fit] lists(1,2)
  have sizes: "map population_size plans = ?ss" using maps by simp
  obtain budget' ws' where total: "rank_budget samples replica b drop_last = Return (budget', ws')"
      "\<forall>p\<in>set plans. 0 \<le> sample_count p \<and> (0 < population_size p \<longleftrightarrow> 0 < sample_count p)" "sum_list (map sample_count plans) = budget'"
    using prepared_plans [OF ok, of entropy mode drop_last] run by auto
  then show "sum_list (map sample_count plans) = budget"
    using rank_budget_local [of replica b samples drop_last] bd by (auto simp: budget_def local_budget_def)
  show "population_size p = 0 \<longleftrightarrow> sample_count p = 0" if "p \<in> set plans"
  proof -
    have "0 \<le> population_size p" using lists(3) that unfolding sizes [symmetric] by simp
    then show ?thesis using total(2) that by force
  qed
  show "plan_offset (plans ! i) = span_offset rs + sum_list (take i (map population_size plans))" if "mode = Split" "i < length plans"
    unfolding sizes using fit that by (simp add: plans_fit_def)
  show "sum_list (map population_size plans) = span_length rs" if "mode = Split" "0 < budget"
    unfolding sizes that(1) by (rule plan_sizes_sum [OF that(2) bd(6) len [OF that(2)] bd(5)])
qed

section \<open>Payload identities\<close>

lemma to_bytes_Return [exn_simps]: "to_bytes x = Return bs \<longleftrightarrow> 0 \<le> x \<and> x < 2 ^ 64 \<and> bs = little_endian 8 x"
  by (auto simp: to_bytes_def)

lemma take_repeated: "length header = n \<Longrightarrow> 0 < m \<Longrightarrow> take n (concat (replicate m header)) = header"
  by (cases m) simp_all

lemma fixture_input_Return:
  assumes "16 \<le> fixture_payload_bytes s" and "fixture_input s index = Return f"
  defines "position \<equiv> fixture_cache_position s * fixture_count s + index"
  shows "0 \<le> position" "position < 2 ^ 64" "0 \<le> index" "index < 2 ^ 64"
    "fixture_metadata f ''benchmark_position'' = Some (VInt position)"
    "take 16 (fixture_data f) = little_endian 8 position @ little_endian 8 index"
    "int (length (fixture_data f)) = fixture_payload_bytes s"
proof -
  let ?header = "little_endian 8 position @ little_endian 8 index"
  let ?m = "nat ((fixture_payload_bytes s + 15) div 16)"
  show range: "0 \<le> position" "position < 2 ^ 64" "0 \<le> index" "index < 2 ^ 64"
    using assms(2) by (auto simp: fixture_input_def position_def Let_def exn_simps)
  have f: "fixture_data f = take (nat (fixture_payload_bytes s)) (concat (replicate ?m ?header))"
    "fixture_metadata f ''benchmark_position'' = Some (VInt position)"
    using assms(2) by (auto simp: fixture_input_def position_def Let_def exn_simps)
  then show "fixture_metadata f ''benchmark_position'' = Some (VInt position)" by simp
  have "0 < ?m" using assms(1) by simp
  then have "take 16 (concat (replicate ?m ?header)) = ?header" by (intro take_repeated) simp_all
  moreover have "min 16 (nat (fixture_payload_bytes s)) = 16" using assms(1) by simp
  ultimately show "take 16 (fixture_data f) = ?header" by (simp only: f(1) take_take)
  have "length (concat (replicate ?m ?header)) = ?m * 16" by (simp add: length_concat sum_list_replicate)
  moreover have "nat (fixture_payload_bytes s) \<le> ?m * 16" using assms(1) by linarith
  ultimately show "int (length (fixture_data f)) = fixture_payload_bytes s" using assms(1) by (simp add: f(1))
qed

lemma synthetic_position_Return:
  assumes "fixture_metadata (sample_value x) ''benchmark_position'' = Some (VInt p)" "0 \<le> p" "p < 2 ^ 64"
  shows "synthetic_position x = Return q \<longleftrightarrow> q = p \<and> int (sample_id x) < 2 ^ 64 \<and>
    take 16 (fixture_data (sample_value x)) = little_endian 8 p @ little_endian 8 (int (sample_id x))"
  using assms by (auto simp: synthetic_position_def to_bytes_def)

section \<open>Delivery order\<close>

definition delivered :: "nat \<Rightarrow> Identity list \<Rightarrow> int list" where
  "delivered w identities = map id_position (filter (\<lambda>i. id_worker i = w) identities)"

definition planned_position :: "WorkerPlan \<Rightarrow> int \<Rightarrow> int \<Rightarrow> int" where
  "planned_position plan population k = (plan_offset plan + k mod population_size plan) mod population"

lemma delivered_simps [simp]:
  "delivered w [] = []"
  "delivered w (x # xs) = (if id_worker x = w then id_position x # delivered w xs else delivered w xs)"
  "delivered w (xs @ ys) = delivered w xs @ delivered w ys"
  by (simp_all add: delivered_def)

lemma map_planned_Cons:
  "p # ps = map (\<lambda>i. f (c + int i)) [0..<length (p # ps)] \<longleftrightarrow>
     p = f c \<and> ps = map (\<lambda>i. f (c + 1 + int i)) [0..<length ps]"
  by (simp add: upt_conv_Cons map_Suc_upt [symmetric] del: upt_Suc) (simp add: o_def algebra_simps)

lemma check_identity_Return:
  assumes "length counters = length plans" "population \<noteq> 0" "\<forall>p\<in>set plans. population_size p \<noteq> 0" "id_worker x < length plans"
  shows "check_identity plans population x counters = Return counters' \<longleftrightarrow>
    id_position x = planned_position (plans ! id_worker x) population (counters ! id_worker x) \<and>
    counters' = counters[id_worker x := counters ! id_worker x + 1]"
  using assms by (auto simp: check_identity_def planned_position_def Let_def)

lemma check_order_Return:
  assumes "length counters = length plans" "population \<noteq> 0" "\<forall>p\<in>set plans. population_size p \<noteq> 0"
    and "\<forall>x\<in>set xs. id_worker x < length plans"
  shows "check_order plans population xs counters = Return counters' \<longleftrightarrow>
    (\<forall>w<length plans. delivered w xs = map (\<lambda>i. planned_position (plans ! w) population (counters ! w + int i)) [0..<length (delivered w xs)]) \<and>
    counters' = map (\<lambda>w. counters ! w + int (length (delivered w xs))) [0..<length plans]"
  using assms(1,4)
proof (induction xs arbitrary: counters)
  case Nil
  then show ?case using map_nth [of counters] by (simp add: eq_commute [of counters])
next
  case (Cons x xs)
  let ?w = "id_worker x" and ?c = "counters[id_worker x := counters ! id_worker x + 1]"
  let ?pp = "\<lambda>w. planned_position (plans ! w) population"
  have w: "?w < length plans" "?w < length counters" and len: "length ?c = length plans" using Cons.prems by simp_all
  have IH: "check_order plans population xs ?c = Return counters' \<longleftrightarrow>
    (\<forall>w<length plans. delivered w xs = map (\<lambda>i. ?pp w (?c ! w + int i)) [0..<length (delivered w xs)]) \<and>
    counters' = map (\<lambda>w. ?c ! w + int (length (delivered w xs))) [0..<length plans]"
    using Cons.prems(2) by (intro Cons.IH len) simp
  have step: "check_order plans population (x # xs) counters = Return counters' \<longleftrightarrow>
      id_position x = ?pp ?w (counters ! ?w) \<and> check_order plans population xs ?c = Return counters'"
    using check_identity_Return [OF Cons.prems(1) assms(2,3) w(1)] by (auto simp: exn_simps)
  have one: "delivered w (x # xs) = map (\<lambda>i. ?pp w (counters ! w + int i)) [0..<length (delivered w (x # xs))] \<longleftrightarrow>
      (?w = w \<longrightarrow> id_position x = ?pp w (counters ! w)) \<and>
      delivered w xs = map (\<lambda>i. ?pp w (?c ! w + int i)) [0..<length (delivered w xs)]" if "w < length plans" for w
  proof (cases "?w = w")
    case True
    then show ?thesis using map_planned_Cons [of "id_position x" "delivered w xs" "?pp w" "counters ! w"] w by simp
  qed simp
  have "map (\<lambda>w. ?c ! w + int (length (delivered w xs))) [0..<length plans] =
      map (\<lambda>w. counters ! w + int (length (delivered w (x # xs)))) [0..<length plans]"
    using w by (intro map_cong refl) (auto simp: nth_list_update)
  then show ?case unfolding step IH using one w(1) by auto
qed

section \<open>Properties\<close>

text \<open>
  The benchmark's independent check accepts every plan of the loader: whatever the number of ranks,
  workers, rows and samples, in both partition modes and with or without incomplete batches.
\<close>

theorem plans_pass_validation:
  assumes ok: "planner_inputs config \<lparr>rank = top_rank t, world_size = top_world_size t\<rparr> num_workers (bench_batch_size c) samples shuffle seed"
    and run: "prepare_partitions entropy config \<lparr>rank = top_rank t, world_size = top_world_size t\<rparr> num_workers (bench_batch_size c) samples
      (bench_worker_partition c) shuffle seed (bench_drop_last c) = Return (plans, ws)"
  shows "validate_plans plans (cfg_row_count config) samples c t = Return ()"
proof -
  let ?quota = "local_budget samples (top_world_size t) (bench_batch_size c) (bench_drop_last c)"
  let ?active = "filter (\<lambda>p. sample_count p \<noteq> 0) plans"
  note bd = planner_inputs_bounds [OF ok, simplified] and bud = planner_budget_bounds [OF ok, of "bench_drop_last c", simplified]
  note spans = prepared_spans [OF ok run, simplified]
  have ls: "local_samples samples (top_world_size t) (bench_batch_size c) (bench_drop_last c) = Return ?quota"
    by (rule local_samples_eq [OF bd(1,5)])
  have sum: "sum_list (map sample_count ?active) = ?quota"
    unfolding spans(1) [symmetric] by (rule sum_list_map_filter) simp
  consider "?quota = 0" | "0 < ?quota" "bench_worker_partition c = Replicate" | "0 < ?quota" "bench_worker_partition c = Split"
    using bud(1) by (cases "bench_worker_partition c") fastforce+
  then show ?thesis
  proof cases
    case 2
    have "plan_offset p = 0 \<and> population_size p = cfg_row_count config" if "p \<in> set ?active" for p
      using prepared_plan [OF run, of p] that spans(2) 2(2) by auto
    then show ?thesis using 2 ls sum by (auto simp: validate_plans_def Let_def list_ex_iff)
  next
    case 3
    have "check_spans (span_offset (rank_span_of Split (cfg_row_count config) \<lparr>rank = top_rank t, world_size = top_world_size t\<rparr> samples ?quota)) ?active =
        Return (span_offset (rank_span_of Split (cfg_row_count config) \<lparr>rank = top_rank t, world_size = top_world_size t\<rparr> samples ?quota) +
          sum_list (map population_size plans))"
      using spans(2,3) 3(2) by (intro check_spans_active) simp_all
    then show ?thesis using sum spans(4) 3 bd by (simp add: validate_split_Return rank_span_of_def)
  qed (use ls sum in \<open>simp add: validate_plans_def Let_def\<close>)
qed

definition demo_bench :: BenchmarkConfig where
  "demo_bench =
     \<lparr>bench_ranks = 3, bench_num_workers = 2, bench_device_kind = CPU, bench_worker_context = ''spawn'',
      bench_native_num_workers = 1, bench_batch_size = 4, bench_samples_per_epoch = None, bench_shuffle = False,
      bench_worker_partition = Split, bench_drop_last = False, bench_persistent_workers = True, bench_pin_memory = False,
      bench_seed = 7, bench_repeats = 1, bench_samples_per_cache = 5, bench_caches = 2, bench_payload_bytes = 16,
      bench_metadata_bytes = 0, bench_cache_paths = [], bench_input_features = 32, bench_model_width = 1,
      bench_transform_rounds = 0, bench_prefetch_size = 16, bench_prefetch_factor = 2, bench_timeout_seconds = 600,
      bench_worker_timeout = 30, bench_output = Path [] [''benchmark-results.json''], bench_quiet = True\<rparr>"

definition demo_topology :: "int \<Rightarrow> Topology" where
  "demo_topology r = \<lparr>top_rank = r, top_local_rank = r, top_world_size = 3, top_local_world_size = 3\<rparr>"

lemma demo_bench_sel [simp]:
  "bench_batch_size demo_bench = 4" "bench_worker_partition demo_bench = Split" "bench_drop_last demo_bench = False"
  "top_rank (demo_topology r) = r" "top_world_size (demo_topology r) = 3"
  by (simp_all add: demo_bench_def demo_topology_def)

theorem plans_pass_validation_witness:
  "\<exists>plans ws. prepare_partitions (\<lambda>w. 0) (demo_config 10) \<lparr>rank = 1, world_size = 3\<rparr> 2 4 10 Split True (Some 7) False = Return (plans, ws) \<and>
     validate_plans plans 10 10 demo_bench (demo_topology 1) = Return ()"
proof -
  have ok: "planner_inputs (demo_config 10) \<lparr>rank = 1, world_size = 3\<rparr> 2 4 10 True (Some 7)" by (rule demo_planner_inputs) simp_all
  obtain plans ws where run: "prepare_partitions (\<lambda>w. 0) (demo_config 10) \<lparr>rank = 1, world_size = 3\<rparr> 2 4 10 Split True (Some 7) False = Return (plans, ws)"
    using prepared_exists [OF ok] by blast
  have n: "cfg_row_count (demo_config 10) = 10" by (simp add: demo_config_def)
  from plans_pass_validation [where t = "demo_topology 1" and c = demo_bench and config = "demo_config 10", simplified, OF ok run] run n
  show ?thesis by auto
qed

text \<open>
  The check is sound: if it accepts the plans at every rank, then the active plans of all ranks together
  contain every row position below the common total exactly once and no other position, and they draw the
  same number of samples at every rank, whoever made the plans.
\<close>

theorem validated_plans_tile:
  assumes pass: "\<And>r. 0 \<le> r \<Longrightarrow> r < world \<Longrightarrow> validate_plans (plans r) population requested c (t r) = Return ()"
    and t: "\<And>r. top_rank (t r) = r \<and> top_world_size (t r) = world" and "0 < world"
    and c: "0 < bench_batch_size c" "bench_worker_partition c = Split"
    and plans: "\<And>r p. p \<in> set (plans r) \<Longrightarrow> check_WorkerPlan p = Return p"
    and quota: "local_samples requested world (bench_batch_size c) (bench_drop_last c) = Return quota" "0 < quota"
  defines "active \<equiv> \<lambda>r. filter (\<lambda>p. sample_count p \<noteq> 0) (plans r)"
    and "positions \<equiv> if requested = population then quota * world else max world population"
  shows "(\<forall>x. 0 \<le> x \<and> x < positions \<longrightarrow>
      (\<exists>!p. 0 \<le> fst p \<and> fst p < world \<and> snd p < length (active (fst p)) \<and> x \<in> plan_rows (active (fst p) ! snd p))) \<and>
    (\<forall>r i. 0 \<le> r \<and> r < world \<and> i < length (active r) \<longrightarrow> plan_rows (active r ! i) \<subseteq> {0..<positions}) \<and>
    (\<forall>r. 0 \<le> r \<and> r < world \<longrightarrow> sum_list (map sample_count (active r)) = quota)"
proof -
  have q: "local_budget requested world (bench_batch_size c) (bench_drop_last c) = quota"
    using quota(1) local_samples_eq [OF assms(3) c(1)] by simp
  have positions: "split_total population requested quota world = positions" by (auto simp: split_total_def positions_def)
  have checked: "sum_list (map sample_count (active r)) = quota \<and>
      check_spans (span_offset (partition_span positions world r)) (active r) =
        Return (span_offset (partition_span positions world r) + span_length (partition_span positions world r))"
    if "0 \<le> r" "r < world" for r
    using pass [OF that] validate_split_Return [of "t r" c requested "plans r" population] t [of r] that assms(3) c q quota(2)
    by (simp add: active_def positions)
  have nonneg: "\<forall>p\<in>set (active r). 0 \<le> population_size p" for r
  proof -
    have "0 \<le> population_size p" if "p \<in> set (plans r)" for p
      using plans [OF that] by (auto simp: check_WorkerPlan_def split: if_splits)
    then show ?thesis by (simp add: active_def)
  qed
  have p0: "0 \<le> positions" using quota(2) assms(3) by (auto simp: positions_def)
  note tile = contiguous_tile [OF conjunct2 [OF checked] nonneg]
  from spans_tile [OF assms(3) p0 tile] show ?thesis using checked by (intro conjI allI impI) blast+
qed

theorem validated_plans_tile_witness:
  "\<exists>plans. map (\<lambda>r. validate_plans (plans r) 10 10 demo_bench (demo_topology r)) [0, 1, 2] = [Return (), Return (), Return ()] \<and>
     (\<exists>!p. 0 \<le> fst p \<and> fst p < 3 \<and> snd p < length (filter (\<lambda>p. sample_count p \<noteq> 0) (plans (fst p))) \<and>
       11 \<in> plan_rows (filter (\<lambda>p. sample_count p \<noteq> 0) (plans (fst p)) ! snd p))"
proof -
  define plans where "plans r = (if 0 \<le> r \<and> r < 3 then [\<lparr>plan_rank = r, plan_worker_id = 0, plan_offset = 4 * r, population_size = 4,
    sample_count = 4, plan_seed = 0, partition_seed = None\<rparr>] else [])" for r :: int
  have pass: "validate_plans (plans r) 10 10 demo_bench (demo_topology r) = Return ()" if "0 \<le> r" "r < 3" for r
    using that by (simp add: validate_plans_def local_samples_def expected_span_def plans_def Let_def)
  have valid: "check_WorkerPlan p = Return p" if "p \<in> set (plans r)" for r p
    using that by (auto simp: check_WorkerPlan_def plans_def split: if_splits)
  have quota: "local_samples 10 3 (bench_batch_size demo_bench) (bench_drop_last demo_bench) = Return 4" by (simp add: local_samples_def)
  show ?thesis
  proof (intro exI [of _ plans] conjI)
    show "map (\<lambda>r. validate_plans (plans r) 10 10 demo_bench (demo_topology r)) [0, 1, 2] = [Return (), Return (), Return ()]"
      using pass [of 0] pass [of 1] pass [of 2] by simp
    show "\<exists>!p. 0 \<le> fst p \<and> fst p < 3 \<and> snd p < length (filter (\<lambda>p. sample_count p \<noteq> 0) (plans (fst p))) \<and>
        11 \<in> plan_rows (filter (\<lambda>p. sample_count p \<noteq> 0) (plans (fst p)) ! snd p)"
      using validated_plans_tile [where t = demo_topology and c = demo_bench, OF pass _ _ _ _ valid quota] by simp
  qed
qed

text \<open>
  The order check accepts exactly the planned order, however the workers' batches interleave: a run of
  identities passes if and only if the positions each worker delivered continue its cyclic span from its
  counter, and then every counter has advanced by what its worker delivered.
\<close>

theorem check_order_exact:
  assumes "length counters = length plans" "population \<noteq> 0" "\<forall>p\<in>set plans. population_size p \<noteq> 0"
    and "\<forall>x\<in>set xs. id_worker x < length plans"
  shows "check_order plans population xs counters = Return counters' \<longleftrightarrow>
    (\<forall>w<length plans. delivered w xs = map (\<lambda>i. planned_position (plans ! w) population (counters ! w + int i)) [0..<length (delivered w xs)]) \<and>
    counters' = map (\<lambda>w. counters ! w + int (length (delivered w xs))) [0..<length plans]"
  using assms by (rule check_order_Return)

definition demo_order_plans :: "WorkerPlan list" where
  "demo_order_plans = map (\<lambda>k. \<lparr>plan_rank = 0, plan_worker_id = k, plan_offset = 2 * k, population_size = 2, sample_count = 2,
     plan_seed = 0, partition_seed = None\<rparr>) [0, 1]"

definition demo_identities :: "Identity list" where
  "demo_identities = map (\<lambda>(w, p). \<lparr>id_cache = 0, id_sample = p, id_position = p, id_worker = w\<rparr>) [(1, 2), (0, 0), (1, 0), (1, 2)]"

theorem check_order_exact_witness: "check_order demo_order_plans 3 demo_identities [0, 0] = Return [1, 3]"
proof -
  have "\<forall>w<2. delivered w demo_identities = map (\<lambda>i. planned_position (demo_order_plans ! w) 3 ([0, 0] ! w + int i)) [0..<length (delivered w demo_identities)]"
    by (simp add: All_less_Suc numeral_2_eq_2 demo_identities_def demo_order_plans_def planned_position_def upt_rec)
  then show ?thesis
    using check_order_exact [of "[0, 0]" demo_order_plans 3 demo_identities "[1, 3]"]
    by (simp add: demo_identities_def demo_order_plans_def upt_rec)
qed

text \<open>
  A synthetic payload names its sample: a sample with the columns of one generated input and the payload
  of another, of the same cache or of different ones, passes the transform's check exactly when both inputs
  have the same position and the payload stands at its own index in its cache; it then has that position.
\<close>

theorem fixture_identity:
  assumes "16 \<le> fixture_payload_bytes s" "16 \<le> fixture_payload_bytes s'"
    and "fixture_input s i = Return f" "fixture_input s' j = Return f'"
  shows "synthetic_position \<lparr>sample_value = \<lparr>fixture_data = fixture_data f', fixture_metadata = fixture_metadata f\<rparr>,
      sample_cache_id = cache, sample_id = k\<rparr> = Return position \<longleftrightarrow>
    int k = j \<and> position = fixture_cache_position s * fixture_count s + i \<and>
    position = fixture_cache_position s' * fixture_count s' + j"
proof -
  note f = fixture_input_Return [OF assms(1,3)] and f' = fixture_input_Return [OF assms(2,4)]
  define x where "x = \<lparr>sample_value = \<lparr>fixture_data = fixture_data f', fixture_metadata = fixture_metadata f\<rparr>,
      sample_cache_id = cache, sample_id = k\<rparr>"
  let ?p = "fixture_cache_position s * fixture_count s + i" and ?p' = "fixture_cache_position s' * fixture_count s' + j"
  have "fixture_metadata (sample_value x) ''benchmark_position'' = Some (VInt ?p)" using f(5) by (simp add: x_def)
  from synthetic_position_Return [OF this f(1,2)]
  have "synthetic_position x = Return position \<longleftrightarrow> position = ?p \<and> int k < 2 ^ 64 \<and>
      little_endian 8 ?p' @ little_endian 8 j = little_endian 8 ?p @ little_endian 8 (int k)"
    using f'(6) by (simp add: x_def)
  also have "\<dots> \<longleftrightarrow> position = ?p \<and> int k < 2 ^ 64 \<and> ?p' = ?p \<and> j = int k"
    using little_endian_inject [OF f'(1,2) f(1,2)] little_endian_inject [OF f'(3,4), of "int k"] by auto
  finally show ?thesis using f'(4) unfolding x_def by auto
qed

theorem fixture_identity_witness:
  "\<exists>f f'. fixture_input (fixture_sources demo_bench ! 1) 3 = Return f \<and> fixture_input (fixture_sources demo_bench ! 0) 3 = Return f' \<and>
     synthetic_position \<lparr>sample_value = \<lparr>fixture_data = fixture_data f, fixture_metadata = fixture_metadata f\<rparr>,
       sample_cache_id = 1, sample_id = 3\<rparr> = Return 8 \<and>
     synthetic_position \<lparr>sample_value = \<lparr>fixture_data = fixture_data f', fixture_metadata = fixture_metadata f\<rparr>,
       sample_cache_id = 1, sample_id = 3\<rparr> \<noteq> Return 8"
proof -
  let ?s = "fixture_sources demo_bench ! 1" and ?s' = "fixture_sources demo_bench ! 0"
  have s: "fixture_payload_bytes ?s = 16" "fixture_payload_bytes ?s' = 16" "fixture_cache_position ?s * fixture_count ?s = 5"
    "fixture_cache_position ?s' * fixture_count ?s' = 0"
    by (simp_all add: fixture_sources_def demo_bench_def range_list_def upt_rec)
  then obtain f f' where f: "fixture_input ?s 3 = Return f" "fixture_input ?s' 3 = Return f'"
    by (auto simp: fixture_input_def to_bytes_def Let_def)
  have "synthetic_position \<lparr>sample_value = \<lparr>fixture_data = fixture_data f, fixture_metadata = fixture_metadata f\<rparr>,
      sample_cache_id = 1, sample_id = 3\<rparr> = Return 8"
    using fixture_identity [OF _ _ f(1) f(1), of 1 3 8] s by simp
  moreover have "synthetic_position \<lparr>sample_value = \<lparr>fixture_data = fixture_data f', fixture_metadata = fixture_metadata f\<rparr>,
      sample_cache_id = 1, sample_id = 3\<rparr> \<noteq> Return 8"
    using fixture_identity [OF _ _ f, of 1 3 8] s by simp
  ultimately show ?thesis using f by blast
qed

end
