(* ===== verification/Loader.thy ===== *)
theory Loader
  imports Dataset Partitions
begin

text \<open>
  \<open>src/dataset_rt/integrations/loader.py\<close> and \<open>loader_logging.py\<close>: the adapter that a PyTorch
  \<open>DataLoader\<close> iterates in each consuming process, and the construction of the loader.

  An adapter is a record of its immutable inputs and its state: pending, empty, or a local reader bound
  to the process that made it. What a call observes of its process is the record \<open>consumer\<close>. The record
  \<open>platform\<close> collects what is outside the repository's Python code: the JSON codec, path resolution, cache
  loading, random draws, numpy's shuffle, \<open>mkdtemp\<close>, \<open>torch.distributed\<close>, the CPU observation and
  input/output faults. The PyTorch \<open>DataLoader\<close> constructor is an argument that may raise.
\<close>

section \<open>Platform and adapter state\<close>

record ('a, 'x) platform =
  pf_dump_json :: "DatasetConfiguration \<Rightarrow> string"
  pf_parse_json :: "string \<Rightarrow> DatasetConfiguration exn"
  pf_resolve :: "path \<Rightarrow> path"
  pf_load_caches :: "('a, 'x) load_caches"
  pf_rng :: rng
  pf_shuffle :: "int \<Rightarrow> int list \<Rightarrow> int list"
  pf_faults :: "nat \<Rightarrow> 'x metadata_row fault"
  pf_mkdtemp :: "path option \<Rightarrow> path"
  pf_start_methods :: "string list"
  pf_cpus :: int
  pf_local_world :: "string option"
  pf_in_worker :: bool
  pf_dist_available :: bool
  pf_dist_initialized :: bool
  pf_group_rank :: int
  pf_group_size :: int
  pf_entropy :: int
  pf_worker_entropy :: "int \<Rightarrow> int"
  pf_broadcast :: "int \<Rightarrow> int"
  pf_pid :: int

record consumer =
  con_pid :: int
  con_info :: "(nat \<times> nat) option"

datatype ('a, 'x) reader_state =
    PendingReader
  | EmptyPartition int
  | LocalReader int "('a, 'x) CachedDataset" "'a CachedSample exn list"

record ('a, 'x, 't) ReaderAdapter =
  ad_replica :: ReplicaIdentity
  ad_shuffle :: bool
  ad_seed :: "int option"
  ad_native_num_workers :: int
  ad_transform :: "('a CachedSample \<Rightarrow> 't exn) option"
  ad_row_count :: int
  ad_partitions :: "WorkerPlan list"
  ad_config_path :: path
  ad_verbose :: bool
  ad_persistent :: bool
  ad_artifacts :: "ConstructionArtifacts option"
  ad_state :: "('a, 'x) reader_state"

definition new_adapter ::
  "ReplicaIdentity \<Rightarrow> bool \<Rightarrow> int option \<Rightarrow> int \<Rightarrow> ('a CachedSample \<Rightarrow> 't exn) option \<Rightarrow> int \<Rightarrow> WorkerPlan list \<Rightarrow> path \<Rightarrow>
   bool \<Rightarrow> bool \<Rightarrow> ('a, 'x, 't) ReaderAdapter" where
  "new_adapter replica shuffle seed threads transform row_count partitions config_path verbose persist =
     \<lparr>ad_replica = replica, ad_shuffle = shuffle, ad_seed = seed, ad_native_num_workers = threads,
      ad_transform = transform, ad_row_count = row_count, ad_partitions = partitions, ad_config_path = config_path,
      ad_verbose = verbose, ad_persistent = persist, ad_artifacts = None, ad_state = PendingReader\<rparr>"

section \<open>Lifecycle events\<close>

record reader_event =
  ev_event :: string
  ev_pid :: int
  ev_rank :: int
  ev_worker :: string
  ev_seed :: int
  ev_native_threads :: int
  ev_persistent :: bool
  ev_samples :: int
  ev_population :: int
  ev_sampling_reset :: bool

definition log_reader_event ::
  "consumer \<Rightarrow> ('a, 'x, 't) ReaderAdapter \<Rightarrow> string \<Rightarrow> WorkerPlan \<Rightarrow> reader_event list" where
  "log_reader_event con ad event recipe =
     (if \<not> ad_verbose ad then []
      else [\<lparr>ev_event = event, ev_pid = con_pid con, ev_rank = plan_rank recipe,
             ev_worker = (case con_info con of None \<Rightarrow> ''main'' | Some (wid, n) \<Rightarrow> str_int (int wid)),
             ev_seed = plan_seed recipe,
             ev_native_threads = (if sample_count recipe \<noteq> 0 then ad_native_num_workers ad else 0),
             ev_persistent = ad_persistent ad, ev_samples = sample_count recipe,
             ev_population = population_size recipe, ev_sampling_reset = (event = ''reader_started'')\<rparr>])"

text \<open>
  \<open>loader_event\<close>: configured handlers take the event; otherwise a temporary stderr handler prints it
  unless the logger's own level excludes \<open>INFO\<close> (20). \<open>NOTSET\<close> is level 0.
\<close>

datatype log_route = ToHandlers | Dropped | ToStderr

definition loader_event :: "bool \<Rightarrow> int \<Rightarrow> bool \<Rightarrow> log_route" where
  "loader_event has_handlers level enabled_for_info =
     (if has_handlers then ToHandlers
      else if level \<noteq> 0 \<and> \<not> enabled_for_info then Dropped
      else ToStderr)"

section \<open>The adapter in a consuming process\<close>

definition worker_plan :: "consumer \<Rightarrow> ('a, 'x, 't) ReaderAdapter \<Rightarrow> WorkerPlan exn" where
  "worker_plan con ad =
     (let (worker_id, worker_count) = (case con_info con of None \<Rightarrow> (0, 1) | Some info \<Rightarrow> info) in
      if worker_count \<noteq> length (ad_partitions ad)
      then Raise (RuntimeError ''DataLoader worker count differs from prepared partitions'')
      else if worker_id \<ge> length (ad_partitions ad) then Raise (IndexError ''tuple index out of range'')
      else let recipe = ad_partitions ad ! worker_id in
        if plan_rank recipe \<noteq> rank (ad_replica ad) \<or> plan_worker_id recipe \<noteq> int worker_id
        then Raise (RuntimeError ''worker plan does not match consumer identity'')
        else Return recipe)"

text \<open>The settings of a worker's reader: \<open>model_copy\<close> replaces fields without validating them again.\<close>

definition worker_config :: "('a, 'x, 't) ReaderAdapter \<Rightarrow> WorkerPlan \<Rightarrow> DatasetConfiguration \<Rightarrow> DatasetConfiguration" where
  "worker_config ad recipe config =
     config\<lparr>cfg_num_workers := ad_native_num_workers ad, cfg_epoch_len := sample_count recipe,
            cfg_row_count := population_size recipe,
            cfg_reader_config := (cfg_reader_config config)\<lparr>reader_shuffle := ad_shuffle ad, reader_seed_value := plan_seed recipe\<rparr>\<rparr>"

definition create_dataset ::
  "('a, 'x) platform \<Rightarrow> 'x metadata_row fs \<Rightarrow> ('a, 'x, 't) ReaderAdapter \<Rightarrow> WorkerPlan \<Rightarrow> ('a, 'x) CachedDataset exn" where
  "create_dataset pf fs ad recipe =
     bindE (load_configuration (pf_parse_json pf) fs (ad_config_path ad)) (\<lambda>config.
     bindE (load_metadata fs (ad_config_path ad) config) (\<lambda>metadata.
     bindE (population_selection fs (ad_config_path ad) (cfg_row_count config) (plan_offset recipe)
              (population_size recipe) (partition_seed recipe)) (\<lambda>selection.
     from_configuration (pf_load_caches pf) (pf_resolve pf) (pf_rng pf) (worker_config ad recipe config) metadata selection)))"

definition adapter_setup ::
  "('a, 'x) platform \<Rightarrow> 'x metadata_row fs \<Rightarrow> consumer \<Rightarrow> ('a, 'x, 't) ReaderAdapter \<Rightarrow>
   (('a, 'x, 't) ReaderAdapter \<times> reader_event list) exn" where
  "adapter_setup pf fs con ad =
     (let foreign = Raise (RuntimeError ''DatasetRT loader native state belongs to another PID'') in
      case ad_state ad of
        LocalReader pid ds stream \<Rightarrow> if pid \<noteq> con_pid con then foreign else Return (ad, [])
      | EmptyPartition pid \<Rightarrow> if pid \<noteq> con_pid con then foreign else Return (ad, [])
      | PendingReader \<Rightarrow>
          bindE (worker_plan con ad) (\<lambda>recipe.
          if sample_count recipe = 0
          then Return (ad\<lparr>ad_state := EmptyPartition (con_pid con)\<rparr>, log_reader_event con ad ''reader_empty'' recipe)
          else bindE (create_dataset pf fs ad recipe) (\<lambda>ds.
               Return (ad\<lparr>ad_state := LocalReader (con_pid con) ds []\<rparr>,
                       log_reader_event con ad ''reader_started'' recipe))))"

definition apply_transform :: "('a, 'x, 't) ReaderAdapter \<Rightarrow> 'a CachedSample \<Rightarrow> ('a CachedSample + 't) exn" where
  "apply_transform ad sample =
     (case ad_transform ad of
        None \<Rightarrow> Return (Inl sample)
      | Some f \<Rightarrow> bindE (f sample) (\<lambda>v. Return (Inr v)))"

text \<open>
  One pass: what \<open>__iter__\<close> yields to a consumer that asks for at most \<open>demand\<close> samples, the exception
  that ended it if any, the adapter afterwards and the events.
\<close>

definition adapter_pass ::
  "('a, 'x) platform \<Rightarrow> 'x metadata_row fs \<Rightarrow> consumer \<Rightarrow> nat \<Rightarrow> ('a, 'x, 't) ReaderAdapter \<Rightarrow>
   ('a CachedSample + 't) list \<times> py_error option \<times> ('a, 'x, 't) ReaderAdapter \<times> reader_event list" where
  "adapter_pass pf fs con demand ad =
     (case adapter_setup pf fs con ad of
        Inl e \<Rightarrow> ([], Some e, ad, [])
      | Inr (ad', events) \<Rightarrow>
          (case (if ad_verbose ad then bindE (worker_plan con ad') (\<lambda>p. Return (log_reader_event con ad' ''reader_pass'' p))
                 else Return []) of
             Inl e \<Rightarrow> ([], Some e, ad', events)
           | Inr passed \<Rightarrow>
               (case ad_state ad' of
                  EmptyPartition pid \<Rightarrow> ([], None, ad', events @ passed)
                | PendingReader \<Rightarrow> ([], Some (RuntimeError ''DatasetRT reader setup did not complete''), ad', events @ passed)
                | LocalReader pid ds stream \<Rightarrow>
                    (case emit (ds_iter (pf_rng pf)) (apply_transform ad') (min demand (ds_len ds)) (stream, ds) of
                       ((out, err), (stream', ds')) \<Rightarrow>
                         (out, err, ad'\<lparr>ad_state := LocalReader pid ds' stream'\<rparr>, events @ passed)))))"

definition adapter_len :: "('a, 'x, 't) ReaderAdapter \<Rightarrow> int" where
  "adapter_len ad = ad_row_count ad"

text \<open>\<open>__reduce__\<close>: a pickled adapter is rebuilt from its inputs alone.\<close>

definition adapter_reduce :: "('a, 'x, 't) ReaderAdapter \<Rightarrow> ('a, 'x, 't) ReaderAdapter" where
  "adapter_reduce ad = new_adapter (ad_replica ad) (ad_shuffle ad) (ad_seed ad) (ad_native_num_workers ad) (ad_transform ad)
     (ad_row_count ad) (ad_partitions ad) (ad_config_path ad) (ad_verbose ad) (ad_persistent ad)"

text \<open>\<open>WorkerInitializer\<close>: native setup, then the caller's hook.\<close>

definition worker_initializer ::
  "('a, 'x) platform \<Rightarrow> 'x metadata_row fs \<Rightarrow> consumer \<Rightarrow> bool \<Rightarrow> (nat \<Rightarrow> unit exn) option \<Rightarrow> nat \<Rightarrow> ('a, 'x, 't) ReaderAdapter \<Rightarrow>
   ('a, 'x, 't) ReaderAdapter exn" where
  "worker_initializer pf fs con is_adapter callback worker_id ad =
     (if con_info con = None \<or> \<not> is_adapter
      then Raise (RuntimeError ''DatasetRT initialization requires its DataLoader worker'')
      else bindE (adapter_setup pf fs con ad) (\<lambda>(ad', events).
        case callback of None \<Rightarrow> Return ad' | Some f \<Rightarrow> bindE (f worker_id) (\<lambda>_. Return ad')))"

section \<open>Construction\<close>

text \<open>\<open>picklable\<close> is the outcome of pickling the transform into a sink.\<close>

definition validate_transform :: "('a CachedSample \<Rightarrow> 't exn) option \<Rightarrow> bool \<Rightarrow> int \<Rightarrow> unit exn" where
  "validate_transform transform picklable num_workers =
     (if transform = None \<or> num_workers = 0 then Return ()
      else if picklable then Return ()
      else Raise (TypeError ''sample_transform_fn must be picklable for multiprocess loading''))"

definition restart_warning :: string where
  "restart_warning = ''persistent_workers=False restarts DatasetRT readers on every DataLoader pass '' @
     ''with the same sampling seed and reset draw offset or sequential cursor. '' @
     ''With unchanged metadata, each epoch repeats the same sample sequence, '' @
     ''including when seed='random'. Short epochs can repeatedly omit the rest of '' @
     ''the population. Set persistent_workers=True to continue sampling across epochs.''"

definition warn_restarting_workers :: "ResolvedWorkers \<Rightarrow> string list" where
  "warn_restarting_workers workers =
     (if processes (counts workers) = 0 \<or> persistent workers then [] else [restart_warning])"

text \<open>
  \<open>_prepare_adapter\<close>: export, read back, plan, and write the shared row order if it is needed. The result
  is the file system left behind and the outcome with the warnings of the planner.
\<close>

definition int_of :: "pyval \<Rightarrow> int" where
  "int_of v = (case v of VInt i \<Rightarrow> i | _ \<Rightarrow> 0)"

definition prepare_adapter ::
  "('a, 'x) platform \<Rightarrow> 'x metadata_row fs \<Rightarrow> ('a, 'x) CachedDataset \<Rightarrow> LoaderOptions \<Rightarrow> ResolvedWorkers \<Rightarrow> ReplicaIdentity \<Rightarrow>
   int option \<Rightarrow> int \<Rightarrow> ('a CachedSample \<Rightarrow> 't exn) option \<Rightarrow> ConstructionArtifacts \<Rightarrow>
   'x metadata_row fs \<times> (('a, 'x, 't) ReaderAdapter \<times> string list) exn" where
  "prepare_adapter pf fs ds options workers replica seed samples transform artifacts =
     (case dump_config (pf_dump_json pf) (pf_resolve pf) (pf_faults pf) fs ds (art_directory artifacts) of
        (states, Inl e) \<Rightarrow> (last states, Raise e)
      | (states, Inr config_path) \<Rightarrow>
          let fs1 = last states; mode = resolved_partition options; shuffle = is_true (opt_shuffle options) in
          (case bindE (load_configuration (pf_parse_json pf) fs1 config_path) (\<lambda>config.
                bindE (prepare_partitions (pf_worker_entropy pf) config replica (processes (counts workers))
                         (int_of (opt_batch_size options)) samples mode shuffle seed (is_true (opt_drop_last options)))
                  (\<lambda>(plans, warned). Return (config, plans, warned))) of
             Inl e \<Rightarrow> (fs1, Raise e)
           | Inr (config, plans, warned) \<Rightarrow>
               if shuffle \<and> mode = Split \<and> seed = None
               then (fs1, Raise (RuntimeError ''shuffled partitions require a resolved seed''))
               else
                 let fs2 = (case seed of
                     Some s \<Rightarrow> if shuffle \<and> mode = Split
                       then prepare_row_order (pf_shuffle pf) fs1 config_path (nat (cfg_row_count config)) s else fs1
                   | None \<Rightarrow> fs1) in
                 (fs2, Return
                   ((new_adapter replica shuffle seed (native_threads (counts workers)) transform
                      (sum_list (map sample_count plans)) plans config_path (is_true (opt_verbose options))
                      (persistent workers))\<lparr>ad_artifacts := Some artifacts\<rparr>, warned))))"

text \<open>The reserved keyword names in alphabetical order, as the error message lists them.\<close>

definition reserved_kwargs :: "string list" where
  "reserved_kwargs = [''batch_sampler'', ''batch_size'', ''collate_fn'', ''dataloader_kwargs'', ''dataset'', ''drop_last'',
     ''multiprocessing_context'', ''native_num_workers'', ''num_workers'', ''persistent_workers'', ''pin_memory'',
     ''prefetch_factor'', ''sample_transform_fn'', ''sampler'', ''samples_per_epoch'', ''seed'', ''shuffle'', ''timeout'',
     ''verbose'', ''work_dir'', ''worker_init_fn'', ''worker_partition'']"

definition effective_samples :: "LoaderOptions \<Rightarrow> nat \<Rightarrow> int" where
  "effective_samples options inherited =
     (case opt_samples_per_epoch options of VNone \<Rightarrow> int inherited | v \<Rightarrow> int_of v)"

record ('a, 'x, 't) loader_call =
  call_options :: LoaderOptions
  call_transform :: "('a CachedSample \<Rightarrow> 't exn) option"
  call_picklable :: bool
  call_work_dir :: "path option"
  call_kwargs :: "string list"

text \<open>The checks before anything is created: options, replica, worker counts, warnings, budget and seed.\<close>

definition check_call ::
  "('a, 'x) platform \<Rightarrow> ('a, 'x) CachedDataset \<Rightarrow> ('a, 'x, 't) loader_call \<Rightarrow>
   (ReplicaIdentity \<times> ResolvedWorkers \<times> int \<times> int option \<times> string list) exn" where
  "check_call pf ds call =
     (let options = call_options call; conflicts = filter (\<lambda>k. k \<in> set (call_kwargs call)) reserved_kwargs in
      if conflicts \<noteq> []
      then Raise (ValueError (''dataloader_kwargs contains reserved arguments: '' @ join '', '' conflicts))
      else bindE (post_init (pf_start_methods pf) options) (\<lambda>_.
        bindE (capture_replica (pf_in_worker pf) (pf_dist_available pf) (pf_dist_initialized pf) (pf_group_rank pf)
                 (pf_group_size pf)) (\<lambda>replica.
        bindE (resolve_workers (pf_cpus pf) (pf_local_world pf) options (world_size replica)) (\<lambda>workers.
        bindE (validate_transform (call_transform call) (call_picklable call) (processes (counts workers))) (\<lambda>_.
        let samples = effective_samples options (recipe_sample_count (reader_recipe ds)) in
        if \<not> (1 \<le> samples \<and> samples \<le> MAX_SAMPLE_BUDGET)
        then Raise (ValueError (''inherited samples_per_epoch must be between 1 and '' @ str_int MAX_SAMPLE_BUDGET))
        else bindE (common_seed (pf_entropy pf) (pf_broadcast pf) replica (is_true (opt_shuffle options)) (resolved_seed options))
          (\<lambda>seed. Return (replica, workers, samples, seed, warn_restarting_workers workers)))))))"

text \<open>
  The arguments of the PyTorch constructor: the caller's batching settings, the resolved worker settings,
  and the extra keyword arguments. Callbacks (\<open>collate_fn\<close>, \<open>worker_init_fn\<close>) stay with the caller.
\<close>

record dataloader_args =
  la_batch_size :: pyval
  la_num_workers :: int
  la_drop_last :: pyval
  la_pin_memory :: pyval
  la_timeout :: pyval
  la_context :: "mp_context option"
  la_prefetch :: "int option"
  la_persistent :: bool
  la_extra :: "string list"

definition dataloader_args_of :: "('a, 'x, 't) loader_call \<Rightarrow> ResolvedWorkers \<Rightarrow> dataloader_args" where
  "dataloader_args_of call workers =
     \<lparr>la_batch_size = opt_batch_size (call_options call), la_num_workers = processes (counts workers),
      la_drop_last = opt_drop_last (call_options call), la_pin_memory = opt_pin_memory (call_options call),
      la_timeout = opt_timeout (call_options call), la_context = mp_ctx workers, la_prefetch = prefetch workers,
      la_persistent = persistent workers, la_extra = call_kwargs call\<rparr>"

text \<open>The \<open>loader_ready\<close> report of a verbose construction; absent prefetching and contexts print \<open>disabled\<close>.\<close>

record ready_event =
  rd_pid :: int
  rd_rank :: int
  rd_seed :: "int option"
  rd_worker_seeds :: string
  rd_num_workers :: int
  rd_native_threads :: int
  rd_partition :: partition_mode
  rd_persistent :: bool
  rd_prefetch :: string
  rd_native_prefetch :: int
  rd_samples :: int
  rd_samples_per_rank :: int
  rd_batch_size :: pyval
  rd_world_size :: int
  rd_shuffle :: pyval
  rd_context :: "mp_context option"

definition ready_report ::
  "('a, 'x) platform \<Rightarrow> ('a, 'x) CachedDataset \<Rightarrow> ('a, 'x, 't) loader_call \<Rightarrow> ReplicaIdentity \<Rightarrow> ResolvedWorkers \<Rightarrow> int \<Rightarrow>
   int option \<Rightarrow> ('a, 'x, 't) ReaderAdapter \<Rightarrow> ready_event list" where
  "ready_report pf ds call replica workers samples seed adapter =
     (if \<not> is_true (opt_verbose (call_options call)) then []
      else [\<lparr>rd_pid = pf_pid pf, rd_rank = rank replica, rd_seed = seed,
             rd_worker_seeds = join '','' (map (\<lambda>p. str_int (plan_worker_id p) @ '':'' @ str_int (plan_seed p)) (ad_partitions adapter)),
             rd_num_workers = processes (counts workers), rd_native_threads = native_threads (counts workers),
             rd_partition = resolved_partition (call_options call), rd_persistent = persistent workers,
             rd_prefetch = (case prefetch workers of None \<Rightarrow> ''disabled'' | Some k \<Rightarrow> str_int k),
             rd_native_prefetch = prefetch_size (recipe_reader_config (reader_recipe ds)), rd_samples = samples,
             rd_samples_per_rank = ad_row_count adapter, rd_batch_size = opt_batch_size (call_options call),
             rd_world_size = world_size replica, rd_shuffle = opt_shuffle (call_options call), rd_context = mp_ctx workers\<rparr>])"

text \<open>
  \<open>make_dataloader\<close>: \<open>torch\<close> is the \<open>DataLoader\<close> constructor, which may raise. Any exception after the
  artifact directory exists removes it. The result carries the adapter, the warnings and the report.
\<close>

definition make_dataloader ::
  "('a, 'x) platform \<Rightarrow> (dataloader_args \<Rightarrow> ('a, 'x, 't) ReaderAdapter \<Rightarrow> 'l exn) \<Rightarrow> 'x metadata_row fs \<Rightarrow> ('a, 'x) CachedDataset \<Rightarrow>
   ('a, 'x, 't) loader_call \<Rightarrow> 'x metadata_row fs \<times> ('l \<times> ('a, 'x, 't) ReaderAdapter \<times> string list \<times> ready_event list) exn" where
  "make_dataloader pf torch fs ds call =
     (case check_call pf ds call of
        Inl e \<Rightarrow> (fs, Raise e)
      | Inr (replica, workers, samples, seed, restarts) \<Rightarrow>
          (case create_artifacts (pf_mkdtemp pf) fs (pf_pid pf) (call_work_dir call) of
             Inl e \<Rightarrow> (fs, Raise e)
           | Inr (fs1, artifacts) \<Rightarrow>
               (case prepare_adapter pf fs1 ds (call_options call) workers replica seed samples (call_transform call) artifacts of
                  (fs2, Inl e) \<Rightarrow> (discard_artifacts fs2 (pf_pid pf) artifacts, Raise e)
                | (fs2, Inr (adapter, warned)) \<Rightarrow>
                    (case torch (dataloader_args_of call workers) adapter of
                       Inl e \<Rightarrow> (discard_artifacts fs2 (pf_pid pf) artifacts, Raise e)
                     | Inr loader \<Rightarrow> (fs2, Return (loader, adapter, restarts @ warned,
                         ready_report pf ds call replica workers samples seed adapter))))))"

text \<open>\<open>CachedDataset.to_torch_dataloader\<close> delegates with the dataset itself.\<close>

definition to_torch_dataloader ::
  "('a, 'x) platform \<Rightarrow> (dataloader_args \<Rightarrow> ('a, 'x, 't) ReaderAdapter \<Rightarrow> 'l exn) \<Rightarrow> 'x metadata_row fs \<Rightarrow> ('a, 'x) CachedDataset \<Rightarrow>
   ('a, 'x, 't) loader_call \<Rightarrow> 'x metadata_row fs \<times> ('l \<times> ('a, 'x, 't) ReaderAdapter \<times> string list \<times> ready_event list) exn" where
  "to_torch_dataloader pf torch fs ds call = make_dataloader pf torch fs ds call"

section \<open>Passes\<close>

text \<open>Successive passes of one adapter in one process, the consumer taking the given numbers of samples.\<close>

fun run_passes ::
  "('a, 'x) platform \<Rightarrow> 'x metadata_row fs \<Rightarrow> consumer \<Rightarrow> nat list \<Rightarrow> ('a, 'x, 't) ReaderAdapter \<Rightarrow>
   ('a CachedSample + 't) list \<times> py_error option \<times> ('a, 'x, 't) ReaderAdapter" where
  "run_passes pf fs con [] ad = ([], None, ad)"
| "run_passes pf fs con (k # ks) ad =
     (case adapter_pass pf fs con k ad of
        (out, Some e, ad', events) \<Rightarrow> (out, Some e, ad')
      | (out, None, ad', events) \<Rightarrow>
          (case run_passes pf fs con ks ad' of (outs, err, ad'') \<Rightarrow> (out @ outs, err, ad'')))"

text \<open>The adapter holds a reader of this process that has delivered \<open>q\<close> elements of the stream.\<close>

definition reading :: "('a, 'x) platform \<Rightarrow> ('a, 'x) native_dataset \<Rightarrow> consumer \<Rightarrow> ('a, 'x, 't) ReaderAdapter \<Rightarrow> nat \<Rightarrow> bool" where
  "reading pf nd0 con ad q \<longleftrightarrow> (\<exists>ds stream. ad_state ad = LocalReader (con_pid con) ds stream \<and>
     dataset.consumed (pf_rng pf) nd0 (stream, ds) q)"

lemma consumed_source: "dataset.consumed g nd0 (stream, ds) q \<Longrightarrow> same_source nd0 (ds_inner ds)"
  unfolding dataset.consumed_def by (auto simp: positioned_def)

lemma state_irrelevant [simp]:
  "worker_plan con (ad\<lparr>ad_state := st\<rparr>) = worker_plan con ad"
  "apply_transform (ad\<lparr>ad_state := st\<rparr>) = apply_transform ad"
  by (simp_all add: worker_plan_def apply_transform_def fun_eq_iff split: option.split)

lemma adapter_pass_reading:
  assumes at: "reading pf nd0 con ad q" and plan: "worker_plan con ad = Return recipe"
    and lim: "draw_limit nd0 (q + min k (nd_epoch_len nd0) + nd_epoch_len nd0)"
    and ok: "\<And>i. i < min k (nd_epoch_len nd0) \<Longrightarrow>
      bindE (sample_stream (pf_rng pf) nd0 (q + i)) (apply_transform ad) = Return (f (q + i))"
  shows "\<exists>ds stream events. adapter_pass pf fs con k ad = (map f [q..<q + min k (nd_epoch_len nd0)], None,
      ad\<lparr>ad_state := LocalReader (con_pid con) ds stream\<rparr>, events) \<and>
    dataset.consumed (pf_rng pf) nd0 (stream, ds) (q + min k (nd_epoch_len nd0))"
proof -
  obtain ds stream where st: "ad_state ad = LocalReader (con_pid con) ds stream" "dataset.consumed (pf_rng pf) nd0 (stream, ds) q"
    using at by (auto simp: reading_def)
  have len: "ds_len ds = nd_epoch_len nd0"
    using same_source_fields(6) [OF consumed_source [OF st(2)]] by (simp add: ds_len_def)
  obtain st' where e: "emit (ds_iter (pf_rng pf)) (apply_transform ad) (min k (nd_epoch_len nd0)) (stream, ds) =
      ((map f [q..<q + min k (nd_epoch_len nd0)], None), st')" "dataset.consumed (pf_rng pf) nd0 st' (q + min k (nd_epoch_len nd0))"
    using dataset.emit_consecutive [OF st(2) lim, of "apply_transform ad" f] ok by blast
  obtain stream' ds' where st': "st' = (stream', ds')" by (cases st')
  have "\<exists>events. adapter_pass pf fs con k ad = (map f [q..<q + min k (nd_epoch_len nd0)], None,
      ad\<lparr>ad_state := LocalReader (con_pid con) ds' stream'\<rparr>, events)"
    using st(1) e(1) len plan by (cases "ad_verbose ad") (simp_all add: adapter_pass_def adapter_setup_def st')
  then show ?thesis using e(2) st' by blast
qed

lemma run_passes_reading:
  assumes "reading pf nd0 con ad q" and "worker_plan con ad = Return recipe"
    and "draw_limit nd0 (q + sum_list (map (\<lambda>k. min k (nd_epoch_len nd0)) ks) + nd_epoch_len nd0)"
    and "\<And>i. i < sum_list (map (\<lambda>k. min k (nd_epoch_len nd0)) ks) \<Longrightarrow>
      bindE (sample_stream (pf_rng pf) nd0 (q + i)) (apply_transform ad) = Return (f (q + i))"
  shows "\<exists>ad'. run_passes pf fs con ks ad = (map f [q..<q + sum_list (map (\<lambda>k. min k (nd_epoch_len nd0)) ks)], None, ad')"
  using assms
proof (induction ks arbitrary: ad q)
  case (Cons k ks)
  let ?n = "min k (nd_epoch_len nd0)" and ?rest = "sum_list (map (\<lambda>k. min k (nd_epoch_len nd0)) ks)"
  have "draw_limit nd0 (q + ?n + nd_epoch_len nd0)" using Cons.prems(3) by (auto simp: draw_limit_def)
  from adapter_pass_reading [OF Cons.prems(1,2) this, of f fs] Cons.prems(4)
  obtain ds stream events where pass: "adapter_pass pf fs con k ad = (map f [q..<q + ?n], None,
      ad\<lparr>ad_state := LocalReader (con_pid con) ds stream\<rparr>, events)" "dataset.consumed (pf_rng pf) nd0 (stream, ds) (q + ?n)"
    by (force simp: trans_less_add1)
  let ?ad = "ad\<lparr>ad_state := LocalReader (con_pid con) ds stream\<rparr>"
  have "\<exists>ad'. run_passes pf fs con ks ?ad = (map f [q + ?n..<q + ?n + ?rest], None, ad')"
  proof (rule Cons.IH)
    show "reading pf nd0 con ?ad (q + ?n)" using pass(2) by (simp add: reading_def)
    show "worker_plan con ?ad = Return recipe" using Cons.prems(2) by simp
    show "draw_limit nd0 (q + ?n + ?rest + nd_epoch_len nd0)" using Cons.prems(3) by (simp add: add.assoc)
    show "bindE (sample_stream (pf_rng pf) nd0 (q + ?n + i)) (apply_transform ?ad) = Return (f (q + ?n + i))" if "i < ?rest" for i
      using Cons.prems(4) [of "?n + i"] that by (simp add: add.assoc)
  qed
  then show ?case using pass(1) upt_join [of q "q + ?n" "q + ?n + ?rest"] by (auto simp: add.assoc simp flip: map_append)
qed simp

section \<open>Starting a reader\<close>

lemma from_configuration_fresh:
  assumes "from_configuration load_caches resolve g config rows selection = Return ds"
  shows "coherent g ds" and "stream_position (ds_inner ds) = 0" and "int (ds_len ds) = cfg_epoch_len config"
    and "select_rows rows selection = Return (get_metadata ds)" and "nd_shuffle (ds_inner ds) = reader_shuffle (cfg_reader_config config)"
    and "nd_active (ds_inner ds) \<noteq> Full"
proof -
  obtain w ds1 ds2 where step: "ds_load load_caches resolve w (cfg_cache_paths config) (cfg_reader_config config) (cfg_num_workers config) = Return ds1"
      "restore_metadata g ds1 rows selection = Return ds2" "set_epoch_len ds2 (cfg_epoch_len config) = Return ds"
    using assms by (auto simp: from_configuration_def exn_simps)
  show coherent: "coherent g ds"
    using coherent_resize [OF coherent_restore [OF coherent_load [OF step(1)] step(2)] step(3)] .
  have shuffle: "nd_shuffle (ds_inner ds1) = reader_shuffle (cfg_reader_config config)"
    using step(1) by (auto simp: ds_load_def native_load_def exn_simps split: if_splits)
  have len: "1 \<le> cfg_epoch_len config" "ds_inner ds = (ds_inner ds2)\<lparr>nd_epoch_len := nat (cfg_epoch_len config)\<rparr>"
    using step(3) by (auto simp: set_epoch_len_Return)
  from step(2) obtain active t where t: "select_rows rows selection = Return active" "table_rows t = active"
      "ds_inner ds2 = (ds_inner ds1)\<lparr>nd_active := Table t, nd_epoch_len := length active, nd_sequential_offset := 0, nd_draw_offset := 0\<rparr>"
    by (rule restore_metadata_Return)
  then show "stream_position (ds_inner ds) = 0" "int (ds_len ds) = cfg_epoch_len config"
    "select_rows rows selection = Return (get_metadata ds)" "nd_shuffle (ds_inner ds) = reader_shuffle (cfg_reader_config config)"
    "nd_active (ds_inner ds) \<noteq> Full"
    using len shuffle by (simp_all add: stream_position_def ds_len_def get_metadata_def metadata_rows_def)
qed

lemma create_dataset_fresh:
  assumes "create_dataset pf fs ad recipe = Return ds"
  shows "coherent (pf_rng pf) ds" and "stream_position (ds_inner ds) = 0" and "int (ds_len ds) = sample_count recipe"
    and "nd_shuffle (ds_inner ds) = ad_shuffle ad" and "nd_active (ds_inner ds) \<noteq> Full"
proof -
  obtain config metadata selection where "from_configuration (pf_load_caches pf) (pf_resolve pf) (pf_rng pf)
      (worker_config ad recipe config) metadata selection = Return ds"
    using assms by (auto simp: create_dataset_def exn_simps)
  from from_configuration_fresh [OF this] show "coherent (pf_rng pf) ds" "stream_position (ds_inner ds) = 0"
    "int (ds_len ds) = sample_count recipe" "nd_shuffle (ds_inner ds) = ad_shuffle ad" "nd_active (ds_inner ds) \<noteq> Full"
    by (simp_all add: worker_config_def)
qed

lemma setup_owner:
  assumes "adapter_setup pf fs con ad = Return (ad', events)"
  shows "(\<exists>ds stream. ad_state ad' = LocalReader (con_pid con) ds stream) \<or> ad_state ad' = EmptyPartition (con_pid con)"
proof (cases "ad_state ad")
  case PendingReader
  then obtain recipe where "worker_plan con ad = Return recipe" using assms by (auto simp: adapter_setup_def exn_simps)
  then show ?thesis using assms PendingReader
    by (cases "sample_count recipe = 0") (auto simp: adapter_setup_def exn_simps)
qed (use assms in \<open>simp_all add: adapter_setup_def split: if_splits\<close>)

lemma setup_reading:
  assumes "ad_state ad = PendingReader" and plan: "worker_plan con ad = Return recipe" and "0 < sample_count recipe"
    and ds: "create_dataset pf fs ad recipe = Return ds"
  shows "\<exists>ad' events. adapter_setup pf fs con ad = Return (ad', events) \<and> reading pf (ds_inner ds) con ad' 0 \<and>
    worker_plan con ad' = Return recipe \<and> apply_transform ad' = apply_transform ad \<and> ad_verbose ad' = ad_verbose ad"
proof -
  note fresh = create_dataset_fresh [OF ds]
  have "positioned (pf_rng pf) (ds_inner ds) (ds_inner ds) 0"
    using fresh(1,2) by (auto simp: coherent_def positioned_def same_source_def stream_position_def split: if_splits)
  then have "reading pf (ds_inner ds) con (ad\<lparr>ad_state := LocalReader (con_pid con) ds []\<rparr>) 0"
    using dataset.consumed_start by (auto simp: reading_def)
  then show ?thesis using assms by (force simp: adapter_setup_def)
qed

text \<open>A pass over a pending adapter is a pass over the adapter its setup leaves, up to the events.\<close>

lemma pass_after_setup:
  assumes "ad_state ad = PendingReader" and "adapter_setup pf fs con ad = Return (ad', events)"
    and "reading pf nd0 con ad' q" and "ad_verbose ad' = ad_verbose ad"
  shows "run_passes pf fs con (k # ks) ad = run_passes pf fs con (k # ks) ad'"
proof -
  obtain ds stream where "ad_state ad' = LocalReader (con_pid con) ds stream" using assms(3) by (auto simp: reading_def)
  then have "adapter_setup pf fs con ad' = Return (ad', [])" by (simp add: adapter_setup_def)
  then have "\<exists>ev. adapter_pass pf fs con k ad = (case adapter_pass pf fs con k ad' of (out, err, a, e) \<Rightarrow> (out, err, a, ev))"
    using assms(2,4) by (auto simp: adapter_pass_def split: sum.splits reader_state.splits prod.splits)
  then show ?thesis by (auto split: prod.splits option.splits)
qed

section \<open>What a worker reads\<close>

lemma select_rows_cyclic:
  assumes "select_rows rows sel = Return active" and "selected_rows (int (length rows)) sel = idx"
  shows "active = map (\<lambda>j. rows ! nat j) idx"
  using assms by (cases sel) (auto simp: select_rows_def selected_rows_def range_list_def map_nth o_def split: if_splits)

lemma sequential_stream_rows:
  assumes ok: "coherent g ds" and "\<not> nd_shuffle (ds_inner ds)" and "nd_active (ds_inner ds) \<noteq> Full"
  shows "sample_stream g (ds_inner ds) i = (let r = get_metadata ds ! (i mod length (get_metadata ds)) in
    native_get_item (ds_inner ds) (row_cache_id r) (row_sample_id r))"
proof -
  obtain t where t: "nd_active (ds_inner ds) = Table t" using assms(3) by (cases "nd_active (ds_inner ds)") auto
  then have ex: "extract_metadata g (ds_inner ds) (table_rows t) = Return t"
    using ok by (simp add: coherent_def built_from_recipe_def Let_def)
  then have len: "length (physical_indices t) = length (table_rows t)" "table_rows t \<noteq> []"
    using extract_metadata_facts by blast+
  then have "i mod length (table_rows t) < length (table_rows t)" by simp
  from extracted_row_reads [OF ex this refl] show ?thesis
    using t len assms(2)
    by (simp add: sample_stream_def active_pick_def active_len_def active_physical_indices_def index_get_def get_metadata_def
        metadata_rows_def Let_def)
qed

lemma worker_rows_selected:
  assumes config: "load_configuration (pf_parse_json pf) fs (ad_config_path ad) = Return config"
    and rows: "load_metadata fs (ad_config_path ad) config = Return rows"
    and ds: "create_dataset pf fs ad recipe = Return ds"
    and span: "0 \<le> plan_offset recipe" "0 < population_size recipe" "int (length rows) + population_size recipe \<le> 2 ^ 64"
    and order: "partition_seed recipe \<noteq> None \<Longrightarrow>
      fs (path_child (path_parent (ad_config_path ad)) ORDER_NAME) = Some (File (Npy order)) \<and> length order = length rows"
  shows "get_metadata ds = map (\<lambda>j. rows ! nat j)
    (cyclic_span (order_at (partition_seed recipe) order) (int (length rows)) (plan_offset recipe) (population_size recipe))"
proof -
  have n: "cfg_row_count config = int (length rows)"
    using load_metadata_length [OF rows] .
  obtain sel where sel: "population_selection fs (ad_config_path ad) (int (length rows)) (plan_offset recipe) (population_size recipe)
      (partition_seed recipe) = Return sel"
      "from_configuration (pf_load_caches pf) (pf_resolve pf) (pf_rng pf) (worker_config ad recipe config) rows sel = Return ds"
    using ds config rows n by (auto simp: create_dataset_def exn_simps)
  note active = from_configuration_fresh(4) [OF sel(2)]
  have "rows \<noteq> []" using load_configuration_positive(1) [OF config] n by auto
  then have "\<exists>sel. population_selection fs (ad_config_path ad) (int (length rows)) (plan_offset recipe) (population_size recipe)
      (partition_seed recipe) = Return sel \<and> selected_rows (int (length rows)) sel =
      cyclic_span (order_at (partition_seed recipe) order) (int (length rows)) (plan_offset recipe) (population_size recipe)"
    using span order by (intro population_selection_spec) auto
  then have "selected_rows (int (length rows)) sel =
      cyclic_span (order_at (partition_seed recipe) order) (int (length rows)) (plan_offset recipe) (population_size recipe)"
    using sel(1) by simp
  then show ?thesis by (rule select_rows_cyclic [OF active])
qed

section \<open>Artifacts of a failed construction\<close>

lemma child_relative: "plain_segment s \<Longrightarrow> is_relative_to (path_child d s) d"
  by (simp add: path_child_plain is_relative_to_def)

lemma export_targets_relative: "t \<in> set (export_targets d) \<Longrightarrow> is_relative_to t d"
  using export_paths_plain by (auto simp: export_targets_def export_path_defs child_relative)

lemma dump_configuration_frame:
  assumes "dump_configuration dump_json resolve faults fs ds p = (states, result)" and "q \<notin> set (export_targets (resolve p))"
  shows "last states q = fs q"
  using assms(1)
proof (cases rule: dump_configuration_cases)
  case (started d ss r)
  have "ss \<noteq> []" using run_ops_nonempty started(4) zip_export_ops by (metis fst_conv list.distinct(1))
  then have "last ss \<in> set ss" by simp
  then have "last ss q = fs q" using export_states_outside [OF started(4)] assms(2) started(2) by blast
  then show ?thesis using started(2,5) assms(2) by (auto simp: unlink_all_apply)
qed simp

lemma dump_configuration_path:
  assumes "dump_configuration dump_json resolve faults fs ds p = (states, Return config_path)"
  shows "config_path = config_target (resolve p)"
  using assms by (cases rule: dump_configuration_cases) (auto simp: FILE_PATH_def split: if_splits)

text \<open>Preparing an adapter writes below the artifact directory only.\<close>

lemma prepare_adapter_frame:
  assumes "prepare_adapter pf fs ds options workers replica seed samples transform artifacts = (fs', result)"
    and "pf_resolve pf (art_directory artifacts) = art_directory artifacts" and "\<not> is_relative_to q (art_directory artifacts)"
  shows "fs' q = fs q"
proof -
  let ?d = "art_directory artifacts"
  obtain states r where dump: "dump_config (pf_dump_json pf) (pf_resolve pf) (pf_faults pf) fs ds ?d = (states, r)" by fastforce
  have out: "last states q = fs q"
    using dump_configuration_frame [OF dump [unfolded dump_config_def]] export_targets_relative assms(2,3) by metis
  have order: "prepare_row_order sh (last states) config_path n s q = fs q"
    if "r = Return config_path" for sh config_path n s
  proof -
    have "config_path = config_target ?d"
      using dump_configuration_path dump that assms(2) unfolding dump_config_def by metis
    then have "path_child (path_parent config_path) ORDER_NAME \<noteq> q"
      using assms(3) export_paths_plain child_relative by (auto simp: config_target_def path_parent_child)
    then show ?thesis using out by (simp add: prepare_row_order_def)
  qed
  show ?thesis
    using assms(1) dump out order
    by (auto simp: prepare_adapter_def Let_def split: sum.splits if_splits option.splits)
qed

section \<open>Accepted calls can be planned\<close>

lemma capture_replica_valid:
  "capture_replica in_worker available initialized r w = Return replica \<Longrightarrow> valid_replica replica"
  by (auto simp: capture_replica_def mk_ReplicaIdentity_def valid_replica_def split: if_splits)

lemma common_seed_u64:
  assumes "common_seed entropy broadcast replica shuffle seed = Return s" and "0 \<le> entropy" "entropy \<le> U64_MAX"
  shows "shuffle \<longrightarrow> (\<exists>v. s = Some v \<and> 0 \<le> v \<and> v \<le> U64_MAX)"
  using assms by (auto simp: common_seed_def Let_def exn_simps split: option.splits if_splits)

lemma check_call_inputs:
  assumes check: "check_call pf ds call = Return (replica, workers, samples, seed, restarts)"
    and "0 \<le> pf_entropy pf" "pf_entropy pf \<le> U64_MAX" and "1 \<le> cfg_row_count config" "cfg_row_count config \<le> U64_MAX"
  shows "planner_inputs config replica (processes (counts workers)) (int_of (opt_batch_size (call_options call))) samples
    (is_true (opt_shuffle (call_options call))) seed"
proof -
  let ?o = "call_options call"
  obtain u where post: "post_init (pf_start_methods pf) ?o = Return u"
      and cap: "capture_replica (pf_in_worker pf) (pf_dist_available pf) (pf_dist_initialized pf) (pf_group_rank pf) (pf_group_size pf) =
        Return replica"
      and res: "resolve_workers (pf_cpus pf) (pf_local_world pf) ?o (world_size replica) = Return workers"
      and samples: "1 \<le> samples" "samples \<le> MAX_SAMPLE_BUDGET"
      and seed: "common_seed (pf_entropy pf) (pf_broadcast pf) replica (is_true (opt_shuffle ?o)) (resolved_seed ?o) = Return seed"
    using check by (auto simp: check_call_def Let_def exn_simps split: if_splits)
  note valid = capture_replica_valid [OF cap]
  have world: "1 \<le> world_size replica" using valid by (simp add: valid_replica_def)
  obtain cs where cs: "resolve_worker_counts (pf_cpus pf) (pf_local_world pf) (mode_of (opt_num_workers ?o))
      (mode_of (opt_native_num_workers ?o)) (world_size replica) = Return cs" "counts workers = cs"
    using res by (auto simp: resolve_workers_def exn_simps split: if_splits)
  have "0 \<le> processes cs" "processes cs \<le> 2 ^ 32 - 1" using resolve_counts_nonneg [OF post world cs(1)] by simp_all
  moreover have "1 \<le> int_of (opt_batch_size ?o)" using post_init_accepts(5) [OF post] by (auto simp: int_of_def)
  ultimately show ?thesis
    using valid samples common_seed_u64 [OF seed assms(2,3)] assms(4,5) cs(2) by (simp add: planner_inputs_def)
qed

lemma prepare_adapter_succeeds:
  assumes inputs: "planner_inputs config replica (processes (counts workers)) (int_of (opt_batch_size options)) samples
      (is_true (opt_shuffle options)) seed"
    and dump: "dump_config (pf_dump_json pf) (pf_resolve pf) (pf_faults pf) fs ds (art_directory artifacts) = (states, Return config_path)"
    and config: "load_configuration (pf_parse_json pf) (last states) config_path = Return config"
  shows "\<exists>fs' adapter ws. prepare_adapter pf fs ds options workers replica seed samples transform artifacts =
      (fs', Return (adapter, ws)) \<and> ad_state adapter = PendingReader \<and> ad_replica adapter = replica \<and>
      ad_config_path adapter = config_path \<and>
      prepare_partitions (pf_worker_entropy pf) config replica (processes (counts workers)) (int_of (opt_batch_size options)) samples
        (resolved_partition options) (is_true (opt_shuffle options)) seed (is_true (opt_drop_last options)) =
        Return (ad_partitions adapter, ws) \<and> adapter_len adapter = sum_list (map sample_count (ad_partitions adapter))"
proof -
  obtain plans ws where plans: "prepare_partitions (pf_worker_entropy pf) config replica (processes (counts workers))
      (int_of (opt_batch_size options)) samples (resolved_partition options) (is_true (opt_shuffle options)) seed
      (is_true (opt_drop_last options)) = Return (plans, ws)"
    using prepared_exists [OF inputs] by blast
  have "\<not> (is_true (opt_shuffle options) \<and> resolved_partition options = Split \<and> seed = None)"
    using inputs by (auto simp: planner_inputs_def)
  then show ?thesis
    using dump config plans by (auto simp: prepare_adapter_def Let_def new_adapter_def adapter_len_def)
qed

section \<open>A concrete platform\<close>

definition demo_worker_config :: DatasetConfiguration where
  "demo_worker_config = \<lparr>cfg_cache_paths = [Path ''/'' [''cache'']], cfg_reader_config = demo_reader False,
     cfg_num_workers = 2, cfg_epoch_len = 3, cfg_row_count = 3\<rparr>"

definition demo_platform :: "(string, string) platform" where
  "demo_platform = \<lparr>pf_dump_json = (\<lambda>c. ''json''), pf_parse_json = (\<lambda>t. Return demo_worker_config), pf_resolve = (\<lambda>p. p),
     pf_load_caches = (\<lambda>ps v w. Return demo_caches), pf_rng = demo_rng, pf_shuffle = (\<lambda>s xs. rev xs), pf_faults = (\<lambda>i. None),
     pf_mkdtemp = (\<lambda>root. Path ''/'' [''export'']), pf_start_methods = [''spawn''], pf_cpus = 8, pf_local_world = None,
     pf_in_worker = False, pf_dist_available = False, pf_dist_initialized = False, pf_group_rank = 0, pf_group_size = 1,
     pf_entropy = 7, pf_worker_entropy = (\<lambda>w. 7), pf_broadcast = (\<lambda>v. v), pf_pid = 100\<rparr>"

definition demo_artifacts_fs :: "string metadata_row fs" where
  "demo_artifacts_fs = [Path ''/'' [''cache''] \<mapsto> Directory, Path ''/'' [''dataset.json''] \<mapsto> File (Json ''json''),
     Path ''/'' [''metadata.arrow''] \<mapsto> File (Arrow demo_rows)]"

definition demo_plan :: WorkerPlan where
  "demo_plan = \<lparr>plan_rank = 0, plan_worker_id = 0, plan_offset = 1, population_size = 2, sample_count = 3, plan_seed = 0,
     partition_seed = None\<rparr>"

definition demo_adapter :: "(string, string, string) ReaderAdapter" where
  "demo_adapter = new_adapter \<lparr>rank = 0, world_size = 1\<rparr> False None 2 None 3 [demo_plan] (Path ''/'' [''dataset.json'']) True False"

abbreviation demo_consumer :: consumer where
  "demo_consumer \<equiv> \<lparr>con_pid = 100, con_info = None\<rparr>"

lemma demo_worker_plan: "worker_plan demo_consumer demo_adapter = Return demo_plan"
  by (simp add: worker_plan_def demo_adapter_def new_adapter_def demo_plan_def)

lemma demo_artifacts:
  "load_configuration (pf_parse_json demo_platform) demo_artifacts_fs (Path ''/'' [''dataset.json'']) = Return demo_worker_config"
  "load_metadata demo_artifacts_fs (Path ''/'' [''dataset.json'']) demo_worker_config = Return demo_rows"
proof -
  show "load_configuration (pf_parse_json demo_platform) demo_artifacts_fs (Path ''/'' [''dataset.json'']) = Return demo_worker_config"
    by (simp add: load_configuration_def FILE_PATH_def is_file_def demo_artifacts_fs_def demo_platform_def demo_worker_config_def
        check_DatasetConfiguration_def is_directory_def check_ReaderConfig_def demo_reader_def)
  have "path_child (Path ''/'' []) METADATA_NAME = Path ''/'' [''metadata.arrow'']"
    using export_paths_plain(2) by (simp add: path_child_plain METADATA_NAME_def)
  then show "load_metadata demo_artifacts_fs (Path ''/'' [''dataset.json'']) demo_worker_config = Return demo_rows"
    by (simp add: load_metadata_def FILE_PATH_def is_file_def demo_artifacts_fs_def path_parent_def demo_worker_config_def demo_rows_def)
qed

lemma demo_create:
  "\<exists>ds. create_dataset demo_platform demo_artifacts_fs demo_adapter demo_plan = Return ds \<and> nd_caches (ds_inner ds) = demo_caches"
proof -
  have sel: "population_selection demo_artifacts_fs (Path ''/'' [''dataset.json'']) 3 1 2 None = Return (Some [1, 2])"
    by (simp add: population_selection_def cyclic_positions_def wrap_u64_def range_list_def numeral_2_eq_2)
  have rows: "select_rows demo_rows (Some [1, 2]) = Return [demo_rows ! 1, demo_rows ! 2]"
    by (simp add: select_rows_def demo_rows_def)
  have idx: "physical_index demo_caches [0, 2, 2] ((\<lambda>k. None)(40 \<mapsto> 0, 7 \<mapsto> 1, 9 \<mapsto> 2)) 9 2 = Return 4"
    "physical_index demo_caches [0, 2, 2] ((\<lambda>k. None)(40 \<mapsto> 0, 7 \<mapsto> 1, 9 \<mapsto> 2)) 40 0 = Return 0"
    by (simp_all add: physical_index_def demo_caches_def)
  have ext: "extract_metadata demo_rng nd [demo_rows ! 1, demo_rows ! 2] = Return \<lparr>physical_indices = [0, 4],
      weights = [2, 1], table_rows = [demo_rows ! 1, demo_rows ! 2]\<rparr>" if "nd_caches nd = demo_caches" for nd :: "(string, string) native_dataset"
    using that demo_lookup demo_offsets idx by (simp add: extract_metadata_def demo_rows_def demo_rng_def)
  obtain ds1 where ds1: "ds_load (\<lambda>ps v w. Return demo_caches) (\<lambda>p. p) 2 [Path ''/'' [''cache'']]
      ((demo_reader False)\<lparr>reader_shuffle := False, reader_seed_value := 0\<rparr>) 2 = Return ds1" "nd_caches (ds_inner ds1) = demo_caches"
    using demo_loads_config [of "(demo_reader False)\<lparr>reader_shuffle := False, reader_seed_value := 0\<rparr>"] by (auto simp: demo_reader_def)
  obtain ds2 where ds2: "restore_metadata demo_rng ds1 demo_rows (Some [1, 2]) = Return ds2" "nd_caches (ds_inner ds2) = demo_caches"
    using rows ext [OF ds1(2)] ds1(2) by (simp add: restore_metadata_def native_update_metadata_def replace_active_def new_epoch_len_def)
  obtain ds3 where "set_epoch_len ds2 3 = Return ds3" "nd_caches (ds_inner ds3) = demo_caches"
    using ds2(2) by (auto simp: set_epoch_len_Return)
  moreover have "native_runtime 2 = Return 2" by (simp add: native_runtime_def to_native_def)
  ultimately show ?thesis
    using demo_artifacts sel ds1(1) ds2(1)
    by (simp add: create_dataset_def from_configuration_def worker_config_def demo_adapter_def new_adapter_def demo_plan_def
        demo_platform_def demo_worker_config_def)
qed

lemma order_at_image:
  assumes "int (length order) = n" "set order = {0..<n}"
  shows "order_at sd order ` {0..<n} = {0..<n}"
proof (cases sd)
  case (Some s)
  have "{0..<n} = int ` {0..<length order}" using assms(1) image_int_atLeastLessThan [of 0 "length order"] by simp
  then have "order_at sd order ` {0..<n} = (\<lambda>k. order ! k) ` {0..<length order}"
    unfolding Some order_at_simps by (simp add: image_image)
  then show ?thesis using assms(2) nth_image [of "length order" order] by (simp add: atLeast0LessThan)
qed simp

lemma cyclic_span_rows: "0 < n \<Longrightarrow> f ` {0..<n} = {0..<n} \<Longrightarrow> set (cyclic_span f n offset len) \<subseteq> {0..<n}"
  by (force simp: cyclic_span_def)

lemma cyclic_span_member: "x \<in> {offset..<offset + len} \<Longrightarrow> f (x mod n) \<in> set (cyclic_span f n offset len)"
  unfolding cyclic_span_def set_map by (rule image_eqI [of _ _ "x - offset"]) auto

lemma passes_contiguous:
  fixes ks :: "nat list"
  assumes "ad_state ad = PendingReader" and plan: "worker_plan con ad = Return recipe" and "0 < sample_count recipe"
    and ds: "create_dataset pf fs ad recipe = Return ds"
  defines "len \<equiv> nat (sample_count recipe)"
  defines "n \<equiv> sum_list (map (\<lambda>k. min k len) ks)"
  assumes "ad_shuffle ad \<longrightarrow> n + len < 2 ^ 64"
    and "\<forall>i<n. bindE (sample_stream (pf_rng pf) (ds_inner ds) i) (apply_transform ad) = Return (f i)"
  shows "\<exists>ad'. run_passes pf fs con ks ad = (map f [0..<n], None, ad')"
proof (cases ks)
  case Nil
  then show ?thesis by (simp add: n_def)
next
  case (Cons k rest)
  note fresh = create_dataset_fresh [OF ds]
  have len: "nd_epoch_len (ds_inner ds) = len" using fresh(3) by (simp add: ds_len_def len_def)
  have lims: "draw_limit (ds_inner ds) (ds_len ds)" "draw_limit (ds_inner ds) (0 + n + len)"
    using assms(7) fresh(4) len by (auto simp: draw_limit_def ds_len_def)
  from setup_reading [OF assms(1-4)] obtain ad' events where ad': "adapter_setup pf fs con ad = Return (ad', events)"
      "reading pf (ds_inner ds) con ad' 0" "worker_plan con ad' = Return recipe" "apply_transform ad' = apply_transform ad"
      "ad_verbose ad' = ad_verbose ad" by blast
  have "\<exists>ad''. run_passes pf fs con ks ad' = (map f [0..<0 + n], None, ad'')"
    using run_passes_reading [OF ad'(2,3), of ks f fs] assms(8) lims(2) ad'(4) by (simp add: len n_def)
  then show ?thesis using pass_after_setup [OF assms(1) ad'(1,2,5)] Cons by simp
qed

section \<open>Properties\<close>

text \<open>
  C5. The passes of a loading process, complete or abandoned early by the consumer, deliver one
  contiguous piece of the reader's stream from its beginning: the unfinished native window is kept
  between passes, so nothing is skipped or repeated, and a pass that is not abandoned delivers exactly
  the sample count of the worker's plan. Hypotheses: the reader can be created, the samples delivered
  can be read and transformed, and the 64-bit draw counter does not run out.
\<close>

theorem adapter_passes_contiguous:
  fixes ks :: "nat list"
  assumes "ad_state ad = PendingReader" and plan: "worker_plan con ad = Return recipe" and "0 < sample_count recipe"
    and ds: "create_dataset pf fs ad recipe = Return ds"
  defines "len \<equiv> nat (sample_count recipe)"
  defines "n \<equiv> sum_list (map (\<lambda>k. min k len) ks)"
  assumes "ad_shuffle ad \<longrightarrow> n + len < 2 ^ 64"
    and "\<forall>i<n. bindE (sample_stream (pf_rng pf) (ds_inner ds) i) (apply_transform ad) = Return (f i)"
  shows "\<exists>ad'. run_passes pf fs con ks ad = (map f [0..<n], None, ad')"
  unfolding n_def len_def using assms by (intro passes_contiguous) auto

theorem adapter_passes_contiguous_witness:
  "\<exists>f ad'. run_passes demo_platform demo_artifacts_fs demo_consumer [2, 5] demo_adapter = (map f [0..<5], None, ad')"
proof -
  obtain ds where ds: "create_dataset demo_platform demo_artifacts_fs demo_adapter demo_plan = Return ds"
      "nd_caches (ds_inner ds) = demo_caches" using demo_create by blast
  note fresh = create_dataset_fresh [OF ds(1)]
  have ad: "ad_state demo_adapter = PendingReader" "\<not> ad_shuffle demo_adapter" "ad_transform demo_adapter = None"
    "ad_config_path demo_adapter = Path ''/'' [''dataset.json'']" by (simp_all add: demo_adapter_def new_adapter_def)
  have rows: "get_metadata ds = map (\<lambda>j. demo_rows ! nat j) (cyclic_span (\<lambda>j. j) (int (length demo_rows)) 1 2)"
    using worker_rows_selected [of demo_platform demo_artifacts_fs demo_adapter demo_worker_config demo_rows demo_plan ds "[]"]
      demo_artifacts ds(1) ad(4) by (simp add: demo_plan_def demo_rows_def)
  then have rows: "get_metadata ds = [demo_rows ! 1, demo_rows ! 2]"
    by (simp add: cyclic_span_def range_list_def demo_rows_def numeral_2_eq_2)
  have item: "\<exists>s. native_get_item (ds_inner ds) (row_cache_id r) (row_sample_id r) = Return s"
    if "r \<in> {demo_rows ! 1, demo_rows ! 2}" for r
    using that ds(2) demo_lookup
    by (auto simp: native_get_item_def load_sample_by_identity_def demo_rows_def demo_caches_def)
  have reads: "\<exists>v. bindE (sample_stream demo_rng (ds_inner ds) i) (apply_transform demo_adapter) = Return v" for i
  proof -
    have "get_metadata ds ! (i mod 2) \<in> {demo_rows ! 1, demo_rows ! 2}"
      using rows by (cases "i mod 2 = 0") (auto simp: mod_2_eq_odd)
    then obtain s where s: "native_get_item (ds_inner ds) (row_cache_id (get_metadata ds ! (i mod 2)))
        (row_sample_id (get_metadata ds ! (i mod 2))) = Return s" using item by blast
    have "length (get_metadata ds) = 2" using rows by simp
    then have "sample_stream demo_rng (ds_inner ds) i = Return s"
      using sequential_stream_rows [OF fresh(1), of i] fresh(4,5) ad(2) s by (simp add: Let_def demo_platform_def)
    then show ?thesis using ad(3) by (simp add: apply_transform_def)
  qed
  define f where "f i = projr (bindE (sample_stream demo_rng (ds_inner ds) i) (apply_transform demo_adapter))" for i
  have "bindE (sample_stream demo_rng (ds_inner ds) i) (apply_transform demo_adapter) = Return (f i)" for i
    using reads [of i] by (auto simp: f_def)
  then have "\<exists>ad'. run_passes demo_platform demo_artifacts_fs demo_consumer [2, 5] demo_adapter = (map f [0..<5], None, ad')"
    using adapter_passes_contiguous [OF ad(1) demo_worker_plan _ ds(1), of "[2, 5]" f] ad(2)
    by (simp add: demo_plan_def demo_platform_def)
  then show ?thesis by blast
qed

text \<open>
  The population of a worker's reader is the span of its plan: the rows at the plan's offset and the
  following positions, modulo the row count, through the shared row order if there is one. A sequential
  reader delivers exactly these rows in this order, over and over.
\<close>

theorem worker_reads_its_span:
  assumes config: "load_configuration (pf_parse_json pf) fs (ad_config_path ad) = Return config"
    and rows: "load_metadata fs (ad_config_path ad) config = Return rows"
    and ds: "create_dataset pf fs ad recipe = Return ds"
    and span: "0 \<le> plan_offset recipe" "0 < population_size recipe" "int (length rows) + population_size recipe \<le> 2 ^ 64"
    and order: "partition_seed recipe \<noteq> None \<Longrightarrow>
      fs (path_child (path_parent (ad_config_path ad)) ORDER_NAME) = Some (File (Npy order)) \<and> length order = length rows"
  shows "get_metadata ds = map (\<lambda>j. rows ! nat j)
      (cyclic_span (order_at (partition_seed recipe) order) (int (length rows)) (plan_offset recipe) (population_size recipe)) \<and>
    (\<not> ad_shuffle ad \<longrightarrow> (\<forall>i. sample_stream (pf_rng pf) (ds_inner ds) i =
      (let r = get_metadata ds ! (i mod nat (population_size recipe)) in native_get_item (ds_inner ds) (row_cache_id r) (row_sample_id r))))"
proof -
  have active: "get_metadata ds = map (\<lambda>j. rows ! nat j)
      (cyclic_span (order_at (partition_seed recipe) order) (int (length rows)) (plan_offset recipe) (population_size recipe))"
    by (rule worker_rows_selected [OF config rows ds span order])
  then have "length (get_metadata ds) = nat (population_size recipe)" by (simp add: cyclic_span_def)
  then show ?thesis using active sequential_stream_rows create_dataset_fresh [OF ds] by metis
qed

theorem worker_reads_its_span_witness:
  "\<exists>ds. create_dataset demo_platform demo_artifacts_fs demo_adapter demo_plan = Return ds \<and>
     get_metadata ds = map (\<lambda>j. demo_rows ! nat j) (cyclic_span (\<lambda>j. j) (int (length demo_rows)) 1 2)"
proof -
  obtain ds where ds: "create_dataset demo_platform demo_artifacts_fs demo_adapter demo_plan = Return ds" using demo_create by blast
  have "ad_config_path demo_adapter = Path ''/'' [''dataset.json'']" by (simp add: demo_adapter_def new_adapter_def)
  then show ?thesis
    using worker_reads_its_span [of demo_platform demo_artifacts_fs demo_adapter demo_worker_config demo_rows demo_plan ds "[]"]
      demo_artifacts ds by (simp add: demo_plan_def demo_rows_def)
qed



text \<open>
  C29. A failed construction leaves nothing behind: whichever step raises, from the first option check to
  the \<open>DataLoader\<close> constructor and including faults during the export, the file system is as before the
  call. \<open>mkdtemp\<close> gives an unused path that resolves to itself.
\<close>

theorem failed_construction_cleans_up:
  assumes "make_dataloader pf torch fs ds call = (fs', Raise e)"
    and fresh: "\<And>root q. is_relative_to q (pf_mkdtemp pf root) \<Longrightarrow> fs q = None"
    and resolved: "\<And>root. pf_resolve pf (pf_mkdtemp pf root) = pf_mkdtemp pf root"
  shows "fs' = fs"
proof (cases "\<exists>replica workers samples seed restarts fs1 artifacts.
    check_call pf ds call = Return (replica, workers, samples, seed, restarts) \<and>
    create_artifacts (pf_mkdtemp pf) fs (pf_pid pf) (call_work_dir call) = Return (fs1, artifacts)")
  case False
  then show ?thesis using assms(1) by (auto simp: make_dataloader_def split: sum.splits prod.splits)
next
  case True
  then obtain replica workers samples seed restarts fs1 artifacts where
      check: "check_call pf ds call = Return (replica, workers, samples, seed, restarts)"
      and create: "create_artifacts (pf_mkdtemp pf) fs (pf_pid pf) (call_work_dir call) = Return (fs1, artifacts)" by blast
  let ?d = "art_directory artifacts"
  obtain root where root: "?d = pf_mkdtemp pf root" "fs1 = fs(?d \<mapsto> Directory)" "art_pid artifacts = pf_pid pf"
    using create by (auto simp: create_artifacts_def exn_simps)
  obtain fs2 r where prep: "prepare_adapter pf fs1 ds (call_options call) workers replica seed samples (call_transform call)
      artifacts = (fs2, r)" by fastforce
  have "fs' = discard_artifacts fs2 (pf_pid pf) artifacts"
    using assms(1) check create prep by (auto simp: make_dataloader_def split: sum.splits prod.splits)
  moreover have "fs2 q = fs q" if "\<not> is_relative_to q ?d" for q
    using prepare_adapter_frame [OF prep _ that] resolved root that by (auto simp: is_relative_to_def)
  ultimately show ?thesis using fresh root by (auto simp: fun_eq_iff discard_artifacts_def rmtree_def)
qed

definition demo_call :: "(string, string, string) loader_call" where
  "demo_call = \<lparr>call_options = demo_options, call_transform = None, call_picklable = True, call_work_dir = None, call_kwargs = []\<rparr>"

definition demo_plain_fs :: "string metadata_row fs" where
  "demo_plain_fs = [Path ''/'' [''cache''] \<mapsto> Directory]"

theorem failed_construction_cleans_up_witness:
  "\<exists>ds fs' e. make_dataloader demo_platform (\<lambda>args ad. Raise (ValueError ''torch'') :: unit exn) demo_plain_fs ds demo_call = (fs', Raise e) \<and>
     fs' = demo_plain_fs"
proof -
  fix ds :: "(string, string) CachedDataset"
  have "\<exists>fs' e. make_dataloader demo_platform (\<lambda>args ad. Raise (ValueError ''torch'') :: unit exn) demo_plain_fs ds demo_call = (fs', Raise e)"
    by (simp add: make_dataloader_def split: sum.split prod.split)
  then obtain fs' e where
    run: "make_dataloader demo_platform (\<lambda>args ad. Raise (ValueError ''torch'') :: unit exn) demo_plain_fs ds demo_call = (fs', Raise e)" by blast
  have "fs' = demo_plain_fs"
    by (rule failed_construction_cleans_up [OF run])
      (auto simp: demo_platform_def demo_plain_fs_def is_relative_to_def)
  then show ?thesis using run by blast
qed

text \<open>
  Native state never crosses processes: in a process other than the one that set it up, setup and
  iteration raise, deliver nothing and leave the adapter alone; repeated setup in the owning process does
  nothing; and a pickled copy of an adapter is unstarted.
\<close>

theorem reader_owned_by_process:
  assumes "adapter_setup pf fs con ad = Return (ad', events)"
  shows "adapter_setup pf fs' con ad' = Return (ad', []) \<and>
    (con_pid other \<noteq> con_pid con \<longrightarrow>
      adapter_setup pf fs' other ad' = Raise (RuntimeError ''DatasetRT loader native state belongs to another PID'') \<and>
      adapter_pass pf fs' other k ad' = ([], Some (RuntimeError ''DatasetRT loader native state belongs to another PID''), ad', [])) \<and>
    ad_state (adapter_reduce ad') = PendingReader"
proof -
  have "(\<exists>ds stream. ad_state ad' = LocalReader (con_pid con) ds stream) \<or> ad_state ad' = EmptyPartition (con_pid con)"
    using setup_owner [OF assms] .
  then show ?thesis by (elim disjE exE) (simp_all add: adapter_setup_def adapter_pass_def adapter_reduce_def new_adapter_def)
qed

theorem reader_owned_by_process_witness:
  "\<exists>ad' events. adapter_setup demo_platform demo_artifacts_fs \<lparr>con_pid = 100, con_info = None\<rparr>
      (demo_adapter\<lparr>ad_partitions := [demo_plan\<lparr>population_size := 0, sample_count := 0\<rparr>]\<rparr>) = Return (ad', events) \<and>
     adapter_pass demo_platform demo_artifacts_fs \<lparr>con_pid = 101, con_info = None\<rparr> 3 ad' =
       ([], Some (RuntimeError ''DatasetRT loader native state belongs to another PID''), ad', [])"
proof -
  obtain ad' events where ad': "adapter_setup demo_platform demo_artifacts_fs \<lparr>con_pid = 100, con_info = None\<rparr>
      (demo_adapter\<lparr>ad_partitions := [demo_plan\<lparr>population_size := 0, sample_count := 0\<rparr>]\<rparr>) = Return (ad', events)"
    by (simp add: adapter_setup_def worker_plan_def demo_adapter_def new_adapter_def demo_plan_def)
  then show ?thesis using reader_owned_by_process [OF ad', of demo_artifacts_fs "\<lparr>con_pid = 101, con_info = None\<rparr>" 3] by auto
qed

text \<open>
  C30. A call that passes its checks yields a loader: once the artifact directory exists and the export
  and the \<open>DataLoader\<close> constructor succeed, planning cannot fail, and the adapter is unstarted, has one plan
  per consuming process, and announces exactly the rank's budget as its length.
\<close>

theorem construction_succeeds:
  assumes check: "check_call pf ds call = Return (replica, workers, samples, seed, restarts)"
    and create: "create_artifacts (pf_mkdtemp pf) fs (pf_pid pf) (call_work_dir call) = Return (fs1, artifacts)"
    and dump: "dump_config (pf_dump_json pf) (pf_resolve pf) (pf_faults pf) fs1 ds (art_directory artifacts) = (states, Return config_path)"
    and codec: "pf_parse_json pf (pf_dump_json pf (export_config (pf_resolve pf) (export_of ds))) = Return (export_config (pf_resolve pf) (export_of ds))"
    and size: "int (length (get_metadata ds)) \<le> U64_MAX" and entropy: "0 \<le> pf_entropy pf" "pf_entropy pf \<le> U64_MAX"
    and torch: "\<And>args ad. \<exists>l. torch args ad = Return l"
  shows "\<exists>fs' loader adapter ws report budget ws'. to_torch_dataloader pf torch fs ds call = (fs', Return (loader, adapter, ws, report)) \<and>
    ad_state adapter = PendingReader \<and> length (ad_partitions adapter) = nat (max 1 (processes (counts workers))) \<and>
    rank_budget samples replica (int_of (opt_batch_size (call_options call))) (is_true (opt_drop_last (call_options call))) =
      Return (budget, ws') \<and> adapter_len adapter = budget"
proof -
  let ?config = "export_config (pf_resolve pf) (export_of ds)" and ?o = "call_options call"
  have loaded: "load_configuration (pf_parse_json pf) (last states) config_path = Return ?config"
    using dump_then_load [OF dump [unfolded dump_config_def], of "pf_parse_json pf"] codec by simp
  have "cfg_row_count ?config \<le> U64_MAX" using size by (simp add: export_config_def export_of_def get_metadata_def)
  note inputs = check_call_inputs [OF check entropy load_configuration_positive(1) [OF loaded] this]
  obtain fs' adapter ws where prep: "prepare_adapter pf fs1 ds ?o workers replica seed samples (call_transform call) artifacts =
      (fs', Return (adapter, ws))" "ad_state adapter = PendingReader"
      "prepare_partitions (pf_worker_entropy pf) ?config replica (processes (counts workers)) (int_of (opt_batch_size ?o)) samples
        (resolved_partition ?o) (is_true (opt_shuffle ?o)) seed (is_true (opt_drop_last ?o)) = Return (ad_partitions adapter, ws)"
      "adapter_len adapter = sum_list (map sample_count (ad_partitions adapter))"
    using prepare_adapter_succeeds [OF inputs dump loaded] by blast
  obtain l where "torch (dataloader_args_of call workers) adapter = Return l" using torch by blast
  then have "to_torch_dataloader pf torch fs ds call = (fs', Return (l, adapter, restarts @ ws,
      ready_report pf ds call replica workers samples seed adapter))"
    using check create prep(1) by (simp add: to_torch_dataloader_def make_dataloader_def)
  moreover have "\<exists>budget ws'. rank_budget samples replica (int_of (opt_batch_size ?o)) (is_true (opt_drop_last ?o)) = Return (budget, ws') \<and>
      length (ad_partitions adapter) = nat (max 1 (processes (counts workers))) \<and>
      sum_list (map sample_count (ad_partitions adapter)) = budget"
    using prepared_budget [OF inputs prep(3)] .
  ultimately show ?thesis using prep(2,4) by metis
qed

theorem construction_succeeds_witness:
  "\<exists>(ds :: (string, string) CachedDataset) pf fs' adapter ws report.
     to_torch_dataloader pf (\<lambda>args ad. Return ()) demo_plain_fs ds demo_call = (fs', Return ((), adapter, ws, report)) \<and>
     ad_state adapter = PendingReader \<and> length (ad_partitions adapter) = 2"
proof -
  obtain ds :: "(string, string) CachedDataset" and states where
      ds: "ds_len ds = 5" "recipe_sample_count (ds_recipe ds) = 5" "length (get_metadata ds) = 5"
      and dump: "dump_config (\<lambda>c. ''json'') (\<lambda>q. q) (\<lambda>i. None) demo_rows_fs ds (Path ''/'' [''export'']) =
        (states, Return (config_target (Path ''/'' [''export''])))"
    using demo_export by blast
  let ?pf = "demo_platform\<lparr>pf_parse_json := \<lambda>text. Return (export_config (\<lambda>q. q) (export_of ds))\<rparr>"
  let ?art = "\<lparr>art_directory = Path ''/'' [''export''], art_pid = 100, art_temporary = True\<rparr>"
  have pf: "pf_start_methods ?pf = [''spawn'']" "pf_cpus ?pf = 8" "pf_local_world ?pf = None" "\<not> pf_in_worker ?pf"
    "\<not> pf_dist_available ?pf" "pf_entropy ?pf = 7" "pf_resolve ?pf = (\<lambda>p. p)" "pf_faults ?pf = (\<lambda>i. None)"
    "pf_dump_json ?pf = (\<lambda>c. ''json'')" by (simp_all add: demo_platform_def)
  obtain workers where workers: "resolve_workers 8 None demo_options 1 = Return workers" "processes (counts workers) = 2"
    by (simp add: resolve_workers_def resolve_worker_counts_def demo_options_def resolve_persistence_def resolve_prefetch_def)
  have eff: "effective_samples demo_options 5 = 5" by (simp add: effective_samples_def demo_options_def)
  obtain seed where seed: "common_seed 7 (pf_broadcast ?pf) \<lparr>rank = 0, world_size = 1\<rparr> (is_true (opt_shuffle demo_options))
      (resolved_seed demo_options) = Return seed"
    by (simp add: common_seed_def require_u64_def U64_MAX_def resolved_seed_def demo_options_def)
  have "capture_replica False False d r n = Return \<lparr>rank = 0, world_size = 1\<rparr>" for d r n
    by (simp add: capture_replica_def mk_ReplicaIdentity_def)
  then have check: "check_call ?pf ds demo_call =
      Return (\<lparr>rank = 0, world_size = 1\<rparr>, workers, 5, seed, warn_restarting_workers workers)"
    using pf workers ds(2) demo_options_ok eff seed
    by (simp add: check_call_def Let_def demo_call_def validate_transform_def reader_recipe_def MAX_SAMPLE_BUDGET_def sys_maxsize_def)
  have create: "create_artifacts (pf_mkdtemp ?pf) demo_plain_fs (pf_pid ?pf) (call_work_dir demo_call) = Return (demo_rows_fs, ?art)"
    by (simp add: create_artifacts_def demo_call_def demo_platform_def demo_plain_fs_def demo_rows_fs_def fun_eq_iff)
  have "int (length (get_metadata ds)) \<le> U64_MAX" using ds(3) by (simp add: U64_MAX_def)
  then obtain fs' adapter ws report where "to_torch_dataloader ?pf (\<lambda>args ad. Return ()) demo_plain_fs ds demo_call =
      (fs', Return ((), adapter, ws, report)) \<and>
      ad_state adapter = PendingReader \<and> length (ad_partitions adapter) = 2"
    using construction_succeeds [OF check create, where torch = "\<lambda>args ad. Return ()"] dump pf workers(2) by (auto simp: U64_MAX_def)
  then show ?thesis by blast
qed

end
