(* ===== verification/Benchmark_Run.thy ===== *)
theory Benchmark_Run
  imports Benchmark Loader
begin

text \<open>
  The rest of \<open>src/dataset_rt/benchmarks/\<close> and \<open>src/dataset_rt/run_benchmark.py\<close>: process-tree measurements,
  the loader call of the benchmark, one measured pass, the passes of a rank, the report, the life of the
  process group and of the launched session.

  Clock readings, batches as the loader delivers them, the training step, collectives and hashes are
  arguments. Training, devices and timings are measured and not decided by this code, so an iteration is a
  record of what it observed; times are rationals.
\<close>

section \<open>Process-tree measurements\<close>

record Resources =
  rss_bytes :: int
  threads :: int
  file_descriptors :: int
  res_processes :: int

text \<open>One measurement of one process: its value, a process that has exited, or another exception.\<close>

datatype probe = Got int | NoSuchProcess | ProbeError py_error

record member =
  mem_rss :: probe
  mem_threads :: probe
  mem_fds :: probe

fun probed :: "probe \<Rightarrow> Resources \<Rightarrow> (int \<Rightarrow> Resources exn) \<Rightarrow> Resources exn" where
  "probed (Got n) r k = k n"
| "probed NoSuchProcess r k = Return r"
| "probed (ProbeError e) r k = Raise e"

text \<open>The sums are updated as the measurements arrive, so a process that exits in between leaves a part.\<close>

definition snapshot_member :: "member \<Rightarrow> Resources \<Rightarrow> Resources exn" where
  "snapshot_member m r0 =
     probed (mem_rss m) r0 (\<lambda>a. let r1 = r0\<lparr>rss_bytes := rss_bytes r0 + a\<rparr> in
     probed (mem_threads m) r1 (\<lambda>b. let r2 = r1\<lparr>threads := threads r1 + b\<rparr> in
     probed (mem_fds m) r2 (\<lambda>c.
       Return (r2\<lparr>file_descriptors := file_descriptors r2 + c, res_processes := res_processes r2 + 1\<rparr>))))"

definition no_resources :: Resources where
  "no_resources = \<lparr>rss_bytes = 0, threads = 0, file_descriptors = 0, res_processes = 0\<rparr>"

fun snapshot_from :: "member list \<Rightarrow> Resources \<Rightarrow> Resources exn" where
  "snapshot_from [] r = Return r"
| "snapshot_from (m # ms) r = bindE (snapshot_member m r) (snapshot_from ms)"

definition resource_snapshot :: "member list \<Rightarrow> Resources exn" where
  "resource_snapshot members = snapshot_from members no_resources"

definition combine_resources :: "Resources \<Rightarrow> Resources \<Rightarrow> Resources" where
  "combine_resources l r =
     \<lparr>rss_bytes = max (rss_bytes l) (rss_bytes r), threads = max (threads l) (threads r),
      file_descriptors = max (file_descriptors l) (file_descriptors r), res_processes = max (res_processes l) (res_processes r)\<rparr>"

text \<open>\<open>ResourceObserver.run\<close> over the process trees seen until the stop event: peak and failure.\<close>

fun observer_run :: "Resources \<Rightarrow> member list list \<Rightarrow> Resources \<times> py_error option" where
  "observer_run peak [] = (peak, None)"
| "observer_run peak (tree # trees) =
     (case resource_snapshot tree of
        Inl e \<Rightarrow> (peak, Some e)
      | Inr current \<Rightarrow> observer_run (combine_resources peak current) trees)"

section \<open>The loader call\<close>

definition bench_options :: "BenchmarkConfig \<Rightarrow> LoaderOptions" where
  "bench_options c =
     \<lparr>opt_shuffle = VBool (bench_shuffle c),
      opt_seed = (if bench_shuffle c then VInt (bench_seed c) else VStr ''random''),
      opt_samples_per_epoch = (case bench_samples_per_epoch c of None \<Rightarrow> VNone | Some n \<Rightarrow> VInt n),
      opt_partition = VStr (case bench_worker_partition c of Split \<Rightarrow> ''split'' | Replicate \<Rightarrow> ''replicate''),
      opt_batch_size = VInt (bench_batch_size c),
      opt_num_workers = VInt (bench_num_workers c),
      opt_native_num_workers = VInt (bench_native_num_workers c),
      opt_drop_last = VBool (bench_drop_last c),
      opt_pin_memory = VBool (bench_pin_memory c),
      opt_persistent_workers = VBool (bench_persistent_workers c \<and> bench_num_workers c > 0),
      opt_timeout = (if bench_num_workers c \<noteq> 0 then VFloat (Finite (bench_worker_timeout c)) else VInt 0),
      opt_context = VStr (bench_worker_context c),
      opt_prefetch = (if bench_num_workers c \<noteq> 0 then VInt (bench_prefetch_factor c) else VStr ''auto''),
      opt_verbose = VBool (\<not> bench_quiet c)\<rparr>"

definition bench_call ::
  "(byte list \<Rightarrow> byte list) \<Rightarrow> (byte list \<Rightarrow> int \<Rightarrow> 't) \<Rightarrow> nat option \<Rightarrow> BenchmarkConfig \<Rightarrow> bool \<Rightarrow> (fixture, 'x, 't Sample) loader_call" where
  "bench_call sha256 tensor worker c synthetic =
     \<lparr>call_options = bench_options c,
      call_transform = Some (transform sha256 tensor worker
        \<lparr>tr_features = bench_input_features c, tr_rounds = bench_transform_rounds c, tr_synthetic = synthetic\<rparr>),
      call_picklable = True, call_work_dir = None, call_kwargs = []\<rparr>"

section \<open>Fingerprints\<close>

text \<open>\<open>while block := stream.read(n)\<close>: the file in blocks.\<close>

function read_blocks :: "nat \<Rightarrow> byte list \<Rightarrow> byte list list" where
  "read_blocks n content = (if n = 0 \<or> content = [] then [] else take n content # read_blocks n (drop n content))"
  by pat_completeness auto
termination by (relation "measure (length \<circ> snd)") auto

declare read_blocks.simps [simp del]

definition file_digest :: "(byte list \<Rightarrow> string) \<Rightarrow> byte list \<Rightarrow> string" where
  "file_digest hexdigest content = hexdigest (concat (read_blocks (2 ^ 20) content))"

definition encode :: "string \<Rightarrow> byte list" where
  "encode s = map (word_of_int \<circ> of_char) s"

definition code_digest :: "(byte list \<Rightarrow> string) \<Rightarrow> (string \<Rightarrow> byte list) \<Rightarrow> string list \<Rightarrow> string" where
  "code_digest hexdigest read_package paths =
     hexdigest (concat (map (\<lambda>relative. encode relative @ encode (file_digest hexdigest (read_package relative))) paths))"

text \<open>\<open>input_agreement\<close>: the own signature and those gathered from all ranks.\<close>

definition input_agreement :: "'s \<Rightarrow> 's list \<Rightarrow> unit exn" where
  "input_agreement signature gathered =
     (if list_ex (\<lambda>v. v \<noteq> signature) gathered
      then Raise (ValueError ''rank code, workloads, or active metadata differ'') else Return ())"

section \<open>One measured pass\<close>

text \<open>
  An iteration: the batch \<open>next(iterator)\<close> gave, the exception of the training step if any, and the clock
  readings in the order they are taken. An object that is not a batch raises \<open>TypeError\<close> and is an iteration
  whose batch raises. The iterator's \<open>StopIteration\<close> is the end of the list.
\<close>

record 'b iteration =
  it_batch :: "'b Batch exn"
  it_training :: "py_error option"
  it_before :: rat
  it_got :: rat
  it_first :: rat
  it_train :: rat
  it_done :: rat

record pass_state =
  ps_batches :: int
  ps_samples :: int
  ps_digest :: "byte list"
  ps_counters :: "int list"
  ps_waiting :: rat
  ps_training :: rat
  ps_first :: rat

definition start_pass :: "int list \<Rightarrow> pass_state" where
  "start_pass counters = \<lparr>ps_batches = 0, ps_samples = 0, ps_digest = [], ps_counters = counters, ps_waiting = 0, ps_training = 0, ps_first = 0\<rparr>"

definition pass_step ::
  "BenchmarkConfig \<Rightarrow> bool \<Rightarrow> WorkerPlan list \<Rightarrow> int \<Rightarrow> rat \<Rightarrow> 'b iteration \<Rightarrow> pass_state \<Rightarrow> pass_state exn" where
  "pass_step c synthetic partitions population started it st =
     bindE (it_batch it) (\<lambda>batch.
     let waiting = ps_waiting st + (it_got it - it_before it);
         first = (if ps_batches st = 0 then it_first it - started else ps_first st) in
     bindE (if ps_batches st < 4 then prefix_digest batch (ps_digest st) else Return (ps_digest st)) (\<lambda>digest.
     bindE (if synthetic \<and> \<not> bench_shuffle c
            then check_order partitions population (batch_identities batch) (ps_counters st)
            else Return (ps_counters st)) (\<lambda>counters.
     case it_training it of
       Some e \<Rightarrow> Raise e
     | None \<Rightarrow> Return \<lparr>ps_batches = ps_batches st + 1, ps_samples = ps_samples st + int (length (batch_identities batch)),
         ps_digest = digest, ps_counters = counters, ps_waiting = waiting,
         ps_training = ps_training st + (it_done it - it_train it), ps_first = first\<rparr>)))"

fun pass_loop ::
  "BenchmarkConfig \<Rightarrow> bool \<Rightarrow> WorkerPlan list \<Rightarrow> int \<Rightarrow> rat \<Rightarrow> 'b iteration list \<Rightarrow> pass_state \<Rightarrow> pass_state exn" where
  "pass_loop c synthetic partitions population started [] st = Return st"
| "pass_loop c synthetic partitions population started (it # its) st =
     bindE (pass_step c synthetic partitions population started it st) (pass_loop c synthetic partitions population started its)"

record PassResult =
  pr_batches :: int
  pr_samples :: int
  pr_elapsed_seconds :: rat
  pr_first_batch_seconds :: rat
  pr_batch_wait_seconds :: rat
  pr_training_seconds :: rat
  pr_prefix_digest :: string
  pr_gpu_peak_allocated :: int
  pr_gpu_peak_reserved :: int
  pr_resources :: Resources

text \<open>
  What surrounds the loop: the clock before and after it, the iterations, the trees the observer saw, whether
  its thread ended in time, the final snapshot, the counts of the other ranks and the accelerator's memory.
\<close>

record 'b pass_env =
  px_started :: rat
  px_iterations :: "'b iteration list"
  px_trees :: "member list list"
  px_observer_stopped :: bool
  px_ended :: rat
  px_final_tree :: "member list"
  px_other_counts :: "(int \<times> int) list"
  px_gpu_allocated :: int
  px_gpu_reserved :: int

text \<open>\<open>all_reduce\<close> with \<open>MIN\<close> and \<open>MAX\<close> over the pairs of all ranks; equal results mean equal pairs.\<close>

definition reduce_pairs :: "(int \<Rightarrow> int \<Rightarrow> int) \<Rightarrow> int \<times> int \<Rightarrow> (int \<times> int) list \<Rightarrow> int \<times> int" where
  "reduce_pairs op own others = (fold (\<lambda>p. op (fst p)) others (fst own), fold (\<lambda>p. op (snd p)) others (snd own))"

definition measure_pass ::
  "(byte list \<Rightarrow> string) \<Rightarrow> BenchmarkConfig \<Rightarrow> Topology \<Rightarrow> WorkerPlan list \<Rightarrow> int \<Rightarrow> int list \<Rightarrow> int \<Rightarrow> bool \<Rightarrow>
   'b pass_env \<Rightarrow> (PassResult \<times> int list) exn" where
  "measure_pass hexdigest c t partitions loader_len counters population synthetic env =
     (let loop = pass_loop c synthetic partitions population (px_started env) (px_iterations env) (start_pass counters);
          (peak, failure) = observer_run no_resources (px_trees env) in
      if \<not> px_observer_stopped env then Raise (RuntimeError ''resource observer did not stop'')
      else bindE loop (\<lambda>st.
        if failure \<noteq> None then Raise (RuntimeError ''resource observation failed'')
        else bindE (resource_snapshot (px_final_tree env)) (\<lambda>final.
        let requested = (case bench_samples_per_epoch c of None \<Rightarrow> population | Some n \<Rightarrow> n) in
        bindE (local_samples requested (top_world_size t) (bench_batch_size c) (bench_drop_last c)) (\<lambda>expected.
        if ps_samples st \<noteq> expected \<or> ps_batches st \<noteq> loader_len
        then Raise (ValueError ''observed batches or sample count differ from reported loader length'')
        else if reduce_pairs min (ps_batches st, ps_samples st) (px_other_counts env) \<noteq>
                reduce_pairs max (ps_batches st, ps_samples st) (px_other_counts env)
        then Raise (ValueError ''rank sample or batch counts differ'')
        else Return (\<lparr>pr_batches = ps_batches st, pr_samples = ps_samples st, pr_elapsed_seconds = px_ended env - px_started env,
               pr_first_batch_seconds = ps_first st, pr_batch_wait_seconds = ps_waiting st, pr_training_seconds = ps_training st,
               pr_prefix_digest = hexdigest (ps_digest st),
               pr_gpu_peak_allocated = (case bench_device_kind c of CUDA \<Rightarrow> px_gpu_allocated env | CPU \<Rightarrow> 0),
               pr_gpu_peak_reserved = (case bench_device_kind c of CUDA \<Rightarrow> px_gpu_reserved env | CPU \<Rightarrow> 0),
               pr_resources = combine_resources peak final\<rparr>, ps_counters st)))))"

text \<open>\<open>verify_replay\<close>: the first four batches of a fresh loader.\<close>

fun replay_digest :: "'b Batch exn list \<Rightarrow> byte list \<Rightarrow> byte list exn" where
  "replay_digest [] digest = Return digest"
| "replay_digest (b # bs) digest = bindE b (\<lambda>batch. bindE (prefix_digest batch digest) (replay_digest bs))"

definition verify_replay :: "(byte list \<Rightarrow> string) \<Rightarrow> 'b Batch exn list \<Rightarrow> string \<Rightarrow> unit exn" where
  "verify_replay hexdigest fresh expected =
     bindE (replay_digest (take 4 fresh) []) (\<lambda>digest.
     if hexdigest digest \<noteq> expected
     then Raise (ValueError ''fresh seeded loader did not reproduce its initial prefix'') else Return ())"

text \<open>The repeats of \<open>execute\<close>: restarted workers begin again at their first row.\<close>

definition next_counters :: "BenchmarkConfig \<Rightarrow> nat \<Rightarrow> int list \<Rightarrow> int list" where
  "next_counters c repeat counters =
     (if repeat \<noteq> 0 \<and> bench_num_workers c \<noteq> 0 \<and> \<not> bench_persistent_workers c
      then replicate (nat (bench_num_workers c)) 0 else counters)"

fun measure_repeats ::
  "(nat \<Rightarrow> int list \<Rightarrow> (PassResult \<times> int list) exn) \<Rightarrow> BenchmarkConfig \<Rightarrow> nat \<Rightarrow> nat \<Rightarrow> int list \<Rightarrow> PassResult list exn" where
  "measure_repeats one_pass c repeat 0 counters = Return []"
| "measure_repeats one_pass c repeat (Suc left) counters =
     bindE (one_pass repeat (next_counters c repeat counters)) (\<lambda>(result, counters').
     bindE (measure_repeats one_pass c (Suc repeat) left counters') (\<lambda>results. Return (result # results)))"

definition run_passes_of ::
  "(byte list \<Rightarrow> string) \<Rightarrow> BenchmarkConfig \<Rightarrow> Topology \<Rightarrow> WorkerPlan list \<Rightarrow> int \<Rightarrow> int \<Rightarrow> bool \<Rightarrow> (nat \<Rightarrow> 'b pass_env) \<Rightarrow> PassResult list exn" where
  "run_passes_of hexdigest c t partitions loader_len population synthetic env =
     measure_repeats (\<lambda>repeat counters. measure_pass hexdigest c t partitions loader_len counters population synthetic (env repeat))
       c 0 (nat (bench_repeats c)) (replicate (nat (max 1 (bench_num_workers c))) 0)"

section \<open>A rank\<close>

text \<open>\<open>torch.maximum\<close> propagates NaN, and a NaN is not above the tolerance; the result record refuses it.\<close>

fun torch_maximum :: "pyfloat \<Rightarrow> pyfloat \<Rightarrow> pyfloat" where
  "torch_maximum NaN y = NaN"
| "torch_maximum x NaN = NaN"
| "torch_maximum PosInf y = PosInf"
| "torch_maximum x PosInf = PosInf"
| "torch_maximum NegInf y = y"
| "torch_maximum x NegInf = x"
| "torch_maximum (Finite a) (Finite b) = Finite (max a b)"

fun above_tolerance :: "pyfloat \<Rightarrow> bool" where
  "above_tolerance (Finite a) = (a > 1 / 1000000)"
| "above_tolerance PosInf = True"
| "above_tolerance f = False"

text \<open>The differences of the parameters to those of rank zero, and the maximum over the group.\<close>

definition parameter_difference :: "(pyfloat \<Rightarrow> pyfloat) \<Rightarrow> pyfloat list \<Rightarrow> pyfloat exn" where
  "parameter_difference all_reduce differences =
     (let result = all_reduce (foldl torch_maximum (Finite 0) differences) in
      if above_tolerance result then Raise (ValueError ''model parameters differ across ranks'') else Return result)"

definition device_for :: "bool \<Rightarrow> int \<Rightarrow> bool \<Rightarrow> Topology \<Rightarrow> BenchmarkConfig \<Rightarrow> (bench_device \<times> int) exn" where
  "device_for cuda_available device_count nccl_available t c =
     (case bench_device_kind c of
        CPU \<Rightarrow> Return (CPU, 0)
      | CUDA \<Rightarrow>
          if \<not> cuda_available \<or> top_local_rank t \<ge> device_count
          then Raise (ValueError ''requested CUDA topology exceeds available CUDA devices'')
          else if \<not> nccl_available then Raise (ValueError ''CUDA benchmark requires a PyTorch build with NCCL'')
          else Return (CUDA, top_local_rank t))"

text \<open>
  The evidence a rank reports. The descriptive fields (host, versions, platform, timings of construction and
  cleanup) are one value.
\<close>

record 'e RankResult =
  rr_rank :: int
  rr_local_rank :: int
  rr_population :: int
  rr_requested :: int
  rr_effective :: int
  rr_loader_batches :: int
  rr_replay_verified :: bool
  rr_order_verified :: bool
  rr_difference :: rat
  rr_passes :: "PassResult list"
  rr_description :: 'e

record ('b, 's, 'e) rank_env =
  re_population :: "int exn"
  re_loader :: "(WorkerPlan list \<times> int) exn"
  re_signature :: 's
  re_gathered :: "'s list"
  re_setup :: "py_error option"
  re_passes :: "nat \<Rightarrow> 'b pass_env"
  re_differences :: "pyfloat list"
  re_reduce :: "pyfloat \<Rightarrow> pyfloat"
  re_fresh :: "'b Batch exn list"
  re_children_stopped :: bool
  re_code_unchanged :: bool
  re_description :: 'e

definition execute ::
  "(byte list \<Rightarrow> string) \<Rightarrow> BenchmarkConfig \<Rightarrow> Topology \<Rightarrow> ('b, 's, 'e) rank_env \<Rightarrow> 'e RankResult exn" where
  "execute hexdigest c t env =
     (let synthetic = (bench_cache_paths c = []) in
      bindE (re_population env) (\<lambda>population.
      bindE (re_loader env) (\<lambda>(partitions, loader_len).
      let requested = (case bench_samples_per_epoch c of None \<Rightarrow> population | Some n \<Rightarrow> n) in
      bindE (validate_plans partitions population requested c t) (\<lambda>_.
      bindE (input_agreement (re_signature env) (re_gathered env)) (\<lambda>_.
      bindE (case re_setup env of Some e \<Rightarrow> Raise e | None \<Rightarrow> Return ()) (\<lambda>_.
      bindE (run_passes_of hexdigest c t partitions loader_len population synthetic (re_passes env)) (\<lambda>passes.
      bindE (parameter_difference (re_reduce env) (re_differences env)) (\<lambda>difference.
      bindE (case passes of [] \<Rightarrow> Raise (IndexError ''list index out of range'')
             | p # ps \<Rightarrow> verify_replay hexdigest (re_fresh env) (pr_prefix_digest p)) (\<lambda>_.
      if \<not> re_children_stopped env then Raise (RuntimeError ''loading worker survived benchmark cleanup'')
      else if \<not> re_code_unchanged env then Raise (RuntimeError ''reader or benchmark code changed during measurement'')
      else bindE (local_samples requested (top_world_size t) (bench_batch_size c) (bench_drop_last c)) (\<lambda>local.
      case difference of
        Finite d \<Rightarrow> Return \<lparr>rr_rank = top_rank t, rr_local_rank = top_local_rank t, rr_population = population,
          rr_requested = requested, rr_effective = local * top_world_size t, rr_loader_batches = loader_len,
          rr_replay_verified = True, rr_order_verified = (synthetic \<and> \<not> bench_shuffle c), rr_difference = d,
          rr_passes = passes, rr_description = re_description env\<rparr>
      | _ \<Rightarrow> Raise (ValueError ''parameter_max_difference must be finite'')))))))))))"

section \<open>The group and the launched session\<close>

definition repeat_rate :: "'e RankResult list \<Rightarrow> nat \<Rightarrow> rat exn" where
  "repeat_rate results repeat =
     (if results = [] then Raise (ValueError ''max() iterable argument is empty'')
      else if list_ex (\<lambda>r. repeat \<ge> length (rr_passes r)) results then Raise (IndexError ''tuple index out of range'')
      else let samples = sum_list (map (\<lambda>r. pr_samples (rr_passes r ! repeat)) results);
               slowest = Max (set (map (\<lambda>r. pr_elapsed_seconds (rr_passes r ! repeat)) results)) in
        if slowest = 0 then Raise ZeroDivisionError else Return (of_int samples / slowest))"

datatype group_event = InitGroup string | WriteReport path "rat list" | DestroyGroup

record ('b, 's, 'e) group_env =
  ge_cuda_available :: bool
  ge_device_count :: int
  ge_nccl_available :: bool
  ge_init :: "py_error option"
  ge_rank :: "('b, 's, 'e) rank_env"
  ge_gather :: "'e RankResult \<Rightarrow> 'e RankResult list exn"
  ge_write :: "py_error option"

definition report_results ::
  "BenchmarkConfig \<Rightarrow> Topology \<Rightarrow> ('b, 's, 'e) group_env \<Rightarrow> 'e RankResult \<Rightarrow> group_event list \<times> unit exn" where
  "report_results c t env result =
     (case ge_gather env result of
        Inl e \<Rightarrow> ([], Raise e)
      | Inr results \<Rightarrow>
          if top_rank t \<noteq> 0 then ([], Return ())
          else case mapE (repeat_rate results) [0..<nat (bench_repeats c)] of
              Inl e \<Rightarrow> ([], Raise e)
            | Inr rates \<Rightarrow>
                (case ge_write env of
                   Some e \<Rightarrow> ([], Raise e)
                 | None \<Rightarrow> ([WriteReport (bench_output c) rates], Return ())))"

definition run_rank ::
  "(byte list \<Rightarrow> string) \<Rightarrow> BenchmarkConfig \<Rightarrow> Topology \<Rightarrow> ('b, 's, 'e) group_env \<Rightarrow> group_event list \<times> unit exn" where
  "run_rank hexdigest c launcher env =
     (case check_Topology launcher of
        Inl e \<Rightarrow> ([], Raise e)
      | Inr t \<Rightarrow>
          if bench_ranks c \<notin> {1, top_world_size t}
          then ([], Raise (ValueError ''--ranks disagrees with torchrun WORLD_SIZE; omit it under external torchrun''))
          else case device_for (ge_cuda_available env) (ge_device_count env) (ge_nccl_available env) t c of
              Inl e \<Rightarrow> ([], Raise e)
            | Inr (device, index) \<Rightarrow>
                (case ge_init env of
                   Some e \<Rightarrow> ([], Raise e)
                 | None \<Rightarrow>
                     let (events, outcome) =
                       (case execute hexdigest c t (ge_rank env) of
                          Inl e \<Rightarrow> ([], Raise e)
                        | Inr result \<Rightarrow> report_results c t env result) in
                     (InitGroup (case device of CUDA \<Rightarrow> ''nccl'' | CPU \<Rightarrow> ''gloo'') # events @ [DestroyGroup], outcome)))"

definition launch_command :: "string \<Rightarrow> BenchmarkConfig \<Rightarrow> string list \<Rightarrow> string list" where
  "launch_command executable c argv =
     [executable, ''-m'', ''torch.distributed.run'', ''--standalone'', ''--local-addr'', ''127.0.0.1'', ''--nproc-per-node'',
      str_int (bench_ranks c), ''--max-restarts'', ''0'', ''--module'', ''dataset_rt.run_benchmark''] @ drop 1 argv"

text \<open>
  \<open>launch\<close>: the first wait ends with a status or an exception (a timeout, an interrupt); \<open>kill\<close> is what
  \<open>killpg\<close> raises besides \<open>ProcessLookupError\<close>, and \<open>reap\<close> what the second wait raises. The result says
  whether the session was sent \<open>SIGKILL\<close>.
\<close>

definition launch :: "py_error + int \<Rightarrow> py_error option \<Rightarrow> py_error option \<Rightarrow> bool \<times> unit exn" where
  "launch wait kill reap =
     (let failed = (\<lambda>e. (True, Raise (case kill of Some k \<Rightarrow> k | None \<Rightarrow> (case reap of Some w \<Rightarrow> w | None \<Rightarrow> e)))) in
      case wait of
        Inr status \<Rightarrow> if status \<noteq> 0 then failed (SystemExit (Inl status)) else (False, Return ())
      | Inl e \<Rightarrow> failed e)"

section \<open>What accepted runs show\<close>

lemma concat_read_blocks: "0 < n \<Longrightarrow> concat (read_blocks n content) = content"
  by (induction n content rule: read_blocks.induct) (simp add: read_blocks.simps)

text \<open>Hashing in blocks is hashing the file.\<close>

lemma file_digest_content: "file_digest hexdigest content = hexdigest content"
  by (simp add: file_digest_def concat_read_blocks)

text \<open>
  A process that exits after its memory was read has its memory counted and is not itself counted, although
  such processes are to be skipped.
\<close>

lemma snapshot_counts_part:
  "resource_snapshot [\<lparr>mem_rss = Got 4096, mem_threads = NoSuchProcess, mem_fds = NoSuchProcess\<rparr>] =
     Return \<lparr>rss_bytes = 4096, threads = 0, file_descriptors = 0, res_processes = 0\<rparr>"
  by (simp add: resource_snapshot_def snapshot_member_def no_resources_def)

lemma check_order_append:
  "check_order plans n (xs @ ys) counters = bindE (check_order plans n xs counters) (check_order plans n ys)"
proof (induction xs arbitrary: counters)
  case (Cons x xs)
  then show ?case by (cases "check_identity plans n x counters") simp_all
qed simp

lemma pass_step_Return:
  assumes "pass_step c synthetic plans n started it st = Return st'"
  obtains b where "it_batch it = Return b" "ps_batches st' = ps_batches st + 1"
    "ps_samples st' = ps_samples st + int (length (batch_identities b))"
    "synthetic \<and> \<not> bench_shuffle c \<Longrightarrow> check_order plans n (batch_identities b) (ps_counters st) = Return (ps_counters st')"
  using assms by (auto simp: pass_step_def Let_def exn_simps split: option.splits if_splits)

text \<open>A completed loop has counted its batches and samples, and the order check has seen all identities.\<close>

lemma pass_loop_Return:
  assumes "pass_loop c synthetic plans n started its st = Return st'"
  shows "\<exists>bs. map it_batch its = map Return bs \<and> ps_batches st' = ps_batches st + int (length bs) \<and>
    ps_samples st' = ps_samples st + int (length (concat (map batch_identities bs))) \<and>
    (synthetic \<and> \<not> bench_shuffle c \<longrightarrow>
      check_order plans n (concat (map batch_identities bs)) (ps_counters st) = Return (ps_counters st'))"
  using assms
proof (induction its arbitrary: st)
  case (Cons it its)
  then obtain st1 where st1: "pass_step c synthetic plans n started it st = Return st1"
      "pass_loop c synthetic plans n started its st1 = Return st'" by (auto simp: exn_simps)
  from Cons.IH [OF st1(2)] obtain bs where bs: "map it_batch its = map Return bs" "ps_batches st' = ps_batches st1 + int (length bs)"
      "ps_samples st' = ps_samples st1 + int (length (concat (map batch_identities bs)))"
      "synthetic \<and> \<not> bench_shuffle c \<longrightarrow>
        check_order plans n (concat (map batch_identities bs)) (ps_counters st1) = Return (ps_counters st')" by blast
  from st1(1) show ?case
  proof (rule pass_step_Return)
    fix b assume b: "it_batch it = Return b" "ps_batches st1 = ps_batches st + 1"
      "ps_samples st1 = ps_samples st + int (length (batch_identities b))"
      "synthetic \<and> \<not> bench_shuffle c \<Longrightarrow> check_order plans n (batch_identities b) (ps_counters st) = Return (ps_counters st1)"
    then show ?thesis using bs by (intro exI [of _ "b # bs"]) (auto simp: check_order_append exn_simps)
  qed
qed simp

lemma fold_min_le: "fold (\<lambda>p. min (f p)) ps a \<le> (a :: int)"
  by (induction ps arbitrary: a) (auto intro: order_trans [OF _ min.cobounded2])

lemma fold_max_ge: "(a :: int) \<le> fold (\<lambda>p. max (f p)) ps a"
  by (induction ps arbitrary: a) (auto intro: order_trans [OF max.cobounded2])

lemma fold_min_member: "p \<in> set ps \<Longrightarrow> fold (\<lambda>p. min (f p)) ps a \<le> (f p :: int)"
  by (induction ps arbitrary: a) (auto intro: order_trans [OF fold_min_le])

lemma fold_max_member: "p \<in> set ps \<Longrightarrow> (f p :: int) \<le> fold (\<lambda>p. max (f p)) ps a"
  by (induction ps arbitrary: a) (auto intro: order_trans [OF _ fold_max_ge])

lemma reduce_pairs_equal:
  assumes "reduce_pairs min own others = reduce_pairs max own others" and "p \<in> set others"
  shows "p = own"
proof -
  have same: "f p = f own" if "fold (\<lambda>p. min (f p)) others (f own) = fold (\<lambda>p. max (f p)) others (f own)" for f :: "int \<times> int \<Rightarrow> int"
    using fold_min_le [of f others "f own"] fold_max_ge [of "f own" f others] fold_min_member [OF assms(2), of f "f own"]
      fold_max_member [OF assms(2), of f "f own"] that by linarith
  have "fst p = fst own" "snd p = snd own" using assms(1) by (auto simp: reduce_pairs_def intro: same)
  then show ?thesis by (rule prod_eqI)
qed

lemma if_Return [exn_simps]: "(if b then Raise e else m) = Return x \<longleftrightarrow> \<not> b \<and> m = Return x"
  by simp

lemma finite_Return [exn_simps]:
  "(case d of Finite x \<Rightarrow> Return (f x) | PosInf \<Rightarrow> Raise e | NegInf \<Rightarrow> Raise e | NaN \<Rightarrow> Raise e) = Return r \<longleftrightarrow> (\<exists>x. d = Finite x \<and> r = f x)"
  by (cases d) auto

lemma measure_pass_Return:
  assumes "measure_pass hexdigest c t plans loader_len counters population synthetic env = Return (result, counters')"
  defines "requested \<equiv> case bench_samples_per_epoch c of None \<Rightarrow> population | Some n \<Rightarrow> n"
  shows "local_samples requested (top_world_size t) (bench_batch_size c) (bench_drop_last c) = Return (pr_samples result)"
    and "pr_batches result = loader_len"
    and "p \<in> set (px_other_counts env) \<Longrightarrow> p = (pr_batches result, pr_samples result)"
    and "\<exists>bs. map it_batch (px_iterations env) = map Return bs \<and> pr_batches result = int (length bs) \<and>
      pr_samples result = int (length (concat (map batch_identities bs))) \<and>
      (synthetic \<and> \<not> bench_shuffle c \<longrightarrow> check_order plans population (concat (map batch_identities bs)) counters = Return counters')"
proof -
  obtain peak failure where obs: "observer_run no_resources (px_trees env) = (peak, failure)" by fastforce
  have fine: "px_observer_stopped env" "failure = None"
    using assms(1) by (auto simp: measure_pass_def Let_def obs exn_simps split: if_splits)
  obtain st where st: "pass_loop c synthetic plans population (px_started env) (px_iterations env) (start_pass counters) = Return st"
      "local_samples requested (top_world_size t) (bench_batch_size c) (bench_drop_last c) = Return (ps_samples st)"
      "ps_batches st = loader_len" "counters' = ps_counters st" "pr_samples result = ps_samples st" "pr_batches result = ps_batches st"
      "reduce_pairs min (ps_batches st, ps_samples st) (px_other_counts env) = reduce_pairs max (ps_batches st, ps_samples st) (px_other_counts env)"
    using assms(1) unfolding measure_pass_def Let_def obs requested_def [symmetric] by (clarsimp simp: fine exn_simps if_Return)
  show "local_samples requested (top_world_size t) (bench_batch_size c) (bench_drop_last c) = Return (pr_samples result)"
    "pr_batches result = loader_len" using st by simp_all
  show "p \<in> set (px_other_counts env) \<Longrightarrow> p = (pr_batches result, pr_samples result)"
    using reduce_pairs_equal [OF st(7)] st by simp
  show "\<exists>bs. map it_batch (px_iterations env) = map Return bs \<and> pr_batches result = int (length bs) \<and>
      pr_samples result = int (length (concat (map batch_identities bs))) \<and>
      (synthetic \<and> \<not> bench_shuffle c \<longrightarrow> check_order plans population (concat (map batch_identities bs)) counters = Return counters')"
    using pass_loop_Return [OF st(1)] st by (simp add: start_pass_def)
qed

lemma measure_repeats_Return:
  assumes "measure_repeats one_pass c k left counters = Return results"
  shows "length results = left \<and> (\<forall>i<left. \<exists>cs cs'. one_pass (k + i) cs = Return (results ! i, cs'))"
  using assms
proof (induction left arbitrary: k counters results)
  case (Suc left)
  then obtain r cs' rs where step: "one_pass k (next_counters c k counters) = Return (r, cs')"
      "measure_repeats one_pass c (Suc k) left cs' = Return rs" "results = r # rs" by (auto simp: exn_simps)
  from Suc.IH [OF step(2)] have IH: "length rs = left" "\<And>i. i < left \<Longrightarrow> \<exists>cs cs'. one_pass (Suc k + i) cs = Return (rs ! i, cs')" by auto
  have "\<exists>cs cs'. one_pass (k + i) cs = Return (results ! i, cs')" if "i < Suc left" for i
    using that step(1,3) IH(2) [of "i - 1"] by (cases i) auto
  then show ?case using IH(1) step(3) by simp
qed simp

lemma execute_Return:
  assumes "execute hexdigest c t env = Return result"
  obtains plans local where "re_population env = Return (rr_population result)"
    "re_loader env = Return (plans, rr_loader_batches result)"
    "rr_requested result = (case bench_samples_per_epoch c of None \<Rightarrow> rr_population result | Some n \<Rightarrow> n)"
    "validate_plans plans (rr_population result) (rr_requested result) c t = Return ()"
    "input_agreement (re_signature env) (re_gathered env) = Return ()"
    "run_passes_of hexdigest c t plans (rr_loader_batches result) (rr_population result) (bench_cache_paths c = []) (re_passes env) =
      Return (rr_passes result)"
    "local_samples (rr_requested result) (top_world_size t) (bench_batch_size c) (bench_drop_last c) = Return local"
    "rr_effective result = local * top_world_size t"
    "rr_order_verified result = (bench_cache_paths c = [] \<and> \<not> bench_shuffle c)"
proof -
  let ?requested = "\<lambda>n. case bench_samples_per_epoch c of None \<Rightarrow> n | Some n \<Rightarrow> n"
  obtain n plans len passes d local where "re_population env = Return n" "re_loader env = Return (plans, len)"
      "validate_plans plans n (?requested n) c t = Return ()" "input_agreement (re_signature env) (re_gathered env) = Return ()"
      "run_passes_of hexdigest c t plans len n (bench_cache_paths c = []) (re_passes env) = Return passes"
      "local_samples (?requested n) (top_world_size t) (bench_batch_size c) (bench_drop_last c) = Return local"
      "result = \<lparr>rr_rank = top_rank t, rr_local_rank = top_local_rank t, rr_population = n, rr_requested = ?requested n,
        rr_effective = local * top_world_size t, rr_loader_batches = len, rr_replay_verified = True,
        rr_order_verified = (bench_cache_paths c = [] \<and> \<not> bench_shuffle c), rr_difference = d, rr_passes = passes,
        rr_description = re_description env\<rparr>"
    using assms unfolding execute_def Let_def by (auto simp: exn_simps)
  then show ?thesis by (intro that [of plans local]) (simp_all cong: option.case_cong)
qed

section \<open>Sequential fixtures\<close>

lemma delivered_one_worker:
  assumes "\<forall>x\<in>set xs. id_worker x = w"
  shows "delivered v xs = (if v = w then map id_position xs else [])"
  using assms by (induction xs) auto

text \<open>The stream of a sequential reader over a plan visits the planned positions.\<close>

lemma sequential_positions:
  assumes config: "load_configuration (pf_parse_json pf) fs (ad_config_path ad) = Return config"
    and rows: "load_metadata fs (ad_config_path ad) config = Return rows"
    and ds: "create_dataset pf fs ad recipe = Return ds" and "\<not> ad_shuffle ad" "partition_seed recipe = None"
    and span: "0 \<le> plan_offset recipe" "0 < population_size recipe" "int (length rows) + population_size recipe \<le> 2 ^ 64"
    and "rows \<noteq> []"
  defines "j i \<equiv> nat (planned_position recipe (int (length rows)) (int i))"
  shows "sample_stream (pf_rng pf) (ds_inner ds) i = native_get_item (ds_inner ds) (row_cache_id (rows ! j i)) (row_sample_id (rows ! j i))"
    and "j i < length rows"
proof -
  note fresh = create_dataset_fresh [OF ds]
  have meta: "get_metadata ds = map (\<lambda>k. rows ! nat k) (cyclic_span (\<lambda>x. x) (int (length rows)) (plan_offset recipe) (population_size recipe))"
    using worker_rows_selected [OF config rows ds span, of "[]"] assms(5) by simp
  then have len: "length (get_metadata ds) = nat (population_size recipe)" by (simp add: cyclic_span_def)
  have "i mod nat (population_size recipe) < nat (population_size recipe)" using span(2) by simp
  moreover have "int (i mod nat (population_size recipe)) = int i mod population_size recipe"
    using span(2) by (simp add: zmod_int)
  ultimately have "get_metadata ds ! (i mod length (get_metadata ds)) = rows ! j i"
    unfolding len by (simp add: meta cyclic_span_def j_def planned_position_def)
  then show "sample_stream (pf_rng pf) (ds_inner ds) i = native_get_item (ds_inner ds) (row_cache_id (rows ! j i)) (row_sample_id (rows ! j i))"
    using sequential_stream_rows [OF fresh(1), of i] fresh(4,5) assms(4) by (simp add: Let_def)
  show "j i < length rows" using assms(9) by (simp add: j_def planned_position_def nat_less_iff)
qed

section \<open>Properties\<close>

text \<open>
  C34. The order check raises no false alarm: a loading process that reads sequential fixtures, over any
  passes, complete or abandoned, delivers samples that the benchmark's check accepts against its plan, and
  the counter of the worker has advanced by all of them. A row's fixture carries the position of the row.
\<close>

theorem fixtures_delivered_in_order:
  fixes ks :: "nat list"
  assumes "ad_state ad = PendingReader" and plan: "worker_plan con ad = Return recipe" and "0 < sample_count recipe"
    and config: "load_configuration (pf_parse_json pf) fs (ad_config_path ad) = Return config"
    and rows: "load_metadata fs (ad_config_path ad) config = Return rows"
    and ds: "create_dataset pf fs ad recipe = Return ds" and seq: "\<not> ad_shuffle ad" "partition_seed recipe = None"
    and span: "0 \<le> plan_offset recipe" "0 < population_size recipe" "int (length rows) + population_size recipe \<le> 2 ^ 64"
    and "rows \<noteq> []"
    and fixtures: "\<And>i j. j = nat (planned_position recipe (int (length rows)) (int i)) \<Longrightarrow> bindE (native_get_item (ds_inner ds) (row_cache_id (rows ! j)) (row_sample_id (rows ! j)))
        (apply_transform ad) = Return (Inr (smp j)) \<and>
      id_position (sample_identity (smp j)) = int j \<and> id_worker (sample_identity (smp j)) = w"
    and plans: "w < length plans" "plans ! w = recipe" "\<forall>p\<in>set plans. population_size p \<noteq> 0"
    and counters: "length counters = length plans" "counters ! w = 0"
  shows "\<exists>samples ad'. run_passes pf fs con ks ad = (map Inr samples, None, ad') \<and>
    length samples = sum_list (map (\<lambda>k. min k (nat (sample_count recipe))) ks) \<and>
    check_order plans (int (length rows)) (map sample_identity samples) counters = Return (counters[w := int (length samples)])"
proof -
  let ?n = "int (length rows)" and ?N = "sum_list (map (\<lambda>k. min k (nat (sample_count recipe))) ks)"
  define j where "j i = nat (planned_position recipe ?n (int i))" for i
  note positions = sequential_positions [OF config rows ds seq span assms(12), folded j_def]
  define samples where "samples = map (\<lambda>i. smp (j i)) [0..<?N]"
  have "bindE (sample_stream (pf_rng pf) (ds_inner ds) i) (apply_transform ad) = Return (Inr (smp (j i)))" for i
    unfolding positions(1) using fixtures [OF j_def] by (rule conjunct1)
  then have "\<exists>ad'. run_passes pf fs con ks ad = (map (\<lambda>i. Inr (smp (j i))) [0..<?N], None, ad')"
    using seq(1) by (intro passes_contiguous [OF assms(1-3) ds]) simp_all
  then have run: "\<exists>ad'. run_passes pf fs con ks ad = (map Inr samples, None, ad')" by (simp add: samples_def o_def)
  let ?xs = "map sample_identity samples"
  have owner: "\<forall>x\<in>set ?xs. id_worker x = w" using fixtures [OF j_def] by (auto simp: samples_def)
  have "int (j i) = planned_position recipe ?n (int i)" for i
    using assms(12) by (simp add: j_def planned_position_def)
  then have pos: "map id_position ?xs = map (\<lambda>i. planned_position (plans ! w) ?n (counters ! w + int i)) [0..<length ?xs]"
    using fixtures [OF j_def] plans(2) counters(2) by (simp add: samples_def o_def)
  have "map (\<lambda>v. counters ! v + int (length (delivered v ?xs))) [0..<length plans] = counters[w := int (length samples)]"
    using counters by (intro nth_equalityI) (auto simp: delivered_one_worker [OF owner] nth_list_update)
  moreover have "\<forall>x\<in>set ?xs. id_worker x < length plans" using owner plans(1) by auto
  ultimately have "check_order plans ?n ?xs counters = Return (counters[w := int (length samples)])"
    using check_order_Return [OF counters(1) _ plans(3), of ?n ?xs] assms(12) pos
    by (auto simp: delivered_one_worker [OF owner])
  moreover have "length samples = ?N" by (simp add: samples_def)
  ultimately show ?thesis using run by (elim exE) (intro exI [of _ samples] exI conjI)
qed

definition demo_fixture :: "string CachedSample \<Rightarrow> unit Sample exn" where
  "demo_fixture s = Return \<lparr>sample_inputs = (), sample_identity = \<lparr>id_cache = int (sample_cache_id s), id_sample = int (sample_id s),
     id_position = (if sample_cache_id s = 40 then 1 else 2), id_worker = 0\<rparr>\<rparr>"

definition demo_fixture_adapter :: "(string, string, unit Sample) ReaderAdapter" where
  "demo_fixture_adapter = new_adapter \<lparr>rank = 0, world_size = 1\<rparr> False None 2 (Some demo_fixture) 3 [demo_plan] (Path ''/'' [''dataset.json'']) True False"

theorem fixtures_delivered_in_order_witness:
  "\<exists>samples ad'. run_passes demo_platform demo_artifacts_fs demo_consumer [2, 5] demo_fixture_adapter = (map Inr samples, None, ad') \<and>
     check_order [demo_plan] 3 (map sample_identity samples) [0] = Return [5]"
proof -
  have ad: "ad_state demo_fixture_adapter = PendingReader" "\<not> ad_shuffle demo_fixture_adapter" "ad_transform demo_fixture_adapter = Some demo_fixture"
    "ad_config_path demo_fixture_adapter = Path ''/'' [''dataset.json'']" "worker_plan demo_consumer demo_fixture_adapter = Return demo_plan"
    by (simp_all add: demo_fixture_adapter_def new_adapter_def worker_plan_def demo_plan_def)
  have "create_dataset demo_platform demo_artifacts_fs demo_fixture_adapter demo_plan =
      create_dataset demo_platform demo_artifacts_fs demo_adapter demo_plan"
    by (simp add: create_dataset_def worker_config_def demo_adapter_def demo_fixture_adapter_def new_adapter_def)
  then obtain ds where ds: "create_dataset demo_platform demo_artifacts_fs demo_fixture_adapter demo_plan = Return ds"
      "nd_caches (ds_inner ds) = demo_caches" using demo_create by auto
  have n: "length demo_rows = 3" by (simp add: demo_rows_def)
  define smp where "smp j = projr (projr (bindE (native_get_item (ds_inner ds) (row_cache_id (demo_rows ! j)) (row_sample_id (demo_rows ! j)))
    (apply_transform demo_fixture_adapter)))" for j
  have span: "nat (planned_position demo_plan 3 (int i)) \<in> {1, 2}" for i
    by (cases "even i") (auto simp: planned_position_def demo_plan_def mod_2_eq_odd)
  have fixtures: "bindE (native_get_item (ds_inner ds) (row_cache_id (demo_rows ! j)) (row_sample_id (demo_rows ! j)))
        (apply_transform demo_fixture_adapter) = Return (Inr (smp j)) \<and>
      id_position (sample_identity (smp j)) = int j \<and> id_worker (sample_identity (smp j)) = 0"
    if "j = nat (planned_position demo_plan (int (length demo_rows)) (int i))" for i j
    using span [of i] that ds(2) demo_lookup
    by (auto simp: smp_def n native_get_item_def load_sample_by_identity_def demo_rows_def demo_caches_def apply_transform_def ad demo_fixture_def)
  have plan: "0 < sample_count demo_plan" "partition_seed demo_plan = None" "0 \<le> plan_offset demo_plan" "0 < population_size demo_plan"
    "int (length demo_rows) + population_size demo_plan \<le> 2 ^ 64" "demo_rows \<noteq> []" "sample_count demo_plan = 3" "population_size demo_plan \<noteq> 0"
    by (simp_all add: demo_plan_def demo_rows_def)
  have files: "load_configuration (pf_parse_json demo_platform) demo_artifacts_fs (ad_config_path demo_fixture_adapter) = Return demo_worker_config"
    "load_metadata demo_artifacts_fs (ad_config_path demo_fixture_adapter) demo_worker_config = Return demo_rows"
    using demo_artifacts ad(4) by simp_all
  have "\<exists>samples ad'. run_passes demo_platform demo_artifacts_fs demo_consumer [2, 5] demo_fixture_adapter = (map Inr samples, None, ad') \<and>
      length samples = sum_list (map (\<lambda>k. min k (nat (sample_count demo_plan))) [2, 5]) \<and>
      check_order [demo_plan] (int (length demo_rows)) (map sample_identity samples) [0] = Return ([0][0 := int (length samples)])"
    by (rule fixtures_delivered_in_order [OF ad(1,5) plan(1) files ds(1) ad(2) plan(2-6) fixtures]) (simp_all add: plan(8))
  then obtain samples ad' where run: "run_passes demo_platform demo_artifacts_fs demo_consumer [2, 5] demo_fixture_adapter = (map Inr samples, None, ad')"
      "length samples = 5" "check_order [demo_plan] 3 (map sample_identity samples) [0] = Return [int (length samples)]"
    unfolding n plan(7) by (auto simp del: run_passes.simps)
  then show ?thesis by (intro exI [of _ samples] exI [of _ ad']) (simp del: run_passes.simps)
qed

text \<open>
  A rank's result is evidence: if the benchmark returns one, its plans passed the independent check, it
  ran every repeat, every pass had as many batches as the loader announced and exactly the rank's share of
  the effective samples, and every other rank counted the same batches and samples in that pass.
\<close>

theorem rank_evidence:
  assumes "execute hexdigest c t env = Return result"
  shows "\<exists>plans. re_loader env = Return (plans, rr_loader_batches result) \<and>
    validate_plans plans (rr_population result) (rr_requested result) c t = Return () \<and>
    length (rr_passes result) = nat (bench_repeats c) \<and>
    (\<forall>i<length (rr_passes result). let p = rr_passes result ! i in
      pr_batches p = rr_loader_batches result \<and> pr_samples p * top_world_size t = rr_effective result \<and>
      set (px_other_counts (re_passes env i)) \<subseteq> {(pr_batches p, pr_samples p)})"
proof -
  obtain plans local where ex: "re_loader env = Return (plans, rr_loader_batches result)"
      "rr_requested result = (case bench_samples_per_epoch c of None \<Rightarrow> rr_population result | Some n \<Rightarrow> n)"
      "validate_plans plans (rr_population result) (rr_requested result) c t = Return ()"
      "run_passes_of hexdigest c t plans (rr_loader_batches result) (rr_population result) (bench_cache_paths c = []) (re_passes env) =
        Return (rr_passes result)"
      "local_samples (rr_requested result) (top_world_size t) (bench_batch_size c) (bench_drop_last c) = Return local"
      "rr_effective result = local * top_world_size t"
    using execute_Return [OF assms] by metis
  note passes = measure_repeats_Return [OF ex(4) [unfolded run_passes_of_def]]
  have "let p = rr_passes result ! i in pr_batches p = rr_loader_batches result \<and> pr_samples p * top_world_size t = rr_effective result \<and>
      set (px_other_counts (re_passes env i)) \<subseteq> {(pr_batches p, pr_samples p)}" if i: "i < length (rr_passes result)" for i
  proof -
    obtain cs cs' where "measure_pass hexdigest c t plans (rr_loader_batches result) cs (rr_population result) (bench_cache_paths c = []) (re_passes env i) =
        Return (rr_passes result ! i, cs')" using passes i by (metis add_0)
    note m = measure_pass_Return [OF this]
    have "pr_samples (rr_passes result ! i) = local" using m(1) ex(5) unfolding ex(2) [symmetric] by simp
    then show ?thesis using m(2,3) ex(6) by (auto simp: Let_def)
  qed
  then show ?thesis using ex(1,3) passes by blast
qed

definition demo_solo :: BenchmarkConfig where
  "demo_solo = demo_bench\<lparr>bench_ranks := 1, bench_num_workers := 0, bench_batch_size := 2\<rparr>"

definition demo_solo_env :: "(unit, unit, unit) rank_env" where
  "demo_solo_env =
     (let batch = \<lparr>batch_inputs = (), batch_identities = map (\<lambda>i. \<lparr>id_cache = 0, id_sample = i, id_position = i, id_worker = 0\<rparr>) [0, 1]\<rparr> in
      \<lparr>re_population = Return 2,
       re_loader = Return ([\<lparr>plan_rank = 0, plan_worker_id = 0, plan_offset = 0, population_size = 2, sample_count = 2, plan_seed = 0,
         partition_seed = None\<rparr>], 1),
       re_signature = (), re_gathered = [()], re_setup = None,
       re_passes = (\<lambda>i. \<lparr>px_started = 0,
         px_iterations = [\<lparr>it_batch = Return batch, it_training = None, it_before = 0, it_got = 1, it_first = 1, it_train = 1, it_done = 2\<rparr>],
         px_trees = [], px_observer_stopped = True, px_ended = 3, px_final_tree = [], px_other_counts = [], px_gpu_allocated = 0,
         px_gpu_reserved = 0\<rparr>),
       re_differences = [], re_reduce = (\<lambda>d. d), re_fresh = [Return batch], re_children_stopped = True, re_code_unchanged = True,
       re_description = ()\<rparr>)"

definition demo_solo_topology :: Topology where
  "demo_solo_topology = \<lparr>top_rank = 0, top_local_rank = 0, top_world_size = 1, top_local_world_size = 1\<rparr>"

lemmas execute_eval = execute_def validate_plans_def local_samples_def expected_span_def input_agreement_def run_passes_of_def
  measure_pass_def pass_step_def prefix_digest_def identity_bytes_def to_bytes_def check_identity_def start_pass_def
  resource_snapshot_def reduce_pairs_def parameter_difference_def verify_replay_def next_counters_def

lemma demo_execute: "\<exists>result. execute (\<lambda>bytes. ''digest'') demo_solo demo_solo_topology demo_solo_env = Return result \<and> rr_effective result = 2"
  by (simp add: execute_eval demo_solo_def demo_bench_def demo_solo_env_def demo_solo_topology_def Let_def)

theorem rank_evidence_witness:
  "\<exists>result. execute (\<lambda>bytes. ''digest'') demo_solo demo_solo_topology demo_solo_env = Return result \<and>
     length (rr_passes result) = 1 \<and> pr_samples (rr_passes result ! 0) = 2"
proof -
  obtain result where run: "execute (\<lambda>bytes. ''digest'') demo_solo demo_solo_topology demo_solo_env = Return result" "rr_effective result = 2"
    using demo_execute by blast
  from rank_evidence [OF run(1)] run show ?thesis
    by (auto simp: demo_solo_def demo_bench_def demo_solo_topology_def Let_def)
qed

text \<open>
  Benchmark settings that fit the machine's integers make a valid loader call: the loader's checks accept
  them exactly when the worker, thread, batch and prefetch counts are within its bounds, and the workers then
  resolve to the configured count, persistent as configured, with prefetching only in worker processes.
\<close>

theorem bench_options_accepted:
  assumes "check_BenchmarkConfig start_methods is_dir c = Return c"
  shows "(post_init start_methods (bench_options c) = Return () \<longleftrightarrow>
      bench_num_workers c \<le> 2 ^ 32 - 1 \<and> bench_native_num_workers c \<le> sys_maxsize \<and> bench_batch_size c \<le> sys_maxsize \<and>
      (bench_num_workers c = 0 \<or> bench_prefetch_factor c \<le> sys_maxsize)) \<and>
    resolve_workers cpus configured (bench_options c) world =
      Return \<lparr>counts = \<lparr>processes = bench_num_workers c, native_threads = bench_native_num_workers c\<rparr>,
        persistent = (bench_persistent_workers c \<and> 0 < bench_num_workers c),
        prefetch = (if bench_num_workers c = 0 then None else Some (bench_prefetch_factor c)),
        mp_ctx = (if bench_num_workers c = 0 then None else Some (MethodContext (bench_worker_context c)))\<rparr>"
proof -
  have ok: "bench_fields_ok is_dir c" "bench_worker_context c \<in> set start_methods"
    using assms by (auto simp: check_BenchmarkConfig_def split: if_splits)
  have samples: "case bench_samples_per_epoch c of None \<Rightarrow> True | Some n \<Rightarrow> 1 \<le> n \<and> n \<le> MAX_SAMPLE_BUDGET"
    using ok(1) by (auto simp: bench_fields_ok_def MAX_SAMPLE_BUDGET_def sys_maxsize_def split: option.splits)
  have ctx: "bench_worker_context c \<noteq> ''inherit''" using ok(1) by (auto simp: bench_fields_ok_def)
  have "post_init start_methods (bench_options c) = Return () \<longleftrightarrow>
      bench_num_workers c \<le> 2 ^ 32 - 1 \<and> bench_native_num_workers c \<le> sys_maxsize \<and> bench_batch_size c \<le> sys_maxsize \<and>
      (bench_num_workers c = 0 \<or> bench_prefetch_factor c \<le> sys_maxsize)"
    using ok samples
    by (auto simp: post_init_def bench_options_def exn_simps validate_seed_def validate_context_def bench_fields_ok_def
        split: option.splits partition_mode.splits if_splits)
  moreover have "resolve_workers cpus configured (bench_options c) world =
      Return \<lparr>counts = \<lparr>processes = bench_num_workers c, native_threads = bench_native_num_workers c\<rparr>,
        persistent = (bench_persistent_workers c \<and> 0 < bench_num_workers c),
        prefetch = (if bench_num_workers c = 0 then None else Some (bench_prefetch_factor c)),
        mp_ctx = (if bench_num_workers c = 0 then None else Some (MethodContext (bench_worker_context c)))\<rparr>"
    using ok(1) ctx
    by (auto simp: resolve_workers_def resolve_worker_counts_def bench_options_def resolve_persistence_def resolve_prefetch_def
        resolve_context_def bench_fields_ok_def)
  ultimately show ?thesis by (rule conjI)
qed

theorem bench_options_accepted_witness:
  "check_BenchmarkConfig [''spawn''] (\<lambda>p. True) demo_bench = Return demo_bench \<and>
     post_init [''spawn''] (bench_options demo_bench) = Return ()"
proof -
  have "check_BenchmarkConfig [''spawn''] (\<lambda>p. True) demo_bench = Return demo_bench"
    by (simp add: check_BenchmarkConfig_def bench_fields_ok_def demo_bench_def)
  then show ?thesis using bench_options_accepted [of "[''spawn'']" "\<lambda>p. True" demo_bench]
    by (simp add: demo_bench_def sys_maxsize_def)
qed

text \<open>
  Nothing outlives the benchmark: a rank that joined its process group leaves it last, whatever happened in
  between, only rank zero writes a report and only after a complete result; and the launcher returns normally
  exactly when the session ended with status zero, having sent it \<open>SIGKILL\<close> in every other case.
\<close>

theorem benchmark_closes:
  "(let (events, outcome) = run_rank hexdigest c t env in
     (events = [] \<and> outcome \<noteq> Return ()) \<or>
     (\<exists>backend reports. events = InitGroup backend # reports @ [DestroyGroup] \<and>
       (reports = [] \<or> (top_rank t = 0 \<and> outcome = Return () \<and> (\<exists>result rates. execute hexdigest c t (ge_rank env) = Return result \<and>
          reports = [WriteReport (bench_output c) rates] \<and> length rates = nat (bench_repeats c)))))) \<and>
   (let (killed, outcome) = launch wait kill reap in (outcome = Return () \<longleftrightarrow> wait = Inr 0) \<and> (killed \<longleftrightarrow> wait \<noteq> Inr 0))"
proof
  have topology: "t' = t" if "check_Topology t = Return t'" for t' using that by (auto simp: check_Topology_def split: if_splits)
  have reports: "fst (report_results c t env result) = [] \<or>
      (top_rank t = 0 \<and> snd (report_results c t env result) = Return () \<and>
       (\<exists>rates. fst (report_results c t env result) = [WriteReport (bench_output c) rates] \<and> length rates = nat (bench_repeats c)))" for result
    by (auto simp: report_results_def dest: mapE_length split: sum.splits option.splits)
  show "let (events, outcome) = run_rank hexdigest c t env in
     (events = [] \<and> outcome \<noteq> Return ()) \<or>
     (\<exists>backend reports. events = InitGroup backend # reports @ [DestroyGroup] \<and>
       (reports = [] \<or> (top_rank t = 0 \<and> outcome = Return () \<and> (\<exists>result rates. execute hexdigest c t (ge_rank env) = Return result \<and>
          reports = [WriteReport (bench_output c) rates] \<and> length rates = nat (bench_repeats c)))))"
  proof (cases "execute hexdigest c t (ge_rank env)")
    case (Inl e)
    then show ?thesis by (auto simp: run_rank_def Let_def dest!: topology split: sum.splits option.splits)
  next
    case (Inr result)
    obtain events outcome where r: "report_results c t env result = (events, outcome)" by fastforce
    then show ?thesis using Inr reports [of result]
      by (auto simp: run_rank_def Let_def dest!: topology split: sum.splits option.splits)
  qed
  show "let (killed, outcome) = launch wait kill reap in (outcome = Return () \<longleftrightarrow> wait = Inr 0) \<and> (killed \<longleftrightarrow> wait \<noteq> Inr 0)"
    by (auto simp: launch_def Let_def split: sum.splits)
qed

end
