(* ===== verification/Reader_Bench.thy ===== *)
theory Reader_Bench
  imports Benchmark_Run Runtime "HOL-Library.Product_Lexorder"
begin

text \<open>
  \<open>src/scripts/bench_reader.py\<close>: paired reader measurements. Settings and cases, the fixtures and the identity
  check of the transform, the native control, one measured pass, one trial in its own process, the schedule of
  all trials and the gates computed from them.

  Times and rates are rationals. Clock readings, what the PyTorch loader delivers, process trees, the outcome of a
  child process and hashes are arguments. A Python set is the list of its elements, sorted where the code sorts.
\<close>

section \<open>Cases and settings\<close>

text \<open>The constructors are in the alphabetical order of the strings, which is the order the code sorts by.\<close>

datatype reader_context = Fork | Forkserver | Serial | Spawn

datatype workload = Cheap | Heavy

datatype reader_mode = NativeMode | LoaderMode

fun context_index :: "reader_context \<Rightarrow> nat" where
  "context_index Fork = 0"
| "context_index Forkserver = 1"
| "context_index Serial = 2"
| "context_index Spawn = 3"

fun context_name :: "reader_context \<Rightarrow> string" where
  "context_name Fork = ''fork''"
| "context_name Forkserver = ''forkserver''"
| "context_name Serial = ''serial''"
| "context_name Spawn = ''spawn''"

instantiation reader_context :: linorder
begin

definition less_eq_reader_context :: "reader_context \<Rightarrow> reader_context \<Rightarrow> bool" where
  "a \<le> b \<longleftrightarrow> context_index a \<le> context_index b"

definition less_reader_context :: "reader_context \<Rightarrow> reader_context \<Rightarrow> bool" where
  "a < b \<longleftrightarrow> context_index a < context_index b"

instance
proof
  fix a b :: reader_context
  show "a \<le> b \<Longrightarrow> b \<le> a \<Longrightarrow> a = b" by (cases a; cases b) (simp_all add: less_eq_reader_context_def)
qed (auto simp: less_eq_reader_context_def less_reader_context_def)

end

instantiation workload :: linorder
begin

definition less_eq_workload :: "workload \<Rightarrow> workload \<Rightarrow> bool" where
  "a \<le> b \<longleftrightarrow> a = Cheap \<or> b = Heavy"

definition less_workload :: "workload \<Rightarrow> workload \<Rightarrow> bool" where
  "a < b \<longleftrightarrow> a = Cheap \<and> b = Heavy"

instance
proof
  fix a b c :: workload
  show "(a < b) = (a \<le> b \<and> \<not> b \<le> a)" by (cases a; cases b) (simp_all add: less_eq_workload_def less_workload_def)
  show "a \<le> b \<Longrightarrow> b \<le> c \<Longrightarrow> a \<le> c" by (cases b) (auto simp: less_eq_workload_def)
  show "a \<le> b \<Longrightarrow> b \<le> a \<Longrightarrow> a = b" by (auto simp: less_eq_workload_def)
  show "a \<le> b \<or> b \<le> a" by (cases a; cases b) (simp_all add: less_eq_workload_def)
qed (simp add: less_eq_workload_def, metis workload.exhaust)

end

text \<open>\<open>sorted(set(xs))\<close>.\<close>

definition sorted_set :: "('k :: linorder) list \<Rightarrow> 'k list" where
  "sorted_set xs = sort (remdups xs)"

record ReaderCase =
  case_mode :: reader_mode
  case_workers :: int
  case_context :: reader_context

definition check_ReaderCase :: "ReaderCase \<Rightarrow> ReaderCase exn" where
  "check_ReaderCase k =
     (if case_workers k < 0 then Raise (ValueError ''workers'')
      else if case_mode k = NativeMode \<and> case_workers k \<noteq> 0
      then Raise (ValueError ''native control cannot have loading workers'')
      else if (case_workers k = 0) \<noteq> (case_context k = Serial)
      then Raise (ValueError ''serial context requires zero workers, other contexts require workers'')
      else Return k)"

record ReaderBenchmark =
  rb_samples_per_cache :: int
  rb_caches :: int
  rb_payload_bytes :: int
  rb_metadata_bytes :: int
  rb_transform_rounds :: int
  rb_seed :: int
  rb_batch_size :: int
  rb_native_workers :: int
  rb_prefetch_size :: int
  rb_prefetch_factor :: int
  rb_contexts :: "reader_context list"
  rb_worker_counts :: "int list"
  rb_workloads :: "workload list"
  rb_shuffles :: "bool list"
  rb_repeats :: int
  rb_trial_timeout :: rat
  rb_persistent_workers :: bool
  rb_output :: path
  rb_quiet :: bool

abbreviation rb_total :: "ReaderBenchmark \<Rightarrow> int" where
  "rb_total c \<equiv> rb_samples_per_cache c * rb_caches c"

definition reader_fields_ok :: "ReaderBenchmark \<Rightarrow> bool" where
  "reader_fields_ok c \<longleftrightarrow>
     0 < rb_samples_per_cache c \<and> 0 < rb_caches c \<and> 16 \<le> rb_payload_bytes c \<and> 0 \<le> rb_metadata_bytes c \<and>
     0 \<le> rb_transform_rounds c \<and> 0 \<le> rb_seed c \<and> rb_seed c < 2 ^ 64 \<and> 0 < rb_batch_size c \<and>
     0 < rb_native_workers c \<and> 0 < rb_prefetch_size c \<and> 0 < rb_prefetch_factor c \<and>
     Serial \<notin> set (rb_contexts c) \<and> 0 < rb_repeats c \<and> 0 < rb_trial_timeout c"

definition check_ReaderBenchmark :: "reader_context list \<Rightarrow> ReaderBenchmark \<Rightarrow> ReaderBenchmark exn" where
  "check_ReaderBenchmark start_methods c =
     (if \<not> reader_fields_ok c then Raise (ValueError ''Benchmark'')
      else if rb_total c \<le> rb_batch_size c \<or> rb_total c mod rb_batch_size c \<noteq> 0
      then Raise (ValueError ''total fixture samples must exceed and be divisible by batch_size'')
      else if rb_worker_counts c = [] \<or> list_ex (\<lambda>count. count < 1) (rb_worker_counts c)
      then Raise (ValueError ''worker_counts must contain positive process counts'')
      else if \<not> distinct (rb_worker_counts c) then Raise (ValueError ''worker_counts must be unique'')
      else if rb_contexts c = [] \<or> rb_workloads c = [] \<or> rb_shuffles c = []
      then Raise (ValueError ''contexts, workloads, and shuffles must be nonempty'')
      else if \<not> distinct (rb_contexts c) then Raise (ValueError ''contexts must be unique'')
      else if \<not> distinct (rb_workloads c) \<or> \<not> distinct (rb_shuffles c)
      then Raise (ValueError ''workloads and shuffles must be unique'')
      else case filter (\<lambda>k. k \<notin> set start_methods) (rb_contexts c) of
          [] \<Rightarrow> Return c
        | k # ks \<Rightarrow> Raise (ValueError (''unavailable worker context: '' @ context_name k)))"

definition reader_cases :: "reader_context list \<Rightarrow> int list \<Rightarrow> ReaderCase list exn" where
  "reader_cases contexts worker_counts =
     mapE check_ReaderCase
       (\<lparr>case_mode = NativeMode, case_workers = 0, case_context = Serial\<rparr> #
        \<lparr>case_mode = LoaderMode, case_workers = 0, case_context = Serial\<rparr> #
        concat (map (\<lambda>context. map (\<lambda>workers.
          \<lparr>case_mode = LoaderMode, case_workers = workers, case_context = context\<rparr>) worker_counts) contexts))"

section \<open>Fixtures and the transform\<close>

record ReaderSource =
  rs_name :: string
  rs_cache_position :: int
  rs_samples :: int
  rs_payload_bytes :: int
  rs_metadata_bytes :: int

definition reader_input :: "ReaderSource \<Rightarrow> int \<Rightarrow> fixture exn" where
  "reader_input s index =
     bindE (to_bytes (rs_cache_position s)) (\<lambda>low.
     bindE (to_bytes index) (\<lambda>high.
     let header = low @ high;
         payload = take (nat (rs_payload_bytes s)) (concat (replicate (nat ((rs_payload_bytes s + 15) div 16)) header)) in
     Return \<lparr>fixture_data = payload,
       fixture_metadata = (if rs_metadata_bytes s \<noteq> 0
         then [''index'' \<mapsto> VInt index, ''wide'' \<mapsto> VStr (ljust (str_int index) (rs_metadata_bytes s) CHR ''x'')]
         else [''index'' \<mapsto> VInt index])\<rparr>))"

definition reader_inputs :: "ReaderSource \<Rightarrow> fixture exn list" where
  "reader_inputs s = map (reader_input s) (range_list (rs_samples s))"

record Output =
  out_bytes_read :: int
  out_pid :: int
  out_digest :: "byte list"

text \<open>\<open>Transform.__call__\<close> in process \<open>pid\<close>; a position above the tuple raises \<open>IndexError\<close>.\<close>

definition reader_transform ::
  "(byte list \<Rightarrow> byte list) \<Rightarrow> int \<Rightarrow> int \<Rightarrow> int list \<Rightarrow> fixture CachedSample \<Rightarrow> Output exn" where
  "reader_transform sha256 pid rounds cache_ids sample =
     (let data = fixture_data (sample_value sample); position = from_little_endian (take 8 data) in
      if nat position \<ge> length cache_ids then Raise (IndexError ''tuple index out of range'')
      else if cache_ids ! nat position \<noteq> int (sample_cache_id sample) then Raise (AssertionError [])
      else if from_little_endian (take 8 (drop 8 data)) \<noteq> int (sample_id sample) then Raise (AssertionError [])
      else Return \<lparr>out_bytes_read = int (length data), out_pid = pid, out_digest = (sha256 ^^ nat rounds) (sha256 data)\<rparr>)"

section \<open>One measured pass\<close>

text \<open>What a loader may hand over: a tuple of outputs, or something else.\<close>

datatype batch_value = OutputTuple "Output list" | OtherValue

text \<open>The generator \<open>native_batches\<close>: its batches, up to the exception that ends it.\<close>

fun native_batches :: "int \<Rightarrow> Output exn list \<Rightarrow> Output list \<Rightarrow> batch_value exn list" where
  "native_batches n [] batch = (if batch = [] then [] else [Return (OutputTuple batch)])"
| "native_batches n (Inl e # outputs) batch = [Raise e]"
| "native_batches n (Inr out # outputs) batch =
     (if int (length (batch @ [out])) = n then Return (OutputTuple (batch @ [out])) # native_batches n outputs []
      else native_batches n outputs (batch @ [out]))"

definition checked_batch :: "batch_value \<Rightarrow> Output list exn" where
  "checked_batch value =
     (case value of
        OtherValue \<Rightarrow> Raise (TypeError ''expected a nonempty transformed batch'')
      | OutputTuple outputs \<Rightarrow>
          if outputs = [] then Raise (TypeError ''expected a nonempty transformed batch'')
          else if list_ex (\<lambda>out. length (out_digest out) \<noteq> 32) outputs then Raise (TypeError ''invalid transformed output'')
          else Return outputs)"

record PassMeasurement =
  pm_iterator_seconds :: rat
  pm_first_batch_seconds :: rat
  pm_steady_seconds :: rat
  pm_steady_samples :: int
  pm_accepted :: int
  pm_bytes_read :: int
  pm_transform_pids :: "int list"
  pm_resources :: Resources

definition check_PassMeasurement :: "PassMeasurement \<Rightarrow> PassMeasurement exn" where
  "check_PassMeasurement m =
     (if 0 \<le> pm_iterator_seconds m \<and> 0 \<le> pm_first_batch_seconds m \<and> 0 < pm_steady_seconds m \<and>
         0 < pm_steady_samples m \<and> 0 < pm_accepted m \<and> 0 < pm_bytes_read m
      then Return m else Raise (ValueError ''PassMeasurement''))"

definition fdiv :: "rat \<Rightarrow> rat \<Rightarrow> rat exn" where
  "fdiv a b = (if b = 0 then Raise ZeroDivisionError else Return (a / b))"

definition samples_per_second :: "PassMeasurement \<Rightarrow> rat exn" where
  "samples_per_second m = fdiv (of_int (pm_steady_samples m)) (pm_steady_seconds m)"

text \<open>The clock readings of a pass in their order, and what the observer of the process tree saw.\<close>

record reader_pass_env =
  rp_started :: rat
  rp_created :: rat
  rp_delivered :: rat
  rp_steady_started :: rat
  rp_finished :: rat
  rp_trees :: "member list list"
  rp_observer_stopped :: bool
  rp_final_tree :: "member list"

text \<open>\<open>next(iterator)\<close> and the loop that consumes until the count is reached: accepted, bytes, process ids.\<close>

type_synonym pass_counts = "int \<times> int \<times> int list"

fun next_batch :: "batch_value exn list \<Rightarrow> (Output list \<times> batch_value exn list) exn" where
  "next_batch [] = Raise StopIteration"
| "next_batch (item # items) = bindE item (\<lambda>value. bindE (checked_batch value) (\<lambda>outputs. Return (outputs, items)))"

definition add_batch :: "Output list \<Rightarrow> pass_counts \<Rightarrow> pass_counts" where
  "add_batch outputs tally =
     (case tally of (accepted, bytes, pids) \<Rightarrow>
        (accepted + int (length outputs), bytes + sum_list (map out_bytes_read outputs), pids @ map out_pid outputs))"

fun consume_batches :: "int \<Rightarrow> batch_value exn list \<Rightarrow> pass_counts \<Rightarrow> (pass_counts \<times> batch_value exn list) exn" where
  "consume_batches total_samples [] tally =
     (if fst tally < total_samples then Raise StopIteration else Return (tally, []))"
| "consume_batches total_samples (item # items) tally =
     (if fst tally < total_samples
      then bindE (next_batch (item # items)) (\<lambda>(outputs, rest). consume_batches total_samples items (add_batch outputs tally))
      else Return (tally, item # items))"

text \<open>\<open>next(iterator, ()) == ()\<close>.\<close>

fun nothing_left :: "batch_value exn list \<Rightarrow> unit exn" where
  "nothing_left [] = Return ()"
| "nothing_left (Inl e # items) = Raise e"
| "nothing_left (Inr value # items) =
     (if value = OutputTuple [] then Return () else Raise (AssertionError ''sequential loader emitted extra samples''))"

definition consume_pass ::
  "ReaderBenchmark \<Rightarrow> bool \<Rightarrow> member list \<Rightarrow> batch_value exn list \<Rightarrow> (int \<times> pass_counts \<times> Resources) exn" where
  "consume_pass c shuffle final_tree items =
     bindE (next_batch items) (\<lambda>(first, rest).
     bindE (consume_batches (rb_total c) rest (add_batch first (0, 0, []))) (\<lambda>((accepted, bytes, pids), left).
     if \<not> (accepted = rb_total c \<and> bytes = rb_total c * rb_payload_bytes c) then Raise (AssertionError [])
     else bindE (resource_snapshot final_tree) (\<lambda>final.
       bindE (if shuffle then Return () else nothing_left left) (\<lambda>_.
       Return (int (length first), (accepted, bytes, pids), final)))))"

text \<open>The \<open>finally\<close> block replaces the exception of the body by its own.\<close>

definition reader_measure_pass ::
  "ReaderBenchmark \<Rightarrow> bool \<Rightarrow> reader_pass_env \<Rightarrow> batch_value exn list \<Rightarrow> PassMeasurement exn" where
  "reader_measure_pass c shuffle env items =
     (let body = consume_pass c shuffle (rp_final_tree env) items;
          (peak, failure) = observer_run no_resources (rp_trees env) in
      if \<not> rp_observer_stopped env then Raise (AssertionError ''resource observer did not stop'')
      else if failure \<noteq> None then Raise (RuntimeError ''resource observer failed'')
      else bindE body (\<lambda>(first, (accepted, bytes, pids), final).
        check_PassMeasurement
          \<lparr>pm_iterator_seconds = rp_created env - rp_started env, pm_first_batch_seconds = rp_delivered env - rp_started env,
           pm_steady_seconds = rp_finished env - rp_steady_started env, pm_steady_samples = accepted - first,
           pm_accepted = accepted, pm_bytes_read = bytes, pm_transform_pids = sorted_set pids,
           pm_resources = combine_resources peak final\<rparr>))"

section \<open>One trial\<close>

record TrialSpec =
  spec_config :: ReaderBenchmark
  spec_paths :: "path list"
  spec_case :: ReaderCase
  spec_shuffle :: bool
  spec_workload :: workload
  spec_pair :: int

record TrialResult =
  tr_case :: ReaderCase
  tr_shuffle :: bool
  tr_workload :: workload
  tr_pair :: int
  tr_construction_seconds :: rat
  tr_cold :: PassMeasurement
  tr_warm :: PassMeasurement
  tr_cleanup_seconds :: rat

definition trial_options :: "TrialSpec \<Rightarrow> LoaderOptions" where
  "trial_options spec =
     (let c = spec_config spec; workers = case_workers (spec_case spec) in
      \<lparr>opt_shuffle = VBool (spec_shuffle spec),
       opt_seed = (if spec_shuffle spec then VInt (rb_seed c) else VStr ''random''),
       opt_samples_per_epoch = VInt (rb_total c),
       opt_partition = VStr (if spec_shuffle spec then ''replicate'' else ''split''),
       opt_batch_size = VInt (rb_batch_size c),
       opt_num_workers = VInt workers,
       opt_native_num_workers = VInt (rb_native_workers c),
       opt_drop_last = VBool False,
       opt_pin_memory = VBool False,
       opt_persistent_workers = VBool (rb_persistent_workers c \<and> workers > 0),
       opt_timeout = VInt 0,
       opt_context = VStr (context_name (if case_context (spec_case spec) = Serial then Spawn else case_context (spec_case spec))),
       opt_prefetch = (if workers \<noteq> 0 then VInt (rb_prefetch_factor c) else VStr ''auto''),
       opt_verbose = VBool (\<not> rb_quiet c)\<rparr>)"

text \<open>
  What a trial process meets: its platform and file system, the PyTorch constructor, whose result delivers the
  batches of each pass, the cache identities in the manifests, and the clock.
\<close>

record trial_env =
  te_platform :: "(fixture, string) platform"
  te_fs :: "string metadata_row fs"
  te_torch :: "dataloader_args \<Rightarrow> (fixture, string, Output) ReaderAdapter \<Rightarrow> (nat \<Rightarrow> batch_value exn list) exn"
  te_sha256 :: "byte list \<Rightarrow> byte list"
  te_manifest :: "path \<Rightarrow> int exn"
  te_started :: rat
  te_constructed :: rat
  te_pass :: "nat \<Rightarrow> reader_pass_env"
  te_children_stopped :: bool
  te_cleanup_started :: rat
  te_cleanup_ended :: rat

text \<open>\<open>assert next(iter(dataset)).data\<close>, with the dataset whose cursors the window has advanced.\<close>

definition warm_dataset :: "rng \<Rightarrow> (fixture, string) CachedDataset \<Rightarrow> (fixture, string) CachedDataset exn" where
  "warm_dataset g ds =
     bindE (ds_iter g ds) (\<lambda>(window, ds').
     case window of
       [] \<Rightarrow> Raise StopIteration
     | x # xs \<Rightarrow> bindE x (\<lambda>sample. if fixture_data (sample_value sample) = [] then Raise (AssertionError []) else Return ds'))"

text \<open>The batches of a pass of the native control, with the advanced dataset; opening may raise at the first batch.\<close>

definition native_pass ::
  "rng \<Rightarrow> (fixture CachedSample \<Rightarrow> Output exn) \<Rightarrow> int \<Rightarrow> (fixture, string) CachedDataset \<Rightarrow>
   batch_value exn list \<times> (fixture, string) CachedDataset" where
  "native_pass g transform_fn n ds =
     (case ds_iter g ds of
        Inl e \<Rightarrow> ([Raise e], ds)
      | Inr (window, ds') \<Rightarrow> (native_batches n (map (\<lambda>x. bindE x transform_fn) window) [], ds'))"

definition check_pids :: "TrialSpec \<Rightarrow> int \<Rightarrow> PassMeasurement \<Rightarrow> PassMeasurement \<Rightarrow> unit exn" where
  "check_pids spec pid cold warm =
     (let c = spec_config spec; workers = case_workers (spec_case spec) in
      if workers = 0
      then if pm_transform_pids cold = pm_transform_pids warm \<and> pm_transform_pids warm = [pid]
        then Return () else Raise (AssertionError [])
      else bindE (py_div (rb_total c) (rb_batch_size c)) (\<lambda>batches.
        let active = min workers batches in
        if \<not> (int (length (pm_transform_pids cold)) = active \<and> int (length (pm_transform_pids warm)) = active)
        then Raise (AssertionError [])
        else if pid \<in> set (pm_transform_pids cold @ pm_transform_pids warm) then Raise (AssertionError [])
        else if rb_persistent_workers c \<and> pm_transform_pids cold \<noteq> pm_transform_pids warm then Raise (AssertionError [])
        else Return ()))"

definition measure_trial :: "trial_env \<Rightarrow> TrialSpec \<Rightarrow> TrialResult exn" where
  "measure_trial env spec =
     (let c = spec_config spec; pf = te_platform env; g = pf_rng pf in
      bindE (new_runtime (rb_native_workers c)) (\<lambda>runtime.
      bindE (derive_seed (rb_seed c) 0 0) (\<lambda>seed.
      bindE (check_ReaderConfig \<lparr>reader_seed_value = seed, prefetch_size = rb_prefetch_size c,
               reader_shuffle = spec_shuffle spec, validate_cache = False\<rparr>) (\<lambda>reader_config.
      bindE (cached_dataset (pf_load_caches pf) (pf_resolve pf) runtime (spec_paths spec) reader_config) (\<lambda>ds0.
      bindE (warm_dataset g ds0) (\<lambda>ds1.
      bindE (set_epoch_len ds1 (rb_total c)) (\<lambda>ds.
      bindE (mapE (te_manifest env) (spec_paths spec)) (\<lambda>cache_ids.
      let transform_fn = reader_transform (te_sha256 env) (pf_pid pf)
            (if spec_workload spec = Heavy then rb_transform_rounds c else 0) cache_ids in
      bindE (if case_mode (spec_case spec) = LoaderMode
             then bindE (snd (to_torch_dataloader pf (te_torch env) (te_fs env) ds
                    \<lparr>call_options = trial_options spec, call_transform = Some transform_fn, call_picklable = True,
                     call_work_dir = None, call_kwargs = []\<rparr>)) (\<lambda>(loader, rest). Return loader)
             else Return (\<lambda>k. [])) (\<lambda>loader.
      let (cold_native, ds2) = native_pass g transform_fn (rb_batch_size c) ds;
          (warm_native, ds3) = native_pass g transform_fn (rb_batch_size c) ds2;
          native = (case_mode (spec_case spec) = NativeMode) in
      bindE (reader_measure_pass c (spec_shuffle spec) (te_pass env 0) (if native then cold_native else loader 0)) (\<lambda>cold.
      bindE (reader_measure_pass c (spec_shuffle spec) (te_pass env 1) (if native then warm_native else loader 1)) (\<lambda>warm.
      bindE (check_pids spec (pf_pid pf) cold warm) (\<lambda>_.
      if \<not> te_children_stopped env then Raise (AssertionError ''loading worker survived trial cleanup'')
      else Return \<lparr>tr_case = spec_case spec, tr_shuffle = spec_shuffle spec, tr_workload = spec_workload spec,
        tr_pair = spec_pair spec, tr_construction_seconds = te_constructed env - te_started env, tr_cold = cold,
        tr_warm = warm, tr_cleanup_seconds = te_cleanup_ended env - te_cleanup_started env\<rparr>))))))))))))"

text \<open>
  \<open>run_trial\<close> in the parent. The child is its own session; \<open>communicate\<close> is the exception of the wait if any
  (a timeout, an interrupt), \<open>kill\<close> and \<open>reap\<close> those of \<open>terminate_trial\<close>. An exception in the child is a
  nonzero status, a result its JSON output. The first component says whether the session was sent \<open>SIGKILL\<close>.
\<close>

record trial_wait =
  tw_communicate :: "py_error option"
  tw_kill :: "py_error option"
  tw_reap :: "py_error option"

definition terminate_trial :: "trial_wait \<Rightarrow> unit exn" where
  "terminate_trial w = (case tw_kill w of Some e \<Rightarrow> Raise e | None \<Rightarrow> (case tw_reap w of Some e \<Rightarrow> Raise e | None \<Rightarrow> Return ()))"

definition run_trial :: "(TrialSpec \<Rightarrow> trial_wait) \<Rightarrow> (TrialSpec \<Rightarrow> trial_env) \<Rightarrow> TrialSpec \<Rightarrow> bool \<times> TrialResult exn" where
  "run_trial wait env spec =
     (case tw_communicate (wait spec) of
        Some e \<Rightarrow> (True, bindE (terminate_trial (wait spec)) (\<lambda>_. Raise e))
      | None \<Rightarrow>
          (case measure_trial (env spec) spec of
             Inl e \<Rightarrow> (True, bindE (terminate_trial (wait spec)) (\<lambda>_. Raise (RuntimeError ''benchmark trial failed'')))
           | Inr result \<Rightarrow> (False, Return result)))"

definition fixture_of :: "ReaderBenchmark \<Rightarrow> ReaderSource source list" where
  "fixture_of c = map (\<lambda>index. let name = ''cache-'' @ str_int index in
     \<lparr>src_name = Inr name, src_body = \<lparr>rs_name = name, rs_cache_position = index, rs_samples = rb_samples_per_cache c,
      rs_payload_bytes = rb_payload_bytes c, rs_metadata_bytes = rb_metadata_bytes c\<rparr>\<rparr>) (range_list (rb_caches c))"

text \<open>\<open>create_fixture\<close>: all paths, or the exception of the first error outcome.\<close>

fun fixture_paths :: "CacheWriteResult list \<Rightarrow> raised + path list" where
  "fixture_paths [] = Inr []"
| "fixture_paths (CacheWriteSuccess name p # outcomes) =
     (case fixture_paths outcomes of Inl e \<Rightarrow> Inl e | Inr ps \<Rightarrow> Inr (p # ps))"
| "fixture_paths (CacheWriteError name message # outcomes) = Inl (raised_of (RuntimeError message))"

definition create_fixture ::
  "unicode \<Rightarrow> ReaderSource native_writer \<Rightarrow> write_env \<Rightarrow> ReaderBenchmark \<Rightarrow> path \<Rightarrow> (raised + path list) option" where
  "create_fixture u native env c directory =
     (case new_runtime (rb_native_workers c) of
        Inl e \<Rightarrow> Some (Inl (raised_of e))
      | Inr runtime \<Rightarrow>
          map_option (\<lambda>outcome. case outcome of Inl e \<Rightarrow> Inl e | Inr outcomes \<Rightarrow> fixture_paths outcomes)
            (write_cache u native env runtime (fixture_of c) directory (DEFAULT_WRITER_CONFIG\<lparr>show_progress := False\<rparr>)))"

section \<open>Gates and the report\<close>

definition statistics_median :: "rat list \<Rightarrow> rat exn" where
  "statistics_median data =
     (let xs = sort data; n = length xs in
      if n = 0 then Raise StatisticsError
      else if odd n then Return (xs ! (n div 2))
      else Return ((xs ! (n div 2 - 1) + xs ! (n div 2)) / 2))"

datatype gate_metric = FourWorkerSpeedup | SerialRegression

record Gate =
  gate_shuffle :: bool
  gate_workload :: workload
  gate_metric :: gate_metric
  gate_context :: reader_context
  gate_ratios :: "rat list"
  gate_median :: rat
  gate_threshold :: rat
  gate_sufficient :: bool
  gate_passed :: bool

text \<open>The dictionaries from pairs to trials; a later trial of the same pair replaces an earlier one.\<close>

definition trial_table :: "TrialResult list \<Rightarrow> int \<Rightarrow> TrialResult option" where
  "trial_table trials = map_of (rev (map (\<lambda>t. (tr_pair t, t)) trials))"

definition trial_pairs :: "TrialResult list \<Rightarrow> int list" where
  "trial_pairs trials = sorted_set (map tr_pair trials)"

definition pair_rate :: "TrialResult list \<Rightarrow> int \<Rightarrow> rat exn" where
  "pair_rate trials p =
     (case trial_table trials p of None \<Rightarrow> Raise (KeyError (str_int p)) | Some t \<Rightarrow> samples_per_second (tr_warm t))"

definition paired_ratios :: "TrialResult list \<Rightarrow> TrialResult list \<Rightarrow> int list \<Rightarrow> rat list exn" where
  "paired_ratios numerators denominators pairs =
     mapE (\<lambda>p. bindE (pair_rate numerators p) (\<lambda>a. bindE (pair_rate denominators p) (\<lambda>b. fdiv a b))) pairs"

definition serial_gate :: "workload \<Rightarrow> bool \<Rightarrow> TrialResult list \<Rightarrow> TrialResult list \<Rightarrow> Gate exn" where
  "serial_gate w shuffle native serial_trials =
     bindE (paired_ratios native serial_trials (trial_pairs native)) (\<lambda>quotients.
     let ratios = map (\<lambda>q. q - 1) quotients in
     bindE (statistics_median ratios) (\<lambda>median.
     Return \<lparr>gate_shuffle = shuffle, gate_workload = w, gate_metric = SerialRegression, gate_context = Serial,
       gate_ratios = ratios, gate_median = median, gate_threshold = 1 / 10, gate_sufficient = 5 \<le> length ratios,
       gate_passed = (5 \<le> length ratios \<and> median \<le> 1 / 10)\<rparr>))"

definition speedup_gate :: "workload \<Rightarrow> bool \<Rightarrow> TrialResult list \<Rightarrow> TrialResult list \<Rightarrow> reader_context \<Rightarrow> Gate exn" where
  "speedup_gate w shuffle selected serial_trials context =
     (let parallel = filter (\<lambda>t. case_workers (tr_case t) = 4 \<and> case_context (tr_case t) = context) selected in
      bindE (paired_ratios parallel serial_trials (trial_pairs serial_trials)) (\<lambda>ratios.
      bindE (statistics_median ratios) (\<lambda>median.
      Return \<lparr>gate_shuffle = shuffle, gate_workload = w, gate_metric = FourWorkerSpeedup, gate_context = context,
        gate_ratios = ratios, gate_median = median, gate_threshold = 2, gate_sufficient = 5 \<le> length ratios,
        gate_passed = (5 \<le> length ratios \<and> 2 \<le> median)\<rparr>)))"

definition group_gates :: "TrialResult list \<Rightarrow> workload \<times> bool \<Rightarrow> Gate list exn" where
  "group_gates trials chosen =
     (case chosen of (w, shuffle) \<Rightarrow>
      let selected = filter (\<lambda>t. tr_workload t = w \<and> tr_shuffle t = shuffle) trials;
          native = filter (\<lambda>t. case_mode (tr_case t) = NativeMode) selected;
          serial_trials = filter (\<lambda>t. case_mode (tr_case t) = LoaderMode \<and> case_workers (tr_case t) = 0) selected in
      bindE (serial_gate w shuffle native serial_trials) (\<lambda>gate.
      if w \<noteq> Heavy then Return [gate]
      else bindE (mapE (speedup_gate w shuffle selected serial_trials)
               (sorted_set (map (case_context \<circ> tr_case) (filter (\<lambda>t. case_workers (tr_case t) = 4) selected)))) (\<lambda>gates.
        Return (gate # gates))))"

definition performance_gates :: "TrialResult list \<Rightarrow> Gate list exn" where
  "performance_gates trials =
     bindE (mapE (group_gates trials) (sorted_set (map (\<lambda>t. (tr_workload t, tr_shuffle t)) trials))) (\<lambda>gates. Return (concat gates))"

definition reader_files :: "string list" where
  "reader_files = [''dataset_rt/dataset.py'', ''dataset_rt/integrations/loader.py'', ''dataset_rt/integrations/loading.py'',
     ''dataset_rt/config.py'', ''dataset_rt/runtime.py'', ''dataset_rt/reconstruction.py'']"

definition reader_fingerprint :: "(byte list \<Rightarrow> string) \<Rightarrow> (string \<Rightarrow> byte list) \<Rightarrow> string" where
  "reader_fingerprint hexdigest files = hexdigest (concat (map (\<lambda>relative. Benchmark_Run.encode relative @ files relative) reader_files))"

text \<open>The schedule: the cases of each round start at another one.\<close>

definition rotated :: "'k list \<Rightarrow> nat \<Rightarrow> 'k list" where
  "rotated cases offset = drop offset cases @ take offset cases"

definition trial_specs :: "ReaderBenchmark \<Rightarrow> path list \<Rightarrow> ReaderCase list \<Rightarrow> TrialSpec list" where
  "trial_specs c paths cases =
     concat (map (\<lambda>w. concat (map (\<lambda>shuffle. concat (map (\<lambda>pair. map (\<lambda>k.
       \<lparr>spec_config = c, spec_paths = paths, spec_case = k, spec_shuffle = shuffle, spec_workload = w, spec_pair = pair\<rparr>)
       (rotated cases (nat pair mod length cases))) (range_list (rb_repeats c)))) (rb_shuffles c))) (rb_workloads c))"

record ReaderReport =
  report_settings :: ReaderBenchmark
  report_trials :: "TrialResult list"
  report_gates :: "Gate list"

text \<open>
  \<open>run_benchmark\<close>. \<open>run\<close> is the result of \<open>run_trial\<close>; \<open>files\<close> and \<open>script\<close> are the sources before and after
  the measurement. The description of the machine in the report is not modelled.
\<close>

definition run_benchmark ::
  "(TrialSpec \<Rightarrow> TrialResult exn) \<Rightarrow> (byte list \<Rightarrow> string) \<Rightarrow> (bool \<Rightarrow> string \<Rightarrow> byte list) \<Rightarrow> (bool \<Rightarrow> byte list) \<Rightarrow>
   unicode \<Rightarrow> ReaderSource native_writer \<Rightarrow> write_env \<Rightarrow> path \<Rightarrow> ReaderBenchmark \<Rightarrow> (raised + ReaderReport) option" where
  "run_benchmark run hexdigest files script u native env directory c =
     (case reader_cases (rb_contexts c) (rb_worker_counts c) of
        Inl e \<Rightarrow> Some (Inl (raised_of e))
      | Inr cases \<Rightarrow>
          (case create_fixture u native env c directory of
             None \<Rightarrow> None
           | Some (Inl e) \<Rightarrow> Some (Inl e)
           | Some (Inr paths) \<Rightarrow>
               Some (raised_exn (bindE (mapE run (trial_specs c paths cases)) (\<lambda>trials.
                 if reader_fingerprint hexdigest (files True) \<noteq> reader_fingerprint hexdigest (files False)
                 then Raise (RuntimeError ''reader code changed during benchmark; repeat with one consistent revision'')
                 else if hexdigest (script True) \<noteq> hexdigest (script False)
                 then Raise (RuntimeError ''benchmark code changed during measurement; repeat with one revision'')
                 else bindE (performance_gates trials) (\<lambda>gates.
                   Return \<lparr>report_settings = c, report_trials = trials, report_gates = gates\<rparr>))))))"

section \<open>The schedule\<close>

type_synonym trial_key = "workload \<times> bool \<times> int \<times> ReaderCase"

definition trial_key :: "TrialResult \<Rightarrow> trial_key" where
  "trial_key t = (tr_workload t, tr_shuffle t, tr_pair t, tr_case t)"

definition spec_key :: "TrialSpec \<Rightarrow> trial_key" where
  "spec_key spec = (spec_workload spec, spec_shuffle spec, spec_pair spec, spec_case spec)"

lemma set_rotated [simp]: "set (rotated ks n) = set ks"
  by (metis Un_commute append_take_drop_id rotated_def set_append)

lemma distinct_rotated [simp]: "distinct (rotated ks n) \<longleftrightarrow> distinct ks"
  unfolding rotated_def by (metis append_take_drop_id distinct_append inf_commute)

lemma length_rotated [simp]: "length (rotated ks n) = length ks"
  by (simp add: rotated_def)

lemma spec_keys:
  "set (map spec_key (trial_specs c paths cases)) =
     set (rb_workloads c) \<times> set (rb_shuffles c) \<times> {0..<rb_repeats c} \<times> set cases"
  by (fastforce simp: trial_specs_def spec_key_def image_iff)

lemma distinct_concat_map:
  assumes "distinct xs" "\<And>x. x \<in> set xs \<Longrightarrow> distinct (map key (f x))"
    and "\<And>x y. x \<in> set xs \<Longrightarrow> y \<in> set xs \<Longrightarrow> x \<noteq> y \<Longrightarrow> key ` set (f x) \<inter> key ` set (f y) = {}"
  shows "distinct (map key (concat (map f xs)))"
  using assms by (induction xs) (fastforce simp: map_concat)+

lemma spec_keys_distinct:
  assumes "distinct (rb_workloads c)" "distinct (rb_shuffles c)" "distinct cases"
  shows "distinct (map spec_key (trial_specs c paths cases))"
proof -
  have "distinct (range_list n)" for n by (simp add: range_list_def distinct_map)
  then show ?thesis unfolding trial_specs_def using assms
    by (intro distinct_concat_map) (auto simp: spec_key_def distinct_map inj_on_def)
qed

abbreviation native_case :: ReaderCase where
  "native_case \<equiv> \<lparr>case_mode = NativeMode, case_workers = 0, case_context = Serial\<rparr>"

abbreviation serial_case :: ReaderCase where
  "serial_case \<equiv> \<lparr>case_mode = LoaderMode, case_workers = 0, case_context = Serial\<rparr>"

abbreviation loader_case :: "int \<Rightarrow> reader_context \<Rightarrow> ReaderCase" where
  "loader_case workers context \<equiv> \<lparr>case_mode = LoaderMode, case_workers = workers, case_context = context\<rparr>"

lemma settings_facts:
  assumes "check_ReaderBenchmark methods c = Return c'"
  shows "reader_fields_ok c" "distinct (rb_workloads c)" "distinct (rb_shuffles c)" "distinct (rb_contexts c)" "distinct (rb_worker_counts c)"
    "\<forall>n\<in>set (rb_worker_counts c). 1 \<le> n" "Serial \<notin> set (rb_contexts c)" "0 < rb_repeats c"
    "rb_batch_size c < rb_total c" "rb_total c mod rb_batch_size c = 0" "0 < rb_batch_size c"
  using assms by (auto simp: check_ReaderBenchmark_def reader_fields_ok_def list_ex_iff not_less split: if_splits list.splits)

text \<open>All cases of valid settings are valid, and no case occurs twice.\<close>

lemma reader_cases_Return:
  assumes "check_ReaderBenchmark methods c = Return c'"
  shows "\<exists>cases. reader_cases (rb_contexts c) (rb_worker_counts c) = Return cases \<and> distinct cases \<and>
    set cases = {native_case, serial_case} \<union> {loader_case n k | n k. n \<in> set (rb_worker_counts c) \<and> k \<in> set (rb_contexts c)}"
proof -
  note facts = settings_facts [OF assms]
  let ?loaders = "concat (map (\<lambda>context. map (\<lambda>workers. loader_case workers context) (rb_worker_counts c)) (rb_contexts c))"
  have "distinct ?loaders"
    using distinct_concat_map [of "rb_contexts c" id "\<lambda>context. map (\<lambda>workers. loader_case workers context) (rb_worker_counts c)"] facts
    by (auto simp: distinct_map inj_on_def)
  moreover have good: "check_ReaderCase k = Return k" "case_workers k \<noteq> 0" if "k \<in> set ?loaders" for k
    using facts(6,7) that by (fastforce simp: check_ReaderCase_def)+
  moreover have "mapE check_ReaderCase (native_case # serial_case # ?loaders) = Return (map id (native_case # serial_case # ?loaders))"
    unfolding id_def by (intro mapE_Return) (use good(1) in \<open>auto simp: check_ReaderCase_def [of native_case] check_ReaderCase_def [of serial_case] simp del: set_concat\<close>)
  moreover have "native_case \<notin> set ?loaders" "serial_case \<notin> set ?loaders"
    using good(2) [of native_case] good(2) [of serial_case] by auto
  ultimately have "reader_cases (rb_contexts c) (rb_worker_counts c) = Return (native_case # serial_case # ?loaders)"
      "distinct (native_case # serial_case # ?loaders)"
    unfolding reader_cases_def by (simp_all del: mapE.simps)
  then show ?thesis by (intro exI [of _ "native_case # serial_case # ?loaders"]) auto
qed

section \<open>Complete measurements\<close>

lemma set_sorted_set [simp]: "set (sorted_set xs) = set xs"
  by (simp add: sorted_set_def)

lemma sorted_set_eq: "sorted ys \<Longrightarrow> distinct ys \<Longrightarrow> set xs = set ys \<Longrightarrow> sorted_set xs = ys"
  by (simp add: sorted_set_def sorted_distinct_set_unique)

lemma range_list_sorted: "sorted (range_list n)" "distinct (range_list n)"
  by (auto simp: range_list_def sorted_map distinct_map intro: sorted_wrt_mono_rel [OF _ sorted_upt])

definition complete_trials :: "ReaderBenchmark \<Rightarrow> ReaderCase list \<Rightarrow> TrialResult list \<Rightarrow> bool" where
  "complete_trials c cases trials \<longleftrightarrow> distinct (map trial_key trials) \<and>
     set (map trial_key trials) = set (rb_workloads c) \<times> set (rb_shuffles c) \<times> {0..<rb_repeats c} \<times> set cases \<and>
     (\<forall>t\<in>set trials. 0 < pm_steady_seconds (tr_warm t) \<and> 0 < pm_steady_samples (tr_warm t))"

text \<open>The warm rate of the trial with a key.\<close>

definition measured_rate :: "TrialResult list \<Rightarrow> trial_key \<Rightarrow> rat" where
  "measured_rate trials key =
     (case find (\<lambda>t. trial_key t = key) trials of
        None \<Rightarrow> 0
      | Some t \<Rightarrow> of_int (pm_steady_samples (tr_warm t)) / pm_steady_seconds (tr_warm t))"

lemma find_by_key: "distinct (map key xs) \<Longrightarrow> x \<in> set xs \<Longrightarrow> find (\<lambda>y. key y = key x) xs = Some x"
  by (induction xs) (auto simp: image_iff)

lemma measured_rate_at:
  assumes "complete_trials c cases trials" "t \<in> set trials"
  shows "samples_per_second (tr_warm t) = Return (measured_rate trials (trial_key t))" "0 < measured_rate trials (trial_key t)"
proof -
  have "find (\<lambda>u. trial_key u = trial_key t) trials = Some t"
    using assms by (intro find_by_key) (auto simp: complete_trials_def)
  then show "samples_per_second (tr_warm t) = Return (measured_rate trials (trial_key t))" "0 < measured_rate trials (trial_key t)"
    using assms by (auto simp: measured_rate_def complete_trials_def samples_per_second_def fdiv_def)
qed

text \<open>The trials of one case in one group: one per round.\<close>

lemma one_case:
  assumes ok: "complete_trials c cases trials" and "w \<in> set (rb_workloads c)" "s \<in> set (rb_shuffles c)" "k \<in> set cases"
    and only: "\<And>k'. k' \<in> set cases \<Longrightarrow> P k' \<longleftrightarrow> k' = k"
  defines "chosen \<equiv> filter (\<lambda>t. P (tr_case t)) (filter (\<lambda>t. tr_workload t = w \<and> tr_shuffle t = s) trials)"
  shows "trial_pairs chosen = range_list (rb_repeats c)"
    "p \<in> {0..<rb_repeats c} \<Longrightarrow> pair_rate chosen p = Return (measured_rate trials (w, s, p, k)) \<and> 0 < measured_rate trials (w, s, p, k)"
proof -
  have keys: "trial_key ` set trials = set (rb_workloads c) \<times> set (rb_shuffles c) \<times> {0..<rb_repeats c} \<times> set cases"
    using ok by (simp add: complete_trials_def)
  have "P (tr_case t) \<longleftrightarrow> tr_case t = k" if "t \<in> set trials" for t
  proof -
    have "trial_key t \<in> trial_key ` set trials" using that by simp
    then show ?thesis unfolding keys using only by (simp add: trial_key_def)
  qed
  then have member: "t \<in> set chosen \<longleftrightarrow> t \<in> set trials \<and> trial_key t = (w, s, tr_pair t, k)" for t
    by (auto simp: chosen_def trial_key_def)
  have pairs: "tr_pair ` set chosen = {0..<rb_repeats c}"
  proof
    show "tr_pair ` set chosen \<subseteq> {0..<rb_repeats c}"
    proof
      fix p assume "p \<in> tr_pair ` set chosen"
      then obtain t where t: "t \<in> set trials" "p = tr_pair t" using member by blast
      then have "trial_key t \<in> trial_key ` set trials" by simp
      then show "p \<in> {0..<rb_repeats c}" unfolding keys using t(2) by (simp add: trial_key_def)
    qed
    show "{0..<rb_repeats c} \<subseteq> tr_pair ` set chosen"
    proof
      fix p assume "p \<in> {0..<rb_repeats c}"
      then have "(w, s, p, k) \<in> trial_key ` set trials" using keys assms(2-4) by simp
      then obtain t where "t \<in> set trials" "trial_key t = (w, s, p, k)" by (metis imageE)
      moreover from this have "tr_pair t = p" by (simp add: trial_key_def)
      ultimately show "p \<in> tr_pair ` set chosen" using member [of t] by (metis imageI)
    qed
  qed
  then show "trial_pairs chosen = range_list (rb_repeats c)"
    unfolding trial_pairs_def by (intro sorted_set_eq range_list_sorted) simp
  show "pair_rate chosen p = Return (measured_rate trials (w, s, p, k)) \<and> 0 < measured_rate trials (w, s, p, k)"
    if p: "p \<in> {0..<rb_repeats c}"
  proof -
    let ?rows = "rev (map (\<lambda>t. (tr_pair t, t)) chosen)"
    have "p \<in> fst ` set ?rows" using p pairs by (auto simp: image_image)
    then obtain t where t: "map_of ?rows p = Some t" by (metis map_of_eq_None_iff option.exhaust)
    then have "t \<in> set chosen" "tr_pair t = p" using map_of_SomeD [OF t] by auto
    then have "t \<in> set trials" "trial_key t = (w, s, p, k)" using member by auto
    then show ?thesis using measured_rate_at [OF ok, of t] t by (auto simp: pair_rate_def trial_table_def)
  qed
qed

lemma paired_ratios_ok:
  assumes "\<And>p. p \<in> {0..<n} \<Longrightarrow> pair_rate xs p = Return (f p)" "\<And>p. p \<in> {0..<n} \<Longrightarrow> pair_rate ys p = Return (g p) \<and> 0 < g p"
  shows "paired_ratios xs ys (range_list n) = Return (map (\<lambda>p. f p / g p) (range_list n))"
  unfolding paired_ratios_def using assms by (intro mapE_Return) (fastforce simp: fdiv_def)

lemma statistics_median_Return: "xs \<noteq> [] \<Longrightarrow> \<exists>m. statistics_median xs = Return m"
  by (cases "statistics_median xs"; cases "sort xs = []")
    (auto simp: statistics_median_def Let_def split: if_splits dest: arg_cong [of _ _ length])

text \<open>What a gate of a complete measurement says: one ratio per round, their median, and the verdict.\<close>

definition round_ratio :: "TrialResult list \<Rightarrow> Gate \<Rightarrow> int \<Rightarrow> rat" where
  "round_ratio trials gate p =
     (let rate = (\<lambda>k. measured_rate trials (gate_workload gate, gate_shuffle gate, p, k)) in
      case gate_metric gate of
        SerialRegression \<Rightarrow> rate native_case / rate serial_case - 1
      | FourWorkerSpeedup \<Rightarrow> rate (loader_case 4 (gate_context gate)) / rate serial_case)"

definition gate_sound :: "ReaderBenchmark \<Rightarrow> TrialResult list \<Rightarrow> Gate \<Rightarrow> bool" where
  "gate_sound c trials gate \<longleftrightarrow>
     gate_ratios gate = map (round_ratio trials gate) (range_list (rb_repeats c)) \<and>
     statistics_median (gate_ratios gate) = Return (gate_median gate) \<and>
     (gate_passed gate \<longleftrightarrow> 5 \<le> rb_repeats c \<and>
       (case gate_metric gate of SerialRegression \<Rightarrow> gate_median gate \<le> 1 / 10 | FourWorkerSpeedup \<Rightarrow> 2 \<le> gate_median gate))"

type_synonym gate_label = "workload \<times> bool \<times> gate_metric \<times> reader_context"

definition gate_label :: "Gate \<Rightarrow> gate_label" where
  "gate_label gate = (gate_workload gate, gate_shuffle gate, gate_metric gate, gate_context gate)"

definition group_labels :: "ReaderBenchmark \<Rightarrow> workload \<times> bool \<Rightarrow> gate_label list" where
  "group_labels c chosen =
     (case chosen of (w, s) \<Rightarrow> (w, s, SerialRegression, Serial) #
        (if w = Heavy \<and> 4 \<in> set (rb_worker_counts c) then map (\<lambda>k. (w, s, FourWorkerSpeedup, k)) (sort (rb_contexts c)) else []))"

abbreviation valid_cases :: "ReaderBenchmark \<Rightarrow> ReaderCase list \<Rightarrow> bool" where
  "valid_cases c cases \<equiv> 0 < rb_repeats c \<and> Serial \<notin> set (rb_contexts c) \<and> distinct (rb_contexts c) \<and> (\<forall>n\<in>set (rb_worker_counts c). 1 \<le> n) \<and>
     set cases = {native_case, serial_case} \<union> {loader_case n k | n k. n \<in> set (rb_worker_counts c) \<and> k \<in> set (rb_contexts c)}"

lemma valid_case_tests:
  assumes "valid_cases c cases"
  shows "native_case \<in> set cases" "serial_case \<in> set cases" "k \<in> set cases \<Longrightarrow> case_mode k = NativeMode \<longleftrightarrow> k = native_case"
    "k \<in> set cases \<Longrightarrow> (case_mode k = LoaderMode \<and> case_workers k = 0) \<longleftrightarrow> k = serial_case"
    "k \<in> set cases \<Longrightarrow> (case_workers k = 4 \<and> case_context k = x) \<longleftrightarrow> k = loader_case 4 x"
  using assms by auto

lemma serial_gate_ok:
  assumes ok: "complete_trials c cases trials" and cases: "valid_cases c cases"
    and grp: "w \<in> set (rb_workloads c)" "s \<in> set (rb_shuffles c)"
  defines "selected \<equiv> filter (\<lambda>t. tr_workload t = w \<and> tr_shuffle t = s) trials"
  shows "\<exists>gate. serial_gate w s (filter (\<lambda>t. case_mode (tr_case t) = NativeMode) selected)
      (filter (\<lambda>t. case_mode (tr_case t) = LoaderMode \<and> case_workers (tr_case t) = 0) selected) = Return gate \<and>
    gate_sound c trials gate \<and> gate_label gate = (w, s, SerialRegression, Serial)"
proof -
  note tests = valid_case_tests [OF cases]
  note a = one_case [OF ok grp tests(1,3), folded selected_def] and b = one_case [OF ok grp tests(2,4), folded selected_def]
  let ?rate = "\<lambda>k p. measured_rate trials (w, s, p, k)"
  have q: "paired_ratios (filter (\<lambda>t. case_mode (tr_case t) = NativeMode) selected)
      (filter (\<lambda>t. case_mode (tr_case t) = LoaderMode \<and> case_workers (tr_case t) = 0) selected) (range_list (rb_repeats c)) =
      Return (map (\<lambda>p. ?rate native_case p / ?rate serial_case p) (range_list (rb_repeats c)))"
    using a(2) b(2) by (intro paired_ratios_ok) auto
  let ?ratios = "map (\<lambda>p. ?rate native_case p / ?rate serial_case p - 1) (range_list (rb_repeats c))"
  obtain m where m: "statistics_median ?ratios = Return m"
    using statistics_median_Return [of ?ratios] cases by (auto simp: range_list_def)
  have "5 \<le> nat (rb_repeats c) \<longleftrightarrow> 5 \<le> rb_repeats c" by auto
  then show ?thesis using a(1) q m
    by (simp add: serial_gate_def o_def gate_sound_def round_ratio_def gate_label_def Let_def)
qed

lemma speedup_gate_ok:
  assumes ok: "complete_trials c cases trials" and cases: "valid_cases c cases"
    and grp: "w \<in> set (rb_workloads c)" "s \<in> set (rb_shuffles c)" and k: "4 \<in> set (rb_worker_counts c)" "k \<in> set (rb_contexts c)"
  defines "selected \<equiv> filter (\<lambda>t. tr_workload t = w \<and> tr_shuffle t = s) trials"
  shows "\<exists>gate. speedup_gate w s selected
      (filter (\<lambda>t. case_mode (tr_case t) = LoaderMode \<and> case_workers (tr_case t) = 0) selected) k = Return gate \<and>
    gate_sound c trials gate \<and> gate_label gate = (w, s, FourWorkerSpeedup, k)"
proof -
  note tests = valid_case_tests [OF cases]
  have four: "loader_case 4 k \<in> set cases" using cases k by auto
  note a = one_case [OF ok grp four tests(5), folded selected_def] and b = one_case [OF ok grp tests(2,4), folded selected_def]
  let ?rate = "\<lambda>k p. measured_rate trials (w, s, p, k)"
  let ?ratios = "map (\<lambda>p. ?rate (loader_case 4 k) p / ?rate serial_case p) (range_list (rb_repeats c))"
  have q: "paired_ratios (filter (\<lambda>t. case_workers (tr_case t) = 4 \<and> case_context (tr_case t) = k) selected)
      (filter (\<lambda>t. case_mode (tr_case t) = LoaderMode \<and> case_workers (tr_case t) = 0) selected) (range_list (rb_repeats c)) = Return ?ratios"
    using a(2) b(2) by (intro paired_ratios_ok) auto
  obtain m where m: "statistics_median ?ratios = Return m"
    using statistics_median_Return [of ?ratios] cases by (auto simp: range_list_def)
  have "5 \<le> nat (rb_repeats c) \<longleftrightarrow> 5 \<le> rb_repeats c" by auto
  then show ?thesis using b(1) q m
    by (simp add: speedup_gate_def gate_sound_def round_ratio_def gate_label_def Let_def)
qed

lemma mapE_exists:
  assumes "\<And>x. x \<in> set xs \<Longrightarrow> \<exists>y. f x = Return y \<and> P x y"
  shows "\<exists>ys. mapE f xs = Return ys \<and> list_all2 P xs ys"
  using assms
proof (induction xs)
  case (Cons x xs)
  then obtain y ys where "f x = Return y" "P x y" "mapE f xs = Return ys" "list_all2 P xs ys" by (metis list.set_intros)
  then show ?case by simp
qed simp

lemma group_contexts:
  assumes ok: "complete_trials c cases trials" and cases: "valid_cases c cases"
    and grp: "w \<in> set (rb_workloads c)" "s \<in> set (rb_shuffles c)"
  shows "sorted_set (map (case_context \<circ> tr_case) (filter (\<lambda>t. case_workers (tr_case t) = 4)
      (filter (\<lambda>t. tr_workload t = w \<and> tr_shuffle t = s) trials))) =
    (if 4 \<in> set (rb_worker_counts c) then sort (rb_contexts c) else [])"
proof -
  let ?four = "filter (\<lambda>t. case_workers (tr_case t) = 4) (filter (\<lambda>t. tr_workload t = w \<and> tr_shuffle t = s) trials)"
  have keys: "trial_key ` set trials = set (rb_workloads c) \<times> set (rb_shuffles c) \<times> {0..<rb_repeats c} \<times> set cases"
    using ok by (simp add: complete_trials_def)
  have inside: "4 \<in> set (rb_worker_counts c) \<and> case_context (tr_case t) \<in> set (rb_contexts c)" if "t \<in> set ?four" for t
  proof -
    have "trial_key t \<in> trial_key ` set trials" using that by simp
    then have "tr_case t \<in> set cases" unfolding keys by (simp add: trial_key_def)
    then show ?thesis using that cases by auto
  qed
  have outside: "k \<in> (case_context \<circ> tr_case) ` set ?four" if "4 \<in> set (rb_worker_counts c)" "k \<in> set (rb_contexts c)" for k
  proof -
    have "(w, s, 0, loader_case 4 k) \<in> trial_key ` set trials" unfolding keys using grp cases that by auto
    then obtain t where "t \<in> set trials" "trial_key t = (w, s, 0, loader_case 4 k)" by (metis imageE)
    then show ?thesis by (intro image_eqI [of _ _ t]) (auto simp: trial_key_def)
  qed
  show ?thesis
  proof (cases "4 \<in> set (rb_worker_counts c)")
    case True
    have "(case_context \<circ> tr_case) ` set ?four \<subseteq> set (rb_contexts c)" using inside by (simp add: image_subset_iff)
    moreover have "set (rb_contexts c) \<subseteq> (case_context \<circ> tr_case) ` set ?four" using outside [OF True] by (rule subsetI)
    ultimately have "set (map (case_context \<circ> tr_case) ?four) = set (sort (rb_contexts c))"
      unfolding set_map set_sort by (rule subset_antisym)
    then show ?thesis using True cases by (simp add: sorted_set_eq)
  next
    case False
    then have "?four = []" using inside by (metis last_in_set)
    then show ?thesis using False by (simp add: sorted_set_def)
  qed
qed

lemma group_gates_ok:
  assumes ok: "complete_trials c cases trials" and cases: "valid_cases c cases"
    and grp: "w \<in> set (rb_workloads c)" "s \<in> set (rb_shuffles c)"
  shows "\<exists>gates. group_gates trials (w, s) = Return gates \<and> map gate_label gates = group_labels c (w, s) \<and> list_all (gate_sound c trials) gates"
proof -
  let ?selected = "filter (\<lambda>t. tr_workload t = w \<and> tr_shuffle t = s) trials"
  let ?serial = "filter (\<lambda>t. case_mode (tr_case t) = LoaderMode \<and> case_workers (tr_case t) = 0) ?selected"
  let ?contexts = "if 4 \<in> set (rb_worker_counts c) then sort (rb_contexts c) else []"
  obtain gate where gate: "serial_gate w s (filter (\<lambda>t. case_mode (tr_case t) = NativeMode) ?selected) ?serial = Return gate"
      "gate_sound c trials gate" "gate_label gate = (w, s, SerialRegression, Serial)"
    using serial_gate_ok [OF ok cases grp] by blast
  have "\<exists>gates. mapE (speedup_gate w s ?selected ?serial) ?contexts = Return gates \<and>
      list_all2 (\<lambda>k g. gate_sound c trials g \<and> gate_label g = (w, s, FourWorkerSpeedup, k)) ?contexts gates"
    using speedup_gate_ok [OF ok cases grp] by (intro mapE_exists) (auto split: if_splits)
  then obtain gates where gates: "mapE (speedup_gate w s ?selected ?serial) ?contexts = Return gates"
      "list_all2 (\<lambda>k g. gate_sound c trials g \<and> gate_label g = (w, s, FourWorkerSpeedup, k)) ?contexts gates" by blast
  from gates(2) have labels: "map gate_label gates = map (\<lambda>k. (w, s, FourWorkerSpeedup, k)) ?contexts" "list_all (gate_sound c trials) gates"
    by (auto simp: list_all2_conv_all_nth list_all_length intro!: nth_equalityI)
  show ?thesis
  proof (cases "w = Heavy")
    case True
    have "group_gates trials (w, s) = Return (gate # gates)"
      unfolding group_gates_def Let_def prod.case gate(1) bindE_Return group_contexts [OF ok cases grp] gates(1) using True by simp
    then show ?thesis using True gate labels by (auto simp: group_labels_def)
  next
    case False
    then have "group_gates trials (w, s) = Return [gate]" using gate(1) by (simp add: group_gates_def Let_def del: filter_filter)
    then show ?thesis using False gate by (auto simp: group_labels_def)
  qed
qed

definition gate_groups :: "ReaderBenchmark \<Rightarrow> (workload \<times> bool) list" where
  "gate_groups c = sorted_set (List.product (rb_workloads c) (rb_shuffles c))"

lemma performance_gates_ok:
  assumes ok: "complete_trials c cases trials" and cases: "valid_cases c cases"
  shows "\<exists>gates. performance_gates trials = Return gates \<and>
    map gate_label gates = concat (map (group_labels c) (gate_groups c)) \<and> list_all (gate_sound c trials) gates"
proof -
  have keys: "trial_key ` set trials = set (rb_workloads c) \<times> set (rb_shuffles c) \<times> {0..<rb_repeats c} \<times> set cases"
    using ok by (simp add: complete_trials_def)
  have "(\<lambda>t. (tr_workload t, tr_shuffle t)) ` set trials = (\<lambda>(w, s, p, k). (w, s)) ` trial_key ` set trials"
    by (simp add: image_image trial_key_def)
  also have "\<dots> = set (rb_workloads c) \<times> set (rb_shuffles c)"
    unfolding keys using cases by (force simp: image_iff)
  finally have "sorted_set (map (\<lambda>t. (tr_workload t, tr_shuffle t)) trials) = gate_groups c"
    unfolding gate_groups_def by (intro sorted_set_eq) (simp_all add: sorted_set_def)
  moreover have "\<exists>gs. mapE (group_gates trials) (gate_groups c) = Return gs \<and>
      list_all2 (\<lambda>grp g. map gate_label g = group_labels c grp \<and> list_all (gate_sound c trials) g) (gate_groups c) gs"
  proof (rule mapE_exists)
    fix grp assume "grp \<in> set (gate_groups c)"
    then obtain w s where "grp = (w, s)" "w \<in> set (rb_workloads c)" "s \<in> set (rb_shuffles c)"
      by (auto simp: gate_groups_def)
    then show "\<exists>g. group_gates trials grp = Return g \<and> map gate_label g = group_labels c grp \<and> list_all (gate_sound c trials) g"
      using group_gates_ok [OF ok cases] by simp
  qed
  then obtain gs where gs: "mapE (group_gates trials) (gate_groups c) = Return gs"
      "list_all2 (\<lambda>grp g. map gate_label g = group_labels c grp \<and> list_all (gate_sound c trials) g) (gate_groups c) gs" by blast
  moreover have "map (map gate_label) gs = map (group_labels c) (gate_groups c)" "list_all (list_all (gate_sound c trials)) gs"
    using gs(2) by (auto simp: list_all2_conv_all_nth list_all_length intro!: nth_equalityI)
  ultimately show ?thesis by (auto simp: performance_gates_def map_concat list_all_iff)
qed

section \<open>Trials\<close>

text \<open>What the report relies on of a trial: its result names its specification and has a usable warm pass.\<close>

locale trial_runner =
  fixes run :: "TrialSpec \<Rightarrow> TrialResult exn"
  assumes echo: "run spec = Return t \<Longrightarrow> trial_key t = spec_key spec"
    and usable: "run spec = Return t \<Longrightarrow> 0 < pm_steady_seconds (tr_warm t) \<and> 0 < pm_steady_samples (tr_warm t)"
begin

lemma run_all:
  "mapE run specs = Return trials \<Longrightarrow> map trial_key trials = map spec_key specs \<and>
     (\<forall>t\<in>set trials. 0 < pm_steady_seconds (tr_warm t) \<and> 0 < pm_steady_samples (tr_warm t))"
  by (induction specs arbitrary: trials) (auto simp: exn_simps echo usable)

lemma trials_complete:
  assumes "check_ReaderBenchmark methods c = Return c'" and "distinct cases" and "mapE run (trial_specs c paths cases) = Return trials"
  shows "complete_trials c cases trials"
proof -
  have keys: "map trial_key trials = map spec_key (trial_specs c paths cases)"
    and usable: "\<forall>t\<in>set trials. 0 < pm_steady_seconds (tr_warm t) \<and> 0 < pm_steady_samples (tr_warm t)"
    using run_all [OF assms(3)] by auto
  have "distinct (map spec_key (trial_specs c paths cases))"
    using settings_facts(2,3) [OF assms(1)] assms(2) by (intro spec_keys_distinct)
  then show ?thesis using usable unfolding complete_trials_def keys spec_keys by blast
qed

text \<open>A run whose trials all return ends with a report.\<close>

lemma report_complete:
  assumes check: "check_ReaderBenchmark methods c = Return c'" and fixture: "create_fixture u native env c directory = Some (Inr paths)"
    and cases: "reader_cases (rb_contexts c) (rb_worker_counts c) = Return cases"
    and runs: "\<forall>spec\<in>set (trial_specs c paths cases). \<exists>t. run spec = Return t"
    and same: "files True = files False" "script True = script False"
  shows "\<exists>report. run_benchmark run hexdigest files script u native env directory c = Some (Inr report) \<and>
    complete_trials c cases (report_trials report) \<and>
    map gate_label (report_gates report) = concat (map (group_labels c) (gate_groups c)) \<and>
    list_all (gate_sound c (report_trials report)) (report_gates report)"
proof -
  obtain trials where trials: "mapE run (trial_specs c paths cases) = Return trials"
    using runs mapE_exists [of "trial_specs c paths cases" run "\<lambda>spec t. True"] by auto
  have shape: "distinct cases" "set cases = {native_case, serial_case} \<union> {loader_case n k | n k. n \<in> set (rb_worker_counts c) \<and> k \<in> set (rb_contexts c)}"
    using reader_cases_Return [OF check] cases by auto
  have ok: "complete_trials c cases trials" by (rule trials_complete [OF check shape(1) trials])
  have "valid_cases c cases" using settings_facts [OF check] shape(2) by blast
  from performance_gates_ok [OF ok this] obtain gates where "performance_gates trials = Return gates"
      "map gate_label gates = concat (map (group_labels c) (gate_groups c))" "list_all (gate_sound c trials) gates" by blast
  then show ?thesis using ok trials cases fixture same by (simp add: run_benchmark_def raised_exn_def)
qed

end

lemma reader_measure_pass_usable:
  assumes "reader_measure_pass c shuffle env items = Return m"
  shows "0 < pm_steady_seconds m \<and> 0 < pm_steady_samples m"
  using assms by (auto simp: reader_measure_pass_def check_PassMeasurement_def Let_def exn_simps split: if_splits prod.splits)

lemma measure_trial_result:
  assumes "measure_trial env spec = Return t"
  shows "trial_key t = spec_key spec \<and> 0 < pm_steady_seconds (tr_warm t) \<and> 0 < pm_steady_samples (tr_warm t)"
  using assms unfolding measure_trial_def Let_def
  by (auto simp: bindE_eq_Return case_prod_beta trial_key_def spec_key_def simp del: One_nat_def split: if_splits
      dest!: reader_measure_pass_usable)

interpretation script: trial_runner "\<lambda>spec. snd (run_trial wait env spec)" for wait env
proof
  fix spec t assume "snd (run_trial wait env spec) = Return t"
  then have "measure_trial (env spec) spec = Return t"
    by (auto simp: run_trial_def bindE_eq_Return split: option.splits sum.splits)
  then show "trial_key t = spec_key spec" "0 < pm_steady_seconds (tr_warm t) \<and> 0 < pm_steady_samples (tr_warm t)"
    using measure_trial_result by blast+
qed

section \<open>The native control\<close>

text \<open>Batches of good outputs: nonempty, all but the last full, nothing lost.\<close>

lemma native_batches_good:
  assumes "0 < n" "int (length batch) < n"
  shows "\<exists>bs. native_batches n (map Return outs) batch = map (\<lambda>b. Return (OutputTuple b)) bs \<and> concat bs = batch @ outs \<and>
    (\<forall>b\<in>set bs. b \<noteq> [] \<and> int (length b) \<le> n) \<and> (\<forall>b\<in>set (butlast bs). int (length b) = n)"
  using assms(2)
proof (induction outs arbitrary: batch)
  case Nil
  then show ?case by (intro exI [of _ "if batch = [] then [] else [batch]"]) auto
next
  case (Cons out outs)
  show ?case
  proof (cases "int (length (batch @ [out])) = n")
    case True
    from Cons.IH [of "[]"] assms(1) obtain bs where "native_batches n (map Return outs) [] = map (\<lambda>b. Return (OutputTuple b)) bs"
        "concat bs = outs" "\<forall>b\<in>set bs. b \<noteq> [] \<and> int (length b) \<le> n" "\<forall>b\<in>set (butlast bs). int (length b) = n" by auto
    then show ?thesis using True by (intro exI [of _ "(batch @ [out]) # bs"]) auto
  next
    case False
    with Cons.prems have "int (length (batch @ [out])) < n" by simp
    from Cons.IH [OF this] False show ?thesis by simp
  qed
qed

lemma consume_all:
  assumes "\<forall>b\<in>set bs. b \<noteq> [] \<and> (\<forall>out\<in>set b. length (out_digest out) = 32)" and "n = fst tally + int (length (concat bs))"
  shows "consume_batches n (map (\<lambda>b. Return (OutputTuple b)) bs) tally = Return (add_batch (concat bs) tally, [])"
  using assms
proof (induction bs arbitrary: tally)
  case Nil
  then show ?case by (simp add: add_batch_def split: prod.splits)
next
  case (Cons b bs)
  have "0 < length (concat (b # bs))" using Cons.prems(1) by simp
  then have "fst tally < n" using Cons.prems(2) by linarith
  moreover have "checked_batch (OutputTuple b) = Return b" using Cons.prems(1) by (auto simp: checked_batch_def list_ex_iff)
  moreover have "n = fst (add_batch b tally) + int (length (concat bs))" using Cons.prems(2) by (simp add: add_batch_def split: prod.splits)
  ultimately show ?case using Cons.IH [of "add_batch b tally"] Cons.prems(1) by (simp add: add_batch_def split: prod.splits)
qed

text \<open>A sample of the fixture: the payload its source wrote for its position.\<close>

definition fixture_sample :: "ReaderBenchmark \<Rightarrow> int list \<Rightarrow> fixture CachedSample \<Rightarrow> bool" where
  "fixture_sample c cache_ids s \<longleftrightarrow>
     (\<exists>k. k < length cache_ids \<and> cache_ids ! k = int (sample_cache_id s) \<and>
       reader_input \<lparr>rs_name = ''cache-'' @ str_int (int k), rs_cache_position = int k, rs_samples = rb_samples_per_cache c,
         rs_payload_bytes = rb_payload_bytes c, rs_metadata_bytes = rb_metadata_bytes c\<rparr> (int (sample_id s)) = Return (sample_value s))"

lemma take_header:
  assumes "16 \<le> n" "length header = 16"
  shows "take 16 (take (nat n) (concat (replicate (nat ((n + 15) div 16)) header))) = header"
    "length (take (nat n) (concat (replicate (nat ((n + 15) div 16)) header))) = nat n"
proof -
  have "0 < nat ((n + 15) div 16)" "min 16 (nat n) = 16" using assms(1) by simp_all
  then show "take 16 (take (nat n) (concat (replicate (nat ((n + 15) div 16)) header))) = header"
    using take_repeated [OF assms(2)] by (simp only: take_take)
  have "n \<le> (n + 15) div 16 * 16" by simp
  then have "nat n \<le> nat ((n + 15) div 16) * 16" using assms(1) by linarith
  then show "length (take (nat n) (concat (replicate (nat ((n + 15) div 16)) header))) = nat n"
    using assms(2) by (simp add: length_concat sum_list_replicate)
qed

lemma reader_transform_fixture:
  assumes "reader_fields_ok c" "fixture_sample c cache_ids s" and sha: "\<And>bs. length (sha256 bs) = 32"
  shows "\<exists>out. reader_transform sha256 pid rounds cache_ids s = Return out \<and> out_pid out = pid \<and>
    out_bytes_read out = rb_payload_bytes c \<and> length (out_digest out) = 32"
proof -
  from assms(2) obtain k source where k: "k < length cache_ids" "cache_ids ! k = int (sample_cache_id s)"
      and source: "reader_input source (int (sample_id s)) = Return (sample_value s)" "rs_cache_position source = int k"
        "rs_payload_bytes source = rb_payload_bytes c"
    by (auto simp: fixture_sample_def)
  from source have k64: "int k < 2 ^ 64" "int (sample_id s) < 2 ^ 64"
    and data: "fixture_data (sample_value s) = take (nat (rb_payload_bytes c)) (concat (replicate (nat ((rb_payload_bytes c + 15) div 16))
        (little_endian 8 (int k) @ little_endian 8 (int (sample_id s)))))"
    by (auto simp: reader_input_def Let_def exn_simps dest!: sym [of _ "sample_value s"])
  have pay: "16 \<le> rb_payload_bytes c" using assms(1) by (simp add: reader_fields_ok_def)
  let ?header = "little_endian 8 (int k) @ little_endian 8 (int (sample_id s))"
  have head: "take 16 (fixture_data (sample_value s)) = ?header" "length (fixture_data (sample_value s)) = nat (rb_payload_bytes c)"
    unfolding data by (rule take_header [OF pay], simp)+
  have "take 8 (fixture_data (sample_value s)) = take 8 (take 16 (fixture_data (sample_value s)))"
    "take 8 (drop 8 (fixture_data (sample_value s))) = drop 8 (take 16 (fixture_data (sample_value s)))"
    by (simp_all add: take_drop min_def)
  then have "from_little_endian (take 8 (fixture_data (sample_value s))) = int k"
      "from_little_endian (take 8 (drop 8 (fixture_data (sample_value s)))) = int (sample_id s)"
    unfolding head(1) using k64 by (simp_all add: little_endian_inverse)
  moreover have "length ((sha256 ^^ n) (sha256 x)) = 32" for n x by (cases n) (simp_all add: sha)
  ultimately show ?thesis using k head(2) pay by (simp add: reader_transform_def Let_def)
qed

lemma transformed_window:
  assumes "reader_fields_ok c" "\<forall>s\<in>set samples. fixture_sample c cache_ids s" and "\<And>bs. length (sha256 bs) = 32"
  shows "\<exists>outs. map (reader_transform sha256 pid rounds cache_ids) samples = map Return outs \<and> length outs = length samples \<and>
    (\<forall>out\<in>set outs. out_pid out = pid \<and> out_bytes_read out = rb_payload_bytes c \<and> length (out_digest out) = 32)"
  using assms(2)
proof (induction samples)
  case (Cons s samples)
  obtain out where out: "reader_transform sha256 pid rounds cache_ids s = Return out" "out_pid out = pid"
      "out_bytes_read out = rb_payload_bytes c" "length (out_digest out) = 32"
    using reader_transform_fixture [of c cache_ids s sha256 pid rounds] assms(1,3) Cons.prems by auto
  from Cons.IH Cons.prems obtain outs where "map (reader_transform sha256 pid rounds cache_ids) samples = map Return outs"
      "length outs = length samples"
      "\<forall>out\<in>set outs. out_pid out = pid \<and> out_bytes_read out = rb_payload_bytes c \<and> length (out_digest out) = 32" by auto
  with out show ?case by (intro exI [of _ "out # outs"]) simp
qed simp

lemma consume_pass_good:
  assumes more: "rb_batch_size c < rb_total c"
    and bs: "\<forall>b\<in>set bs. b \<noteq> [] \<and> int (length b) \<le> rb_batch_size c" "\<forall>b\<in>set (butlast bs). int (length b) = rb_batch_size c"
    and outs: "concat bs = outs" "int (length outs) = rb_total c" "\<forall>out\<in>set outs. out_bytes_read out = rb_payload_bytes c \<and> length (out_digest out) = 32"
    and final: "resource_snapshot tree = Return final" and "0 < rb_batch_size c"
  shows "consume_pass c shuffle tree (map (\<lambda>b. Return (OutputTuple b)) bs) =
    Return (rb_batch_size c, (rb_total c, rb_total c * rb_payload_bytes c, map out_pid outs), final)"
proof -
  obtain b rest where b: "bs = b # rest" using more outs(1,2) assms(8) by (cases bs) auto
  have "rest \<noteq> []" using more bs(1) outs(1,2) b by auto
  then have first: "int (length b) = rb_batch_size c" using bs(2) b by simp
  have good: "\<forall>x\<in>set bs. x \<noteq> [] \<and> (\<forall>out\<in>set x. length (out_digest out) = 32)" using bs(1) outs(1,3) by auto
  have n: "rb_total c = fst (add_batch b (0, 0, [])) + int (length (concat rest))" using outs(1,2) b by (auto simp: add_batch_def)
  have "checked_batch (OutputTuple b) = Return b" using good b by (auto simp: checked_batch_def list_ex_iff)
  moreover have "consume_batches (rb_total c) (map (\<lambda>b. Return (OutputTuple b)) rest) (add_batch b (0, 0, [])) =
      Return (add_batch (concat rest) (add_batch b (0, 0, [])), [])"
    using good b by (intro consume_all [OF _ n]) simp
  moreover have "add_batch (concat rest) (add_batch b (0, 0, [])) = (rb_total c, rb_total c * rb_payload_bytes c, map out_pid outs)"
  proof -
    have "sum_list (map out_bytes_read outs) = sum_list (map (\<lambda>out. rb_payload_bytes c) outs)"
      using outs(3) by (intro arg_cong [of _ _ sum_list] map_cong) auto
    also have "\<dots> = rb_total c * rb_payload_bytes c" using outs(2) by (simp add: sum_list_triv)
    finally show ?thesis using outs(1,2) b by (auto simp: add_batch_def)
  qed
  ultimately show ?thesis using first final b by (simp add: consume_pass_def)
qed

section \<open>Properties\<close>

text \<open>
  C35. The report of the reader benchmark is complete: for accepted settings, when the fixture is written, every
  trial returns a usable result for its own specification and the sources stay the same, every case is measured
  exactly once in every round of every workload and order; the gates are exactly one serial comparison per group
  and one speedup per context for heavy groups with four workers; each has one ratio per round, of two trials of
  that round, their median, and passes only with five rounds. No missing pair or division by zero is possible.
\<close>

theorem benchmark_report_complete:
  assumes "check_ReaderBenchmark methods c = Return c" and "create_fixture u native env c directory = Some (Inr paths)"
    and "reader_cases (rb_contexts c) (rb_worker_counts c) = Return cases"
    and runs: "\<forall>spec\<in>set (trial_specs c paths cases). \<exists>t. run spec = Return t"
    and result: "\<forall>spec t. run spec = Return t \<longrightarrow> trial_key t = spec_key spec \<and>
      0 < pm_steady_seconds (tr_warm t) \<and> 0 < pm_steady_samples (tr_warm t)"
    and "files True = files False" "script True = script False"
  shows "\<exists>report. run_benchmark run hexdigest files script u native env directory c = Some (Inr report) \<and>
    distinct (map trial_key (report_trials report)) \<and>
    set (map trial_key (report_trials report)) = set (rb_workloads c) \<times> set (rb_shuffles c) \<times> {0..<rb_repeats c} \<times> set cases \<and>
    map gate_label (report_gates report) = concat (map (group_labels c) (gate_groups c)) \<and>
    list_all (gate_sound c (report_trials report)) (report_gates report)"
proof -
  have "trial_runner run" using result by unfold_locales blast+
  from trial_runner.report_complete [OF this assms(1-4,6,7)] show ?thesis unfolding complete_trials_def by blast
qed

definition demo_reader_bench :: ReaderBenchmark where
  "demo_reader_bench = \<lparr>rb_samples_per_cache = 1, rb_caches = 2, rb_payload_bytes = 16, rb_metadata_bytes = 0, rb_transform_rounds = 0,
     rb_seed = 7, rb_batch_size = 1, rb_native_workers = 1, rb_prefetch_size = 16, rb_prefetch_factor = 2, rb_contexts = [Fork],
     rb_worker_counts = [4], rb_workloads = [Heavy], rb_shuffles = [False], rb_repeats = 2, rb_trial_timeout = 120,
     rb_persistent_workers = True, rb_output = Path [] [''reader.json''], rb_quiet = True\<rparr>"

definition demo_pass :: "nat \<Rightarrow> PassMeasurement" where
  "demo_pass k = \<lparr>pm_iterator_seconds = 0, pm_first_batch_seconds = 1, pm_steady_seconds = 1 / of_nat (Suc k), pm_steady_samples = 1,
     pm_accepted = 2, pm_bytes_read = 32, pm_transform_pids = [100], pm_resources = no_resources\<rparr>"

definition demo_run :: "TrialSpec \<Rightarrow> TrialResult exn" where
  "demo_run spec = Return \<lparr>tr_case = spec_case spec, tr_shuffle = spec_shuffle spec, tr_workload = spec_workload spec,
     tr_pair = spec_pair spec, tr_construction_seconds = 1, tr_cold = demo_pass 0,
     tr_warm = demo_pass (nat (case_workers (spec_case spec))), tr_cleanup_seconds = 1\<rparr>"

definition demo_fixture_writer :: "ReaderSource native_writer" where
  "demo_fixture_writer = \<lparr>serial = (\<lambda>pool sources p config reuse. Inr [(''success'', ''cache-0'', ''/c0''), (''success'', ''cache-1'', ''/c1'')]),
     single = (\<lambda>threads reuse p config name body. Inr [])\<rparr>"

theorem benchmark_report_complete_witness:
  "\<exists>report. run_benchmark demo_run (\<lambda>bs. []) (\<lambda>after name. []) (\<lambda>after. []) demo_unicode demo_fixture_writer demo_env (Path ''/'' [''tmp'']) demo_reader_bench =
       Some (Inr report) \<and>
     map gate_label (report_gates report) = [(Heavy, False, SerialRegression, Serial), (Heavy, False, FourWorkerSpeedup, Fork)] \<and>
     list_all (gate_sound demo_reader_bench (report_trials report)) (report_gates report)"
proof -
  have check: "check_ReaderBenchmark [Fork, Spawn] demo_reader_bench = Return demo_reader_bench"
    by (simp add: check_ReaderBenchmark_def reader_fields_ok_def demo_reader_bench_def)
  have fixture: "create_fixture demo_unicode demo_fixture_writer demo_env demo_reader_bench (Path ''/'' [''tmp'']) =
      Some (Inr [path_of ''/c0'', path_of ''/c1''])"
    by (simp add: create_fixture_def demo_reader_bench_def new_runtime_def native_runtime_def to_native_def write_cache_def write_sources_def
        demo_fixture_writer_def DEFAULT_WRITER_CONFIG_def raised_exn_def cache_write_result_def)
  obtain cases where cases: "reader_cases (rb_contexts demo_reader_bench) (rb_worker_counts demo_reader_bench) = Return cases"
    using reader_cases_Return [OF check] by blast
  have result: "\<forall>spec t. demo_run spec = Return t \<longrightarrow> trial_key t = spec_key spec \<and>
      0 < pm_steady_seconds (tr_warm t) \<and> 0 < pm_steady_samples (tr_warm t)"
    by (auto simp: demo_run_def demo_pass_def trial_key_def spec_key_def)
  have "concat (map (group_labels demo_reader_bench) (gate_groups demo_reader_bench)) =
      [(Heavy, False, SerialRegression, Serial), (Heavy, False, FourWorkerSpeedup, Fork)]"
    by (simp add: gate_groups_def group_labels_def demo_reader_bench_def sorted_set_def)
  moreover have "\<forall>spec\<in>set (trial_specs demo_reader_bench [path_of ''/c0'', path_of ''/c1''] cases). \<exists>t. demo_run spec = Return t"
    by (simp add: demo_run_def)
  ultimately show ?thesis
    using benchmark_report_complete [OF check fixture cases _ result, of "\<lambda>after name. []" "\<lambda>after. []" "\<lambda>bs. []"] by metis
qed

text \<open>
  The native control can always be measured: for accepted settings and a window of as many fixture samples
  as were written, the identity checks of the transform hold, batching loses nothing, and the pass ends with a
  valid measurement that counts every sample and byte once, whatever the batch size; only a failing observer or
  a clock that stands still prevents it.
\<close>

theorem native_control_measured:
  assumes check: "check_ReaderBenchmark methods c = Return c"
    and window: "int (length samples) = rb_total c" "\<forall>s\<in>set samples. fixture_sample c cache_ids s"
    and sha: "\<forall>bs. length (sha256 bs) = 32"
    and observer: "rp_observer_stopped env" "observer_run no_resources (rp_trees env) = (peak, None)"
      "resource_snapshot (rp_final_tree env) = Return final"
    and clock: "rp_started env \<le> rp_created env" "rp_started env \<le> rp_delivered env" "rp_steady_started env < rp_finished env"
  shows "reader_measure_pass c shuffle env
      (native_batches (rb_batch_size c) (map (reader_transform sha256 pid rounds cache_ids) samples) []) =
    Return \<lparr>pm_iterator_seconds = rp_created env - rp_started env, pm_first_batch_seconds = rp_delivered env - rp_started env,
      pm_steady_seconds = rp_finished env - rp_steady_started env, pm_steady_samples = rb_total c - rb_batch_size c,
      pm_accepted = rb_total c, pm_bytes_read = rb_total c * rb_payload_bytes c, pm_transform_pids = [pid],
      pm_resources = combine_resources peak final\<rparr>"
proof -
  note facts = settings_facts [OF check]
  obtain outs where outs: "map (reader_transform sha256 pid rounds cache_ids) samples = map Return outs" "length outs = length samples"
      "\<forall>out\<in>set outs. out_pid out = pid \<and> out_bytes_read out = rb_payload_bytes c \<and> length (out_digest out) = 32"
    using transformed_window [OF facts(1) window(2), of sha256 pid rounds] sha by blast
  obtain bs where bs: "native_batches (rb_batch_size c) (map Return outs) [] = map (\<lambda>b. Return (OutputTuple b)) bs"
      "concat bs = outs" "\<forall>b\<in>set bs. b \<noteq> [] \<and> int (length b) \<le> rb_batch_size c"
      "\<forall>b\<in>set (butlast bs). int (length b) = rb_batch_size c"
    using native_batches_good [OF facts(11), of "[]" outs] facts(11) by auto
  have pass: "consume_pass c shuffle (rp_final_tree env) (map (\<lambda>b. Return (OutputTuple b)) bs) =
      Return (rb_batch_size c, (rb_total c, rb_total c * rb_payload_bytes c, map out_pid outs), final)"
    using consume_pass_good [OF facts(9) bs(3,4,2)] outs window(1) observer(3) facts(11) by simp
  have "outs \<noteq> []" using facts(9,11) outs(2) window(1) by auto
  then have "sorted_set (map out_pid outs) = [pid]" using outs(3) by (intro sorted_set_eq) (auto simp: image_constant_conv)
  moreover have "0 < rb_payload_bytes c" "0 < rb_total c" using facts(1,9,11) by (simp_all add: reader_fields_ok_def)
  ultimately show ?thesis unfolding outs(1) bs(1)
    using pass observer clock facts(9) by (simp add: reader_measure_pass_def check_PassMeasurement_def)
qed

definition demo_reader_sample :: "int \<Rightarrow> fixture CachedSample" where
  "demo_reader_sample k = \<lparr>sample_value = \<lparr>fixture_data = little_endian 8 k @ little_endian 8 0, fixture_metadata = [''index'' \<mapsto> VInt 0]\<rparr>,
     sample_cache_id = nat k + 40, sample_id = 0\<rparr>"

definition demo_pass_env :: reader_pass_env where
  "demo_pass_env = \<lparr>rp_started = 1, rp_created = 2, rp_delivered = 3, rp_steady_started = 4, rp_finished = 9, rp_trees = [],
     rp_observer_stopped = True, rp_final_tree = []\<rparr>"

theorem native_control_measured_witness:
  "\<exists>m. reader_measure_pass demo_reader_bench False demo_pass_env
       (native_batches 1 (map (reader_transform (\<lambda>bs. replicate 32 0) 100 5 [40, 41]) [demo_reader_sample 0, demo_reader_sample 1]) []) = Return m \<and>
     pm_steady_samples m = 1 \<and> pm_bytes_read m = 32 \<and> pm_transform_pids m = [100]"
proof -
  have check: "check_ReaderBenchmark [Fork] demo_reader_bench = Return demo_reader_bench"
    by (simp add: check_ReaderBenchmark_def reader_fields_ok_def demo_reader_bench_def)
  have "fixture_sample demo_reader_bench [40, 41] (demo_reader_sample (int k))" if "k < 2" for k
    using that by (auto simp: fixture_sample_def reader_input_def demo_reader_sample_def demo_reader_bench_def to_bytes_def less_2_cases_iff
        intro!: exI [of _ k])
  from this [of 0] this [of 1] have samples: "\<forall>s\<in>set [demo_reader_sample 0, demo_reader_sample 1]. fixture_sample demo_reader_bench [40, 41] s" by simp
  have "observer_run no_resources (rp_trees demo_pass_env) = (no_resources, None)"
    "resource_snapshot (rp_final_tree demo_pass_env) = Return no_resources" by (simp_all add: demo_pass_env_def resource_snapshot_def)
  then show ?thesis
    using native_control_measured [OF check _ samples, of "\<lambda>bs. replicate 32 0" demo_pass_env no_resources no_resources False 100 5]
    by (simp add: demo_reader_bench_def demo_pass_env_def)
qed

end
