(* ===== verification/Writer_Bench.thy ===== *)
theory Writer_Bench
  imports Reader_Bench
begin

text \<open>
  \<open>src/scripts/bench_writer.py\<close> and \<open>src/scripts/bench_parallel.py\<close>: sources that prepare their payloads, the
  timed write with the verification of every record it wrote, the rotating schedule, and the paired speedups; the
  serial baseline.

  As in \<open>Reader_Bench\<close>, times are rationals, and clocks, hashes, process trees, the native writer and reader are
  arguments.
\<close>

section \<open>Sources and settings\<close>

record PreparedSource =
  prep_name :: string
  prep_samples :: int
  prep_payload_bytes :: int
  prep_rounds :: int

definition prepared_input :: "(byte list \<Rightarrow> byte list) \<Rightarrow> PreparedSource \<Rightarrow> int \<Rightarrow> fixture exn" where
  "prepared_input sha256 s index =
     bindE (to_bytes index) (\<lambda>value.
     let digest = sha256 ((sha256 ^^ nat (prep_rounds s)) value);
         payload = take (nat (prep_payload_bytes s)) (value @ concat (replicate (nat ((prep_payload_bytes s + 31) div 32)) digest)) in
     Return \<lparr>fixture_data = payload, fixture_metadata = [''index'' \<mapsto> VInt index]\<rparr>)"

definition prepared_inputs :: "(byte list \<Rightarrow> byte list) \<Rightarrow> PreparedSource \<Rightarrow> fixture exn list" where
  "prepared_inputs sha256 s = map (prepared_input sha256 s) (range_list (prep_samples s))"

record SourceObservation =
  obs_started :: rat
  obs_first_sample :: rat
  obs_pid :: int

record WriterBenchmark =
  wb_samples :: int
  wb_sources :: int
  wb_payload_bytes :: int
  wb_preparation_rounds :: int
  wb_native_workers :: int
  wb_prefetch_size :: int
  wb_repeats :: int
  wb_processes :: "int list"
  wb_process_timeout_seconds :: rat
  wb_output :: path
  wb_quiet :: bool

definition check_WriterBenchmark :: "WriterBenchmark \<Rightarrow> WriterBenchmark exn" where
  "check_WriterBenchmark c =
     (if 0 < wb_samples c \<and> 0 < wb_sources c \<and> 8 \<le> wb_payload_bytes c \<and> 0 \<le> wb_preparation_rounds c \<and>
         0 < wb_native_workers c \<and> 0 < wb_prefetch_size c \<and> 1 \<le> wb_repeats c \<and> wb_processes c \<noteq> [] \<and>
         0 < wb_process_timeout_seconds c
      then Return c else Raise (ValueError ''Benchmark''))"

section \<open>Resources\<close>

text \<open>
  The maxima over the process tree: memory, threads, processes. A process that has exited or may not be read
  (\<open>NoSuchProcess\<close>) is left after the sums it has already entered.
\<close>

type_synonym peaks = "int \<times> int \<times> int"

definition observe_member :: "member \<Rightarrow> peaks \<Rightarrow> peaks exn" where
  "observe_member m tally =
     (case tally of (rss, thread_count, process_count) \<Rightarrow>
      case mem_rss m of
        NoSuchProcess \<Rightarrow> Return tally
      | ProbeError e \<Rightarrow> Raise e
      | Got a \<Rightarrow>
          (case mem_threads m of
             NoSuchProcess \<Rightarrow> Return (rss + a, thread_count, process_count)
           | ProbeError e \<Rightarrow> Raise e
           | Got b \<Rightarrow> Return (rss + a, thread_count + b, process_count + 1)))"

fun observe_tree :: "member list \<Rightarrow> peaks \<Rightarrow> peaks exn" where
  "observe_tree [] tally = Return tally"
| "observe_tree (m # ms) tally = bindE (observe_member m tally) (observe_tree ms)"

text \<open>The observer thread: another exception ends it with the maxima reached.\<close>

fun observe_resources :: "member list list \<Rightarrow> peaks \<Rightarrow> peaks" where
  "observe_resources [] peak = peak"
| "observe_resources (tree # trees) (rss, thread_count, process_count) =
     (case observe_tree tree (0, 0, 0) of
        Inl e \<Rightarrow> (rss, thread_count, process_count)
      | Inr (a, b, n) \<Rightarrow> observe_resources trees (max rss a, max thread_count b, max process_count n))"

section \<open>One timed write\<close>

record Measurement =
  wm_pair :: int
  wm_workload :: workload
  wm_processes :: int
  wm_write_seconds :: rat
  wm_first_source_seconds :: rat
  wm_first_sample_seconds :: rat
  wm_accepted_samples :: int
  wm_accepted_bytes :: int
  wm_writer_pids :: "int list"
  wm_resources :: peaks

definition prepared_sources :: "WriterBenchmark \<Rightarrow> workload \<Rightarrow> PreparedSource source list" where
  "prepared_sources c w = map (\<lambda>index. let name = ''source-'' @ str_int index in
     \<lparr>src_name = Inr name, src_body = \<lparr>prep_name = name, prep_samples = wb_samples c, prep_payload_bytes = wb_payload_bytes c,
      prep_rounds = (if w = Heavy then wb_preparation_rounds c else 0)\<rparr>\<rparr>) (range_list (wb_sources c))"

definition writer_config_of :: "WriterBenchmark \<Rightarrow> int \<Rightarrow> WriterConfig exn" where
  "writer_config_of c process_count = check_WriterConfig (DEFAULT_WRITER_CONFIG\<lparr>num_processes := process_count,
     process_timeout_seconds := wb_process_timeout_seconds c, writer_prefetch_size := wb_prefetch_size c, show_progress := False\<rparr>)"

text \<open>The loop over the written dataset: every record carries its own index.\<close>

fun read_back :: "fixture CachedSample exn list \<Rightarrow> int \<times> int \<Rightarrow> (int \<times> int) exn" where
  "read_back [] tally = Return tally"
| "read_back (x # xs) tally =
     bindE x (\<lambda>sample.
     if from_little_endian (take 8 (fixture_data (sample_value sample))) \<noteq> int (sample_id sample) then Raise (AssertionError [])
     else read_back xs (fst tally + 1, snd tally + int (length (fixture_data (sample_value sample)))))"

definition verify_written :: "WriterBenchmark \<Rightarrow> fixture CachedSample exn list \<Rightarrow> (int \<times> int) exn" where
  "verify_written c window =
     bindE (read_back window (0, 0)) (\<lambda>(n, bytes).
     if n \<noteq> wb_samples c * wb_sources c then Raise (AssertionError [])
     else if bytes \<noteq> n * wb_payload_bytes c then Raise (AssertionError [])
     else Return (n, bytes))"

record write_measure_env =
  me_load_caches :: "(fixture, string) load_caches"
  me_resolve :: "path \<Rightarrow> path"
  me_rng :: rng
  me_started :: rat
  me_ended :: rat
  me_trees :: "member list list"
  me_observer_stopped :: bool
  me_observations :: "SourceObservation exn list"

definition min_of :: "rat list \<Rightarrow> rat exn" where
  "min_of xs = (case xs of [] \<Rightarrow> Raise (ValueError ''min() iterable argument is empty'') | x # rest \<Rightarrow> Return (fold min rest x))"

text \<open>What follows the write: the paths, the dataset, its verification, and the observations of the sources.\<close>

definition finish_measure ::
  "write_measure_env \<Rightarrow> WriterBenchmark \<Rightarrow> int \<Rightarrow> workload \<Rightarrow> int \<Rightarrow> DatasetRuntime \<Rightarrow> path list \<Rightarrow> Measurement exn" where
  "finish_measure me c pair w process_count runtime paths =
     bindE (cached_dataset (me_load_caches me) (me_resolve me) runtime paths
              \<lparr>reader_seed_value = 0, prefetch_size = 64, reader_shuffle = False, validate_cache = True\<rparr>) (\<lambda>ds.
     bindE (ds_iter (me_rng me) ds) (\<lambda>(window, ds').
     bindE (verify_written c window) (\<lambda>(n, bytes).
     bindE (mapE id (me_observations me)) (\<lambda>records.
     bindE (min_of (map obs_started records)) (\<lambda>first_source.
     bindE (min_of (map obs_first_sample records)) (\<lambda>first_sample.
     Return \<lparr>wm_pair = pair, wm_workload = w, wm_processes = process_count, wm_write_seconds = me_ended me - me_started me,
       wm_first_source_seconds = first_source - me_started me, wm_first_sample_seconds = first_sample - me_started me,
       wm_accepted_samples = n, wm_accepted_bytes = bytes, wm_writer_pids = sorted_set (map obs_pid records),
       wm_resources = observe_resources (me_trees me) (0, 0, 0)\<rparr>))))))"

definition measure_write ::
  "unicode \<Rightarrow> PreparedSource native_writer \<Rightarrow> write_env \<Rightarrow> write_measure_env \<Rightarrow> path \<Rightarrow> WriterBenchmark \<Rightarrow> int \<Rightarrow> workload \<Rightarrow> int \<Rightarrow>
   (raised + Measurement) option" where
  "measure_write u native env me directory c pair w process_count =
     (case bindE (new_runtime (wb_native_workers c)) (\<lambda>runtime. bindE (writer_config_of c process_count) (\<lambda>config. Return (runtime, config))) of
        Inl e \<Rightarrow> Some (Inl (raised_of e))
      | Inr (runtime, config) \<Rightarrow>
          (case write_cache u native env runtime (prepared_sources c w) (path_child directory ''cache'') config of
             None \<Rightarrow> None
           | Some (Inl e) \<Rightarrow> Some (Inl e)
           | Some (Inr results) \<Rightarrow>
               if \<not> me_observer_stopped me then Some (Inl (raised_of (RuntimeError ''resource observer did not stop'')))
               else case fixture_paths results of
                   Inl e \<Rightarrow> Some (Inl e)
                 | Inr paths \<Rightarrow> Some (raised_exn (finish_measure me c pair w process_count runtime paths))))"

section \<open>Schedule and speedups\<close>

type_synonym write_key = "int \<times> workload \<times> int"

definition warmups :: "WriterBenchmark \<Rightarrow> write_key list" where
  "warmups c = concat (map (\<lambda>w. map (\<lambda>process_count. (-1, w, process_count)) (wb_processes c)) [Heavy, Cheap])"

definition write_schedule :: "WriterBenchmark \<Rightarrow> write_key list" where
  "write_schedule c =
     concat (map (\<lambda>pair. concat (map (\<lambda>w. map (\<lambda>process_count. (pair, w, process_count))
       (rotated (wb_processes c) (nat pair mod length (wb_processes c)))) [Heavy, Cheap])) (range_list (wb_repeats c)))"

text \<open>
  \<open>paired_speedups\<close>. The nested dictionary of ratios is a function; an entry that was never set is empty, and the
  resulting dictionaries have the entries that were set.
\<close>

definition write_controls :: "Measurement list \<Rightarrow> int \<times> workload \<Rightarrow> rat option" where
  "write_controls measurements = map_of (rev (map (\<lambda>m. ((wm_pair m, wm_workload m), wm_write_seconds m))
     (filter (\<lambda>m. wm_processes m = 0) measurements)))"

fun collect_ratios ::
  "(int \<times> workload \<Rightarrow> rat option) \<Rightarrow> Measurement list \<Rightarrow> (workload \<Rightarrow> int \<Rightarrow> rat list) \<Rightarrow> (workload \<Rightarrow> int \<Rightarrow> rat list) exn" where
  "collect_ratios controls [] ratios = Return ratios"
| "collect_ratios controls (m # ms) ratios =
     (case controls (wm_pair m, wm_workload m) of
        None \<Rightarrow> collect_ratios controls ms ratios
      | Some control \<Rightarrow> bindE (fdiv control (wm_write_seconds m)) (\<lambda>r.
          collect_ratios controls ms (ratios(wm_workload m := (ratios (wm_workload m))(wm_processes m := ratios (wm_workload m) (wm_processes m) @ [r])))))"

definition paired_speedups :: "Measurement list \<Rightarrow> (workload \<Rightarrow> int \<Rightarrow> rat exn option) exn" where
  "paired_speedups measurements =
     bindE (collect_ratios (write_controls measurements) measurements (\<lambda>w p. [])) (\<lambda>ratios.
     Return (\<lambda>w p. if ratios w p = [] then None else Some (statistics_median (ratios w p))))"

record WriterReport =
  wr_settings :: WriterBenchmark
  wr_measurements :: "Measurement list"
  wr_speedups :: "workload \<Rightarrow> int \<Rightarrow> rat exn option"

definition writer_files :: "string list" where
  "writer_files = [''dataset_rt/writer.py'', ''dataset_rt/config.py'', ''dataset_rt/runtime.py'', ''scripts/bench_writer.py'']"

definition fingerprints :: "(byte list \<Rightarrow> string) \<Rightarrow> (string \<Rightarrow> byte list) \<Rightarrow> (string \<times> string) list" where
  "fingerprints hexdigest files = map (\<lambda>name. (name, hexdigest (files name))) writer_files"

text \<open>\<open>cli_cmd\<close>: \<open>run\<close> is one measurement with the given settings, \<open>files\<close> the sources before and after.\<close>

definition writer_cli ::
  "(WriterBenchmark \<Rightarrow> write_key \<Rightarrow> Measurement exn) \<Rightarrow> (byte list \<Rightarrow> string) \<Rightarrow> (bool \<Rightarrow> string \<Rightarrow> byte list) \<Rightarrow> WriterBenchmark \<Rightarrow> WriterReport exn" where
  "writer_cli run hexdigest files c =
     (if list_ex (\<lambda>n. n < 0) (wb_processes c) \<or> \<not> distinct (wb_processes c)
      then Raise (ValueError ''process counts must be distinct nonnegative integers'')
      else bindE (mapE (run (c\<lparr>wb_samples := 16\<rparr>)) (warmups c)) (\<lambda>_.
        bindE (mapE (run c) (write_schedule c)) (\<lambda>measurements.
        if fingerprints hexdigest (files True) \<noteq> fingerprints hexdigest (files False)
        then Raise (RuntimeError ''writer or benchmark sources changed during measurement'')
        else bindE (paired_speedups measurements) (\<lambda>speedups.
          Return \<lparr>wr_settings = c, wr_measurements = measurements, wr_speedups = speedups\<rparr>))))"

section \<open>The serial baseline\<close>

definition prepare :: "(byte list \<Rightarrow> byte list) \<Rightarrow> int \<Rightarrow> int \<Rightarrow> byte list" where
  "prepare sha256 index rounds = sha256 ((sha256 ^^ nat rounds) (Benchmark_Run.encode (str_int index)))"

record BaselineSource =
  bl_name :: string
  bl_samples :: int
  bl_payload_bytes :: int
  bl_rounds :: int

definition baseline_input :: "(byte list \<Rightarrow> byte list) \<Rightarrow> BaselineSource \<Rightarrow> int \<Rightarrow> fixture" where
  "baseline_input sha256 s index =
     (let digest = prepare sha256 index (bl_rounds s) in
      \<lparr>fixture_data = take (nat (bl_payload_bytes s)) (concat (replicate (nat ((bl_payload_bytes s + 31) div 32)) digest)),
       fixture_metadata = [''index'' \<mapsto> VInt index]\<rparr>)"

definition baseline_inputs :: "(byte list \<Rightarrow> byte list) \<Rightarrow> BaselineSource \<Rightarrow> fixture list" where
  "baseline_inputs sha256 s = map (baseline_input sha256 s) (range_list (bl_samples s))"

record Baseline =
  base_samples :: int
  base_sources :: int
  base_payload_bytes :: int
  base_preparation_rounds :: int
  base_transform_rounds :: int
  base_native_workers :: int
  base_prefetch_size :: int
  base_repeats :: int

definition check_Baseline :: "Baseline \<Rightarrow> Baseline exn" where
  "check_Baseline c =
     (if 0 < base_samples c \<and> 0 < base_sources c \<and> 0 < base_payload_bytes c \<and> 0 \<le> base_preparation_rounds c \<and>
         0 \<le> base_transform_rounds c \<and> 0 < base_native_workers c \<and> 0 < base_prefetch_size c \<and> 1 \<le> base_repeats c
      then Return c else Raise (ValueError ''Benchmark''))"

definition baseline_sources :: "Baseline \<Rightarrow> BaselineSource source list" where
  "baseline_sources c = map (\<lambda>index. let name = ''source-'' @ str_int index in
     \<lparr>src_name = Inr name, src_body = \<lparr>bl_name = name, bl_samples = base_samples c, bl_payload_bytes = base_payload_bytes c,
      bl_rounds = base_preparation_rounds c\<rparr>\<rparr>) (range_list (base_sources c))"

text \<open>The reading loop: accepted samples, bytes, and the moment after the first one (\<open>clock\<close> per accepted sample).\<close>

fun baseline_read :: "(int \<Rightarrow> rat) \<Rightarrow> fixture CachedSample exn list \<Rightarrow> int \<times> int \<times> rat \<Rightarrow> (int \<times> int \<times> rat) exn" where
  "baseline_read clock [] tally = Return tally"
| "baseline_read clock (x # xs) (accepted, bytes, first) =
     bindE x (\<lambda>sample.
     let n = accepted + 1 in
     baseline_read clock xs (n, bytes + int (length (fixture_data (sample_value sample))), if n = 1 then clock n else first))"

definition baseline_accept :: "Baseline \<Rightarrow> (int \<Rightarrow> rat) \<Rightarrow> fixture CachedSample exn list \<Rightarrow> (int \<times> int \<times> rat) exn" where
  "baseline_accept c clock window =
     bindE (baseline_read clock window (0, 0, 0)) (\<lambda>(accepted, bytes, first).
     if accepted \<noteq> base_samples c * base_sources c \<or> bytes \<noteq> accepted * base_payload_bytes c then Raise (AssertionError [])
     else Return (accepted, bytes, first))"

record BaselineMeasurement =
  bm_write_seconds :: rat
  bm_startup_seconds :: rat
  bm_first_sample_seconds :: rat
  bm_read_transform_seconds :: rat
  bm_cleanup_seconds :: rat
  bm_accepted :: int
  bm_bytes_read :: int
  bm_usage :: peaks

text \<open>The clock readings of a baseline run in their order, and the memory, threads and descriptors at its end.\<close>

record baseline_env =
  be_load_caches :: "(fixture, string) load_caches"
  be_resolve :: "path \<Rightarrow> path"
  be_rng :: rng
  be_write :: "rat \<times> rat"
  be_startup :: "rat \<times> rat"
  be_read_started :: rat
  be_clock :: "int \<Rightarrow> rat"
  be_read_ended :: rat
  be_usage :: peaks
  be_cleanup :: "rat \<times> rat"

definition baseline_loaded :: "baseline_env \<Rightarrow> Baseline \<Rightarrow> DatasetRuntime \<Rightarrow> path list \<Rightarrow> BaselineMeasurement exn" where
  "baseline_loaded be c runtime paths =
     bindE (cached_dataset (be_load_caches be) (be_resolve be) runtime paths
              \<lparr>reader_seed_value = 42, prefetch_size = base_prefetch_size c, reader_shuffle = True, validate_cache = False\<rparr>) (\<lambda>ds.
     bindE (ds_iter (be_rng be) ds) (\<lambda>(window, ds').
     bindE (baseline_accept c (\<lambda>n. be_clock be n - be_read_started be) window) (\<lambda>(accepted, bytes, first).
     Return \<lparr>bm_write_seconds = snd (be_write be) - fst (be_write be), bm_startup_seconds = snd (be_startup be) - fst (be_startup be),
       bm_first_sample_seconds = first, bm_read_transform_seconds = be_read_ended be - be_read_started be,
       bm_cleanup_seconds = snd (be_cleanup be) - fst (be_cleanup be), bm_accepted = accepted, bm_bytes_read = bytes,
       bm_usage = be_usage be\<rparr>)))"

definition baseline_measure ::
  "unicode \<Rightarrow> BaselineSource native_writer \<Rightarrow> write_env \<Rightarrow> baseline_env \<Rightarrow> path \<Rightarrow> Baseline \<Rightarrow> (raised + BaselineMeasurement) option" where
  "baseline_measure u native env be directory c =
     (case bindE (new_runtime (base_native_workers c)) (\<lambda>runtime.
             bindE (check_WriterConfig (DEFAULT_WRITER_CONFIG\<lparr>writer_prefetch_size := base_prefetch_size c, show_progress := False\<rparr>))
               (\<lambda>config. Return (runtime, config))) of
        Inl e \<Rightarrow> Some (Inl (raised_of e))
      | Inr (runtime, config) \<Rightarrow>
          (case write_cache u native env runtime (baseline_sources c) directory config of
             None \<Rightarrow> None
           | Some (Inl e) \<Rightarrow> Some (Inl e)
           | Some (Inr results) \<Rightarrow>
               (case fixture_paths results of
                  Inl e \<Rightarrow> Some (Inl e)
                | Inr paths \<Rightarrow> Some (raised_exn (baseline_loaded be c runtime paths)))))"

text \<open>The repetitions of \<open>cli_cmd\<close>; the description of the machine beside them is not modelled.\<close>

definition baseline_cli :: "(int \<Rightarrow> BaselineMeasurement exn) \<Rightarrow> Baseline \<Rightarrow> BaselineMeasurement list exn" where
  "baseline_cli run c = mapE run (range_list (base_repeats c))"

section \<open>Paired measurements\<close>

definition write_key :: "Measurement \<Rightarrow> write_key" where
  "write_key m = (wm_pair m, wm_workload m, wm_processes m)"

definition written_seconds :: "Measurement list \<Rightarrow> write_key \<Rightarrow> rat" where
  "written_seconds ms key = (case find (\<lambda>m. write_key m = key) ms of None \<Rightarrow> 0 | Some m \<Rightarrow> wm_write_seconds m)"

lemma written_seconds_at: "distinct (map write_key ms) \<Longrightarrow> m \<in> set ms \<Longrightarrow> written_seconds ms (write_key m) = wm_write_seconds m"
  by (simp add: written_seconds_def find_by_key)

lemma filter_single: "distinct xs \<Longrightarrow> x \<in> set xs \<Longrightarrow> filter (\<lambda>y. y = x) xs = [x]"
  by (induction xs) (auto simp: filter_empty_conv)

lemma schedule_of:
  assumes "distinct (wb_processes c)"
  shows "filter (\<lambda>(i, w', p'). w' = w \<and> p' = p) (write_schedule c) =
    (if p \<in> set (wb_processes c) then map (\<lambda>i. (i, w, p)) (range_list (wb_repeats c)) else [])"
proof -
  have "filter (\<lambda>q. q = p) (rotated (wb_processes c) k) = (if p \<in> set (wb_processes c) then [p] else [])" for k
    using assms filter_single [of "rotated (wb_processes c) k" p] by (auto simp: filter_empty_conv)
  then have row: "filter (\<lambda>(i, w', p'). w' = w \<and> p' = p) (concat (map (\<lambda>w. map (\<lambda>q. (i, w, q)) (rotated (wb_processes c) k)) [Heavy, Cheap])) =
      (if p \<in> set (wb_processes c) then [(i, w, p)] else [])" for i k
    by (cases w) (auto simp: filter_map o_def)
  have rows: "filter P (concat (map f xs)) = concat (map (\<lambda>x. filter P (f x)) xs)" for P :: "write_key \<Rightarrow> bool" and f and xs :: "int list"
    by (induction xs) auto
  show ?thesis unfolding write_schedule_def rows row by (simp add: concat_map_singleton)
qed

lemma schedule_keys: "set (write_schedule c) = {0..<wb_repeats c} \<times> UNIV \<times> set (wb_processes c)"
proof -
  have "(i, w, p) \<in> set (write_schedule c) \<longleftrightarrow> i \<in> {0..<wb_repeats c} \<and> p \<in> set (wb_processes c)" for i w p
    by (cases w) (auto simp: write_schedule_def)
  then show ?thesis by auto
qed

lemma schedule_distinct:
  assumes "distinct (wb_processes c)"
  shows "distinct (write_schedule c)"
proof -
  have "distinct (map id (write_schedule c))"
    unfolding write_schedule_def using assms range_list_sorted(2)
    by (intro distinct_concat_map) (auto simp: distinct_map inj_on_def)
  then show ?thesis by simp
qed

lemma collect_ratios_spec:
  assumes "\<forall>m\<in>set ms. wm_write_seconds m \<noteq> 0"
  shows "collect_ratios controls ms ratios = Return (\<lambda>w p. ratios w p @
    map (\<lambda>m. the (controls (wm_pair m, w)) / wm_write_seconds m)
      (filter (\<lambda>m. wm_workload m = w \<and> wm_processes m = p \<and> controls (wm_pair m, w) \<noteq> None) ms))"
  using assms
proof (induction ms arbitrary: ratios)
  case (Cons m ms)
  show ?case
  proof (cases "controls (wm_pair m, wm_workload m)")
    case None
    then show ?thesis using Cons by (simp add: fun_eq_iff)
  next
    case (Some control)
    then show ?thesis using Cons by (auto simp: fdiv_def fun_eq_iff)
  qed
qed simp

lemma map_filter_key: "map f (filter P xs) = map g (filter Q (map key xs))"
  if "\<And>x. x \<in> set xs \<Longrightarrow> P x \<longleftrightarrow> Q (key x)" "\<And>x. x \<in> set xs \<Longrightarrow> f x = g (key x)"
  using that by (induction xs) auto

lemma write_controls_at:
  assumes keys: "map write_key ms = write_schedule c" and "distinct (wb_processes c)" "i \<in> {0..<wb_repeats c}"
  shows "write_controls ms (i, w) = (if 0 \<in> set (wb_processes c) then Some (written_seconds ms (i, w, 0)) else None)"
proof -
  have dist: "distinct (map write_key ms)" unfolding keys using assms(2) by (rule schedule_distinct)
  let ?rows = "rev (map (\<lambda>m. ((wm_pair m, wm_workload m), wm_write_seconds m)) (filter (\<lambda>m. wm_processes m = 0) ms))"
  have member: "write_key ` set ms = {0..<wb_repeats c} \<times> UNIV \<times> set (wb_processes c)"
    by (metis keys list.set_map schedule_keys)
  show ?thesis
  proof (cases "0 \<in> set (wb_processes c)")
    case True
    then have "(i, w, 0) \<in> write_key ` set ms" unfolding member using assms(3) by simp
    then obtain m where m: "m \<in> set ms" "write_key m = (i, w, 0)" by (metis imageE)
    then have "((i, w), wm_write_seconds m) \<in> set ?rows" by (auto simp: write_key_def intro!: image_eqI [of _ _ m])
    then have "(i, w) \<in> fst ` set ?rows" by (rule image_eqI [rotated]) simp
    then have "map_of ?rows (i, w) \<noteq> None" unfolding map_of_eq_None_iff by blast
    then obtain t where t: "map_of ?rows (i, w) = Some t" by (elim not_None_eq [THEN iffD1, elim_format] exE)
    then obtain m' where m': "m' \<in> set ms" "write_key m' = (i, w, 0)" "wm_write_seconds m' = t"
      using map_of_SomeD [OF t] by (auto simp: write_key_def)
    then have "written_seconds ms (i, w, 0) = t" using written_seconds_at [OF dist m'(1)] by simp
    then show ?thesis using t True by (simp add: write_controls_def)
  next
    case False
    have "wm_processes m \<noteq> 0" if "m \<in> set ms" for m
    proof -
      have "write_key m \<in> write_key ` set ms" using that by simp
      then show ?thesis unfolding member using False by (auto simp: write_key_def)
    qed
    then have "filter (\<lambda>m. wm_processes m = 0) ms = []" by (auto simp: filter_empty_conv)
    then show ?thesis using False by (simp add: write_controls_def)
  qed
qed

text \<open>The speedups of a complete series: per workload and process count, one ratio per round.\<close>

lemma paired_speedups_ok:
  assumes keys: "map write_key ms = write_schedule c" and "distinct (wb_processes c)" and pos: "\<forall>m\<in>set ms. 0 < wm_write_seconds m"
    and "1 \<le> wb_repeats c"
  shows "\<exists>speedups. paired_speedups ms = Return speedups \<and>
    (\<forall>w p. speedups w p = (if 0 \<in> set (wb_processes c) \<and> p \<in> set (wb_processes c)
       then Some (statistics_median (map (\<lambda>i. written_seconds ms (i, w, 0) / written_seconds ms (i, w, p)) (range_list (wb_repeats c))))
       else None))"
proof -
  have dist: "distinct (map write_key ms)" unfolding keys using assms(2) by (rule schedule_distinct)
  have round: "wm_pair m \<in> {0..<wb_repeats c}" if "m \<in> set ms" for m
  proof -
    have "write_key m \<in> set (map write_key ms)" using that by simp
    then show ?thesis unfolding keys schedule_keys by (simp add: write_key_def)
  qed
  let ?controls = "write_controls ms"
  have "map (\<lambda>m. the (?controls (wm_pair m, w)) / wm_write_seconds m)
      (filter (\<lambda>m. wm_workload m = w \<and> wm_processes m = p \<and> ?controls (wm_pair m, w) \<noteq> None) ms) =
    (if 0 \<in> set (wb_processes c) \<and> p \<in> set (wb_processes c)
     then map (\<lambda>i. written_seconds ms (i, w, 0) / written_seconds ms (i, w, p)) (range_list (wb_repeats c)) else [])" for w p
  proof (cases "0 \<in> set (wb_processes c)")
    case True
    have "map (\<lambda>m. the (?controls (wm_pair m, w)) / wm_write_seconds m)
        (filter (\<lambda>m. wm_workload m = w \<and> wm_processes m = p \<and> ?controls (wm_pair m, w) \<noteq> None) ms) =
      map (\<lambda>(i, w', p'). written_seconds ms (i, w, 0) / written_seconds ms (i, w', p'))
        (filter (\<lambda>(i, w', p'). w' = w \<and> p' = p) (map write_key ms))"
    proof (rule map_filter_key)
      fix m assume m: "m \<in> set ms"
      then show "(wm_workload m = w \<and> wm_processes m = p \<and> ?controls (wm_pair m, w) \<noteq> None) \<longleftrightarrow> (case write_key m of (i, w', p') \<Rightarrow> w' = w \<and> p' = p)"
        "the (?controls (wm_pair m, w)) / wm_write_seconds m =
          (case write_key m of (i, w', p') \<Rightarrow> written_seconds ms (i, w, 0) / written_seconds ms (i, w', p'))"
        using True write_controls_at [OF keys assms(2) round [OF m]] written_seconds_at [OF dist m] by (auto simp: write_key_def)
    qed
    then show ?thesis unfolding keys schedule_of [OF assms(2)] using True by (simp add: o_def)
  next
    case False
    then have "filter (\<lambda>m. wm_workload m = w \<and> wm_processes m = p \<and> ?controls (wm_pair m, w) \<noteq> None) ms = []"
      using write_controls_at [OF keys assms(2) round] by (auto simp: filter_empty_conv)
    then show ?thesis using False by simp
  qed
  then show ?thesis using pos assms(4)
    by (subst paired_speedups_def, subst collect_ratios_spec) (auto simp: range_list_def)
qed

lemma median_constant: "0 < n \<Longrightarrow> statistics_median (replicate n a) = Return a"
  using sorted_sort_id [OF sorted_replicate, of n a] by (auto simp: statistics_median_def Let_def)

lemma written_seconds_positive:
  assumes keys: "map write_key ms = write_schedule c" and "distinct (wb_processes c)" and "\<forall>m\<in>set ms. 0 < wm_write_seconds m"
    and "key \<in> set (write_schedule c)"
  shows "0 < written_seconds ms key"
proof -
  obtain m where "m \<in> set ms" "write_key m = key" using assms(4) unfolding keys [symmetric] by auto
  moreover have "distinct (map write_key ms)" unfolding keys using assms(2) by (rule schedule_distinct)
  ultimately show ?thesis using assms(3) written_seconds_at by metis
qed

text \<open>What the schedule relies on of one measurement: it names what was measured.\<close>

locale write_runner =
  fixes run :: "WriterBenchmark \<Rightarrow> write_key \<Rightarrow> Measurement exn"
  assumes echo: "run c key = Return m \<Longrightarrow> write_key m = key"
begin

lemma run_all: "mapE (run c) keys = Return ms \<Longrightarrow> map write_key ms = keys \<and> (\<forall>m\<in>set ms. \<exists>key. run c key = Return m)"
proof (induction keys arbitrary: ms)
  case (Cons key keys)
  then obtain m rest where "run c key = Return m" "mapE (run c) keys = Return rest" "ms = m # rest" by (auto simp: exn_simps)
  with Cons.IH [of rest] echo [of c key m] show ?case by (auto simp del: split_paired_Ex)
qed simp

lemma report_paired:
  assumes processes: "\<forall>n\<in>set (wb_processes c). 0 \<le> n" "distinct (wb_processes c)" and "1 \<le> wb_repeats c"
    and warm: "\<forall>key\<in>set (warmups c). \<exists>m. run (c\<lparr>wb_samples := 16\<rparr>) key = Return m"
    and runs: "\<forall>key\<in>set (write_schedule c). \<exists>m. run c key = Return m"
    and clock: "\<And>key m. run c key = Return m \<Longrightarrow> 0 < wm_write_seconds m" and same: "files True = files False"
  shows "\<exists>ms speedups. writer_cli run hexdigest files c = Return \<lparr>wr_settings = c, wr_measurements = ms, wr_speedups = speedups\<rparr> \<and>
    map write_key ms = write_schedule c \<and> (\<forall>m\<in>set ms. 0 < wm_write_seconds m) \<and>
    (\<forall>w p. speedups w p = (if 0 \<in> set (wb_processes c) \<and> p \<in> set (wb_processes c)
       then Some (statistics_median (map (\<lambda>i. written_seconds ms (i, w, 0) / written_seconds ms (i, w, p)) (range_list (wb_repeats c))))
       else None))"
proof -
  obtain ws where ws: "mapE (run (c\<lparr>wb_samples := 16\<rparr>)) (warmups c) = Return ws"
    using warm mapE_exists [of "warmups c" "run (c\<lparr>wb_samples := 16\<rparr>)" "\<lambda>key m. True"] by auto
  obtain ms where ms: "mapE (run c) (write_schedule c) = Return ms"
    using runs mapE_exists [of "write_schedule c" "run c" "\<lambda>key m. True"] by auto
  have keys: "map write_key ms = write_schedule c" and pos: "\<forall>m\<in>set ms. 0 < wm_write_seconds m"
    using run_all [OF ms] clock by blast+
  from paired_speedups_ok [OF keys processes(2) pos assms(3)] obtain speedups where sp: "paired_speedups ms = Return speedups"
      "\<forall>w p. speedups w p = (if 0 \<in> set (wb_processes c) \<and> p \<in> set (wb_processes c)
       then Some (statistics_median (map (\<lambda>i. written_seconds ms (i, w, 0) / written_seconds ms (i, w, p)) (range_list (wb_repeats c))))
       else None)" by blast
  have "\<not> list_ex (\<lambda>n. n < 0) (wb_processes c)" using processes(1) by (auto simp: list_ex_iff not_less)
  then have "writer_cli run hexdigest files c = Return \<lparr>wr_settings = c, wr_measurements = ms, wr_speedups = speedups\<rparr>"
    using ws ms sp(1) processes(2) same by (simp add: writer_cli_def)
  then show ?thesis using keys pos sp(2) by blast
qed

end

text \<open>The script's own measurement; a write that fails or never returns gives none.\<close>

definition write_run ::
  "unicode \<Rightarrow> PreparedSource native_writer \<Rightarrow> (write_key \<Rightarrow> write_env) \<Rightarrow> (write_key \<Rightarrow> write_measure_env) \<Rightarrow> path \<Rightarrow> WriterBenchmark \<Rightarrow> write_key \<Rightarrow> Measurement exn" where
  "write_run u native env me directory c key =
     (case key of (pair, w, process_count) \<Rightarrow>
      case measure_write u native (env key) (me key) directory c pair w process_count of
        Some (Inr m) \<Rightarrow> Return m
      | _ \<Rightarrow> Raise (RuntimeError ''no measurement''))"

interpretation script_write: write_runner "write_run u native env me directory" for u native env me directory
proof
  fix c key m assume "write_run u native env me directory c key = Return m"
  then show "write_key m = key"
    by (auto simp: write_run_def measure_write_def finish_measure_def raised_exn_def write_key_def exn_simps
        split: prod.splits option.splits sum.splits if_splits)
qed

section \<open>Verification of written records\<close>

lemma prepared_input_facts:
  assumes "prepared_input sha256 source index = Return f" "8 \<le> prep_payload_bytes source" and sha: "\<And>bs. length (sha256 bs) = 32"
  shows "from_little_endian (take 8 (fixture_data f)) = index" "int (length (fixture_data f)) = prep_payload_bytes source"
proof -
  let ?n = "prep_payload_bytes source" and ?digest = "sha256 ((sha256 ^^ nat (prep_rounds source)) (little_endian 8 index))"
  have index: "0 \<le> index" "index < 2 ^ 64"
    and f: "fixture_data f = take (nat ?n) (little_endian 8 index @ concat (replicate (nat ((?n + 31) div 32)) ?digest))"
    using assms(1) by (auto simp: prepared_input_def Let_def exn_simps)
  have "min 8 (nat ?n) = 8" using assms(2) by simp
  then have "take 8 (fixture_data f) = take 8 (little_endian 8 index @ concat (replicate (nat ((?n + 31) div 32)) ?digest))"
    by (simp only: f take_take)
  then show "from_little_endian (take 8 (fixture_data f)) = index" using index by (simp add: little_endian_inverse)
  have "?n \<le> (?n + 31) div 32 * 32" by simp
  then have "nat ?n \<le> nat ((?n + 31) div 32) * 32" using assms(2) by linarith
  then show "int (length (fixture_data f)) = ?n" using assms(2) by (simp add: f sha length_concat sum_list_replicate)
qed

text \<open>A sample holding what a source of this benchmark prepared for its index.\<close>

definition prepared_sample :: "(byte list \<Rightarrow> byte list) \<Rightarrow> WriterBenchmark \<Rightarrow> workload \<Rightarrow> fixture CachedSample \<Rightarrow> bool" where
  "prepared_sample sha256 c w x \<longleftrightarrow>
     list_ex (\<lambda>source. prepared_input sha256 (src_body source) (int (sample_id x)) = Return (sample_value x)) (prepared_sources c w)"

lemma read_back_prepared:
  assumes "\<forall>x\<in>set xs. prepared_sample sha256 c w x" "8 \<le> wb_payload_bytes c" "\<And>bs. length (sha256 bs) = 32"
  shows "read_back (map Return xs) (n, bytes) = Return (n + int (length xs), bytes + int (length xs) * wb_payload_bytes c)"
  using assms(1)
proof (induction xs arbitrary: n bytes)
  case (Cons x xs)
  then obtain source where source: "source \<in> set (prepared_sources c w)"
      "prepared_input sha256 (src_body source) (int (sample_id x)) = Return (sample_value x)"
    by (auto simp: prepared_sample_def list_ex_iff)
  then have "prep_payload_bytes (src_body source) = wb_payload_bytes c" by (auto simp: prepared_sources_def Let_def)
  then show ?case using prepared_input_facts [OF source(2) _ assms(3)] Cons assms(2) by (simp add: algebra_simps)
qed simp

section \<open>Properties\<close>

text \<open>
  Writer speedups compare like with like: for accepted settings, when every write returns a measurement of what
  was asked and takes time, each process count is measured exactly once per round and workload, and the reported
  speedup of a count is the median over the rounds of the serial time of that round and workload over the
  time of the count, so the serial count itself reports exactly one. Without the serial count nothing is reported.
\<close>

theorem speedups_paired:
  assumes "check_WriterBenchmark c = Return c" and "\<forall>n\<in>set (wb_processes c). 0 \<le> n" "distinct (wb_processes c)"
    and "\<forall>key\<in>set (warmups c). \<exists>m. run (c\<lparr>wb_samples := 16\<rparr>) key = Return m"
    and "\<forall>key\<in>set (write_schedule c). \<exists>m. run c key = Return m"
    and result: "\<forall>c key m. run c key = Return m \<longrightarrow> write_key m = key \<and> 0 < wm_write_seconds m"
    and "files True = files False"
  shows "\<exists>report. writer_cli run hexdigest files c = Return report \<and> map write_key (wr_measurements report) = write_schedule c \<and>
    (\<forall>w p. wr_speedups report w p = (if 0 \<in> set (wb_processes c) \<and> p \<in> set (wb_processes c)
       then Some (statistics_median (map (\<lambda>i. written_seconds (wr_measurements report) (i, w, 0) /
         written_seconds (wr_measurements report) (i, w, p)) (range_list (wb_repeats c)))) else None)) \<and>
    (0 \<in> set (wb_processes c) \<longrightarrow> (\<forall>w. wr_speedups report w 0 = Some (Return 1)))"
proof -
  have runner: "write_runner run" using result by unfold_locales blast
  have n: "1 \<le> wb_repeats c" using assms(1) by (simp add: check_WriterBenchmark_def split: if_splits)
  obtain ms speedups where report: "writer_cli run hexdigest files c = Return \<lparr>wr_settings = c, wr_measurements = ms, wr_speedups = speedups\<rparr>"
      "map write_key ms = write_schedule c" "\<forall>m\<in>set ms. 0 < wm_write_seconds m"
      "\<forall>w p. speedups w p = (if 0 \<in> set (wb_processes c) \<and> p \<in> set (wb_processes c)
       then Some (statistics_median (map (\<lambda>i. written_seconds ms (i, w, 0) / written_seconds ms (i, w, p)) (range_list (wb_repeats c))))
       else None)"
    using write_runner.report_paired [OF runner assms(2,3) n assms(4,5) _ assms(7)] result by blast
  have "speedups w 0 = Some (Return 1)" if zero: "0 \<in> set (wb_processes c)" for w
  proof -
    have "written_seconds ms (i, w, 0) \<noteq> 0" if "i \<in> set (range_list (wb_repeats c))" for i
      using written_seconds_positive [OF report(2) assms(3) report(3), of "(i, w, 0)"] that zero by (simp add: schedule_keys)
    then have "map (\<lambda>i. written_seconds ms (i, w, 0) / written_seconds ms (i, w, 0)) (range_list (wb_repeats c)) =
        replicate (nat (wb_repeats c)) 1"
      by (intro replicate_eqI) auto
    then show ?thesis using report(4) zero n by (simp add: median_constant)
  qed
  then show ?thesis using report by auto
qed

definition demo_writer_bench :: WriterBenchmark where
  "demo_writer_bench = \<lparr>wb_samples = 3, wb_sources = 2, wb_payload_bytes = 8, wb_preparation_rounds = 0, wb_native_workers = 1, wb_prefetch_size = 16,
     wb_repeats = 3, wb_processes = [2, 0], wb_process_timeout_seconds = 60, wb_output = Path [] [''w.json''], wb_quiet = True\<rparr>"

definition demo_write :: "WriterBenchmark \<Rightarrow> write_key \<Rightarrow> Measurement exn" where
  "demo_write c key = (case key of (pair, w, n) \<Rightarrow> Return \<lparr>wm_pair = pair, wm_workload = w, wm_processes = n,
     wm_write_seconds = (if n = 0 then 6 else 2), wm_first_source_seconds = 0, wm_first_sample_seconds = 0, wm_accepted_samples = 6,
     wm_accepted_bytes = 48, wm_writer_pids = [], wm_resources = (0, 0, 0)\<rparr>)"

theorem speedups_paired_witness:
  "\<exists>report. writer_cli demo_write (\<lambda>bs. []) (\<lambda>after name. []) demo_writer_bench = Return report \<and>
     (\<forall>w. wr_speedups report w 0 = Some (Return 1)) \<and> (\<forall>w. wr_speedups report w 4 = None)"
proof -
  have settings: "check_WriterBenchmark demo_writer_bench = Return demo_writer_bench" "\<forall>n\<in>set (wb_processes demo_writer_bench). 0 \<le> n"
      "distinct (wb_processes demo_writer_bench)" by (simp_all add: check_WriterBenchmark_def demo_writer_bench_def)
  have result: "\<forall>c key m. demo_write c key = Return m \<longrightarrow> write_key m = key \<and> 0 < wm_write_seconds m"
    and runs: "\<exists>m. demo_write c key = Return m" for c key
    by (auto simp: demo_write_def write_key_def split: prod.splits if_splits)
  obtain report where report: "writer_cli demo_write (\<lambda>bs. []) (\<lambda>after name. []) demo_writer_bench = Return report"
    "\<forall>w p. wr_speedups report w p = (if 0 \<in> set (wb_processes demo_writer_bench) \<and> p \<in> set (wb_processes demo_writer_bench)
       then Some (statistics_median (map (\<lambda>i. written_seconds (wr_measurements report) (i, w, 0) /
         written_seconds (wr_measurements report) (i, w, p)) (range_list (wb_repeats demo_writer_bench)))) else None)"
    "0 \<in> set (wb_processes demo_writer_bench) \<longrightarrow> (\<forall>w. wr_speedups report w 0 = Some (Return 1))"
    using speedups_paired [OF settings _ _ result, of "\<lambda>after name. []" "\<lambda>bs. []"] runs by blast
  have "wr_speedups report w 4 = None" for w using report(2) by (simp add: demo_writer_bench_def)
  moreover have "wr_speedups report w 0 = Some (Return 1)" for w using report(3) by (simp add: demo_writer_bench_def)
  ultimately show ?thesis using report(1) by blast
qed

text \<open>
  The records a source prepares pass the verification after the write: reading back one record per written
  sample, in any order, every record carries its own index, and counts and bytes are exactly those requested.
\<close>

theorem written_records_verified:
  assumes "check_WriterBenchmark c = Return c" and "\<forall>bs. length (sha256 bs) = 32"
    and "\<forall>x\<in>set xs. prepared_sample sha256 c w x" and "int (length xs) = wb_samples c * wb_sources c"
  shows "verify_written c (map Return xs) = Return (wb_samples c * wb_sources c, wb_samples c * wb_sources c * wb_payload_bytes c)"
proof -
  have "8 \<le> wb_payload_bytes c" using assms(1) by (simp add: check_WriterBenchmark_def split: if_splits)
  from read_back_prepared [OF assms(3) this, of 0 0] show ?thesis using assms(2,4) by (simp add: verify_written_def)
qed

definition demo_record :: "nat \<Rightarrow> fixture CachedSample" where
  "demo_record k = \<lparr>sample_value = \<lparr>fixture_data = little_endian 8 (int k), fixture_metadata = [''index'' \<mapsto> VInt (int k)]\<rparr>,
     sample_cache_id = 0, sample_id = k\<rparr>"

theorem written_records_verified_witness:
  "verify_written demo_writer_bench (map Return [demo_record 2, demo_record 0, demo_record 1, demo_record 2, demo_record 0, demo_record 1]) =
     Return (6, 48)"
proof -
  have "prepared_sample (\<lambda>bs. replicate 32 0) demo_writer_bench Cheap (demo_record k)" if "k < 3" for k
    using that by (auto simp: prepared_sample_def prepared_sources_def demo_writer_bench_def demo_record_def prepared_input_def to_bytes_def
        Let_def list_ex_iff)
  then have "\<forall>x\<in>set [demo_record 2, demo_record 0, demo_record 1, demo_record 2, demo_record 0, demo_record 1].
      prepared_sample (\<lambda>bs. replicate 32 0) demo_writer_bench Cheap x" by simp
  from written_records_verified [OF _ _ this] show ?thesis by (simp add: check_WriterBenchmark_def demo_writer_bench_def)
qed

end
