(* ===== verification/Smoke_Bench.thy ===== *)
theory Smoke_Bench
  imports Writer_Bench
begin

text \<open>
  \<open>src/scripts/bench_smoke.py\<close>: one synthetic source written and read back, with the byte count and the rates. The
  four clock readings, the text of an error object, the native writer and reader are arguments.
\<close>

definition SAMPLE_COUNT :: int where
  "SAMPLE_COUNT = 10000"

definition PAYLOAD_BYTES :: int where
  "PAYLOAD_BYTES = 1024"

definition smoke_inputs :: "fixture list" where
  "smoke_inputs = map (\<lambda>index. \<lparr>fixture_data = replicate (nat PAYLOAD_BYTES) 120,
     fixture_metadata = [''index'' \<mapsto> VInt index, ''split'' \<mapsto> VStr ''train'']\<rparr>) (range_list SAMPLE_COUNT)"

definition smoke_source :: "fixture list source" where
  "smoke_source = \<lparr>src_name = Inr ''synthetic'', src_body = smoke_inputs\<rparr>"

text \<open>\<open>sum(len(sample.data) for sample in dataset)\<close>: the first read error ends it.\<close>

fun byte_total :: "fixture CachedSample exn list \<Rightarrow> int exn" where
  "byte_total [] = Return 0"
| "byte_total (x # xs) = bindE x (\<lambda>sample. bindE (byte_total xs) (\<lambda>n. Return (int (length (fixture_data (sample_value sample))) + n)))"

record SmokeReport =
  sm_samples :: int
  sm_payload_bytes :: int
  sm_total_bytes_read :: int
  sm_write_seconds :: rat
  sm_read_seconds :: rat
  sm_write_rate :: rat
  sm_read_rate :: rat

definition smoke_report :: "int \<Rightarrow> rat \<Rightarrow> rat \<Rightarrow> SmokeReport exn" where
  "smoke_report bytes write_seconds read_seconds =
     bindE (fdiv (of_int SAMPLE_COUNT) write_seconds) (\<lambda>write_rate.
     bindE (fdiv (of_int SAMPLE_COUNT) read_seconds) (\<lambda>read_rate.
       Return \<lparr>sm_samples = SAMPLE_COUNT, sm_payload_bytes = PAYLOAD_BYTES, sm_total_bytes_read = bytes,
         sm_write_seconds = write_seconds, sm_read_seconds = read_seconds, sm_write_rate = write_rate, sm_read_rate = read_rate\<rparr>))"

definition smoke_main ::
  "(fixture, 'x) load_caches \<Rightarrow> (path \<Rightarrow> path) \<Rightarrow> unicode \<Rightarrow> fixture list native_writer \<Rightarrow> write_env \<Rightarrow> rng \<Rightarrow> (nat \<Rightarrow> rat) \<Rightarrow>
   (CacheWriteResult list \<Rightarrow> string \<Rightarrow> string) \<Rightarrow> path \<Rightarrow> (raised + SmokeReport) option" where
  "smoke_main load_caches resolve u native env g clock show_error temp_dir =
     (case new_runtime 4 of
        Inl e \<Rightarrow> Some (Inl (raised_of e))
      | Inr runtime \<Rightarrow>
          (case from_cache_sources load_caches resolve u native env runtime [smoke_source] (path_child temp_dir ''cache'')
              \<lparr>reader_seed_value = 42, prefetch_size = 128, reader_shuffle = False, validate_cache = False\<rparr>
              (DEFAULT_WRITER_CONFIG\<lparr>writer_prefetch_size := 128\<rparr>) of
             None \<Rightarrow> None
           | Some (Inl e) \<Rightarrow> Some (Inl e)
           | Some (Inr (CacheSourcesDatasetError results message)) \<Rightarrow> Some (Inl (raised_of (RuntimeError (show_error results message))))
           | Some (Inr (CacheSourcesDatasetSuccess dataset results)) \<Rightarrow>
               Some (raised_exn (bindE (ds_iter g dataset) (\<lambda>(window, dataset').
                 bindE (byte_total window) (\<lambda>bytes. smoke_report bytes (clock 1 - clock 0) (clock 3 - clock 2)))))))"

text \<open>Reading back what the source wrote counts every byte of it.\<close>

lemma byte_total_map: "byte_total (map Return samples) = Return (\<Sum>s\<leftarrow>samples. int (length (fixture_data (sample_value s))))"
  by (induction samples) simp_all

lemma smoke_bytes:
  assumes "map sample_value samples = smoke_inputs"
  shows "byte_total (map Return samples) = Return (SAMPLE_COUNT * PAYLOAD_BYTES)"
proof -
  have "(\<Sum>s\<leftarrow>samples. int (length (fixture_data (sample_value s)))) = (\<Sum>x\<leftarrow>smoke_inputs. int (length (fixture_data x)))"
    unfolding assms [symmetric] by (simp add: o_def)
  also have "\<dots> = SAMPLE_COUNT * PAYLOAD_BYTES"
    by (simp add: smoke_inputs_def o_def sum_list_triv PAYLOAD_BYTES_def SAMPLE_COUNT_def)
  finally show ?thesis by (simp add: byte_total_map)
qed

text \<open>When the reader delivers the written samples and the clock advances, the run reports all of their bytes.\<close>

lemma smoke_reports_all_bytes:
  assumes "ds_iter g dataset = Return (map Return samples, dataset')" and "map sample_value samples = smoke_inputs"
    and "new_runtime 4 = Return runtime"
    and "from_cache_sources load_caches resolve u native env runtime [smoke_source] (path_child temp_dir ''cache'')
        \<lparr>reader_seed_value = 42, prefetch_size = 128, reader_shuffle = False, validate_cache = False\<rparr>
        (DEFAULT_WRITER_CONFIG\<lparr>writer_prefetch_size := 128\<rparr>) = Some (Inr (CacheSourcesDatasetSuccess dataset results))"
    and "clock 0 < clock 1" and "clock 2 < clock 3"
  shows "\<exists>report. smoke_main load_caches resolve u native env g clock show_error temp_dir = Some (Inr report) \<and>
    sm_total_bytes_read report = SAMPLE_COUNT * PAYLOAD_BYTES"
  using assms smoke_bytes [OF assms(2)] by (simp add: smoke_main_def smoke_report_def fdiv_def raised_exn_def)

end
