(* ===== verification/Ddp_Example.thy ===== *)
theory Ddp_Example
  imports Benchmark_Run Runtime
begin

text \<open>
  \<open>src/examples/ddp_loading.py\<close>: the distributed training example. One cache of 48 samples, one loader per rank,
  and a loop that must make the same number of optimizer steps on every rank, because each step waits for all.

  Tensors, the model and the process group are arguments: an iteration of the loop is what the loader delivered
  and what training it raised.
\<close>

section \<open>Settings and samples\<close>

record Example =
  ex_ranks :: int
  ex_workers :: int
  ex_worker_context :: string
  ex_gloo_interface :: string
  ex_steps :: int
  ex_shuffle :: bool
  ex_quiet :: bool
  ex_json_output :: bool

definition check_Example :: "Example \<Rightarrow> Example exn" where
  "check_Example e =
     (if 2 \<le> ex_ranks e \<and> ex_ranks e \<le> 4 \<and> 0 \<le> ex_workers e \<and> ex_workers e \<le> 2 \<and>
         ex_worker_context e \<in> set [''fork'', ''spawn'', ''forkserver''] \<and> 0 < ex_steps e
      then Return e else Raise (ValueError ''Example''))"

definition example_inputs :: "fixture list" where
  "example_inputs = map (\<lambda>index. \<lparr>fixture_data = Benchmark_Run.encode (str_int index), fixture_metadata = [''index'' \<mapsto> VInt index]\<rparr>) (range_list 48)"

text \<open>\<open>int(sample.data) / 48\<close>: the digits of a byte string.\<close>

definition decode :: "byte list \<Rightarrow> string" where
  "decode bs = map (\<lambda>b. char_of (unat b)) bs"

definition example_transform :: "fixture CachedSample \<Rightarrow> rat exn" where
  "example_transform sample = bindE (py_int (decode (fixture_data (sample_value sample)))) (\<lambda>n. Return (of_int n / 48))"

section \<open>One rank\<close>

definition example_samples :: "Example \<Rightarrow> int" where
  "example_samples e = ex_steps e * 4 * ex_ranks e"

definition example_options :: "Example \<Rightarrow> LoaderOptions" where
  "example_options e =
     \<lparr>opt_shuffle = VBool (ex_shuffle e),
      opt_seed = (if ex_shuffle e then VInt 7 else VStr ''random''),
      opt_samples_per_epoch = VInt (example_samples e),
      opt_partition = VStr (if ex_shuffle e then ''replicate'' else ''split''),
      opt_batch_size = VInt 4,
      opt_num_workers = VInt (ex_workers e),
      opt_native_num_workers = VStr ''auto'',
      opt_drop_last = VBool False,
      opt_pin_memory = VBool False,
      opt_persistent_workers = VBool (ex_workers e > 0),
      opt_timeout = VInt 0,
      opt_context = VStr (ex_worker_context e),
      opt_prefetch = VStr ''auto'',
      opt_verbose = VBool (\<not> ex_quiet e)\<rparr>"

definition example_call :: "Example \<Rightarrow> (fixture, string, rat) loader_call" where
  "example_call e = \<lparr>call_options = example_options e, call_transform = Some example_transform, call_picklable = True,
     call_work_dir = None, call_kwargs = []\<rparr>"

text \<open>An iteration: the delivered object (an exception, or whether it is a tensor) and what the step raised.\<close>

record train_iteration =
  ti_batch :: "bool exn"
  ti_step :: "py_error option"

datatype ddp_event = JoinGroup int int | StepDone int | Report int int | LeaveGroup

text \<open>The training loop: the printed steps, and the number of completed ones.\<close>

fun train_loop :: "Example \<Rightarrow> int \<Rightarrow> train_iteration list \<Rightarrow> int \<Rightarrow> ddp_event list \<times> int exn" where
  "train_loop e r [] completed = ([], Return completed)"
| "train_loop e r (it # its) completed =
     (case ti_batch it of
        Inl err \<Rightarrow> ([], Raise err)
      | Inr tensor \<Rightarrow>
          if \<not> tensor then ([], Raise (TypeError ''expected the transform's collated tensor''))
          else case ti_step it of
              Some err \<Rightarrow> ([], Raise err)
            | None \<Rightarrow>
                (case train_loop e r its (completed + 1) of
                   (events, outcome) \<Rightarrow> ((if r = 0 \<and> \<not> ex_quiet e then [StepDone (completed + 1)] else []) @ events, outcome)))"

record rank_world =
  rw_platform :: "(fixture, string) platform"
  rw_fs :: "string metadata_row fs"
  rw_torch :: "dataloader_args \<Rightarrow> (fixture, string, rat) ReaderAdapter \<Rightarrow> train_iteration list exn"
  rw_init :: "py_error option"
  rw_model :: "py_error option"

definition rank_loader :: "rank_world \<Rightarrow> Example \<Rightarrow> path \<Rightarrow> train_iteration list exn" where
  "rank_loader rw e cache =
     (let pf = rw_platform rw in
      bindE (new_runtime 1) (\<lambda>runtime.
      bindE (cached_dataset (pf_load_caches pf) (pf_resolve pf) runtime [cache]
               \<lparr>reader_seed_value = 7, prefetch_size = 2, reader_shuffle = True, validate_cache = False\<rparr>) (\<lambda>ds.
      bindE (snd (to_torch_dataloader pf (rw_torch rw) (rw_fs rw) ds (example_call e))) (\<lambda>(loader, rest).
      case rw_model rw of Some err \<Rightarrow> Raise err | None \<Rightarrow> Return loader))))"

definition train_rank :: "rank_world \<Rightarrow> int \<Rightarrow> Example \<Rightarrow> path \<Rightarrow> ddp_event list \<times> unit exn" where
  "train_rank rw r e cache =
     (case rw_init rw of
        Some err \<Rightarrow> ([], Raise err)
      | None \<Rightarrow>
          let (events, outcome) =
            (case rank_loader rw e cache of
               Inl err \<Rightarrow> ([], Raise err)
             | Inr iterations \<Rightarrow>
                 (case train_loop e r iterations 0 of
                    (steps, Inl err) \<Rightarrow> (steps, Raise err)
                  | (steps, Inr completed) \<Rightarrow>
                      (steps @ (if ex_json_output e \<or> \<not> ex_quiet e then [Report r completed] else []), Return ()))) in
          (JoinGroup r (ex_ranks e) # events @ [LeaveGroup], outcome))"

text \<open>\<open>cli_cmd\<close>: write the cache, then one process per rank; \<open>spawn\<close> is what joining them raises.\<close>

definition example_cli ::
  "unicode \<Rightarrow> fixture list native_writer \<Rightarrow> write_env \<Rightarrow> (path \<Rightarrow> py_error option) \<Rightarrow> path \<Rightarrow> Example \<Rightarrow> (raised + unit) option" where
  "example_cli u native env spawn directory e =
     (case new_runtime 1 of
        Inl err \<Rightarrow> Some (Inl (raised_of err))
      | Inr runtime \<Rightarrow>
          (case write_cache u native env runtime [\<lparr>src_name = Inr ''training'', src_body = example_inputs\<rparr>] directory
                  (DEFAULT_WRITER_CONFIG\<lparr>show_progress := \<not> ex_quiet e\<rparr>) of
             None \<Rightarrow> None
           | Some (Inl err) \<Rightarrow> Some (Inl err)
           | Some (Inr []) \<Rightarrow> Some (Inl (raised_of (IndexError ''list index out of range'')))
           | Some (Inr (CacheWriteError name message # outcomes)) \<Rightarrow> Some (Inl (raised_of (RuntimeError message)))
           | Some (Inr (CacheWriteSuccess name cache # outcomes)) \<Rightarrow>
               Some (case spawn cache of Some err \<Rightarrow> Inl (raised_of err) | None \<Rightarrow> Inr ())))"

section \<open>Facts\<close>

text \<open>Every payload the source writes is transformed, to its index over 48.\<close>

lemma decode_encode [simp]: "decode (Benchmark_Run.encode s) = s"
proof -
  have "char_of (unat (word_of_int (of_char c) :: byte)) = c" for c
  proof -
    have "unat (word_of_int (of_char c) :: byte) = (of_char c :: nat)"
      by (simp add: unat_eq_nat_uint uint_word_of_int nat_mod_distrib)
    then show ?thesis by simp
  qed
  then show ?thesis by (simp add: decode_def Benchmark_Run.encode_def o_def)
qed

lemma example_transform_input:
  assumes "k < 48" "sample_value x = example_inputs ! k"
  shows "example_transform x = Return (of_nat k / 48)"
proof -
  have "k < nat 48" using assms(1) by simp
  then have "fixture_data (example_inputs ! k) = Benchmark_Run.encode (str_int (int k))"
    unfolding example_inputs_def by (subst nth_map) (simp_all only: length_range_list nth_range_list fixture.select_convs)
  then show ?thesis using assms(2) by (simp add: example_transform_def py_int_str_int)
qed

lemma train_loop_all:
  assumes "\<forall>it\<in>set its. ti_batch it = Return True \<and> ti_step it = None"
  shows "snd (train_loop e r its completed) = Return (completed + int (length its))"
  using assms
proof (induction its arbitrary: completed)
  case (Cons it its)
  have good: "ti_batch it = Return True" "ti_step it = None" using Cons.prems by auto
  obtain events outcome where rest: "train_loop e r its (completed + 1) = (events, outcome)" by fastforce
  have "snd (train_loop e r its (completed + 1)) = Return (completed + 1 + int (length its))"
    using Cons.prems by (intro Cons.IH) auto
  then have "outcome = Return (completed + 1 + int (length its))" by (simp only: rest snd_conv)
  then show ?case using good rest by simp
qed simp

lemma ceiling_exact:
  fixes xs :: "int list"
  assumes "0 < b" and "sum_list (map (\<lambda>x. (x + b - 1) div b) xs) * b = sum_list xs" and "x \<in> set xs"
  shows "b dvd x"
proof -
  have above: "y \<le> (y + b - 1) div b * b" for y
    using div_mult_mod_eq [of "y + b - 1" b] pos_mod_bound [OF assms(1), of "y + b - 1"] by linarith
  have sums_above: "sum_list ys \<le> sum_list (map (\<lambda>x. (x + b - 1) div b) ys) * b" for ys :: "int list"
  proof (induction ys)
    case (Cons z zs)
    then show ?case using above [of z] unfolding list.map sum_list.Cons distrib_right by linarith
  qed simp
  have "x = (x + b - 1) div b * b"
    using assms(2,3)
  proof (induction xs)
    case (Cons y ys)
    have total_eq: "(y + b - 1) div b * b + sum_list (map (\<lambda>x. (x + b - 1) div b) ys) * b = y + sum_list ys"
      using Cons.prems(1) unfolding list.map sum_list.Cons distrib_right .
    then have "y = (y + b - 1) div b * b" "sum_list (map (\<lambda>x. (x + b - 1) div b) ys) * b = sum_list ys"
      using above [of y] sums_above [of ys] by linarith+
    then show ?case using Cons.IH Cons.prems(2) by (metis set_ConsD)
  qed simp
  then show ?thesis by (metis dvd_triv_right)
qed

section \<open>Properties\<close>

text \<open>
  C36. No rank of the example waits for a step the others never make: for accepted settings, every rank is planned
  exactly the requested number of batches, all of them full, for every rank count, worker count and mode; no
  sample count is adjusted; and a rank that is delivered its planned batches completes exactly the requested
  number of optimizer steps.
\<close>

theorem ranks_step_equally:
  assumes check: "check_Example e = Return e" and r: "0 \<le> r" "r < ex_ranks e" and "example_samples e \<le> MAX_SAMPLE_BUDGET"
    and "1 \<le> cfg_row_count config" "cfg_row_count config \<le> U64_MAX"
  shows "\<exists>plans. prepare_partitions entropy config \<lparr>rank = r, world_size = ex_ranks e\<rparr> (ex_workers e) 4 (example_samples e)
      (resolved_partition (example_options e)) (ex_shuffle e) (resolved_seed (example_options e)) False = Return (plans, []) \<and>
    (\<forall>p\<in>set plans. 0 \<le> sample_count p \<and> 4 dvd sample_count p) \<and>
    (\<forall>its. int (length its) = sum_list (map (\<lambda>p. (sample_count p + 3) div 4) plans) \<and>
       (\<forall>it\<in>set its. ti_batch it = Return True \<and> ti_step it = None) \<longrightarrow> snd (train_loop e r its 0) = Return (ex_steps e))"
proof -
  have e: "2 \<le> ex_ranks e" "0 \<le> ex_workers e" "ex_workers e \<le> 2" "0 < ex_steps e" "ex_ranks e \<le> 4"
    using check by (auto simp: check_Example_def split: if_splits)
  then have "0 < example_samples e" unfolding example_samples_def by (intro mult_pos_pos) simp_all
  then have inputs: "planner_inputs config \<lparr>rank = r, world_size = ex_ranks e\<rparr> (ex_workers e) 4 (example_samples e) (ex_shuffle e)
      (resolved_seed (example_options e))"
    using e assms(2-6) by (simp add: planner_inputs_def valid_replica_def resolved_seed_def example_options_def U64_MAX_def)
  have "(example_samples e + ex_ranks e - 1) div ex_ranks e = ex_steps e * 4"
  proof -
    have "(ex_ranks e - 1 + ex_ranks e * (ex_steps e * 4)) div ex_ranks e = ex_steps e * 4 + (ex_ranks e - 1) div ex_ranks e"
      using e(1) by (intro div_mult_self2) simp
    moreover have "(ex_ranks e - 1) div ex_ranks e = 0" using e(1) by (intro div_pos_pos_trivial) simp_all
    moreover have "example_samples e + ex_ranks e - 1 = ex_ranks e - 1 + ex_ranks e * (ex_steps e * 4)" by (simp add: example_samples_def)
    ultimately show ?thesis by (simp only: add_0_right)
  qed
  then have budget: "rank_budget (example_samples e) \<lparr>rank = r, world_size = ex_ranks e\<rparr> 4 False = Return (ex_steps e * 4, [])"
    using e(1) by (simp add: rank_budget_def Let_def example_samples_def)
  from prepared_plans [OF inputs, of entropy "resolved_partition (example_options e)" False] budget obtain plans where plans:
      "prepare_partitions entropy config \<lparr>rank = r, world_size = ex_ranks e\<rparr> (ex_workers e) 4 (example_samples e)
        (resolved_partition (example_options e)) (ex_shuffle e) (resolved_seed (example_options e)) False = Return (plans, [])"
      "sum_list (map sample_count plans) = ex_steps e * 4" "\<forall>p\<in>set plans. 0 \<le> sample_count p"
      "sum_list (map (\<lambda>p. (sample_count p + 4 - 1) div 4) plans) = (ex_steps e * 4 + 4 - 1) div 4" by auto
  have batches: "sum_list (map (\<lambda>p. (sample_count p + 3) div 4) plans) = ex_steps e" using plans(4) by (simp add: add.commute)
  have "4 dvd sample_count p" if "p \<in> set plans" for p
    using ceiling_exact [of 4 "map sample_count plans" "sample_count p"] plans(2) batches that by (simp add: o_def add.commute)
  moreover have "snd (train_loop e r its 0) = Return (ex_steps e)"
    if "int (length its) = sum_list (map (\<lambda>p. (sample_count p + 3) div 4) plans)" "\<forall>it\<in>set its. ti_batch it = Return True \<and> ti_step it = None" for its
    using train_loop_all [OF that(2)] that(1) batches by simp
  ultimately show ?thesis using plans(1,3) by blast
qed

definition demo_example :: Example where
  "demo_example = \<lparr>ex_ranks = 3, ex_workers = 2, ex_worker_context = ''spawn'', ex_gloo_interface = ''lo'', ex_steps = 4, ex_shuffle = True,
     ex_quiet = False, ex_json_output = False\<rparr>"

theorem ranks_step_equally_witness:
  "\<exists>plans. prepare_partitions (\<lambda>w. 0) (demo_config 48) \<lparr>rank = 2, world_size = 3\<rparr> 2 4 48
      (resolved_partition (example_options demo_example)) True (resolved_seed (example_options demo_example)) False = Return (plans, []) \<and>
    (\<forall>p\<in>set plans. 4 dvd sample_count p) \<and>
    snd (train_loop demo_example 2 (replicate (nat (sum_list (map (\<lambda>p. (sample_count p + 3) div 4) plans))) \<lparr>ti_batch = Return True, ti_step = None\<rparr>) 0) =
      Return (ex_steps demo_example)"
proof -
  have "check_Example demo_example = Return demo_example" by (simp add: check_Example_def demo_example_def)
  then obtain plans where plans: "prepare_partitions (\<lambda>w. 0) (demo_config 48) \<lparr>rank = 2, world_size = 3\<rparr> 2 4 48
      (resolved_partition (example_options demo_example)) True (resolved_seed (example_options demo_example)) False = Return (plans, [])"
      "\<forall>p\<in>set plans. 0 \<le> sample_count p \<and> 4 dvd sample_count p"
      "\<forall>its. int (length its) = sum_list (map (\<lambda>p. (sample_count p + 3) div 4) plans) \<and>
       (\<forall>it\<in>set its. ti_batch it = Return True \<and> ti_step it = None) \<longrightarrow> snd (train_loop demo_example 2 its 0) = Return (ex_steps demo_example)"
    using ranks_step_equally [of demo_example 2 "demo_config 48" "\<lambda>w. 0"]
    by (auto simp: demo_example_def example_samples_def MAX_SAMPLE_BUDGET_def sys_maxsize_def demo_config_def U64_MAX_def)
  have "0 \<le> sum_list (map (\<lambda>p. (sample_count p + 3) div 4) plans)"
    using plans(2) by (intro sum_list_nonneg) auto
  then show ?thesis using plans(1,2) plans(3) [rule_format, of "replicate (nat (sum_list (map (\<lambda>p. (sample_count p + 3) div 4) plans))) \<lparr>ti_batch = Return True, ti_step = None\<rparr>"]
    by auto
qed

end
