(* ===== verification/Py_Ast.thy ===== *)
theory Py_Ast
  imports Prelude
begin

text \<open>
  The syntax trees of Python's \<open>ast\<close> module, as far as the scripts that analyse sources look at them: the classes
  they name with their fields, any other class as a node with its children. Every node has an identity, since
  the scripts compare nodes by \<open>id\<close>. \<open>ast.iter_child_nodes\<close> and \<open>ast.walk\<close> are \<open>children\<close> and \<open>walk\<close>; the
  context markers of names (\<open>Load\<close>, \<open>Store\<close>) are leaves that no script looks at and are left out.
\<close>

record location =
  node_id :: nat
  lineno :: int
  col_offset :: int

datatype const_value = StrConst string | OtherConst

datatype py_node =
    Name location string
  | Attribute location py_node string
  | Subscript location py_node py_node
  | Constant location const_value
  | Call location py_node "py_node list" "py_node list"
  | Keyword location "string option" py_node
  | ListExpr location "py_node list"
  | Arg location string "py_node option"
  | Arguments location "py_node list" "py_node list" "py_node option" "py_node list" "py_node option list" "py_node option" "py_node list"
  | AnnAssign location py_node py_node "py_node option"
  | Assign location "py_node list" py_node
  | ExprStmt location py_node
  | FunctionDef location string py_node "py_node list" "py_node list" "py_node option" "py_node list"
  | AsyncFunctionDef location string py_node "py_node list" "py_node list" "py_node option" "py_node list"
  | ClassDef location string "py_node list" "py_node list" "py_node list" "py_node list" "py_node list"
  | ImportFrom location "string option" "(string \<times> string option) list"
  | Other location "py_node list"

fun loc :: "py_node \<Rightarrow> location" where
  "loc (Name l x) = l"
| "loc (Attribute l v x) = l"
| "loc (Subscript l v s) = l"
| "loc (Constant l c) = l"
| "loc (Call l f as ks) = l"
| "loc (Keyword l x v) = l"
| "loc (ListExpr l es) = l"
| "loc (Arg l x a) = l"
| "loc (Arguments l ps as va ks kd kw ds) = l"
| "loc (AnnAssign l t a v) = l"
| "loc (Assign l ts v) = l"
| "loc (ExprStmt l v) = l"
| "loc (FunctionDef l x a b ds r ts) = l"
| "loc (AsyncFunctionDef l x a b ds r ts) = l"
| "loc (ClassDef l x bs ks b ds ts) = l"
| "loc (ImportFrom l m ns) = l"
| "loc (Other l ns) = l"

abbreviation opt_node :: "py_node option \<Rightarrow> py_node list" where
  "opt_node x \<equiv> (case x of None \<Rightarrow> [] | Some n \<Rightarrow> [n])"

text \<open>\<open>ast.iter_child_nodes\<close>, in the order of the fields.\<close>

fun children :: "py_node \<Rightarrow> py_node list" where
  "children (Name l x) = []"
| "children (Attribute l v x) = [v]"
| "children (Subscript l v s) = [v, s]"
| "children (Constant l c) = []"
| "children (Call l f as ks) = f # as @ ks"
| "children (Keyword l x v) = [v]"
| "children (ListExpr l es) = es"
| "children (Arg l x a) = opt_node a"
| "children (Arguments l ps as va ks kd kw ds) = ps @ as @ opt_node va @ ks @ concat (map opt_node kd) @ opt_node kw @ ds"
| "children (AnnAssign l t a v) = t # a # opt_node v"
| "children (Assign l ts v) = ts @ [v]"
| "children (ExprStmt l v) = [v]"
| "children (FunctionDef l x a b ds r ts) = a # b @ ds @ opt_node r @ ts"
| "children (AsyncFunctionDef l x a b ds r ts) = a # b @ ds @ opt_node r @ ts"
| "children (ClassDef l x bs ks b ds ts) = bs @ ks @ b @ ds @ ts"
| "children (ImportFrom l m ns) = []"
| "children (Other l ns) = ns"

abbreviation weight :: "py_node list \<Rightarrow> nat" where
  "weight ns \<equiv> sum_list (map (\<lambda>n. 2 * size n + 1) ns)"

lemma weight_list: "weight ns \<le> 2 * size_list size ns"
  by (induction ns) simp_all

lemma weight_opt: "weight (opt_node x) \<le> 2 * size_option size x"
  by (cases x) auto

lemma weight_opts: "weight (concat (map opt_node xs)) \<le> 2 * size_list (size_option size) xs"
proof (induction xs)
  case (Cons x xs)
  then show ?case using weight_opt [of x] by simp
qed simp

lemma weight_children: "weight (children n) < 2 * size n + 1"
proof (cases n)
  case (Arguments l ps as va ks kd kw ds)
  then show ?thesis using weight_list [of ps] weight_list [of as] weight_opt [of va] weight_list [of ks] weight_opts [of kd] weight_opt [of kw] weight_list [of ds]
    by simp
next
  case (FunctionDef l x a b ds r ts)
  then show ?thesis using weight_list [of b] weight_list [of ds] weight_opt [of r] weight_list [of ts] by simp
next
  case (AsyncFunctionDef l x a b ds r ts)
  then show ?thesis using weight_list [of b] weight_list [of ds] weight_opt [of r] weight_list [of ts] by simp
next
  case (ClassDef l x bs ks b ds ts)
  then show ?thesis using weight_list [of bs] weight_list [of ks] weight_list [of b] weight_list [of ds] weight_list [of ts] by simp
next
  case (Call l f as ks)
  then show ?thesis using weight_list [of as] weight_list [of ks] by simp
next
  case (AnnAssign l t a v)
  then show ?thesis using weight_opt [of v] by simp
next
  case (Arg l x a)
  then show ?thesis using weight_opt [of a] by simp
next
  case (ListExpr l es)
  then show ?thesis using weight_list [of es] by simp
next
  case (Assign l ts v)
  then show ?thesis using weight_list [of ts] by simp
next
  case (Other l ns)
  then show ?thesis using weight_list [of ns] by simp
qed simp_all

lemma size_child: "m \<in> set (children n) \<Longrightarrow> size m < size n"
  using weight_children [of n] member_le_sum_list [of "2 * size m + 1" "map (\<lambda>n. 2 * size n + 1) (children n)"] by auto

text \<open>\<open>ast.walk\<close>: breadth first, with a queue.\<close>

function walk_queue :: "py_node list \<Rightarrow> py_node list" where
  "walk_queue [] = []"
| "walk_queue (n # queue) = n # walk_queue (queue @ children n)"
  by pat_completeness auto
termination
  by (relation "measure weight") (use weight_children in auto)

definition walk :: "py_node \<Rightarrow> py_node list" where
  "walk n = walk_queue [n]"

text \<open>The nodes of a tree.\<close>

inductive_set nodes :: "py_node \<Rightarrow> py_node set" for n :: py_node where
  itself: "n \<in> nodes n"
| below: "m \<in> nodes n \<Longrightarrow> k \<in> set (children m) \<Longrightarrow> k \<in> nodes n"

lemma nodes_child: "m \<in> set (children n) \<Longrightarrow> k \<in> nodes m \<Longrightarrow> k \<in> nodes n"
proof -
  assume m: "m \<in> set (children n)" and "k \<in> nodes m"
  from this(2) show "k \<in> nodes n" by (induction rule: nodes.induct) (use m in \<open>auto intro: nodes.intros\<close>)
qed

lemma nodes_unfold: "nodes n = insert n (\<Union>m\<in>set (children n). nodes m)"
proof (intro subset_antisym subsetI)
  fix k assume "k \<in> nodes n"
  then show "k \<in> insert n (\<Union>m\<in>set (children n). nodes m)"
    by (induction rule: nodes.induct) (auto intro: nodes.intros)
next
  fix k assume "k \<in> insert n (\<Union>m\<in>set (children n). nodes m)"
  then show "k \<in> nodes n" by (auto intro: nodes.intros nodes_child)
qed

lemma set_walk_queue: "set (walk_queue queue) = (\<Union>n\<in>set queue. nodes n)"
proof (induction queue rule: walk_queue.induct)
  case (2 n queue)
  have "set (walk_queue (n # queue)) = insert n (\<Union>m\<in>set (children n). nodes m) \<union> (\<Union>m\<in>set queue. nodes m)" using 2 by auto
  also have "insert n (\<Union>m\<in>set (children n). nodes m) = nodes n" by (rule nodes_unfold [symmetric])
  finally show ?case by simp
qed simp

text \<open>The walk reaches every node.\<close>

lemma set_walk [simp]: "set (walk n) = nodes n"
  unfolding walk_def set_walk_queue by simp

end
