(* ===== verification/Precise_Types.thy ===== *)
theory Precise_Types
  imports Py_Ast Py_Text "HOL-Library.Product_Lexorder" "HOL-Library.List_Lexorder" "HOL-Library.Char_ord"
begin

text \<open>
  \<open>src/scripts/check_precise_types.py\<close>: the check that sources do not refer to \<open>object\<close> or \<open>Any\<close>, neither in code
  nor inside the strings of annotations, except where the pickle protocol and opaque keyword arguments need it.

  Parsing is an argument: \<open>parse\<close> gives the tree of an expression in a string, or \<open>None\<close> for a syntax error.
  The recursion into strings of strings has fuel; running out of it is \<open>None\<close>.
\<close>

record Violation =
  v_line :: int
  v_column :: int
  v_name :: string

definition broad :: "string \<Rightarrow> bool" where
  "broad name \<longleftrightarrow> name = ''object'' \<or> name = ''Any''"

definition violation_at :: "location \<Rightarrow> string \<Rightarrow> Violation" where
  "violation_at l name = \<lparr>v_line = lineno l, v_column = col_offset l + 1, v_name = name\<rparr>"

fun node_reference :: "py_node \<Rightarrow> Violation list" where
  "node_reference (Name l name) = (if broad name then [violation_at l name] else [])"
| "node_reference (Attribute l v name) = (if broad name then [violation_at l name] else [])"
| "node_reference n = []"

definition references :: "py_node \<Rightarrow> Violation list" where
  "references tree = concat (map node_reference (walk tree))"

fun is_literal :: "py_node \<Rightarrow> bool" where
  "is_literal (Subscript l (Name k name) s) \<longleftrightarrow> name = ''Literal''"
| "is_literal (Subscript l (Attribute k v name) s) \<longleftrightarrow> name = ''Literal''"
| "is_literal n \<longleftrightarrow> False"

fun string_value :: "py_node \<Rightarrow> string option" where
  "string_value (Constant l (StrConst s)) = Some s"
| "string_value n = None"

text \<open>A comprehension whose body may run out of fuel.\<close>

definition concat_options :: "'b list option list \<Rightarrow> 'b list option" where
  "concat_options xs = (if None \<in> set xs then None else Some (concat (map the xs)))"

function quoted_references :: "(string \<Rightarrow> py_node option) \<Rightarrow> nat \<Rightarrow> py_node \<Rightarrow> string list option" where
  "quoted_references parse fuel annotation =
     (if is_literal annotation then Some []
      else case string_value annotation of
          Some value \<Rightarrow>
            (case parse value of
               None \<Rightarrow> Some []
             | Some expression \<Rightarrow>
                 (case fuel of
                    0 \<Rightarrow> None
                  | Suc rest \<Rightarrow> map_option (\<lambda>names. map v_name (references expression) @ names) (quoted_references parse rest expression)))
        | None \<Rightarrow> concat_options (map (quoted_references parse fuel) (children annotation)))"
  by pat_completeness auto
termination
  by (relation "measures [\<lambda>(parse, fuel, n). fuel, \<lambda>(parse, fuel, n). size n]") (auto dest: size_child)

declare quoted_references.simps [simp del]

fun cast_annotation :: "py_node \<Rightarrow> py_node list" where
  "cast_annotation (Call l (Name k name) (annotation # args) ks) = (if name = ''cast'' then [annotation] else [])"
| "cast_annotation (Call l (Attribute k v name) (annotation # args) ks) = (if name = ''cast'' then [annotation] else [])"
| "cast_annotation n = []"

fun is_type_alias :: "py_node \<Rightarrow> bool" where
  "is_type_alias (Name l name) \<longleftrightarrow> name = ''TypeAlias''"
| "is_type_alias (Attribute l v name) \<longleftrightarrow> name = ''TypeAlias''"
| "is_type_alias n \<longleftrightarrow> False"

fun node_annotations :: "py_node \<Rightarrow> py_node list" where
  "node_annotations (Arg l name annotation) = opt_node annotation"
| "node_annotations (AnnAssign l target annotation value) = annotation # (if is_type_alias annotation then opt_node value else [])"
| "node_annotations (FunctionDef l name as b ds r ts) = opt_node r"
| "node_annotations (AsyncFunctionDef l name as b ds r ts) = opt_node r"
| "node_annotations n = cast_annotation n"

definition collect_annotations :: "py_node \<Rightarrow> py_node list" where
  "collect_annotations tree = concat (map node_annotations (walk tree))"

text \<open>The annotations that may say \<open>object\<close>: those of \<open>__reduce__\<close>, \<open>dataloader_kwargs\<close> and \<open>extra_kwargs\<close>.\<close>

fun exempt_annotation :: "py_node \<Rightarrow> py_node list" where
  "exempt_annotation (FunctionDef l name as b ds r ts) = (if name = ''__reduce__'' then opt_node r else [])"
| "exempt_annotation (Arg l name annotation) = (if name = ''dataloader_kwargs'' then opt_node annotation else [])"
| "exempt_annotation (AnnAssign l (Name k name) annotation value) = (if name = ''extra_kwargs'' then [annotation] else [])"
| "exempt_annotation n = []"

definition exempt_annotations :: "py_node \<Rightarrow> py_node list" where
  "exempt_annotations tree = concat (map exempt_annotation (walk tree))"

definition allowed :: "py_node \<Rightarrow> Violation list" where
  "allowed tree = concat (map (\<lambda>a. filter (\<lambda>v. v_name v = ''object'') (references a)) (exempt_annotations tree))"

definition annotation_violations :: "(string \<Rightarrow> py_node option) \<Rightarrow> nat \<Rightarrow> py_node \<Rightarrow> py_node \<Rightarrow> Violation list option" where
  "annotation_violations parse fuel tree annotation =
     map_option (\<lambda>names. map (violation_at (loc annotation))
         (filter (\<lambda>name. \<not> (name = ''object'' \<and> node_id (loc annotation) \<in> set (map (node_id \<circ> loc) (exempt_annotations tree)))) names))
       (quoted_references parse fuel annotation)"

abbreviation violation_key :: "Violation \<Rightarrow> int \<times> int \<times> string" where
  "violation_key v \<equiv> (v_line v, v_column v, v_name v)"

definition check_source :: "(string \<Rightarrow> py_node option) \<Rightarrow> nat \<Rightarrow> py_node \<Rightarrow> Violation list option" where
  "check_source parse fuel tree =
     map_option (\<lambda>quoted. sort_key violation_key (remdups (filter (\<lambda>v. v \<notin> set (allowed tree)) (references tree @ quoted))))
       (concat_options (map (annotation_violations parse fuel tree) (collect_annotations tree)))"

text \<open>\<open>main\<close> over the files of the roots in visiting order: their suffix and tree.\<close>

fun check_files :: "(string \<Rightarrow> py_node option) \<Rightarrow> nat \<Rightarrow> (string \<times> string \<times> py_node) list \<Rightarrow> ((string \<times> Violation) list \<times> int) option" where
  "check_files parse fuel [] = Some ([], 0)"
| "check_files parse fuel ((name, suffix, tree) # files) =
     (if suffix \<notin> {''.py'', ''.pyi''} then check_files parse fuel files
      else case check_source parse fuel tree of
          None \<Rightarrow> None
        | Some violations \<Rightarrow>
            map_option (\<lambda>(printed, failed). (map (\<lambda>v. (name, v)) violations @ printed, if violations = [] then failed else 1))
              (check_files parse fuel files))"

section \<open>What the strings of an annotation refer to\<close>

inductive quotes :: "(string \<Rightarrow> py_node option) \<Rightarrow> py_node \<Rightarrow> string \<Rightarrow> bool" for parse :: "string \<Rightarrow> py_node option" where
  direct: "string_value a = Some s \<Longrightarrow> parse s = Some t \<Longrightarrow> v \<in> set (references t) \<Longrightarrow> quotes parse a (v_name v)"
| nested: "string_value a = Some s \<Longrightarrow> parse s = Some t \<Longrightarrow> quotes parse t name \<Longrightarrow> quotes parse a name"
| child: "\<not> is_literal a \<Longrightarrow> string_value a = None \<Longrightarrow> m \<in> set (children a) \<Longrightarrow> quotes parse m name \<Longrightarrow> quotes parse a name"

inductive_cases quotesE: "quotes parse a name"

lemma string_not_literal: "string_value a = Some s \<Longrightarrow> \<not> is_literal a"
  by (cases a) auto

lemma concat_options_Some: "concat_options xs = Some ys \<longleftrightarrow> None \<notin> set xs \<and> ys = concat (map the xs)"
  by (auto simp: concat_options_def)

lemma quotes_string:
  assumes "string_value a = Some s" and "parse s = Some t"
  shows "quotes parse a name \<longleftrightarrow> name \<in> v_name ` set (references t) \<or> quotes parse t name"
proof
  assume "quotes parse a name"
  then show "name \<in> v_name ` set (references t) \<or> quotes parse t name" by (cases rule: quotes.cases) (use assms in auto)
next
  assume "name \<in> v_name ` set (references t) \<or> quotes parse t name"
  then show "quotes parse a name" using quotes.direct [where parse = parse, OF assms] quotes.nested [where parse = parse, OF assms] by blast
qed

lemma quotes_children:
  assumes "\<not> is_literal a" and "string_value a = None"
  shows "quotes parse a name \<longleftrightarrow> (\<exists>m\<in>set (children a). quotes parse m name)"
proof
  assume "quotes parse a name"
  then show "\<exists>m\<in>set (children a). quotes parse m name" by (cases rule: quotes.cases) (use assms in auto)
qed (use quotes.child [OF assms] in blast)

lemma quoted_references_correct:
  "quoted_references parse fuel a = Some names \<Longrightarrow> name \<in> set names \<longleftrightarrow> quotes parse a name"
proof (induction parse fuel a arbitrary: names rule: quoted_references.induct)
  case (1 parse fuel a)
  note result = 1(3) [unfolded quoted_references.simps [of parse fuel a]]
  show ?case
  proof (cases "is_literal a")
    case True
    then have "string_value a = None" using string_not_literal [of a] by (cases "string_value a") auto
    then show ?thesis using True result by (auto elim: quotesE)
  next
    case False
    show ?thesis
    proof (cases "string_value a")
      case (Some s)
      show ?thesis
      proof (cases "parse s")
        case None
        then show ?thesis using False Some result by (auto elim: quotesE)
      next
        case parsed: (Some t)
        obtain m rest where m: "fuel = Suc m" "quoted_references parse m t = Some rest" "names = map v_name (references t) @ rest"
          using False Some parsed result by (auto split: nat.splits)
        have "name \<in> set rest \<longleftrightarrow> quotes parse t name" using 1(2) [OF False Some parsed m(1) m(2)] .
        then show ?thesis using m(3) quotes_string [where parse = parse, OF Some parsed] by auto
      qed
    next
      case None
      have parts: "None \<notin> set (map (quoted_references parse fuel) (children a))"
        "names = concat (map (\<lambda>m. the (quoted_references parse fuel m)) (children a))"
        using False None result by (auto simp: concat_options_Some o_def)
      have "name \<in> set (the (quoted_references parse fuel m)) \<longleftrightarrow> quotes parse m name" if "m \<in> set (children a)" for m
        using 1(1) [OF False None that] parts(1) that by (metis imageI list.set_map option.collapse)
      then show ?thesis using parts(2) quotes_children [OF False None] by auto
    qed
  qed
qed

text \<open>A string literal is longer than the strings inside the expression it holds, so the recursion ends.\<close>

definition tree_strings :: "py_node \<Rightarrow> string list" where
  "tree_strings tree = concat (map (\<lambda>n. case string_value n of None \<Rightarrow> [] | Some s \<Rightarrow> [s]) (walk tree))"

definition shrinking :: "(string \<Rightarrow> py_node option) \<Rightarrow> bool" where
  "shrinking parse \<longleftrightarrow> (\<forall>s t. parse s = Some t \<longrightarrow> (\<forall>x\<in>set (tree_strings t). length x < length s))"

definition enough_fuel :: "py_node \<Rightarrow> nat" where
  "enough_fuel tree = Suc (fold max (map length (tree_strings tree)) 0)"

lemma tree_strings_member: "s \<in> set (tree_strings tree) \<longleftrightarrow> (\<exists>n\<in>nodes tree. string_value n = Some s)"
  unfolding tree_strings_def by (simp split: option.splits) (metis option.distinct(1) option.inject)

lemma tree_strings_child: "m \<in> nodes a \<Longrightarrow> set (tree_strings m) \<subseteq> set (tree_strings a)"
proof -
  assume m: "m \<in> nodes a"
  have "k \<in> nodes a" if "k \<in> nodes m" for k using that by (induction rule: nodes.induct) (use m in \<open>auto intro: nodes.intros\<close>)
  then show ?thesis unfolding tree_strings_member subset_iff by blast
qed

lemma quoted_references_returns:
  "shrinking parse \<Longrightarrow> \<forall>s\<in>set (tree_strings a). length s < fuel \<Longrightarrow> \<exists>names. quoted_references parse fuel a = Some names"
proof (induction parse fuel a rule: quoted_references.induct)
  case (1 parse fuel a)
  have children: "\<exists>names. quoted_references parse fuel m = Some names"
    if "\<not> is_literal a" "string_value a = None" "m \<in> set (children a)" for m
    using 1(1) [OF that \<open>shrinking parse\<close>] tree_strings_child [of m a] that(3) 1(4) by (blast intro: nodes.intros)
  show ?case
  proof (cases "is_literal a \<or> string_value a = None")
    case True
    then show ?thesis using children
      by (auto simp: quoted_references.simps [of parse fuel a] concat_options_Some image_iff split: option.splits) force+
  next
    case False
    then obtain s where s: "\<not> is_literal a" "string_value a = Some s" by auto
    have "length s < fuel" using 1(4) s(2) tree_strings_member [of s a] by (blast intro: nodes.itself)
    then obtain m where m: "fuel = Suc m" "length s \<le> m" by (cases fuel) auto
    show ?thesis
    proof (cases "parse s")
      case None
      then show ?thesis using s by (simp add: quoted_references.simps [of parse fuel a])
    next
      case (Some t)
      have "\<forall>x\<in>set (tree_strings t). length x < m" using \<open>shrinking parse\<close> Some m(2) unfolding shrinking_def by fastforce
      then have "\<exists>names. quoted_references parse m t = Some names" using 1(2) [OF s Some m(1) \<open>shrinking parse\<close>] by blast
      then show ?thesis unfolding quoted_references.simps [of parse fuel a] using s m(1) Some by auto
    qed
  qed
qed

lemma fold_max_bound: "x \<in> set xs \<or> x \<le> b \<Longrightarrow> x \<le> fold max xs (b::nat)"
  by (induction xs arbitrary: b) fastforce+

lemma enough_fuel_bound: "s \<in> set (tree_strings tree) \<Longrightarrow> length s < enough_fuel tree"
  using fold_max_bound [of "length s" "map length (tree_strings tree)" 0] by (auto simp: enough_fuel_def)

text \<open>Every annotation is a node of the tree.\<close>

lemma cast_annotation_child: "a \<in> set (cast_annotation n) \<Longrightarrow> a \<in> set (children n)"
  by (cases n rule: cast_annotation.cases) (auto split: if_splits)

lemma node_annotations_child: "a \<in> set (node_annotations n) \<Longrightarrow> a \<in> set (children n)"
proof -
  assume a: "a \<in> set (node_annotations n)"
  show ?thesis
  proof (cases n)
    case (Call l f as ks)
    then show ?thesis using a cast_annotation_child [of a n] by simp
  next
    case (Arg l name annotation)
    then show ?thesis using a by simp
  next
    case (AnnAssign l t annotation v)
    then show ?thesis using a by (cases "is_type_alias annotation") auto
  qed (use a in simp_all)
qed

lemma collect_annotations_nodes: "a \<in> set (collect_annotations tree) \<Longrightarrow> a \<in> nodes tree"
  unfolding collect_annotations_def by (auto dest: node_annotations_child intro: nodes.below)

section \<open>The check finds exactly the broad references\<close>

definition exempt :: "py_node \<Rightarrow> py_node \<Rightarrow> bool" where
  "exempt tree a \<longleftrightarrow> node_id (loc a) \<in> set (map (node_id \<circ> loc) (exempt_annotations tree))"

text \<open>The places that the policy forbids: a broad name or attribute that no exempt annotation holds, and a broad
  name quoted in an annotation, unless it is \<open>object\<close> in an exempt one.\<close>

definition forbidden :: "(string \<Rightarrow> py_node option) \<Rightarrow> py_node \<Rightarrow> Violation \<Rightarrow> bool" where
  "forbidden parse tree v \<longleftrightarrow>
     ((\<exists>n\<in>nodes tree. v \<in> set (node_reference n)) \<or>
      (\<exists>a\<in>set (collect_annotations tree). \<exists>name. quotes parse a name \<and> v = violation_at (loc a) name \<and> \<not> (name = ''object'' \<and> exempt tree a))) \<and>
     \<not> (v_name v = ''object'' \<and> (\<exists>a\<in>set (exempt_annotations tree). \<exists>n\<in>nodes a. v \<in> set (node_reference n)))"

lemma references_member: "v \<in> set (references tree) \<longleftrightarrow> (\<exists>n\<in>nodes tree. v \<in> set (node_reference n))"
  by (auto simp: references_def)

lemma allowed_member:
  "v \<in> set (allowed tree) \<longleftrightarrow> v_name v = ''object'' \<and> (\<exists>a\<in>set (exempt_annotations tree). \<exists>n\<in>nodes a. v \<in> set (node_reference n))"
  by (auto simp: allowed_def references_member)

lemma annotation_violations_correct:
  assumes "annotation_violations parse fuel tree a = Some vs"
  shows "v \<in> set vs \<longleftrightarrow> (\<exists>name. quotes parse a name \<and> v = violation_at (loc a) name \<and> \<not> (name = ''object'' \<and> exempt tree a))"
  using assms quoted_references_correct [of parse fuel a] unfolding annotation_violations_def exempt_def by auto

lemma annotation_violations_returns:
  assumes "shrinking parse" and "a \<in> set (collect_annotations tree)"
  shows "\<exists>vs. annotation_violations parse (enough_fuel tree) tree a = Some vs"
proof -
  have "\<forall>s\<in>set (tree_strings a). length s < enough_fuel tree"
    using tree_strings_child [OF collect_annotations_nodes [OF assms(2)]] enough_fuel_bound by blast
  then show ?thesis using quoted_references_returns [OF assms(1), of a "enough_fuel tree"] by (auto simp: annotation_violations_def)
qed

lemma quoted_violations:
  assumes "shrinking parse"
  obtains quoted where "concat_options (map (annotation_violations parse (enough_fuel tree) tree) (collect_annotations tree)) = Some quoted"
    and "\<And>v. v \<in> set quoted \<longleftrightarrow> (\<exists>a\<in>set (collect_annotations tree). \<exists>name. quotes parse a name \<and> v = violation_at (loc a) name
          \<and> \<not> (name = ''object'' \<and> exempt tree a))"
proof -
  let ?check = "annotation_violations parse (enough_fuel tree) tree"
  have some: "?check a = Some (the (?check a))" if "a \<in> set (collect_annotations tree)" for a
    using annotation_violations_returns [OF assms that] by auto
  have "concat_options (map ?check (collect_annotations tree)) = Some (concat (map (the \<circ> ?check) (collect_annotations tree)))"
    using some by (fastforce simp: concat_options_Some)
  moreover have "v \<in> set (the (?check a)) \<longleftrightarrow>
      (\<exists>name. quotes parse a name \<and> v = violation_at (loc a) name \<and> \<not> (name = ''object'' \<and> exempt tree a))"
    if "a \<in> set (collect_annotations tree)" for a v
    by (rule annotation_violations_correct [OF some [OF that]])
  ultimately show thesis by (intro that) (assumption, simp)
qed


text \<open>A file that declares \<open>kept: "list[Any]"\<close>: the quoted reference is found inside the string.\<close>

abbreviation example_parse :: "string \<Rightarrow> py_node option" where
  "example_parse s \<equiv> (if s = ''list[Any]'' then Some (Subscript \<lparr>node_id = 4, lineno = 1, col_offset = 0\<rparr>
       (Name \<lparr>node_id = 5, lineno = 1, col_offset = 0\<rparr> ''list'') (Name \<lparr>node_id = 6, lineno = 1, col_offset = 5\<rparr> ''Any'')) else None)"

abbreviation example_tree :: py_node where
  "example_tree \<equiv> Other \<lparr>node_id = 0, lineno = 1, col_offset = 0\<rparr>
     [AnnAssign \<lparr>node_id = 1, lineno = 3, col_offset = 0\<rparr> (Name \<lparr>node_id = 2, lineno = 3, col_offset = 0\<rparr> ''kept'')
        (Constant \<lparr>node_id = 3, lineno = 3, col_offset = 6\<rparr> (StrConst ''list[Any]'')) None]"

lemma example_shrinking: "shrinking example_parse"
  by (simp add: shrinking_def tree_strings_def walk_def)

lemma example_result:
  "check_source example_parse (enough_fuel example_tree) example_tree = Some [\<lparr>v_line = 3, v_column = 7, v_name = ''Any''\<rparr>]"
  by (simp add: check_source_def enough_fuel_def tree_strings_def walk_def collect_annotations_def annotation_violations_def
      quoted_references.simps references_def broad_def violation_at_def allowed_def exempt_annotations_def concat_options_def)


end
