(* ===== verification/Api_Docs.thy ===== *)
theory Api_Docs
  imports Py_Ast Py_Text "HOL-Library.Sublist"
begin

text \<open>
  \<open>src/scripts/sync_api_docs.py\<close>: the generated section of the API documentation, rendered from the syntax trees
  behind the public names, and its replacement between two markers of the document.

  Arguments: the sources by path, the parser, and the two functions that print an expression (\<open>ast.unparse\<close>) and
  cut its text out of the source (\<open>ast.get_source_segment\<close>). \<open>inspect.cleandoc\<close> and \<open>ast.get_docstring\<close> are written
  out. A tree has the shape that \<open>ast\<close> guarantees: a function holds an \<open>arguments\<close> node, and that one holds \<open>arg\<close> nodes.
\<close>

section \<open>Cleaning of docstrings\<close>

abbreviation newline :: char where
  "newline \<equiv> CHR 0x0A"

fun expandtabs_from :: "nat \<Rightarrow> string \<Rightarrow> string" where
  "expandtabs_from column [] = []"
| "expandtabs_from column (c # s) =
     (if c = CHR 0x09 then replicate (8 - column mod 8) CHR '' '' @ expandtabs_from (column + (8 - column mod 8)) s
      else if c = newline \<or> c = CHR 0x0D then c # expandtabs_from 0 s
      else c # expandtabs_from (column + 1) s)"

definition lstrip :: "string \<Rightarrow> string" where
  "lstrip s = dropWhile is_space s"

definition indents :: "string list \<Rightarrow> nat list" where
  "indents lines = map (\<lambda>l. length l - length (lstrip l)) (filter (\<lambda>l. lstrip l \<noteq> []) lines)"

definition dedent :: "string list \<Rightarrow> string list" where
  "dedent lines = (case indents lines of [] \<Rightarrow> lines | i # others \<Rightarrow> map (drop (foldl min i others)) lines)"

definition trim_blank :: "string list \<Rightarrow> string list" where
  "trim_blank lines = dropWhile (\<lambda>l. l = []) (rev (dropWhile (\<lambda>l. l = []) (rev lines)))"

definition cleandoc :: "string \<Rightarrow> string" where
  "cleandoc doc =
     (case split_char newline (expandtabs_from 0 doc) of
        [] \<Rightarrow> []
      | first # rest \<Rightarrow> join [newline] (trim_blank (lstrip first # dedent rest)))"

section \<open>Definitions behind the facade\<close>

record ApiDefinition =
  api_source :: string
  api_node :: py_node

record doc_env =
  read_text :: "string \<Rightarrow> string exn"
  parse_body :: "string \<Rightarrow> py_node list"
  unparse :: "py_node \<Rightarrow> string"
  get_source_segment :: "string \<Rightarrow> py_node \<Rightarrow> string option"

abbreviation Exit :: "string \<Rightarrow> 'a exn" where
  "Exit message \<equiv> Raise (SystemExit (Inr message))"

definition parse_check_flag :: "string list \<Rightarrow> bool exn" where
  "parse_check_flag args =
     (if args = [''--check''] then Return True
      else if args \<noteq> [] then Exit ''usage: sync_api_docs.py [--check]''
      else Return False)"

fun string_element :: "py_node \<Rightarrow> string exn" where
  "string_element (Constant l (StrConst s)) = Return s"
| "string_element n = Exit ''__all__ entries must be string literals''"

fun literal_string_list :: "py_node \<Rightarrow> string list exn" where
  "literal_string_list (ListExpr l elements) = mapE string_element elements"
| "literal_string_list n = Exit ''__all__ must be a list literal''"

fun is_name :: "string \<Rightarrow> py_node \<Rightarrow> bool" where
  "is_name x (Name l y) \<longleftrightarrow> y = x"
| "is_name x n \<longleftrightarrow> False"

fun public_names :: "py_node list \<Rightarrow> string list exn" where
  "public_names [] = Exit ''__all__ not found''"
| "public_names (Assign l targets v # body) = (if list_ex (is_name ''__all__'') targets then literal_string_list v else public_names body)"
| "public_names (n # body) = public_names body"

fun public_node_name :: "py_node \<Rightarrow> string option" where
  "public_node_name (ClassDef l name bs ks b ds ts) = Some name"
| "public_node_name (AnnAssign l (Name k name) a v) = Some name"
| "public_node_name n = None"

definition public_api_objects :: "py_node list \<Rightarrow> (string \<rightharpoonup> py_node)" where
  "public_api_objects body =
     foldl (\<lambda>objects node. case public_node_name node of None \<Rightarrow> objects | Some name \<Rightarrow> objects(name \<mapsto> node)) Map.empty body"

definition module_path :: "string \<Rightarrow> string" where
  "module_path module = join ''/'' (split_char CHR ''.'' module) @ ''.py''"

definition load_module :: "doc_env \<Rightarrow> string \<Rightarrow> (string \<rightharpoonup> ApiDefinition) exn" where
  "load_module env module =
     bindE (read_text env (module_path module)) (\<lambda>source.
       Return (\<lambda>name. map_option (\<lambda>node. \<lparr>api_source = source, api_node = node\<rparr>) (public_api_objects (parse_body env source) name)))"

definition add_aliases ::
  "(string \<rightharpoonup> ApiDefinition) \<Rightarrow> (string \<times> string option) list \<Rightarrow> (string \<rightharpoonup> ApiDefinition) \<Rightarrow> (string \<rightharpoonup> ApiDefinition)" where
  "add_aliases objects aliases definitions =
     foldl (\<lambda>ds (name, asname). case objects name of
              None \<Rightarrow> ds
            | Some d \<Rightarrow> ds((case asname of None \<Rightarrow> name | Some x \<Rightarrow> if x = [] then name else x) \<mapsto> d)) definitions aliases"

text \<open>The loop of \<open>facade_definitions\<close>: every module is read once.\<close>

fun facade_loop ::
  "doc_env \<Rightarrow> (string \<rightharpoonup> (string \<rightharpoonup> ApiDefinition)) \<Rightarrow> (string \<rightharpoonup> ApiDefinition) \<Rightarrow> py_node list \<Rightarrow> (string \<rightharpoonup> ApiDefinition) exn" where
  "facade_loop env modules definitions [] = Return definitions"
| "facade_loop env modules definitions (ImportFrom l (Some module) aliases # body) =
     (if \<not> prefix ''dataset_rt.'' module then facade_loop env modules definitions body
      else bindE (case modules module of Some objects \<Rightarrow> Return objects | None \<Rightarrow> load_module env module) (\<lambda>objects.
        facade_loop env (modules(module \<mapsto> objects)) (add_aliases objects aliases definitions) body))"
| "facade_loop env modules definitions (n # body) = facade_loop env modules definitions body"

definition facade_definitions :: "doc_env \<Rightarrow> (string \<rightharpoonup> ApiDefinition) exn" where
  "facade_definitions env =
     bindE (read_text env ''dataset_rt/api.py'') (\<lambda>source. facade_loop env Map.empty Map.empty (parse_body env source))"

section \<open>Rendering\<close>

fun doc_statement :: "py_node \<Rightarrow> string option" where
  "doc_statement (ExprStmt l (Constant k (StrConst s))) = Some (cleandoc s)"
| "doc_statement n = None"

definition following_docstring :: "py_node list \<Rightarrow> nat \<Rightarrow> string option" where
  "following_docstring body index = (if length body \<le> index + 1 then None else doc_statement (body ! (index + 1)))"

text \<open>\<open>ast.get_docstring\<close> is the first statement of a body, already cleaned.\<close>

definition format_docstring :: "string \<Rightarrow> py_node list \<Rightarrow> string exn" where
  "format_docstring name body =
     (case body of
        [] \<Rightarrow> Exit (''object is missing docstring: '' @ name)
      | first # rest \<Rightarrow>
          (case doc_statement first of
             None \<Rightarrow> Exit (''object is missing docstring: '' @ name)
           | Some docstring \<Rightarrow> Return (cleandoc docstring)))"

fun description :: "py_node list \<Rightarrow> string option" where
  "description [] = None"
| "description (Keyword l arg (Constant k (StrConst s)) # others) = (if arg = Some ''description'' then Some (cleandoc s) else description others)"
| "description (n # others) = description others"

fun field_description :: "py_node option \<Rightarrow> string option" where
  "field_description (Some (Call l f as keywords)) = (if is_name ''Field'' f then description keywords else None)"
| "field_description v = None"

definition field_doc :: "py_node option \<Rightarrow> py_node list \<Rightarrow> nat \<Rightarrow> string option" where
  "field_doc v body index = (case field_description v of
       Some doc \<Rightarrow> if doc = [] then following_docstring body index else Some doc
     | None \<Rightarrow> following_docstring body index)"

fun class_field :: "doc_env \<Rightarrow> string \<Rightarrow> py_node list \<Rightarrow> nat \<times> py_node \<Rightarrow> (string \<times> string) list exn" where
  "class_field env class_name body (index, AnnAssign l (Name k name) annotation v) =
     (if name = ''model_config'' \<or> prefix ''_'' name then Return []
      else case field_doc v body index of
          None \<Rightarrow> Exit (''field is missing docstring: '' @ class_name @ ''.'' @ name)
        | Some doc \<Rightarrow> Return [(name @ '': '' @ unparse env annotation, doc)])"
| "class_field env class_name body (index, n) = Return []"

definition class_fields :: "doc_env \<Rightarrow> string \<Rightarrow> py_node list \<Rightarrow> (string \<times> string) list exn" where
  "class_fields env class_name body =
     bindE (mapE (class_field env class_name body) (zip [0..<length body] body)) (\<lambda>fields. Return (concat fields))"

definition is_documented_method :: "string \<Rightarrow> bool" where
  "is_documented_method name \<longleftrightarrow> \<not> prefix ''_'' name \<or> name \<in> set [''__init__'', ''__iter__'', ''__len__'']"

fun method_name :: "py_node \<Rightarrow> string option" where
  "method_name (FunctionDef l name as b ds r ts) = (if is_documented_method name then Some name else None)"
| "method_name n = None"

definition class_methods :: "py_node list \<Rightarrow> py_node list" where
  "class_methods body = filter (\<lambda>n. method_name n \<noteq> None) body"

definition is_property :: "py_node list \<Rightarrow> bool" where
  "is_property decorators \<longleftrightarrow> list_ex (is_name ''property'') decorators"

fun render_arg :: "doc_env \<Rightarrow> py_node \<times> py_node option \<Rightarrow> string" where
  "render_arg env (Arg l name annotation, given) =
     name @ (case annotation of None \<Rightarrow> [] | Some a \<Rightarrow> '': '' @ unparse env a)
          @ (case given of None \<Rightarrow> [] | Some d \<Rightarrow> '' = '' @ unparse env d)"
| "render_arg env (n, given) = []"

definition zip_strict :: "'a list \<Rightarrow> 'b list \<Rightarrow> ('a \<times> 'b) list exn" where
  "zip_strict xs ys = (if length xs = length ys then Return (zip xs ys) else Raise (ValueError ''zip() arguments of different lengths''))"

fun is_self :: "py_node \<Rightarrow> bool" where
  "is_self (Arg l name a) \<longleftrightarrow> name = ''self''"
| "is_self n \<longleftrightarrow> False"

definition without_self :: "py_node list \<Rightarrow> py_node list" where
  "without_self args = (if args \<noteq> [] \<and> is_self (hd args) then tl args else args)"

fun render_args :: "doc_env \<Rightarrow> py_node \<Rightarrow> string exn" where
  "render_args env (Arguments l posonly plain vararg kwonly kw_defaults kwarg defaults) =
     (let args = without_self (posonly @ plain)
      in bindE (zip_strict args (replicate (length args - length defaults) None @ map Some defaults)) (\<lambda>pairs.
         bindE (if kwonly = [] then Return []
                else bindE (zip_strict kwonly kw_defaults) (\<lambda>named. Return (''*'' # map (render_arg env) named))) (\<lambda>rendered.
         Return (join '', '' (map (render_arg env) pairs @ rendered)))))"
| "render_args env n = Return []"

definition method_signature :: "doc_env \<Rightarrow> string \<Rightarrow> py_node \<Rightarrow> py_node option \<Rightarrow> string exn" where
  "method_signature env name args returns =
     bindE (render_args env args) (\<lambda>rendered_args.
       Return (name @ ''('' @ rendered_args @ '')'' @
         (case returns of Some r \<Rightarrow> if name \<noteq> ''__init__'' then '' -> '' @ unparse env r else [] | None \<Rightarrow> [])))"

fun render_method :: "doc_env \<Rightarrow> string \<Rightarrow> py_node \<Rightarrow> string list exn" where
  "render_method env class_name (FunctionDef l name args body decorators returns ts) =
     bindE (if is_property decorators then Return name else method_signature env name args returns) (\<lambda>title.
     bindE (format_docstring name body) (\<lambda>doc.
       Return [[], ''#### `'' @ class_name @ ''.'' @ title @ ''`'', [], doc]))"
| "render_method env class_name n = Return []"

definition render_class :: "doc_env \<Rightarrow> string \<Rightarrow> string \<Rightarrow> py_node list \<Rightarrow> string list exn" where
  "render_class env name class_name body =
     bindE (format_docstring class_name body) (\<lambda>doc.
     bindE (class_fields env class_name body) (\<lambda>fields.
     bindE (mapE (render_method env name) (class_methods body)) (\<lambda>methods.
       Return ([''### `'' @ name @ ''`'', [], doc] @
         (if fields = [] then [] else [[], ''Fields:''] @ map (\<lambda>(field, doc). ''- `'' @ field @ ''`: '' @ doc) fields) @
         concat methods))))"

fun node_docstring_from :: "string \<Rightarrow> int \<Rightarrow> py_node list \<Rightarrow> nat list \<Rightarrow> string exn" where
  "node_docstring_from name line body [] = Exit (''type alias is missing docstring: '' @ name)"
| "node_docstring_from name line body (index # others) =
     (if lineno (loc (body ! index)) \<noteq> line then node_docstring_from name line body others
      else case following_docstring body index of
          Some doc \<Rightarrow> Return doc
        | None \<Rightarrow> Exit (''type alias is missing docstring: '' @ name))"

definition node_docstring :: "doc_env \<Rightarrow> string \<Rightarrow> string \<Rightarrow> int \<Rightarrow> string exn" where
  "node_docstring env source name line = (let body = parse_body env source in node_docstring_from name line body [0..<length body])"

definition render_type_alias :: "doc_env \<Rightarrow> string \<Rightarrow> string \<Rightarrow> int \<Rightarrow> py_node option \<Rightarrow> string list exn" where
  "render_type_alias env source name line v =
     (case v of
        None \<Rightarrow> Exit (''type alias value not found: '' @ name)
      | Some expression \<Rightarrow>
          (case get_source_segment env source expression of
             None \<Rightarrow> Exit (''type alias source not found: '' @ name)
           | Some annotation \<Rightarrow>
               bindE (node_docstring env source name line) (\<lambda>doc.
                 Return [''### `'' @ name @ ''`'', [], ''```python'' @ [newline] @ name @ '' = '' @ annotation @ [newline] @ ''```'', [], doc])))"

fun render_public_object :: "doc_env \<Rightarrow> string \<Rightarrow> string \<Rightarrow> py_node \<Rightarrow> string list exn" where
  "render_public_object env source name (ClassDef l class_name bs ks body ds ts) = render_class env name class_name body"
| "render_public_object env source name (AnnAssign l t a v) = render_type_alias env source name (lineno l) v"
| "render_public_object env source name n = Exit (''unsupported public API node: '' @ name)"

section \<open>The generated section and its place in the document\<close>

definition BEGIN_MARKER :: string where
  "BEGIN_MARKER = ''<!-- BEGIN GENERATED: Public Python API -->''"

definition END_MARKER :: string where
  "END_MARKER = ''<!-- END GENERATED: Public Python API -->''"

definition render_export :: "doc_env \<Rightarrow> (string \<rightharpoonup> ApiDefinition) \<Rightarrow> string \<Rightarrow> string list exn" where
  "render_export env objects name =
     (case objects name of
        None \<Rightarrow> Exit (''exported object has no API definition: '' @ name)
      | Some d \<Rightarrow> bindE (render_public_object env (api_source d) name (api_node d)) (\<lambda>lines. Return (lines @ [[]])))"

definition rendered_sections :: "doc_env \<Rightarrow> string list \<Rightarrow> string list exn" where
  "rendered_sections env exported_names =
     bindE (facade_definitions env) (\<lambda>objects.
     bindE (mapE (render_export env objects) exported_names) (\<lambda>rendered.
       Return ([BEGIN_MARKER, [], ''_Generated from public docstrings behind the `dataset_rt.api` facade._'', []] @ concat rendered)))"

definition render_generated_section :: "doc_env \<Rightarrow> string list \<Rightarrow> string exn" where
  "render_generated_section env exported_names =
     bindE (rendered_sections env exported_names) (\<lambda>sections. Return (join [newline] (sections @ [END_MARKER])))"

text \<open>\<open>str.find\<close>.\<close>

fun find_text :: "string \<Rightarrow> string \<Rightarrow> nat option" where
  "find_text needle [] = (if needle = [] then Some 0 else None)"
| "find_text needle (c # s) = (if prefix needle (c # s) then Some 0 else map_option Suc (find_text needle s))"

text \<open>The content of the document after the call.\<close>

definition update_marked_section :: "string \<Rightarrow> string \<Rightarrow> bool \<Rightarrow> string \<Rightarrow> string exn" where
  "update_marked_section path generated check original =
     (case (find_text BEGIN_MARKER original, find_text END_MARKER original) of
        (Some start, Some stop) \<Rightarrow>
          (let updated = take start original @ generated @ drop (stop + length END_MARKER) original
           in if check \<and> updated \<noteq> original then Exit (path @ '' is not synchronized with API docstrings'')
              else if check then Return original
              else Return updated)
      | _ \<Rightarrow> Exit (''generated API docs markers not found in '' @ path))"

definition sync_main :: "doc_env \<Rightarrow> string list \<Rightarrow> string \<Rightarrow> string exn" where
  "sync_main env args document =
     bindE (parse_check_flag args) (\<lambda>check.
     bindE (read_text env ''dataset_rt/__init__.py'') (\<lambda>package.
     bindE (public_names (parse_body env package)) (\<lambda>names.
     bindE (render_generated_section env names) (\<lambda>generated.
       update_marked_section ''docs/python-api.md'' generated check document))))"

section \<open>Searching across pieces of text\<close>

lemma find_text_take:
  "find_text needle s = Some i \<Longrightarrow> needle \<noteq> [] \<Longrightarrow> prefix needle (drop i s) \<and> find_text needle (take i s) = None"
proof (induction s arbitrary: i)
  case (Cons c s)
  show ?case
  proof (cases "prefix needle (c # s)")
    case False
    then obtain j where j: "find_text needle s = Some j" "i = Suc j" using Cons.prems(1) by auto
    have "\<not> prefix needle (c # take j s)" using False prefix_order.trans [of needle "c # take j s" "c # s"] by (auto simp: take_is_prefix)
    then show ?thesis using Cons.IH [OF j(1) Cons.prems(2)] j(2) by simp
  qed (use Cons.prems in auto)
qed (simp split: if_splits)

lemma find_text_length: "find_text needle s = Some i \<Longrightarrow> i + length needle \<le> length s"
  by (induction s arbitrary: i) (auto split: if_splits dest: prefix_length_le)

lemma find_text_Nil [simp]: "find_text [] s = Some 0"
  by (cases s) simp_all

lemma prefix_short: "length needle \<le> length s \<Longrightarrow> prefix needle (s @ t) \<longleftrightarrow> prefix needle s"
  by (auto simp: prefix_append)

lemma prefix_longer: "prefix needle (a # s) \<Longrightarrow> prefix needle (a # s @ t)"
  by (metis append_Cons prefix_prefix)

lemma find_text_prefix_None: "find_text needle (s @ t) = None \<Longrightarrow> find_text needle s = None"
  by (induction s) (auto split: if_splits dest: prefix_longer [of needle _ _ t])

lemma find_text_append: "find_text needle s = Some i \<Longrightarrow> find_text needle (s @ t) = Some i"
proof (induction s arbitrary: i)
  case (Cons a s)
  show ?case
  proof (cases "prefix needle (a # s)")
    case True
    then show ?thesis using Cons.prems prefix_longer [OF True] by simp
  next
    case False
    then obtain j where j: "find_text needle s = Some j" "i = Suc j" using Cons.prems by auto
    have "\<not> prefix needle (a # s @ t)" using False find_text_length [OF j(1)] prefix_short [of needle "a # s" t] by simp
    then show ?thesis using Cons.IH [OF j(1)] j(2) by simp
  qed
qed (simp split: if_splits)

text \<open>A needle cannot begin in one piece and end in the next when the next begins with a character that the needle
  has nowhere but, possibly, in front.\<close>

lemma find_text_pieces:
  assumes "find_text needle s = None" and "c \<notin> set (tl needle)"
  shows "find_text needle (s @ c # t) = map_option ((+) (length s)) (find_text needle (c # t))"
  using assms(1)
proof (induction s)
  case (Cons d s)
  have "\<not> prefix needle (d # s @ c # t)"
  proof
    assume "prefix needle (d # s @ c # t)"
    then have "prefix needle ((d # s) @ c # t)" by simp
    then consider "prefix needle (d # s)" | rest where "needle = (d # s) @ rest" "prefix rest (c # t)" "rest \<noteq> []"
      unfolding prefix_append by force
    then show False
    proof cases
      case 2
      then have "c \<in> set (tl needle)" by (cases rest) auto
      then show False using assms(2) by blast
    qed (use Cons.prems in simp)
  qed
  then show ?case using Cons by (auto simp: option.map_comp o_def split: if_splits)
next
  case Nil
  then show ?case by (cases "find_text needle (c # t)") auto
qed

text \<open>A needle without the separator is found in no joined text unless a part has it.\<close>

lemma find_text_join_None:
  assumes "sep \<notin> set needle" and "needle \<noteq> []"
  shows "\<forall>w\<in>set ws. find_text needle w = None \<Longrightarrow> find_text needle (join [sep] ws) = None"
proof (induction "[sep]" ws rule: join.induct)
  case (3 w v ws)
  have apart: "sep \<notin> set (tl needle)" using assms by (cases needle) auto
  have "\<not> prefix needle (sep # join [sep] (v # ws))" using assms by (cases needle) auto
  then show ?case using 3 find_text_pieces [OF _ apart, of w "join [sep] (v # ws)"] by simp
qed (use assms(2) in simp_all)

lemma join_append: "ws \<noteq> [] \<Longrightarrow> join sep (ws @ [w]) = join sep ws @ sep @ w"
proof (induction sep ws rule: join.induct)
  case (3 sep x y ws)
  then show ?case by simp
qed simp_all

section \<open>Synchronising the document\<close>

lemma marker_facts:
  "BEGIN_MARKER \<noteq> []" "END_MARKER \<noteq> []" "hd BEGIN_MARKER = CHR ''<''" "CHR ''<'' \<notin> set (tl BEGIN_MARKER)" "CHR ''<'' \<notin> set (tl END_MARKER)"
  "newline \<notin> set END_MARKER"
  by (simp_all add: BEGIN_MARKER_def END_MARKER_def)

lemma end_marker_newline: "find_text END_MARKER (newline # END_MARKER) = Some 1"
  by (simp add: END_MARKER_def)

text \<open>Where the generated text has its markers, when no section holds the closing one.\<close>

lemma generated_markers:
  assumes "rendered_sections env names = Return sections" and "\<forall>s\<in>set sections. find_text END_MARKER s = None"
    and "render_generated_section env names = Return generated"
  shows "prefix BEGIN_MARKER generated" and "find_text END_MARKER generated = Some (length generated - length END_MARKER)"
    and "length END_MARKER \<le> length generated" and "suffix END_MARKER generated"
proof -
  obtain others where others: "sections = BEGIN_MARKER # [] # others" using assms(1) by (auto simp: rendered_sections_def exn_simps)
  have whole: "generated = join [newline] sections @ newline # END_MARKER"
    using assms(1,3) join_append [of sections "[newline]" END_MARKER] others by (simp add: render_generated_section_def)
  show "prefix BEGIN_MARKER generated" unfolding whole others by (simp add: prefix_append)
  have none: "find_text END_MARKER (join [newline] sections) = None" by (rule find_text_join_None) (use assms(2) marker_facts in auto)
  have apart: "newline \<notin> set (tl END_MARKER)" using marker_facts(2,6) list.set_sel(2) by metis
  show "find_text END_MARKER generated = Some (length generated - length END_MARKER)"
    unfolding whole find_text_pieces [OF none apart] end_marker_newline by simp
  show "length END_MARKER \<le> length generated" and "suffix END_MARKER generated" unfolding whole by (simp_all add: suffix_def)
qed

text \<open>Replacing the section where it already stands changes nothing.\<close>

lemma update_stable:
  assumes start: "find_text BEGIN_MARKER original = Some start" and stop: "find_text END_MARKER original = Some stop" and "start \<le> stop"
    and begins: "prefix BEGIN_MARKER generated" and ends: "find_text END_MARKER generated = Some (length generated - length END_MARKER)"
    and long: "length END_MARKER \<le> length generated"
    and updated: "updated = take start original @ generated @ drop (stop + length END_MARKER) original"
  shows "update_marked_section path generated check updated = Return updated"
proof -
  let ?before = "take start original" and ?after = "drop (stop + length END_MARKER) original"
  obtain others where whole: "generated = CHR ''<'' # others" using begins marker_facts(1,3) by (metis append_Cons list.collapse prefixE)
  have no_begin: "find_text BEGIN_MARKER ?before = None" using find_text_take [OF start] marker_facts by simp
  have "find_text END_MARKER (take stop original) = None" using find_text_take [OF stop] marker_facts by simp
  then have "find_text END_MARKER (?before @ drop start (take stop original)) = None"
    using \<open>start \<le> stop\<close> by (metis append_take_drop_id min.absorb1 take_take)
  then have no_end: "find_text END_MARKER ?before = None" by (rule find_text_prefix_None)
  have short: "length ?before = start" using find_text_length [OF start] by simp
  have "find_text BEGIN_MARKER (generated @ ?after) = Some 0" using begins whole by (simp add: prefix_longer)
  then have "find_text BEGIN_MARKER updated = Some start"
    using find_text_pieces [OF no_begin marker_facts(4), of "others @ ?after"] unfolding updated whole append_Cons short by simp
  moreover have "find_text END_MARKER updated = Some (start + (length generated - length END_MARKER))"
    using find_text_append [OF ends, of ?after] find_text_pieces [OF no_end marker_facts(5), of "others @ ?after"]
    unfolding updated whole append_Cons short by (simp only: option.map)
  ultimately show ?thesis
    using long short unfolding update_marked_section_def by (simp add: updated)
qed

text \<open>The sections of the names that the package exports.\<close>

definition exported_sections :: "doc_env \<Rightarrow> string list exn" where
  "exported_sections env =
     bindE (read_text env ''dataset_rt/__init__.py'') (\<lambda>package. bindE (public_names (parse_body env package)) (rendered_sections env))"

text \<open>
  C38. Synchronising the documentation is stable: the document keeps its text before the opening and after the closing
  marker, and on the result \<open>--check\<close> succeeds and a second run writes the same text. This holds when the opening marker
  of the document comes first and no rendered section holds the closing marker.
\<close>

theorem sync_roundtrip:
  assumes "sync_main env [] document = Return updated"
    and "find_text BEGIN_MARKER document = Some start" and "find_text END_MARKER document = Some stop" and "start \<le> stop"
    and "exported_sections env = Return sections" and "\<forall>s\<in>set sections. find_text END_MARKER s = None"
  shows "sync_main env [''--check''] updated = Return updated \<and> sync_main env [] updated = Return updated \<and>
    prefix (take start document @ BEGIN_MARKER) updated \<and> suffix (END_MARKER @ drop (stop + length END_MARKER) document) updated"
proof -
  obtain package names generated where run: "read_text env ''dataset_rt/__init__.py'' = Return package"
      "public_names (parse_body env package) = Return names" "render_generated_section env names = Return generated"
      "update_marked_section ''docs/python-api.md'' generated False document = Return updated"
    using assms(1) by (auto simp: sync_main_def parse_check_flag_def exn_simps)
  have sections: "rendered_sections env names = Return sections" using assms(5) run(1,2) by (simp add: exported_sections_def)
  note generated = generated_markers [OF sections assms(6) run(3)]
  have updated: "updated = take start document @ generated @ drop (stop + length END_MARKER) document"
    using run(4) assms(2,3) by (simp add: update_marked_section_def)
  have stable: "update_marked_section path generated check updated = Return updated" for path check
    by (rule update_stable [OF assms(2-4) generated(1-3) updated])
  have "sync_main env args updated = Return updated" if "args = [] \<or> args = [''--check'']" for args
    using run(1-3) stable that by (auto simp: sync_main_def parse_check_flag_def)
  moreover have "prefix (take start document @ BEGIN_MARKER) updated"
    using generated(1) unfolding updated by (auto simp: prefix_def)
  moreover have "suffix (END_MARKER @ drop (stop + length END_MARKER) document) updated"
    using generated(4) unfolding updated by (auto simp: suffix_def)
  ultimately show ?thesis by blast
qed

text \<open>A package that exports one class with a field and a method.\<close>

abbreviation "at_line i n \<equiv> \<lparr>node_id = i, lineno = n, col_offset = 0\<rparr>"

abbreviation "example_doc i n s \<equiv> ExprStmt (at_line i n) (Constant (at_line (i + 1) n) (StrConst s))"

definition example_env :: doc_env where
  "example_env =
     \<lparr>read_text = (\<lambda>path. if path = ''dataset_rt/__init__.py'' then Return ''package''
         else if path = ''dataset_rt/api.py'' then Return ''facade''
         else if path = ''dataset_rt/records.py'' then Return ''records'' else Raise (FileNotFoundError path)),
      parse_body = (\<lambda>source.
         if source = ''package'' then [Assign (at_line 0 1) [Name (at_line 1 1) ''__all__''] (ListExpr (at_line 2 1) [Constant (at_line 3 1) (StrConst ''RowSpan'')])]
         else if source = ''facade'' then [ImportFrom (at_line 4 1) (Some ''dataset_rt.records'') [(''RowSpan'', None)]]
         else [ClassDef (at_line 5 1) ''RowSpan'' [] []
            [example_doc 6 2 ''A span.'', AnnAssign (at_line 8 3) (Name (at_line 9 3) ''offset'') (Name (at_line 10 3) ''int'') None, example_doc 11 4 ''First row.'',
             FunctionDef (at_line 13 5) ''rows'' (Arguments (at_line 14 5) [] [Arg (at_line 15 5) ''self'' None] None [] [] None [])
               [example_doc 16 6 ''All rows.''] [] (Some (Name (at_line 18 5) ''list'')) []] [] []]),
      unparse = (\<lambda>node. case node of Name l x \<Rightarrow> x | _ \<Rightarrow> ''?''),
      get_source_segment = (\<lambda>source node. None)\<rparr>"

definition example_lines :: "string list" where
  "example_lines = [BEGIN_MARKER, [], ''_Generated from public docstrings behind the `dataset_rt.api` facade._'', [],
     ''### `RowSpan`'', [], ''A span.'', [], ''Fields:'', ''- `offset: int`: First row.'', [], ''#### `RowSpan.rows() -> list`'', [], ''All rows.'', []]"

definition example_document :: string where
  "example_document = ''# API'' @ [newline] @ BEGIN_MARKER @ ''stale'' @ END_MARKER @ [newline] @ ''tail''"

lemma example_sections: "exported_sections example_env = Return example_lines"
  by code_simp

lemma example_find: "find_text BEGIN_MARKER example_document = Some 6" "find_text END_MARKER example_document = Some 54"
  by code_simp+

lemma example_clean: "\<forall>s\<in>set example_lines. find_text END_MARKER s = None"
  by code_simp

lemma example_synced:
  "sync_main example_env [] example_document =
     Return (''# API'' @ [newline] @ join [newline] (example_lines @ [END_MARKER]) @ [newline] @ ''tail'')"
  by code_simp

theorem sync_roundtrip_witness:
  "let updated = ''# API'' @ [newline] @ join [newline] (example_lines @ [END_MARKER]) @ [newline] @ ''tail''
   in sync_main example_env [] example_document = Return updated \<and> sync_main example_env [''--check''] updated = Return updated \<and>
      sync_main example_env [] updated = Return updated"
  using sync_roundtrip [OF example_synced example_find _ example_sections example_clean] example_synced by (simp add: Let_def)

end
