(* ===== verification/Build_Local.thy ===== *)
theory Build_Local
  imports Py_Text "HOL-Library.List_Lexorder" "HOL-Library.Char_ord"
begin

text \<open>
  \<open>src/scripts/build_local.py\<close>: the local build of the source archive and of the wheels for every target.

  A statement of the script is its trace and its outcome: the directory it clears, the commands it runs with their
  environment, the lines it prints, and the exception that ends it. Which commands exist, which of them fail, the
  platform, the environment, the parsed \<open>Cargo.toml\<close> and the built files are arguments.
\<close>

section \<open>Statements with a trace\<close>

datatype build_effect =
    CleanDist
  | Run "string list" "(string \<rightharpoonup> string) option"
  | Print string

type_synonym traced = "build_effect list \<times> unit exn"

definition seqT :: "traced \<Rightarrow> traced \<Rightarrow> traced" where
  "seqT first second = (case snd first of Inl e \<Rightarrow> (fst first, Raise e) | Inr u \<Rightarrow> (fst first @ fst second, snd second))"

fun forT :: "('a \<Rightarrow> traced) \<Rightarrow> 'a list \<Rightarrow> traced" where
  "forT body [] = ([], Return ())"
| "forT body (x # xs) = seqT (body x) (forT body xs)"

definition bindT :: "'a exn \<Rightarrow> ('a \<Rightarrow> traced) \<Rightarrow> traced" where
  "bindT m f = (case m of Inl e \<Rightarrow> ([], Raise e) | Inr x \<Rightarrow> f x)"

definition skipT :: traced where
  "skipT = ([], Return ())"

section \<open>Configuration\<close>

record BuildConfig =
  linux_targets :: string
  macos_targets :: string
  compatibility :: string
  skip_macos :: bool
  skip_linux :: bool

definition DEFAULT_MACOS_TARGETS :: "string list" where
  "DEFAULT_MACOS_TARGETS = [''aarch64-apple-darwin'', ''x86_64-apple-darwin'']"

definition DEFAULT_LINUX_TARGETS :: "string list" where
  "DEFAULT_LINUX_TARGETS = [''x86_64-unknown-linux-gnu'', ''aarch64-unknown-linux-gnu'']"

definition split_nonempty :: "string \<Rightarrow> string list exn" where
  "split_nonempty v =
     (let parts = filter (\<lambda>part. part \<noteq> []) (split_ws v)
      in if parts = [] then Raise (SystemExit (Inr ''build configuration list must not be empty'')) else Return parts)"

definition parsed_linux_targets :: "BuildConfig \<Rightarrow> string list exn" where
  "parsed_linux_targets config = (if linux_targets config \<noteq> [] then split_nonempty (linux_targets config) else Return DEFAULT_LINUX_TARGETS)"

definition parsed_macos_targets :: "BuildConfig \<Rightarrow> string list exn" where
  "parsed_macos_targets config = (if macos_targets config \<noteq> [] then split_nonempty (macos_targets config) else Return DEFAULT_MACOS_TARGETS)"

section \<open>Commands\<close>

datatype toml = TomlString string | TomlTable "string \<rightharpoonup> toml" | TomlOther

record build_env =
  dist_dir :: string
  which :: "string \<Rightarrow> bool"
  failure :: "string list \<Rightarrow> py_error option"
  platform_system :: string
  environ :: "string \<rightharpoonup> string"
  cargo_toml :: toml
  dist_entries :: "(string \<times> bool) list"

definition require_command :: "build_env \<Rightarrow> string \<Rightarrow> traced" where
  "require_command env command =
     (if which env command then skipT else ([], Raise (SystemExit (Inr (''required command not found: '' @ command)))))"

definition clean_dist :: traced where
  "clean_dist = ([CleanDist], Return ())"

text \<open>\<open>run\<close>: a command that exits with an error has run, and raises.\<close>

definition run_command :: "build_env \<Rightarrow> string list \<Rightarrow> (string \<rightharpoonup> string) option \<Rightarrow> traced" where
  "run_command env command variables =
     ([Run command variables], case failure env command of None \<Rightarrow> Return () | Some e \<Rightarrow> Raise e)"

definition build_sdist :: "build_env \<Rightarrow> traced" where
  "build_sdist env =
     run_command env [''uv'', ''run'', ''--python'', ''3.11'', ''--extra'', ''dev'', ''maturin'', ''sdist'', ''--out'', dist_dir env] None"

definition ensure_rust_target :: "build_env \<Rightarrow> string \<Rightarrow> traced" where
  "ensure_rust_target env target = run_command env [''rustup'', ''target'', ''add'', target] None"

definition maturin_build :: "build_env \<Rightarrow> string \<Rightarrow> string list" where
  "maturin_build env target =
     [''uv'', ''run'', ''--python'', ''3.11'', ''--extra'', ''dev'', ''maturin'', ''build'', ''--release'', ''--out'', dist_dir env, ''--target'', target]"

definition build_macos_wheels :: "build_env \<Rightarrow> BuildConfig \<Rightarrow> traced" where
  "build_macos_wheels env config =
     (if platform_system env \<noteq> ''Darwin''
      then ([], Raise (SystemExit (Inr ''macOS wheels must be built on macOS; set DATASETRT_SKIP_MACOS=true'')))
      else bindT (parsed_macos_targets config)
        (forT (\<lambda>target. seqT (ensure_rust_target env target) (run_command env (maturin_build env target) None))))"

definition setdefault :: "string \<Rightarrow> string \<Rightarrow> (string \<rightharpoonup> string) \<Rightarrow> (string \<rightharpoonup> string)" where
  "setdefault key v m = (case m key of None \<Rightarrow> m(key \<mapsto> v) | Some old \<Rightarrow> m)"

definition zig_cache_env :: "build_env \<Rightarrow> (string \<rightharpoonup> string)" where
  "zig_cache_env env =
     setdefault ''ZIG_LOCAL_CACHE_DIR'' ''/tmp/zig-local-cache''
       (setdefault ''ZIG_GLOBAL_CACHE_DIR'' ''/tmp/zig-global-cache''
         (setdefault ''CARGO_ZIGBUILD_CACHE_DIR'' ''/tmp/cargo-zigbuild'' (environ env)))"

definition build_linux_target :: "build_env \<Rightarrow> BuildConfig \<Rightarrow> string \<Rightarrow> traced" where
  "build_linux_target env config target =
     seqT (ensure_rust_target env target)
       (run_command env (maturin_build env target @ [''--zig'', ''--compatibility'', compatibility config]) (Some (zig_cache_env env)))"

definition build_linux_wheels :: "build_env \<Rightarrow> BuildConfig \<Rightarrow> traced" where
  "build_linux_wheels env config = bindT (parsed_linux_targets config) (forT (build_linux_target env config))"

fun toml_get :: "toml \<Rightarrow> string \<Rightarrow> toml exn" where
  "toml_get (TomlTable t) key = (case t key of None \<Rightarrow> Raise (KeyError key) | Some v \<Rightarrow> Return v)"
| "toml_get v key = Raise (TypeError key)"

definition project_version :: "build_env \<Rightarrow> string exn" where
  "project_version env =
     bindE (toml_get (cargo_toml env) ''package'') (\<lambda>package.
     bindE (toml_get package ''version'') (\<lambda>version.
       case version of TomlString s \<Rightarrow> Return s | _ \<Rightarrow> Raise (SystemExit (Inr ''project version must be a string''))))"

definition print_artifacts :: "build_env \<Rightarrow> traced" where
  "print_artifacts env =
     bindT (project_version env) (\<lambda>version.
       (Print (''Built DatasetRT '' @ version @ '' artifacts:'') #
          map (\<lambda>(name, is_file). Print (dist_dir env @ ''/'' @ name)) (filter snd (sort_key fst (dist_entries env))), Return ()))"

definition build_main :: "build_env \<Rightarrow> BuildConfig \<Rightarrow> traced" where
  "build_main env config =
     seqT (require_command env ''uv'') (seqT (require_command env ''cargo'') (seqT (require_command env ''rustup'')
      (seqT clean_dist (seqT (build_sdist env)
      (seqT (if skip_macos config then skipT else build_macos_wheels env config)
      (seqT (if skip_linux config then skipT else build_linux_wheels env config)
       (print_artifacts env)))))))"

section \<open>The plan of a build\<close>

text \<open>Running a list of effects up to the first command that fails, which has run.\<close>

definition effect_failure :: "build_env \<Rightarrow> build_effect \<Rightarrow> py_error option" where
  "effect_failure env effect = (case effect of Run command variables \<Rightarrow> failure env command | _ \<Rightarrow> None)"

definition until_failure :: "build_env \<Rightarrow> build_effect list \<Rightarrow> traced" where
  "until_failure env effects =
     (case dropWhile (\<lambda>x. effect_failure env x = None) effects of
        [] \<Rightarrow> (effects, Return ())
      | x # others \<Rightarrow> (takeWhile (\<lambda>x. effect_failure env x = None) effects @ [x], Raise (the (effect_failure env x))))"

abbreviation prepare_target :: "string \<Rightarrow> build_effect" where
  "prepare_target target \<equiv> Run [''rustup'', ''target'', ''add'', target] None"

definition build_plan :: "build_env \<Rightarrow> BuildConfig \<Rightarrow> string list \<Rightarrow> string list \<Rightarrow> build_effect list" where
  "build_plan env config macos linux =
     [CleanDist, Run [''uv'', ''run'', ''--python'', ''3.11'', ''--extra'', ''dev'', ''maturin'', ''sdist'', ''--out'', dist_dir env] None] @
     concat (map (\<lambda>target. [prepare_target target, Run (maturin_build env target) None]) macos) @
     concat (map (\<lambda>target. [prepare_target target,
       Run (maturin_build env target @ [''--zig'', ''--compatibility'', compatibility config]) (Some (zig_cache_env env))]) linux)"

lemma until_failure_Nil [simp]: "until_failure env [] = skipT"
  by (simp add: until_failure_def skipT_def)

lemma until_failure_Cons:
  "until_failure env (x # xs) = (case effect_failure env x of Some e \<Rightarrow> ([x], Raise e) | None \<Rightarrow> seqT ([x], Return ()) (until_failure env xs))"
  by (cases "effect_failure env x") (simp_all add: until_failure_def seqT_def del: dropWhile_eq_Nil_conv split: list.split)

lemma seqT_assoc: "seqT (seqT a b) c = seqT a (seqT b c)"
  by (simp add: seqT_def split: sum.splits)

lemma seqT_skip [simp]: "seqT skipT m = m"
  by (simp add: seqT_def skipT_def)

lemma seqT_Raise [simp]: "seqT (trace, Raise e) m = (trace, Raise e)"
  by (simp add: seqT_def)

lemma until_failure_append: "until_failure env (xs @ ys) = seqT (until_failure env xs) (until_failure env ys)"
  by (induction xs) (simp_all add: until_failure_Cons seqT_assoc split: option.split)

lemma until_failure_run: "until_failure env [Run command variables] = run_command env command variables"
  by (auto simp: until_failure_def run_command_def effect_failure_def split: option.splits)

lemma until_failure_two: "until_failure env [x, y] = seqT (until_failure env [x]) (until_failure env [y])"
  using until_failure_append [of env "[x]" "[y]"] by simp

lemma until_failure_for: "(\<And>x. body x = until_failure env (f x)) \<Longrightarrow> forT body xs = until_failure env (concat (map f xs))"
  by (induction xs) (simp_all add: until_failure_append skipT_def)

lemma setdefault_keeps: "m \<subseteq>\<^sub>m n \<Longrightarrow> m \<subseteq>\<^sub>m setdefault key v n"
  by (auto simp: map_le_def setdefault_def dom_def split: option.splits)

lemma dom_setdefault [simp]: "dom (setdefault key v m) = insert key (dom m)"
  by (auto simp: setdefault_def split: option.splits)

lemma macos_plan:
  "parsed_macos_targets config = Return targets \<Longrightarrow> platform_system env = ''Darwin'' \<Longrightarrow>
   build_macos_wheels env config = until_failure env (concat (map (\<lambda>target. [prepare_target target, Run (maturin_build env target) None]) targets))"
  by (simp add: build_macos_wheels_def bindT_def until_failure_for until_failure_two until_failure_run ensure_rust_target_def)

lemma linux_plan:
  "parsed_linux_targets config = Return targets \<Longrightarrow>
   build_linux_wheels env config = until_failure env (concat (map (\<lambda>target. [prepare_target target,
       Run (maturin_build env target @ [''--zig'', ''--compatibility'', compatibility config]) (Some (zig_cache_env env))]) targets))"
  by (simp add: build_linux_wheels_def bindT_def until_failure_for until_failure_two until_failure_run ensure_rust_target_def build_linux_target_def)

text \<open>
  A local build with its tools present and a platform that can build what is asked for runs exactly the planned
  commands in order: it stops after the first that fails and raises its error, and prints the artifacts when none does.
  Every Linux build gets the three cache directories, and those the caller has set are kept.
\<close>

theorem build_follows_plan:
  assumes "\<forall>command\<in>{''uv'', ''cargo'', ''rustup''}. which env command"
    and "if skip_macos config then macos = [] else parsed_macos_targets config = Return macos \<and> platform_system env = ''Darwin''"
    and "if skip_linux config then linux = [] else parsed_linux_targets config = Return linux"
  shows "build_main env config = seqT (until_failure env (build_plan env config macos linux)) (print_artifacts env) \<and>
    environ env \<subseteq>\<^sub>m zig_cache_env env \<and>
    {''CARGO_ZIGBUILD_CACHE_DIR'', ''ZIG_GLOBAL_CACHE_DIR'', ''ZIG_LOCAL_CACHE_DIR''} \<subseteq> dom (zig_cache_env env)"
proof (intro conjI)
  let ?sdist = "Run [''uv'', ''run'', ''--python'', ''3.11'', ''--extra'', ''dev'', ''maturin'', ''sdist'', ''--out'', dist_dir env] None"
  have clean: "until_failure env [CleanDist] = clean_dist" by (simp add: until_failure_def effect_failure_def clean_dist_def)
  have first: "until_failure env [CleanDist, ?sdist] = seqT clean_dist (build_sdist env)"
    by (simp only: until_failure_two clean until_failure_run build_sdist_def)
  have macos: "(if skip_macos config then skipT else build_macos_wheels env config) =
      until_failure env (concat (map (\<lambda>target. [prepare_target target, Run (maturin_build env target) None]) macos))"
    using assms(2) macos_plan [of config macos env] by (auto split: if_splits)
  have linux: "(if skip_linux config then skipT else build_linux_wheels env config) =
      until_failure env (concat (map (\<lambda>target. [prepare_target target,
        Run (maturin_build env target @ [''--zig'', ''--compatibility'', compatibility config]) (Some (zig_cache_env env))]) linux))"
    using assms(3) linux_plan [of config linux env] by (auto split: if_splits)
  show "build_main env config = seqT (until_failure env (build_plan env config macos linux)) (print_artifacts env)"
    using assms(1) by (simp add: build_main_def require_command_def macos linux build_plan_def first until_failure_append seqT_assoc
        del: append_Cons append_Nil)
  show "environ env \<subseteq>\<^sub>m zig_cache_env env" by (simp add: zig_cache_env_def setdefault_keeps)
  show "{''CARGO_ZIGBUILD_CACHE_DIR'', ''ZIG_GLOBAL_CACHE_DIR'', ''ZIG_LOCAL_CACHE_DIR''} \<subseteq> dom (zig_cache_env env)"
    by (simp add: zig_cache_env_def)
qed

text \<open>A build on macOS in which the second Linux target cannot be installed.\<close>

definition example_build :: build_env where
  "example_build =
     \<lparr>dist_dir = ''dist'', which = (\<lambda>command. True),
      failure = (\<lambda>command. if command = [''rustup'', ''target'', ''add'', ''b''] then Some (RuntimeError ''b'') else None),
      platform_system = ''Darwin'', environ = [''ZIG_LOCAL_CACHE_DIR'' \<mapsto> ''/cache''],
      cargo_toml = TomlOther, dist_entries = []\<rparr>"

definition example_build_config :: BuildConfig where
  "example_build_config = \<lparr>linux_targets = ''a b'', macos_targets = [], compatibility = ''manylinux_2_17'', skip_macos = True, skip_linux = False\<rparr>"

lemma example_targets: "parsed_linux_targets example_build_config = Return [''a'', ''b'']"
  by code_simp

lemma example_outcome: "snd (until_failure example_build (build_plan example_build example_build_config [] [''a'', ''b''])) = Raise (RuntimeError ''b'')"
  by (simp add: build_plan_def example_build_def until_failure_Cons effect_failure_def seqT_def maturin_build_def)

theorem build_follows_plan_witness:
  "snd (build_main example_build example_build_config) = Raise (RuntimeError ''b'') \<and> zig_cache_env example_build ''ZIG_LOCAL_CACHE_DIR'' = Some ''/cache''"
proof -
  have parts: "\<forall>command\<in>{''uv'', ''cargo'', ''rustup''}. which example_build command" "skip_macos example_build_config" "\<not> skip_linux example_build_config"
    by (simp_all add: example_build_def example_build_config_def)
  note planned = build_follows_plan [OF parts(1), of example_build_config "[]" "[''a'', ''b'']"]
  have "build_main example_build example_build_config =
      seqT (until_failure example_build (build_plan example_build example_build_config [] [''a'', ''b''])) (print_artifacts example_build)"
    using planned parts example_targets by simp
  moreover have "zig_cache_env example_build ''ZIG_LOCAL_CACHE_DIR'' = Some ''/cache''"
    using planned parts example_targets by (auto simp: map_le_def example_build_def dest!: bspec [where x = "''ZIG_LOCAL_CACHE_DIR''"])
  ultimately show ?thesis using example_outcome by (simp add: seqT_def split: sum.splits)
qed

end
