(* ===== verification/Spec2Isabelle.thy ===== *)
theory Spec2Isabelle
  imports Runtime Native_Iterator Native_Caches Benchmark_Run Smoke_Bench Ddp_Example Precise_Types Api_Docs Build_Local
begin

text \<open>
  A verification development for DatasetRT: a runtime that writes samples into sharded caches, reads them
  back as an endless sampled stream, and feeds PyTorch training processes without losing, repeating or
  double-counting rows.

  \<^bold>\<open>The program and its parts.\<close> The Python package \<open>src/dataset_rt/\<close> is a typed layer over a native reader and
  writer in Rust (\<open>src/src/dataset_rt/\<close>). A \<open>DatasetRuntime\<close> writes sources into caches, serially or with
  spawned processes (\<open>runtime.py\<close>, \<open>writer.py\<close>). A \<open>CachedDataset\<close> opens caches, replaces its active metadata and
  iterates (\<open>dataset.py\<close>). For training, the dataset is exported (\<open>reconstruction.py\<close>), every rank plans what each
  of its loading workers reads (\<open>integrations/loading.py\<close>, \<open>integrations/loader.py\<close>), and an adapter rebuilds a
  reader in each worker process. Settings are validated records (\<open>config.py\<close>, \<open>integrations/loader_options.py\<close>);
  CPU budgets come from the kernel's control groups (\<open>resources.py\<close>). The benchmark (\<open>benchmarks/\<close>,
  \<open>run_benchmark.py\<close>) re-computes the plans independently and holds them against what the loader delivers. The
  scripts (\<open>src/scripts/\<close>) measure readers and writers, check the sources' types, generate the API documentation
  and build wheels; the example (\<open>src/examples/\<close>) trains on several ranks.

  \<^bold>\<open>Theories.\<close>
  \<^item> \<open>Prelude\<close>: exceptions as values (\<open>exn\<close>, \<open>bindE\<close>), \<open>Ok\<close>/\<open>Err\<close>, integer ranges, the collections \<open>exn_simps\<close> and
    \<open>range_simps\<close>. \<open>Py_Text\<close> and \<open>Posix_Path\<close>: the parts of Python's \<open>str\<close> and \<open>pathlib\<close> the sources use.
  \<^item> \<open>Records\<close>, \<open>Config\<close>: the value types of \<open>records.py\<close> and the models of \<open>config.py\<close> with their constraints.
  \<^item> \<open>Resources\<close>: \<open>resources.py\<close>. Control-group memberships and mounts are parsed from text, the limit files are
    read through the argument \<open>read\<close>, and the walk up a hierarchy is a \<open>partial_function\<close>.
  \<^item> \<open>Loading\<close>: \<open>integrations/loading.py\<close>: row spans, worker budgets, seeds. The contract of a split into spans is
    the locale \<open>span_split\<close>, interpreted on \<open>partition_span\<close>; that of a seed mixer is \<open>u64_permutation\<close>,
    interpreted on \<open>mix_u64\<close>.
  \<^item> \<open>Loader_Options\<close>, \<open>Partitions\<close>: validation and resolution of the loader's settings, and the plans of a rank.
  \<^item> \<open>Reconstruction\<close>: export, load, the shared row order, row selections, and who owns an artifact directory. The
    file system is a map from paths to nodes; an export is the list of its operations, each of which may fail.
  \<^item> \<open>Windows\<close>: the locale \<open>window_source\<close> of states that open finite windows of one endless stream, and the loop of
    the adapter over them. \<open>Native_Dataset\<close>: the Rust state the Python dataset delegates to (offsets, active table,
    cursors, epoch plans); \<open>Dataset\<close>: \<open>dataset.py\<close>, \<open>metadata.py\<close>, \<open>integrations/torch.py\<close>. Both interpret
    \<open>window_source\<close>. \<open>Native_Iterator\<close>: the prefetching iterator of \<open>runtime.rs\<close> over pool threads and a bounded
    channel, which refines the windows: samples keep their order, but a read error may surface as many samples
    early as the iterator looks ahead, where the windows have it at its position.
  \<^item> \<open>Bytes\<close>: little-endian integers. \<open>Native_Storage\<close>: the cache files of \<open>storage.rs\<close>, \<open>storage/\<close> and \<open>compression.rs\<close>
    (records, shards, table, index, manifest, the cache of open files) over directories of byte strings; rows of
    one width are the locale \<open>fixed_rows\<close>, interpreted on index entries. \<open>Cache_Roundtrip\<close>: the invariant of
    \<open>CacheBuilder\<close> and what a finished cache guarantees. \<open>Native_Writer\<close>: \<open>writer.rs\<close>, from Python items through the window of running
    jobs to the published directory. \<open>Native_Caches\<close>: the directories as the caches of \<open>Native_Dataset\<close>.
  \<^item> \<open>Loader\<close>: \<open>integrations/loader.py\<close>, \<open>loader_logging.py\<close>: the adapter in a consuming process and the
    construction of a loader with its cleanup.
  \<^item> \<open>Writer\<close>: \<open>writer.py\<close>, child and parent. \<open>Writer_Pool\<close>: the invariant of the conversation, the pool as an inductive
    step relation, its abstraction to a job board, and the potential that bounds the loop. \<open>Writing\<close>: what
    \<open>write_parallel\<close> guarantees. \<open>Runtime\<close>: \<open>runtime.py\<close>.
  \<^item> \<open>Benchmark\<close>, \<open>Benchmark_Run\<close>: \<open>benchmarks/\<close> and \<open>run_benchmark.py\<close>.
  \<^item> \<open>Reader_Bench\<close>: \<open>scripts/bench_reader.py\<close>; the contract of a trial is the locale \<open>trial_runner\<close>, interpreted on
    \<open>run_trial\<close>. \<open>Writer_Bench\<close>: \<open>scripts/bench_writer.py\<close> and \<open>bench_parallel.py\<close>, with the locale
    \<open>write_runner\<close> interpreted on a timed write. \<open>Smoke_Bench\<close>: \<open>scripts/bench_smoke.py\<close>. \<open>Ddp_Example\<close>:
    \<open>examples/ddp_loading.py\<close>. They call the models of the runtime, the dataset and the loader.
  \<^item> \<open>Py_Ast\<close>: Python syntax trees with \<open>ast.walk\<close>. \<open>Precise_Types\<close>: \<open>scripts/check_precise_types.py\<close>. \<open>Api_Docs\<close>:
    \<open>scripts/sync_api_docs.py\<close>. \<open>Build_Local\<close>: \<open>scripts/build_local.py\<close> as a trace of commands.

  \<^bold>\<open>How the model corresponds to the code.\<close> A class is a record and its methods are functions on it that
  return the changed record; a dataclass union is a datatype. A raised exception is \<open>Inl\<close>, a returned value \<open>Inr\<close>.
  Python integers are \<open>int\<close>; where the code keeps 64 bits the bound or the wrap-around is written out, and native
  draw counters and payload bytes are words. What the code cannot decide is an argument: the clock and what a
  child process does between two polls (\<open>round_env\<close>, \<open>write_env\<close>), input/output faults, the JSON codec, random
  draws, cache contents, the PyTorch loader constructor, collectives, hashes. So a theorem about the writer
  holds for every interleaving of the children, one for the export for every failing operation.

  \<^bold>\<open>What the lemmas show.\<close>
  \<^item> Splitting: spans and plans of all ranks and workers contain every position exactly once, budgets sum to the
    rank's share and keep the number of batches, a full pass covers all rows, and the independent check of the
    benchmark accepts exactly such plans (\<open>Loading\<close>, \<open>Partitions\<close>, \<open>Loader\<close>, \<open>Benchmark\<close>).
  \<^item> Streams: epochs, passes and abandoned passes read one contiguous stream; exports and reconstructed readers
    read the same one; the Python recipe and the native state stay in agreement (\<open>Dataset\<close>, \<open>Loader\<close>).
  \<^item> Storage: what the native writer reports as written loads and reads back sample by sample, whatever order its jobs
    finish in, and a dataset over such caches delivers them source by source; shards keep their bound, open files
    cannot be observed, validation finds every changed file, and a failing write publishes nothing
    (\<open>Cache_Roundtrip\<close>, \<open>Native_Writer\<close>, \<open>Native_Caches\<close>). They assume of the codecs, of Arrow and of the manifest's JSON
    that what was written is read back (\<open>codec_laws\<close>, \<open>file_laws\<close>), and of each metadata object that its JSON is
    (\<open>json_exact\<close>), which is false of floats that are not finite.
  \<^item> Failure: an export that fails restores the file system, publishes its configuration last, and a failed loader
    construction leaves nothing behind (\<open>Reconstruction\<close>, \<open>Loader\<close>).
  \<^item> Processes: parallel writing returns, answers every source once and in order, refines the job board and removes
    every temporary directory; native state never crosses processes (\<open>Writing\<close>, \<open>Runtime\<close>, \<open>Loader\<close>).
  \<^item> Scripts: benchmark reports are complete and compare only measurements of the same round, the native control
    can always be measured, all ranks of the example make the same number of steps; the type check reports exactly
    what its policy forbids; synchronised documentation stays synchronised; a build runs its plan up to the first
    failure (\<open>Reader_Bench\<close>, \<open>Writer_Bench\<close>, \<open>Ddp_Example\<close>, \<open>Precise_Types\<close>, \<open>Api_Docs\<close>, \<open>Build_Local\<close>).
  \<^item> Limits: CPU detection terminates and respects every visible limit (\<open>Resources\<close>).

  \<^bold>\<open>Loops and bounds.\<close> Fuel occurs once: annotations may quote annotations, and \<open>quoted_references\<close> takes a bound on
  the nesting; one more than the longest string of the file is enough, because a quoted string is longer than the
  strings inside it, and with it the check is proved to return. The supervision loop of \<open>writer.py\<close> and the walk of \<open>resources.py\<close> are
  partial functions into \<open>option\<close>, and that they return is proved: the former for any clock that advances by a
  fixed amount per round, because every child waited for has a deadline, the latter because a path has finitely
  many ancestors. The other loops are structural or have a termination proof.

  \<^bold>\<open>Not modelled.\<close> The codecs, Arrow, JSON and SHA-256 themselves. The writer's other mode, which streams a list of
  sources through one window (\<open>writer/pipeline.rs\<close>), the manifest migration (\<open>storage/migration.rs\<close>), progress bars
  and profiling. Of channels and thread pools only what the iterator and the writer observe: which job finishes
  when. The caches that the Python layers above \<open>Native_Dataset\<close> use stay parameters. Paths inside error messages
  of the native layer. Tensors, devices, timing values, printing and exhausted memory. Type-only
  protocols and re-exporting modules (\<open>api.py\<close>, \<open>__init__.py\<close>). Pickling beyond the fields it keeps. Command-line
  parsing, and what the benchmark reports say of the machine. Parsing and printing of Python sources. Unicode
  beyond code points below 256: case folding and normalisation are arguments.
\<close>

end
